(* ===== verification/Prelude.thy ===== *)
theory Prelude
  imports Main "HOL-Library.Word"
begin

text \<open>
  Shared material of the digital-wallet development: the error values of the C++ code,
  the width of \<^verbatim>\<open>int\<close>, bytes of strings, and generic lemmas on lists and maps that
  the component theories use. Nothing in this theory is specific to one component.
\<close>

named_theorems wallet_defs \<open>definitions of the service's operations, for unfolding\<close>
named_theorems byte_simps \<open>character codes and character classes\<close>

unbundle bit_operations_syntax

section \<open>Faults\<close>

text \<open>
  What stops a C++ call other than a normal return: an exception that propagates, a
  failed \<^verbatim>\<open>assert\<close>, signed overflow, a read or a write outside a buffer, a use of freed memory or of a null
  pointer (undefined behaviour, so nothing is claimed beyond them), a wait on a condition that does not hold, or a loop that
  never ends.
\<close>

datatype exn =
    Invalid_argument
  | Out_of_range
  | Runtime_error string
  | Archive_exception
  | Bad_cast
  | Bad_function_call

datatype fault =
    Throw exn
  | Signed_overflow
  | Assert_failed
  | Out_of_bounds_read
  | Loops
  | Waits
  | Use_after_free
  | Out_of_bounds_write
  | Null_dereference

type_synonym 'a result = "fault + 'a"

text \<open>Statements that change a state and return nothing: the fault, if any, and the state.\<close>

type_synonym 's stmt = "fault option \<times> 's"

definition is_ok :: "'a result \<Rightarrow> bool" where
  "is_ok r = (case r of Inl _ \<Rightarrow> False | Inr _ \<Rightarrow> True)"

lemma is_ok_simps [simp]: "is_ok (Inr x)" "\<not> is_ok (Inl e)"
  by (simp_all add: is_ok_def)

lemma is_ok_iff: "is_ok r \<longleftrightarrow> (\<exists>x. r = Inr x)"
  by (cases r) simp_all

section \<open>The type int of the platform\<close>

abbreviation INT_MIN :: int where "INT_MIN \<equiv> - 2147483648"
abbreviation INT_MAX :: int where "INT_MAX \<equiv> 2147483647"

definition in_int :: "int \<Rightarrow> bool" where
  "in_int i \<longleftrightarrow> INT_MIN \<le> i \<and> i \<le> INT_MAX"

definition int_result :: "int \<Rightarrow> int result" where
  "int_result i = (if in_int i then Inr i else Inl Signed_overflow)"

lemma int_result_simps [simp]:
  "in_int i \<Longrightarrow> int_result i = Inr i"
  "\<not> in_int i \<Longrightarrow> int_result i = Inl Signed_overflow"
  by (simp_all add: int_result_def)

lemma int_result_eq_Inr [simp]: "int_result i = Inr j \<longleftrightarrow> in_int i \<and> j = i"
  by (auto simp: int_result_def)

lemma in_int_between: "in_int a \<Longrightarrow> in_int b \<Longrightarrow> a \<le> x \<Longrightarrow> x \<le> b \<Longrightarrow> in_int x"
  by (simp add: in_int_def)

lemma in_int_0 [simp]: "in_int 0"
  by (simp add: in_int_def)

section \<open>Bytes of a string\<close>

abbreviation byte :: "char \<Rightarrow> nat" where
  "byte c \<equiv> of_char c"

lemma byte_less [simp]: "byte c < 256"
  using of_char_eq_iff nat_of_char_less_256 by blast

abbreviation newline :: char where "newline \<equiv> CHR 0x0A"
abbreviation cr :: char where "cr \<equiv> CHR 0x0D"
abbreviation lf :: char where "lf \<equiv> CHR 0x0A"
abbreviation tab :: char where "tab \<equiv> CHR 0x09"
abbreviation nul :: char where "nul \<equiv> CHR 0x00"

section \<open>Lists\<close>

text \<open>The longest prefix whose elements satisfy a predicate, and where it ends.\<close>

lemma takeWhile_length_less:
  "length (takeWhile P xs) < length xs \<Longrightarrow> \<not> P (xs ! length (takeWhile P xs))"
  by (rule nth_length_takeWhile)

lemma takeWhile_eq_all: "(\<And>x. x \<in> set xs \<Longrightarrow> P x) \<Longrightarrow> takeWhile P (xs @ ys) = xs @ takeWhile P ys"
  by (induction xs) auto

lemma dropWhile_eq_all: "(\<And>x. x \<in> set xs \<Longrightarrow> P x) \<Longrightarrow> dropWhile P (xs @ ys) = dropWhile P ys"
  by (induction xs) auto

section \<open>Finite sums over maps\<close>

text \<open>
  The sum of a measure over all entries of a finite map, and how it changes when one or
  two entries are overwritten: the arithmetic behind conservation of money.
\<close>

definition sum_map :: "('v \<Rightarrow> int) \<Rightarrow> ('k \<rightharpoonup> 'v) \<Rightarrow> int" where
  "sum_map f m = (\<Sum>k \<in> dom m. f (the (m k)))"

lemma sum_map_empty [simp]: "sum_map f Map.empty = 0"
  by (simp add: sum_map_def)

lemma sum_map_upd_new:
  assumes "finite (dom m)" and "m k = None"
  shows "sum_map f (m(k \<mapsto> v)) = sum_map f m + f v"
proof -
  have "k \<notin> dom m" using assms(2) by auto
  moreover from this have "(\<Sum>x \<in> dom m. f (the ((m(k \<mapsto> v)) x))) = sum_map f m"
    unfolding sum_map_def by (intro sum.cong) auto
  ultimately show ?thesis
    using assms(1) by (simp add: sum_map_def)
qed

lemma sum_map_upd_old:
  assumes "finite (dom m)" and "m k = Some w"
  shows "sum_map f (m(k \<mapsto> v)) = sum_map f m - f w + f v"
proof -
  have k: "k \<in> dom m" using assms(2) by auto
  have "(\<Sum>x \<in> dom m - {k}. f (the ((m(k \<mapsto> v)) x))) = (\<Sum>x \<in> dom m - {k}. f (the (m x)))"
    by (intro sum.cong) auto
  moreover have "dom (m(k \<mapsto> v)) = dom m" using k by auto
  ultimately show ?thesis
    using assms k by (simp add: sum_map_def sum.remove [of "dom m" k])
qed

end
