(* ===== verification/Cxx_Std.thy ===== *)
theory Cxx_Std
  imports Prelude
begin

text \<open>
  The pieces of the C++ standard library that decide what the service does with numbers in
  text: \<^verbatim>\<open>std::stoi\<close>, \<^verbatim>\<open>std::atoi\<close>, \<^verbatim>\<open>std::to_string\<close>, and
  \<^verbatim>\<open>std::setw(8) << std::setfill('0')\<close>. The reading functions follow \<^verbatim>\<open>strtol\<close>:
  skip white space, take an optional sign and the longest run of decimal digits, ignore what
  follows. The theorems show that what \<open>to_string\<close> prints, \<open>stoi\<close> reads back.
\<close>

definition isspace :: "char \<Rightarrow> bool" where
  "isspace c \<longleftrightarrow> byte c \<in> {9, 10, 11, 12, 13, 32}"

definition isdigit :: "char \<Rightarrow> bool" where
  "isdigit c \<longleftrightarrow> 48 \<le> byte c \<and> byte c \<le> 57"

definition digit_value :: "char \<Rightarrow> nat" where
  "digit_value c = byte c - 48"

definition digit_char :: "nat \<Rightarrow> char" where
  "digit_char d = char_of (48 + d)"

fun digits_value :: "nat \<Rightarrow> string \<Rightarrow> nat" where
  "digits_value n [] = n"
| "digits_value n (c # cs) = digits_value (10 * n + digit_value c) cs"

text \<open>\<open>strtol\<close> in base 10: no value when there is no digit to convert.\<close>

definition strtol :: "string \<Rightarrow> int option" where
  "strtol s =
     (let s1 = dropWhile isspace s;
          neg = (case s1 of c # _ \<Rightarrow> c = CHR ''-'' | [] \<Rightarrow> False);
          s2 = (case s1 of c # r \<Rightarrow> if c = CHR ''-'' \<or> c = CHR ''+'' then r else s1 | [] \<Rightarrow> []);
          ds = takeWhile isdigit s2
      in if ds = [] then None
         else Some (if neg then - int (digits_value 0 ds) else int (digits_value 0 ds)))"

definition stoi :: "string \<Rightarrow> int result" where
  "stoi s = (case strtol s of
               None \<Rightarrow> Inl (Throw Invalid_argument)
             | Some i \<Rightarrow> if in_int i then Inr i else Inl (Throw Out_of_range))"

text \<open>\<open>atoi\<close> is 0 on text without a number; a number that does not fit is undefined.\<close>

definition atoi :: "string \<Rightarrow> int result" where
  "atoi s = (case strtol s of None \<Rightarrow> Inr 0 | Some i \<Rightarrow> int_result i)"

fun show_nat :: "nat \<Rightarrow> string" where
  "show_nat n = (if n < 10 then [digit_char n] else show_nat (n div 10) @ [digit_char (n mod 10)])"

declare show_nat.simps [simp del]

definition to_string :: "int \<Rightarrow> string" where
  "to_string i = (if i < 0 then CHR ''-'' # show_nat (nat (- i)) else show_nat (nat i))"

text \<open>\<open>os << std::setw(w) << std::setfill(c) << i\<close>: right-aligned, padded on the left.\<close>

definition setw_setfill :: "nat \<Rightarrow> char \<Rightarrow> string \<Rightarrow> string" where
  "setw_setfill w c s = replicate (w - length s) c @ s"

section \<open>Decimal digits\<close>

lemma byte_digit_char [byte_simps]: "d < 10 \<Longrightarrow> byte (digit_char d) = 48 + d"
  by (simp add: digit_char_def)

lemma isdigit_digit_char [byte_simps]: "d < 10 \<Longrightarrow> isdigit (digit_char d)"
  by (simp add: isdigit_def byte_simps)

lemma digit_value_digit_char [byte_simps]: "d < 10 \<Longrightarrow> digit_value (digit_char d) = d"
  by (simp add: digit_value_def byte_simps)

lemma digits_value_append: "digits_value n (xs @ ys) = digits_value (digits_value n xs) ys"
  by (induction xs arbitrary: n) simp_all

lemma show_nat_digits: "c \<in> set (show_nat n) \<Longrightarrow> isdigit c"
proof (induction n rule: show_nat.induct)
  case (1 n)
  then show ?case
    by (cases "n < 10") (auto simp: show_nat.simps [of n] byte_simps)
qed

lemma show_nat_nonempty [simp]: "show_nat n \<noteq> []"
  by (subst show_nat.simps) simp

lemma digits_value_show_nat [simp]: "digits_value 0 (show_nat n) = n"
proof (induction n rule: show_nat.induct)
  case (1 n)
  then show ?case
    by (cases "n < 10") (auto simp: show_nat.simps [of n] digits_value_append byte_simps)
qed

lemma isdigit_not_space [byte_simps]: "isdigit c \<Longrightarrow> \<not> isspace c"
  by (auto simp: isdigit_def isspace_def)

lemma isdigit_not_sign [byte_simps]: "isdigit c \<Longrightarrow> c \<noteq> CHR ''-'' \<and> c \<noteq> CHR ''+''"
  by (auto simp: isdigit_def)

lemma show_nat_Cons:
  obtains c cs where "show_nat n = c # cs" and "isdigit c"
  by (metis list.exhaust list.set_intros(1) show_nat_digits show_nat_nonempty)

lemma takeWhile_show_nat [simp]: "takeWhile isdigit (show_nat n) = show_nat n"
  by (simp add: takeWhile_eq_all_conv show_nat_digits)

lemma strtol_show_nat: "strtol (show_nat n) = Some (int n)"
proof -
  obtain c cs where n: "show_nat n = c # cs" and c: "isdigit c" by (rule show_nat_Cons)
  have tw: "takeWhile isdigit cs = cs" using takeWhile_show_nat [of n] n c by simp
  have dv: "digits_value (digit_value c) cs = n" using digits_value_show_nat [of n] n by simp
  show ?thesis
    using c by (simp add: n tw dv strtol_def isdigit_not_space isdigit_not_sign)
qed

lemma strtol_neg_show_nat: "strtol (CHR ''-'' # show_nat n) = Some (- int n)"
  by (simp add: strtol_def isspace_def)

theorem strtol_to_string: "strtol (to_string i) = Some i"
  by (cases "i < 0") (simp_all add: to_string_def strtol_show_nat strtol_neg_show_nat)

text \<open>Reading back what was printed, the fact behind every balance kept as text.\<close>

theorem stoi_to_string [simp]: "in_int i \<Longrightarrow> stoi (to_string i) = Inr i"
  by (simp add: stoi_def strtol_to_string)

lemma stoi_range: "stoi s = Inr i \<Longrightarrow> in_int i"
  by (auto simp: stoi_def split: option.splits if_splits)

lemma stoi_faults: "stoi s = Inl e \<Longrightarrow> e = Throw Invalid_argument \<or> e = Throw Out_of_range"
  by (auto simp: stoi_def split: option.splits if_splits)

lemma to_string_inj: "to_string i = to_string j \<Longrightarrow> i = j"
  by (metis option.inject strtol_to_string)

lemma show_nat_inj: "show_nat i = show_nat j \<Longrightarrow> i = j"
  by (metis digits_value_show_nat)

lemma to_string_nonneg: "0 \<le> i \<Longrightarrow> to_string i = show_nat (nat i)"
  by (simp add: to_string_def)

section \<open>Padded numbers\<close>

lemma digits_value_zeros: "digits_value 0 (replicate k (CHR ''0'') @ s) = digits_value 0 s"
  by (induction k) (simp_all add: digit_value_def)

lemma setw_value:
  "digits_value 0 (setw_setfill w (CHR ''0'') (show_nat n)) = n"
  by (simp add: setw_setfill_def digits_value_zeros)

lemma setw_length: "length (setw_setfill w c s) = max w (length s)"
  by (simp add: setw_setfill_def)

lemma show_nat_length: "n < 10 ^ k \<Longrightarrow> 0 < k \<Longrightarrow> length (show_nat n) \<le> k"
proof (induction n arbitrary: k rule: show_nat.induct)
  case (1 n)
  show ?case
  proof (cases "n < 10")
    case True
    with "1.prems" show ?thesis by (simp add: show_nat.simps [of n])
  next
    case False
    then obtain k' where k: "k = Suc k'" "0 < k'"
      using "1.prems" by (cases k; cases "k = 1") auto
    have "n div 10 < 10 ^ k'" using "1.prems"(1) k(1) by (simp add: less_mult_imp_div_less)
    with "1.IH" [OF False this k(2)] False k show ?thesis
      by (simp add: show_nat.simps [of n])
  qed
qed

end
