(* ===== verification/Wallet_Data.thy ===== *)
theory Wallet_Data
  imports Cxx_Std
begin

text \<open>
  The data the service moves: \<^verbatim>\<open>Command\<close> (src/Command.hpp), \<^verbatim>\<open>Event\<close>
  (src/Event.hpp) and \<^verbatim>\<open>Config\<close> (src/Config.h). The selectors of a command are named
  after its getters. Events are written to a Boost text archive; the archive itself is
  outside the repository, so what \<^verbatim>\<open>serialize\<close> hands to it is a list of primitive
  values, and the archive is a pair of functions described by the locale \<open>archive\<close>.
\<close>

section \<open>Commands\<close>

record Command =
  getID :: string
  getAccount1 :: string
  getAccount2 :: string
  getAmount :: string
  getAction :: string

definition Command_default :: Command where
  "Command_default = \<lparr>getID = [], getAccount1 = [], getAccount2 = [], getAmount = [], getAction = []\<rparr>"

text \<open>
  The constructor; the fresh identifier \<^verbatim>\<open>generateID()\<close> draws (a Boost UUID) is an
  argument.
\<close>

definition mk_Command :: "string \<Rightarrow> string \<Rightarrow> string \<Rightarrow> string \<Rightarrow> string \<Rightarrow> Command" where
  "mk_Command uuid account1 account2 amount action =
     \<lparr>getID = uuid, getAccount1 = account1, getAccount2 = account2, getAmount = amount,
      getAction = action\<rparr>"

definition Command_print :: "Command \<Rightarrow> string" where
  "Command_print c =
     getID c @ '' '' @ getAccount1 c @ '' '' @ getAccount2 c @ '' '' @ getAmount c @ '' '' @ getAction c"

section \<open>Events\<close>

record Event =
  action :: string
  account :: string
  amount :: string
  parent_tx_id :: string

definition Event_default :: Event where
  "Event_default = \<lparr>action = [], account = [], amount = [], parent_tx_id = []\<rparr>"

definition Event_print :: "Event \<Rightarrow> string" where
  "Event_print e = parent_tx_id e @ '' '' @ account e @ '' '' @ amount e @ '' '' @ action e"

definition Event_toString :: "Event \<Rightarrow> string" where
  "Event_toString e = ''Transaction ID: '' @ parent_tx_id e @ '' Action: '' @ action e
     @ '' Account: '' @ account e @ '' Amount: '' @ amount e @ [newline]"

section \<open>Archives\<close>

datatype prim = PStr string | PInt int
datatype kind = KStr | KInt

fun kind_of :: "prim \<Rightarrow> kind" where
  "kind_of (PStr _) = KStr"
| "kind_of (PInt _) = KInt"

text \<open>
  \<^verbatim>\<open>serialize(ar, version)\<close> visits the four fields in this order, both when the
  archive saves (the fields are read) and when it loads (they are written).
\<close>

definition Event_save :: "Event \<Rightarrow> prim list" where
  "Event_save e = [PStr (action e), PStr (account e), PStr (amount e), PStr (parent_tx_id e)]"

definition Event_kinds :: "kind list" where
  "Event_kinds = [KStr, KStr, KStr, KStr]"

fun Event_load :: "prim list \<Rightarrow> (Event \<times> prim list) option" where
  "Event_load (PStr a # PStr b # PStr c # PStr d # ps) =
     Some (\<lparr>action = a, account = b, amount = c, parent_tx_id = d\<rparr>, ps)"
| "Event_load _ = None"

lemma Event_load_save [simp]: "Event_load (Event_save e @ ps) = Some (e, ps)"
  by (simp add: Event_save_def)

lemma Event_save_kinds [simp]: "map kind_of (Event_save e) = Event_kinds"
  by (simp add: Event_save_def Event_kinds_def)

text \<open>
  What the code relies on of Boost's text archives: loading values of the kinds that were
  saved, in the same order, gives the values back, whatever follows in the file.
\<close>

locale archive =
  fixes oarchive :: "prim list \<Rightarrow> string"
    and iarchive :: "kind list \<Rightarrow> string \<Rightarrow> prim list option"
  assumes load_saved: "iarchive (map kind_of ps) (oarchive ps @ rest) = Some ps"
begin

lemma load_events:
  "iarchive (Event_kinds @ Event_kinds) (oarchive (Event_save e @ Event_save f) @ rest)
     = Some (Event_save e @ Event_save f)"
  using load_saved [of "Event_save e @ Event_save f" rest] by simp

lemma load_int: "iarchive [KInt] (oarchive [PInt i]) = Some [PInt i]"
  using load_saved [of "[PInt i]" "[]"] by simp

lemma saved_inj: "oarchive ps = oarchive qs \<Longrightarrow> map kind_of ps = map kind_of qs \<Longrightarrow> ps = qs"
  using load_saved by (metis append_Nil2 option.inject)

end

text \<open>
  A concrete archive in the style of the text format: an integer is its digits and a
  space, a string is its length, a space, its bytes and a space.
\<close>

fun text_save :: "prim list \<Rightarrow> string" where
  "text_save [] = []"
| "text_save (PInt i # ps) = to_string i @ '' '' @ text_save ps"
| "text_save (PStr s # ps) = show_nat (length s) @ '' '' @ s @ '' '' @ text_save ps"

definition next_token :: "string \<Rightarrow> string \<times> string" where
  "next_token s = (let t = takeWhile (\<lambda>c. c \<noteq> CHR '' '') s in (t, drop (Suc (length t)) s))"

fun text_load :: "kind list \<Rightarrow> string \<Rightarrow> prim list option" where
  "text_load [] s = Some []"
| "text_load (KInt # ks) s =
     (let (t, r) = next_token s in
      case strtol t of
        None \<Rightarrow> None
      | Some i \<Rightarrow> map_option (Cons (PInt i)) (text_load ks r))"
| "text_load (KStr # ks) s =
     (let (t, r) = next_token s in
      case strtol t of
        None \<Rightarrow> None
      | Some i \<Rightarrow> if length r \<le> nat i then None
                 else map_option (Cons (PStr (take (nat i) r))) (text_load ks (drop (Suc (nat i)) r)))"

lemma space_not_in_show_nat: "CHR '' '' \<notin> set (show_nat n)"
  using show_nat_digits [of "CHR '' ''" n] by (auto simp: isdigit_def)

lemma space_not_in_to_string: "CHR '' '' \<notin> set (to_string i)"
  by (auto simp: to_string_def space_not_in_show_nat)

lemma next_token_append:
  assumes "CHR '' '' \<notin> set t"
  shows "next_token (t @ CHR '' '' # r) = (t, r)"
proof -
  have "takeWhile (\<lambda>c. c \<noteq> CHR '' '') (t @ CHR '' '' # r) = t @ takeWhile (\<lambda>c. c \<noteq> CHR '' '') (CHR '' '' # r)"
    using assms by (intro takeWhile_eq_all) auto
  then show ?thesis
    by (simp add: next_token_def)
qed

lemma text_load_save: "text_load (map kind_of ps) (text_save ps @ rest) = Some ps"
  by (induction ps rule: text_save.induct)
     (simp_all add: next_token_append space_not_in_to_string space_not_in_show_nat
        strtol_to_string strtol_show_nat)

interpretation text_archive: archive text_save text_load
  by unfold_locales (rule text_load_save)

section \<open>Configuration\<close>

record Config =
  db_path :: string
  seed_file :: string
  event_log :: string
  port :: int

definition Config_defaults :: Config where
  "Config_defaults = \<lparr>db_path = ''./data/walletdb'', seed_file = ''./data/account-seed.dat'',
     event_log = ''./data/event-log.txt'', port = 18080\<rparr>"

text \<open>The constructor reads four environment variables; \<^verbatim>\<open>getenv\<close> is the argument.\<close>

definition mk_Config :: "(string \<rightharpoonup> string) \<Rightarrow> Config result" where
  "mk_Config getenv =
     (let c0 = Config_defaults;
          c1 = (case getenv ''WALLET_DB_PATH'' of Some env \<Rightarrow> c0\<lparr>db_path := env\<rparr> | None \<Rightarrow> c0);
          c2 = (case getenv ''WALLET_SEED_FILE'' of Some env \<Rightarrow> c1\<lparr>seed_file := env\<rparr> | None \<Rightarrow> c1);
          c3 = (case getenv ''WALLET_EVENT_LOG'' of Some env \<Rightarrow> c2\<lparr>event_log := env\<rparr> | None \<Rightarrow> c2)
      in case getenv ''WALLET_PORT'' of
           None \<Rightarrow> Inr c3
         | Some env \<Rightarrow> (case atoi env of Inl e \<Rightarrow> Inl e | Inr i \<Rightarrow> Inr (c3\<lparr>port := i\<rparr>)))"

end
