(* ===== verification/Rocks_Status.thy ===== *)
theory Rocks_Status
  imports Prelude
begin

text \<open>
  \<^verbatim>\<open>rocksdb::Status\<close> (lib/rocksdb/status.h): the value every database call of the
  service returns. Enumerations, the constructors and named constructors, the predicates
  \<^verbatim>\<open>ok()\<close>, \<^verbatim>\<open>IsNotFound()\<close>, \<dots>, equality, copy with a new severity, and move
  assignment with what it leaves in the source. \<^verbatim>\<open>MarkChecked\<close> is empty in the
  build (no \<^verbatim>\<open>ROCKSDB_ASSERT_STATUS_CHECKED\<close>). The constructor that formats a
  message and \<^verbatim>\<open>ToString\<close> live in a file that is not in the repository: the
  former is the argument \<open>mk\<close> of the named constructors that take a message.
\<close>

datatype Code =
    kOk
  | kNotFound
  | kCorruption
  | kNotSupported
  | kInvalidArgument
  | kIOError
  | kMergeInProgress
  | kIncomplete
  | kShutdownInProgress
  | kTimedOut
  | kAborted
  | kBusy
  | kExpired
  | kTryAgain
  | kCompactionTooLarge
  | kColumnFamilyDropped
  | kMaxCode

fun code_value :: "Code \<Rightarrow> nat" where
  "code_value kOk = 0"
| "code_value kNotFound = 1"
| "code_value kCorruption = 2"
| "code_value kNotSupported = 3"
| "code_value kInvalidArgument = 4"
| "code_value kIOError = 5"
| "code_value kMergeInProgress = 6"
| "code_value kIncomplete = 7"
| "code_value kShutdownInProgress = 8"
| "code_value kTimedOut = 9"
| "code_value kAborted = 10"
| "code_value kBusy = 11"
| "code_value kExpired = 12"
| "code_value kTryAgain = 13"
| "code_value kCompactionTooLarge = 14"
| "code_value kColumnFamilyDropped = 15"
| "code_value kMaxCode = 16"

datatype SubCode =
    kNone
  | kMutexTimeout
  | kLockTimeout
  | kLockLimit
  | kNoSpace
  | kDeadlock
  | kStaleFile
  | kMemoryLimit
  | kSpaceLimit
  | kPathNotFound
  | KMergeOperandsInsufficientCapacity
  | kManualCompactionPaused
  | kOverwritten
  | kTxnNotPrepared
  | kIOFenced
  | kMaxSubCode

fun subcode_value :: "SubCode \<Rightarrow> nat" where
  "subcode_value kNone = 0"
| "subcode_value kMutexTimeout = 1"
| "subcode_value kLockTimeout = 2"
| "subcode_value kLockLimit = 3"
| "subcode_value kNoSpace = 4"
| "subcode_value kDeadlock = 5"
| "subcode_value kStaleFile = 6"
| "subcode_value kMemoryLimit = 7"
| "subcode_value kSpaceLimit = 8"
| "subcode_value kPathNotFound = 9"
| "subcode_value KMergeOperandsInsufficientCapacity = 10"
| "subcode_value kManualCompactionPaused = 11"
| "subcode_value kOverwritten = 12"
| "subcode_value kTxnNotPrepared = 13"
| "subcode_value kIOFenced = 14"
| "subcode_value kMaxSubCode = 15"

datatype Severity =
    kNoError
  | kSoftError
  | kHardError
  | kFatalError
  | kUnrecoverableError
  | kMaxSeverity

fun severity_value :: "Severity \<Rightarrow> nat" where
  "severity_value kNoError = 0"
| "severity_value kSoftError = 1"
| "severity_value kHardError = 2"
| "severity_value kFatalError = 3"
| "severity_value kUnrecoverableError = 4"
| "severity_value kMaxSeverity = 5"

record Status =
  st_code :: Code
  st_subcode :: SubCode
  st_sev :: Severity
  st_retryable :: bool
  st_data_loss :: bool
  st_scope :: "8 word"
  st_state :: "string option"

section \<open>Constructors\<close>

text \<open>\<open>Status()\<close> and the protected constructors.\<close>

definition Status_default :: Status where
  "Status_default = \<lparr>st_code = kOk, st_subcode = kNone, st_sev = kNoError, st_retryable = False,
     st_data_loss = False, st_scope = 0, st_state = None\<rparr>"

definition Status_of :: "Code \<Rightarrow> SubCode \<Rightarrow> Status" where
  "Status_of c sc = \<lparr>st_code = c, st_subcode = sc, st_sev = kNoError, st_retryable = False,
     st_data_loss = False, st_scope = 0, st_state = None\<rparr>"

definition Status_flags :: "Code \<Rightarrow> SubCode \<Rightarrow> bool \<Rightarrow> bool \<Rightarrow> 8 word \<Rightarrow> Status" where
  "Status_flags c sc retryable data_loss scope =
     \<lparr>st_code = c, st_subcode = sc, st_sev = kNoError, st_retryable = retryable,
      st_data_loss = data_loss, st_scope = scope, st_state = None\<rparr>"

text \<open>The constructor that keeps a message is not in the repository: an argument.\<close>

type_synonym message = "Code \<Rightarrow> SubCode \<Rightarrow> string \<Rightarrow> string \<Rightarrow> Severity \<Rightarrow> Status"

definition Status_public :: "message \<Rightarrow> Code \<Rightarrow> SubCode \<Rightarrow> Severity \<Rightarrow> string \<Rightarrow> Status" where
  "Status_public mk c sc sev msg = mk c sc msg [] sev"

definition Status_severity :: "Status \<Rightarrow> Severity \<Rightarrow> Status" where
  "Status_severity s sev = s\<lparr>st_sev := sev\<rparr>"

definition OK :: Status where
  "OK = Status_default"

definition OkOverwritten :: Status where
  "OkOverwritten = Status_of kOk kOverwritten"

definition NotFound :: "SubCode \<Rightarrow> Status" where
  "NotFound sc = Status_of kNotFound sc"

definition NotFound_msg :: "message \<Rightarrow> string \<Rightarrow> string \<Rightarrow> Status" where
  "NotFound_msg mk msg msg2 = mk kNotFound kNone msg msg2 kNoError"

definition NotFound_sub_msg :: "message \<Rightarrow> SubCode \<Rightarrow> string \<Rightarrow> string \<Rightarrow> Status" where
  "NotFound_sub_msg mk sc msg msg2 = mk kNotFound sc msg msg2 kNoError"

definition Corruption :: "SubCode \<Rightarrow> Status" where
  "Corruption sc = Status_of kCorruption sc"

definition Corruption_msg :: "message \<Rightarrow> string \<Rightarrow> string \<Rightarrow> Status" where
  "Corruption_msg mk msg msg2 = mk kCorruption kNone msg msg2 kNoError"

definition NotSupported :: "SubCode \<Rightarrow> Status" where
  "NotSupported sc = Status_of kNotSupported sc"

definition NotSupported_msg :: "message \<Rightarrow> string \<Rightarrow> string \<Rightarrow> Status" where
  "NotSupported_msg mk msg msg2 = mk kNotSupported kNone msg msg2 kNoError"

definition InvalidArgument :: "SubCode \<Rightarrow> Status" where
  "InvalidArgument sc = Status_of kInvalidArgument sc"

definition InvalidArgument_msg :: "message \<Rightarrow> string \<Rightarrow> string \<Rightarrow> Status" where
  "InvalidArgument_msg mk msg msg2 = mk kInvalidArgument kNone msg msg2 kNoError"

definition IOError :: "SubCode \<Rightarrow> Status" where
  "IOError sc = Status_of kIOError sc"

definition IOError_msg :: "message \<Rightarrow> string \<Rightarrow> string \<Rightarrow> Status" where
  "IOError_msg mk msg msg2 = mk kIOError kNone msg msg2 kNoError"

definition MergeInProgress :: "SubCode \<Rightarrow> Status" where
  "MergeInProgress sc = Status_of kMergeInProgress sc"

definition MergeInProgress_msg :: "message \<Rightarrow> string \<Rightarrow> string \<Rightarrow> Status" where
  "MergeInProgress_msg mk msg msg2 = mk kMergeInProgress kNone msg msg2 kNoError"

definition Incomplete :: "SubCode \<Rightarrow> Status" where
  "Incomplete sc = Status_of kIncomplete sc"

definition Incomplete_msg :: "message \<Rightarrow> string \<Rightarrow> string \<Rightarrow> Status" where
  "Incomplete_msg mk msg msg2 = mk kIncomplete kNone msg msg2 kNoError"

definition ShutdownInProgress :: "SubCode \<Rightarrow> Status" where
  "ShutdownInProgress sc = Status_of kShutdownInProgress sc"

definition ShutdownInProgress_msg :: "message \<Rightarrow> string \<Rightarrow> string \<Rightarrow> Status" where
  "ShutdownInProgress_msg mk msg msg2 = mk kShutdownInProgress kNone msg msg2 kNoError"

definition Aborted :: "SubCode \<Rightarrow> Status" where
  "Aborted sc = Status_of kAborted sc"

definition Aborted_msg :: "message \<Rightarrow> string \<Rightarrow> string \<Rightarrow> Status" where
  "Aborted_msg mk msg msg2 = mk kAborted kNone msg msg2 kNoError"

definition Busy :: "SubCode \<Rightarrow> Status" where
  "Busy sc = Status_of kBusy sc"

definition Busy_msg :: "message \<Rightarrow> string \<Rightarrow> string \<Rightarrow> Status" where
  "Busy_msg mk msg msg2 = mk kBusy kNone msg msg2 kNoError"

definition TimedOut :: "SubCode \<Rightarrow> Status" where
  "TimedOut sc = Status_of kTimedOut sc"

definition TimedOut_msg :: "message \<Rightarrow> string \<Rightarrow> string \<Rightarrow> Status" where
  "TimedOut_msg mk msg msg2 = mk kTimedOut kNone msg msg2 kNoError"

definition Expired :: "SubCode \<Rightarrow> Status" where
  "Expired sc = Status_of kExpired sc"

definition Expired_msg :: "message \<Rightarrow> string \<Rightarrow> string \<Rightarrow> Status" where
  "Expired_msg mk msg msg2 = mk kExpired kNone msg msg2 kNoError"

definition TryAgain :: "SubCode \<Rightarrow> Status" where
  "TryAgain sc = Status_of kTryAgain sc"

definition TryAgain_msg :: "message \<Rightarrow> string \<Rightarrow> string \<Rightarrow> Status" where
  "TryAgain_msg mk msg msg2 = mk kTryAgain kNone msg msg2 kNoError"

definition CompactionTooLarge :: "SubCode \<Rightarrow> Status" where
  "CompactionTooLarge sc = Status_of kCompactionTooLarge sc"

definition CompactionTooLarge_msg :: "message \<Rightarrow> string \<Rightarrow> string \<Rightarrow> Status" where
  "CompactionTooLarge_msg mk msg msg2 = mk kCompactionTooLarge kNone msg msg2 kNoError"

definition ColumnFamilyDropped :: "SubCode \<Rightarrow> Status" where
  "ColumnFamilyDropped sc = Status_of kColumnFamilyDropped sc"

definition ColumnFamilyDropped_msg :: "message \<Rightarrow> string \<Rightarrow> string \<Rightarrow> Status" where
  "ColumnFamilyDropped_msg mk msg msg2 = mk kColumnFamilyDropped kNone msg msg2 kNoError"

definition NoSpace :: Status where
  "NoSpace = Status_of kIOError kNoSpace"

definition NoSpace_msg :: "message \<Rightarrow> string \<Rightarrow> string \<Rightarrow> Status" where
  "NoSpace_msg mk msg msg2 = mk kIOError kNoSpace msg msg2 kNoError"

definition MemoryLimit :: Status where
  "MemoryLimit = Status_of kAborted kMemoryLimit"

definition MemoryLimit_msg :: "message \<Rightarrow> string \<Rightarrow> string \<Rightarrow> Status" where
  "MemoryLimit_msg mk msg msg2 = mk kAborted kMemoryLimit msg msg2 kNoError"

definition SpaceLimit :: Status where
  "SpaceLimit = Status_of kIOError kSpaceLimit"

definition SpaceLimit_msg :: "message \<Rightarrow> string \<Rightarrow> string \<Rightarrow> Status" where
  "SpaceLimit_msg mk msg msg2 = mk kIOError kSpaceLimit msg msg2 kNoError"

definition PathNotFound :: Status where
  "PathNotFound = Status_of kIOError kPathNotFound"

definition PathNotFound_msg :: "message \<Rightarrow> string \<Rightarrow> string \<Rightarrow> Status" where
  "PathNotFound_msg mk msg msg2 = mk kIOError kPathNotFound msg msg2 kNoError"

definition TxnNotPrepared :: Status where
  "TxnNotPrepared = Status_of kInvalidArgument kTxnNotPrepared"

definition TxnNotPrepared_msg :: "message \<Rightarrow> string \<Rightarrow> string \<Rightarrow> Status" where
  "TxnNotPrepared_msg mk msg msg2 = mk kInvalidArgument kTxnNotPrepared msg msg2 kNoError"

section \<open>Predicates\<close>

definition ok :: "Status \<Rightarrow> bool" where
  "ok s \<longleftrightarrow> st_code s = kOk"

definition IsOkOverwritten :: "Status \<Rightarrow> bool" where
  "IsOkOverwritten s \<longleftrightarrow> st_code s = kOk \<and> st_subcode s = kOverwritten"

definition IsNotFound :: "Status \<Rightarrow> bool" where
  "IsNotFound s \<longleftrightarrow> st_code s = kNotFound"

definition IsCorruption :: "Status \<Rightarrow> bool" where
  "IsCorruption s \<longleftrightarrow> st_code s = kCorruption"

definition IsNotSupported :: "Status \<Rightarrow> bool" where
  "IsNotSupported s \<longleftrightarrow> st_code s = kNotSupported"

definition IsInvalidArgument :: "Status \<Rightarrow> bool" where
  "IsInvalidArgument s \<longleftrightarrow> st_code s = kInvalidArgument"

definition IsIOError :: "Status \<Rightarrow> bool" where
  "IsIOError s \<longleftrightarrow> st_code s = kIOError"

definition IsMergeInProgress :: "Status \<Rightarrow> bool" where
  "IsMergeInProgress s \<longleftrightarrow> st_code s = kMergeInProgress"

definition IsIncomplete :: "Status \<Rightarrow> bool" where
  "IsIncomplete s \<longleftrightarrow> st_code s = kIncomplete"

definition IsShutdownInProgress :: "Status \<Rightarrow> bool" where
  "IsShutdownInProgress s \<longleftrightarrow> st_code s = kShutdownInProgress"

definition IsTimedOut :: "Status \<Rightarrow> bool" where
  "IsTimedOut s \<longleftrightarrow> st_code s = kTimedOut"

definition IsAborted :: "Status \<Rightarrow> bool" where
  "IsAborted s \<longleftrightarrow> st_code s = kAborted"

definition IsBusy :: "Status \<Rightarrow> bool" where
  "IsBusy s \<longleftrightarrow> st_code s = kBusy"

definition IsExpired :: "Status \<Rightarrow> bool" where
  "IsExpired s \<longleftrightarrow> st_code s = kExpired"

definition IsTryAgain :: "Status \<Rightarrow> bool" where
  "IsTryAgain s \<longleftrightarrow> st_code s = kTryAgain"

definition IsCompactionTooLarge :: "Status \<Rightarrow> bool" where
  "IsCompactionTooLarge s \<longleftrightarrow> st_code s = kCompactionTooLarge"

definition IsColumnFamilyDropped :: "Status \<Rightarrow> bool" where
  "IsColumnFamilyDropped s \<longleftrightarrow> st_code s = kColumnFamilyDropped"

definition IsLockLimit :: "Status \<Rightarrow> bool" where
  "IsLockLimit s \<longleftrightarrow> st_code s = kAborted \<and> st_subcode s = kLockLimit"

definition IsDeadlock :: "Status \<Rightarrow> bool" where
  "IsDeadlock s \<longleftrightarrow> st_code s = kBusy \<and> st_subcode s = kDeadlock"

definition IsNoSpace :: "Status \<Rightarrow> bool" where
  "IsNoSpace s \<longleftrightarrow> st_code s = kIOError \<and> st_subcode s = kNoSpace"

definition IsMemoryLimit :: "Status \<Rightarrow> bool" where
  "IsMemoryLimit s \<longleftrightarrow> st_code s = kAborted \<and> st_subcode s = kMemoryLimit"

definition IsManualCompactionPaused :: "Status \<Rightarrow> bool" where
  "IsManualCompactionPaused s \<longleftrightarrow> st_code s = kIncomplete \<and> st_subcode s = kManualCompactionPaused"

definition IsTxnNotPrepared :: "Status \<Rightarrow> bool" where
  "IsTxnNotPrepared s \<longleftrightarrow> st_code s = kInvalidArgument \<and> st_subcode s = kTxnNotPrepared"

definition IsIOFenced :: "Status \<Rightarrow> bool" where
  "IsIOFenced s \<longleftrightarrow> st_code s = kIOError \<and> st_subcode s = kIOFenced"

definition IsPathNotFound :: "Status \<Rightarrow> bool" where
  "IsPathNotFound s \<longleftrightarrow>
     (st_code s = kIOError \<or> st_code s = kNotFound) \<and> st_subcode s = kPathNotFound"

section \<open>Assignment and equality\<close>

definition Status_eq :: "Status \<Rightarrow> Status \<Rightarrow> bool" where
  "Status_eq s t \<longleftrightarrow> st_code s = st_code t"

definition Status_neq :: "Status \<Rightarrow> Status \<Rightarrow> bool" where
  "Status_neq s t \<longleftrightarrow> \<not> Status_eq s t"

text \<open>
  Move assignment \<open>*this = std::move(s)\<close> between two distinct objects: the new value of
  the target and what stays in the source (its message is moved out).
\<close>

definition Status_move :: "Status \<Rightarrow> Status \<times> Status" where
  "Status_move s = (s, \<lparr>st_code = kOk, st_subcode = kNone, st_sev = kNoError, st_retryable = False,
     st_data_loss = False, st_scope = 0, st_state = None\<rparr>)"

text \<open>The predicates that look at the code only, in the order of the class.\<close>

definition code_predicates :: "(Status \<Rightarrow> bool) list" where
  "code_predicates =
     [ok, IsNotFound, IsCorruption, IsNotSupported, IsInvalidArgument, IsIOError,
      IsMergeInProgress, IsIncomplete, IsShutdownInProgress, IsTimedOut, IsAborted, IsBusy,
      IsExpired, IsTryAgain, IsCompactionTooLarge, IsColumnFamilyDropped]"

lemmas code_predicate_defs =
  ok_def IsNotFound_def IsCorruption_def IsNotSupported_def
  IsInvalidArgument_def IsIOError_def IsMergeInProgress_def IsIncomplete_def
  IsShutdownInProgress_def IsTimedOut_def IsAborted_def IsBusy_def
  IsExpired_def IsTryAgain_def IsCompactionTooLarge_def IsColumnFamilyDropped_def

lemmas subcode_predicate_defs =
  IsOkOverwritten_def IsPathNotFound_def
  IsLockLimit_def IsDeadlock_def IsNoSpace_def IsMemoryLimit_def IsManualCompactionPaused_def IsTxnNotPrepared_def IsIOFenced_def

lemmas factory_defs =
  Status_default_def Status_of_def Status_flags_def
  OK_def OkOverwritten_def NotFound_def NotFound_msg_def
  NotFound_sub_msg_def Corruption_def Corruption_msg_def NotSupported_def
  NotSupported_msg_def InvalidArgument_def InvalidArgument_msg_def IOError_def
  IOError_msg_def MergeInProgress_def MergeInProgress_msg_def Incomplete_def
  Incomplete_msg_def ShutdownInProgress_def ShutdownInProgress_msg_def Aborted_def
  Aborted_msg_def Busy_def Busy_msg_def TimedOut_def
  TimedOut_msg_def Expired_def Expired_msg_def TryAgain_def
  TryAgain_msg_def CompactionTooLarge_def CompactionTooLarge_msg_def ColumnFamilyDropped_def
  ColumnFamilyDropped_msg_def NoSpace_def NoSpace_msg_def MemoryLimit_def
  MemoryLimit_msg_def SpaceLimit_def SpaceLimit_msg_def PathNotFound_def
  PathNotFound_msg_def TxnNotPrepared_def TxnNotPrepared_msg_def

section \<open>Theorems\<close>

lemma ok_simps [simp]:
  "ok OK" "ok OkOverwritten" "\<not> ok (NotFound sc)" "\<not> ok (IOError sc)" "\<not> ok (Corruption sc)"
  by (simp_all add: ok_def factory_defs)

lemma ok_not_NotFound: "IsNotFound s \<Longrightarrow> \<not> ok s"
  by (simp add: ok_def IsNotFound_def)

lemma move_target [simp]: "fst (Status_move s) = s"
  by (simp add: Status_move_def)

lemma move_source [simp]: "snd (Status_move s) = OK"
  by (simp add: Status_move_def OK_def Status_default_def)

lemma Status_eq_equiv: "equivp Status_eq"
  by (rule equivpI) (auto simp: reflp_def symp_def transp_def Status_eq_def)

text \<open>
  The sixteen predicates on the code classify every status: exactly one of them holds,
  unless the code is the sentinel \<^verbatim>\<open>kMaxCode\<close>, when none does; and two statuses compare equal
  exactly when the predicates cannot tell them apart, whatever their subcodes and messages.
\<close>

theorem status_classified:
  "length (filter (\<lambda>p. p s) code_predicates) = (if st_code s = kMaxCode then 0 else 1) \<and>
   (Status_eq s t \<longleftrightarrow> map (\<lambda>p. p s) code_predicates = map (\<lambda>p. p t) code_predicates)"
  by (cases "st_code s"; cases "st_code t")
     (simp_all add: code_predicates_def code_predicate_defs Status_eq_def)

end
