(* ===== verification/Store.thy ===== *)
theory Store
  imports Rocks_Status
begin

text \<open>
  The database the service keeps balances in. RocksDB's implementation is not in the
  repository, only its headers: its calls are the record \<open>DB\<close>, an argument of every
  operation that uses the database, and what \<^verbatim>\<open>lib/rocksdb/db.h\<close> documents of
  \<^verbatim>\<open>DB::Get\<close> and \<^verbatim>\<open>DB::Put\<close> is the locale \<open>rocksdb\<close>. A call may fail at any time.
  The stronger \<open>reliable_rocksdb\<close> adds that no call fails for an I/O reason.
\<close>

record 'db DB =
  db_Get :: "'db \<Rightarrow> string \<Rightarrow> Status \<times> string \<times> 'db"
  db_Put :: "'db \<Rightarrow> string \<Rightarrow> string \<Rightarrow> Status \<times> 'db"

locale rocksdb =
  fixes ops :: "('db, 'z) DB_scheme"
    and contents :: "'db \<Rightarrow> (string \<rightharpoonup> string)"
  assumes finite_contents: "finite (dom (contents d))"
    and Get_keeps: "db_Get ops d k = (st, v, d') \<Longrightarrow> contents d' = contents d"
    and Get_ok: "db_Get ops d k = (st, v, d') \<Longrightarrow> ok st \<Longrightarrow> contents d k = Some v"
    and Put_ok: "db_Put ops d k v = (st, d') \<Longrightarrow> ok st \<Longrightarrow> contents d' = (contents d)(k \<mapsto> v)"
    and Put_failed: "db_Put ops d k v = (st, d') \<Longrightarrow> \<not> ok st \<Longrightarrow>
       contents d' = contents d \<or> contents d' = (contents d)(k \<mapsto> v)"
begin

lemma Get_missing: "contents d k = None \<Longrightarrow> db_Get ops d k = (st, v, d') \<Longrightarrow> \<not> ok st"
  by (auto dest: Get_ok)

lemma Put_elsewhere: "db_Put ops d k v = (st, d') \<Longrightarrow> k' \<noteq> k \<Longrightarrow> contents d' k' = contents d k'"
  using Put_ok Put_failed by (metis fun_upd_other)

lemma Put_dom: "db_Put ops d k v = (st, d') \<Longrightarrow> dom (contents d') \<subseteq> insert k (dom (contents d))"
  using Put_ok Put_failed by (metis (no_types, lifting) dom_fun_upd option.discI subset_insertI order_refl)

text \<open>What is written is what the next successful read returns.\<close>

lemma Get_after_Put:
  "db_Put ops d k v = (st, d') \<Longrightarrow> ok st \<Longrightarrow> db_Get ops d' k = (st', w, d'') \<Longrightarrow> ok st' \<Longrightarrow> w = v"
  using Put_ok Get_ok by (metis fun_upd_same option.inject)

end

locale reliable_rocksdb = rocksdb +
  assumes Get_present: "contents d k = Some v \<Longrightarrow> db_Get ops d k = (st, w, d') \<Longrightarrow> ok st"
    and Get_absent: "contents d k = None \<Longrightarrow> db_Get ops d k = (st, w, d') \<Longrightarrow> IsNotFound st"
    and Put_reliable: "db_Put ops d k v = (st, d') \<Longrightarrow> ok st"
begin

lemma Get_iff: "db_Get ops d k = (st, w, d') \<Longrightarrow> ok st \<longleftrightarrow> k \<in> dom (contents d)"
  by (auto dest: Get_ok Get_present)

lemma Get_value:
  assumes "db_Get ops d k = (st, w, d')" and "contents d k = Some v"
  shows "w = v"
  using Get_ok [OF assms(1) Get_present [OF assms(2,1)]] assms(2) by simp

end

section \<open>An in-memory database with injected failures\<close>

text \<open>
  A concrete database: the entries, newest first, and the statuses injected into the
  coming calls. A call whose injected status is not OK fails with it and changes nothing;
  with no status left every call succeeds.
\<close>

type_synonym mem_db = "(string \<times> string) list \<times> Status list"

definition mem_fault :: "mem_db \<Rightarrow> Status option \<times> mem_db" where
  "mem_fault d = (case snd d of
     [] \<Rightarrow> (None, d)
   | st # sts \<Rightarrow> (if ok st then None else Some st, (fst d, sts)))"

definition mem_Get :: "mem_db \<Rightarrow> string \<Rightarrow> Status \<times> string \<times> mem_db" where
  "mem_Get d k = (case mem_fault d of
     (Some st, d') \<Rightarrow> (st, [], d')
   | (None, d') \<Rightarrow> (case map_of (fst d) k of
        None \<Rightarrow> (NotFound kNone, [], d')
      | Some v \<Rightarrow> (OK, v, d')))"

definition mem_Put :: "mem_db \<Rightarrow> string \<Rightarrow> string \<Rightarrow> Status \<times> mem_db" where
  "mem_Put d k v = (case mem_fault d of
     (Some st, d') \<Rightarrow> (st, d')
   | (None, d') \<Rightarrow> (OK, ((k, v) # fst d', snd d')))"

definition mem_contents :: "mem_db \<Rightarrow> (string \<rightharpoonup> string)" where
  "mem_contents d = map_of (fst d)"

definition mem_ops :: "mem_db DB" where
  "mem_ops = \<lparr>db_Get = mem_Get, db_Put = mem_Put\<rparr>"

lemma mem_fault_fst: "mem_fault d = (f, d') \<Longrightarrow> fst d' = fst d"
  by (auto simp: mem_fault_def split: list.splits)

lemma mem_fault_not_ok: "mem_fault d = (Some st, d') \<Longrightarrow> \<not> ok st"
  by (auto simp: mem_fault_def split: list.splits if_splits)

lemmas mem_defs = mem_ops_def mem_Get_def mem_Put_def mem_contents_def

lemma mem_rocksdb: "db_Get ops = mem_Get \<Longrightarrow> db_Put ops = mem_Put \<Longrightarrow> rocksdb ops mem_contents"
  by unfold_locales
     (auto simp: mem_defs finite_dom_map_of dest: mem_fault_fst mem_fault_not_ok
        split: prod.splits option.splits)

interpretation mem: rocksdb mem_ops mem_contents
  by (rule mem_rocksdb) (simp_all add: mem_ops_def)

text \<open>The same database on a disk that never fails: the schedule of failures is empty.\<close>

type_synonym map_db = "(string \<times> string) list"

definition map_Get :: "map_db \<Rightarrow> string \<Rightarrow> Status \<times> string \<times> map_db" where
  "map_Get d k = (case map_of d k of None \<Rightarrow> (NotFound kNone, [], d) | Some v \<Rightarrow> (OK, v, d))"

definition map_Put :: "map_db \<Rightarrow> string \<Rightarrow> string \<Rightarrow> Status \<times> map_db" where
  "map_Put d k v = (OK, (k, v) # d)"

lemma IsNotFound_NotFound [simp]: "IsNotFound (NotFound sc)"
  by (simp add: IsNotFound_def factory_defs)

lemma map_reliable:
  "db_Get ops = map_Get \<Longrightarrow> db_Put ops = map_Put \<Longrightarrow> reliable_rocksdb ops map_of"
  by unfold_locales
     (auto simp: map_Get_def map_Put_def finite_dom_map_of split: option.splits)

interpretation reliable: reliable_rocksdb "\<lparr>db_Get = map_Get, db_Put = map_Put\<rparr>" map_of
  by (rule map_reliable) simp_all

end
