(* ===== verification/Message_Queue.thy ===== *)
theory Message_Queue
  imports Prelude "HOL-Library.Multiset"
begin

text \<open>
  \<^verbatim>\<open>MessageQueue<T>\<close> (src/MessageQueue.h): a \<^verbatim>\<open>std::deque\<close> guarded by a mutex and
  a condition variable. \<open>send\<close> appends under the lock; \<open>receive\<close> waits until the deque is
  not empty and takes the element at the back. Each is one atomic step, because it runs
  under \<^verbatim>\<open>_mutex\<close>; a \<open>receive\<close> on an empty deque does not return, so it has no value.
  What clients of the queue may rely on is the locale \<open>message_buffer\<close>.
\<close>

type_synonym 'a MessageQueue = "'a list"

definition receive :: "'a MessageQueue \<Rightarrow> ('a \<times> 'a MessageQueue) option" where
  "receive messages = (if messages = [] then None else Some (last messages, butlast messages))"

definition send :: "'a \<Rightarrow> 'a MessageQueue \<Rightarrow> 'a MessageQueue" where
  "send msg messages = messages @ [msg]"

section \<open>The interface\<close>

locale message_buffer =
  fixes snd_op :: "'a \<Rightarrow> 'q \<Rightarrow> 'q"
    and rcv_op :: "'q \<Rightarrow> ('a \<times> 'q) option"
    and items :: "'q \<Rightarrow> 'a multiset"
  assumes items_send: "items (snd_op m q) = add_mset m (items q)"
    and receive_None: "rcv_op q = None \<longleftrightarrow> items q = {#}"
    and receive_Some: "rcv_op q = Some (m, q') \<Longrightarrow> items q = add_mset m (items q')"
begin

lemma receive_ready: "items q \<noteq> {#} \<Longrightarrow> \<exists>m q'. rcv_op q = Some (m, q')"
  using receive_None by (metis option.exhaust surj_pair)

lemma receive_member: "rcv_op q = Some (m, q') \<Longrightarrow> m \<in># items q"
  by (simp add: receive_Some)

lemma receive_size: "rcv_op q = Some (m, q') \<Longrightarrow> size (items q) = Suc (size (items q'))"
  by (simp add: receive_Some)

lemma send_never_blocks: "\<exists>m' q'. rcv_op (snd_op m q) = Some (m', q')"
  by (rule receive_ready) (simp add: items_send)

text \<open>Nothing is lost or made up over a whole run of sends followed by receives.\<close>

fun drain :: "nat \<Rightarrow> 'q \<Rightarrow> 'a list \<times> 'q" where
  "drain 0 q = ([], q)"
| "drain (Suc n) q =
     (case rcv_op q of
        None \<Rightarrow> ([], q)
      | Some (m, q') \<Rightarrow> (let (ms, q'') = drain n q' in (m # ms, q'')))"

lemma drain_conserves: "drain n q = (ms, q') \<Longrightarrow> items q = mset ms + items q'"
  by (induction n arbitrary: q ms)
     (auto split: option.splits prod.splits dest: receive_Some)

lemma drain_length: "drain n q = (ms, q') \<Longrightarrow> length ms = min n (size (items q))"
  by (induction n arbitrary: q ms)
     (auto split: option.splits prod.splits dest: receive_size simp: receive_None)

end

text \<open>A buffer that also fixes the order: the element sent last comes out first.\<close>

locale lifo_buffer = message_buffer +
  assumes receive_send: "rcv_op (snd_op m q) = Some (m, q)"
begin

lemma send_injective: "snd_op m q = snd_op m' q' \<Longrightarrow> m = m' \<and> q = q'"
  using receive_send by (metis option.inject prod.inject)

lemma drain_foldl_send: "drain (length ms) (foldl (\<lambda>q m. snd_op m q) q ms) = (rev ms, q)"
  by (induction ms rule: rev_induct) (simp_all add: receive_send)

end

interpretation mq: lifo_buffer send receive mset
proof unfold_locales
  fix q q' :: "'a list" and m
  show "mset (send m q) = add_mset m (mset q)"
    by (simp add: send_def)
  show "receive q = None \<longleftrightarrow> mset q = {#}"
    by (simp add: receive_def)
  show "receive q = Some (m, q') \<Longrightarrow> mset q = add_mset m (mset q')"
    by (cases q rule: rev_cases) (auto simp: receive_def)
  show "receive (send m q) = Some (m, q)"
    by (simp add: receive_def send_def)
qed

lemma receive_simps [simp]:
  "receive [] = None" "receive (ms @ [m]) = Some (m, ms)"
  by (simp_all add: receive_def)

end
