(* ===== verification/Service.thy ===== *)
theory Service
  imports Wallet_Data Store Message_Queue
begin

text \<open>
  The service object and its state machine (src/Service.h, src/Service.cpp,
  src/ServiceState.h, src/ConcreteServiceState.h, src/ConcreteServiceState.cpp). The three
  singleton states are the constructors of \<open>ServiceState\<close>, virtual calls are a case on
  them, and \<open>setState\<close> runs the new state's \<open>onEnter\<close>. A statement returns the fault that
  stopped it, if any, and the state as it was left at that point. The fields of the class
  are the record \<open>Service\<close>; \<open>World\<close> adds what the code reaches outside it: files and the
  two output streams.
\<close>

datatype ServiceState = ServiceListen | ServiceValidate | ServiceApply

fun getStateName :: "ServiceState \<Rightarrow> string" where
  "getStateName ServiceListen = ''LISTEN''"
| "getStateName ServiceValidate = ''VALIDATE''"
| "getStateName ServiceApply = ''APPLY''"

record 'db Service =
  accountDB :: 'db
  status :: Status
  command_queue :: "Command MessageQueue"
  currentState :: ServiceState
  command_to_process :: Command
  cv_notifications :: nat

record 'db World = "'db Service" +
  files :: "string \<rightharpoonup> string"
  cout :: "string list"
  cerr :: "string list"

text \<open>
  Code outside the repository: the database, \<^verbatim>\<open>Status::ToString\<close>, and Boost's
  archives.
\<close>

record 'db Extern = "'db DB" +
  ToString :: "Status \<Rightarrow> string"
  oarchive :: "prim list \<Rightarrow> string"
  iarchive :: "kind list \<Rightarrow> string \<Rightarrow> prim list option"

definition log_cout :: "string \<Rightarrow> 'db World \<Rightarrow> 'db World" where
  [wallet_defs]: "log_cout line s = s\<lparr>cout := cout s @ [line]\<rparr>"

definition log_cerr :: "string \<Rightarrow> 'db World \<Rightarrow> 'db World" where
  [wallet_defs]: "log_cerr line s = s\<lparr>cerr := cerr s @ [line]\<rparr>"

text \<open>\<^verbatim>\<open>std::ofstream(path, app)\<close> then writing; a missing file is created.\<close>

definition append_file :: "string \<Rightarrow> string \<Rightarrow> 'db World \<Rightarrow> 'db World" where
  [wallet_defs]: "append_file path text s =
     s\<lparr>files := (files s)(path \<mapsto> (case files s path of None \<Rightarrow> [] | Some old \<Rightarrow> old) @ text)\<rparr>"

section \<open>State changes\<close>

fun onEnter :: "ServiceState \<Rightarrow> 'db World \<Rightarrow> 'db World" where
  "onEnter ServiceListen s = s\<lparr>cv_notifications := Suc (cv_notifications s)\<rparr>"
| "onEnter ServiceValidate s = s"
| "onEnter ServiceApply s = s"

definition setState :: "ServiceState \<Rightarrow> 'db World \<Rightarrow> 'db World" where
  [wallet_defs]: "setState newState s = onEnter newState (s\<lparr>currentState := newState\<rparr>)"

text \<open>\<open>_status = _accountDB->Get(...)\<close> and \<open>_status = _accountDB->Put(...)\<close>.\<close>

definition service_Get :: "'db Extern \<Rightarrow> string \<Rightarrow> 'db World \<Rightarrow> string \<times> 'db World" where
  [wallet_defs]: "service_Get ext key s =
     (let (st, value, d) = db_Get ext (accountDB s) key
      in (value, s\<lparr>accountDB := d, status := st\<rparr>))"

definition service_Put :: "'db Extern \<Rightarrow> string \<Rightarrow> string \<Rightarrow> 'db World \<Rightarrow> 'db World" where
  [wallet_defs]: "service_Put ext key value s =
     (let (st, d) = db_Put ext (accountDB s) key value in s\<lparr>accountDB := d, status := st\<rparr>)"

section \<open>APPLY\<close>

definition eventA :: "Command \<Rightarrow> Event" where
  "eventA c = \<lparr>action = getAction c, account = getAccount1 c, amount = ''-'' @ getAmount c,
     parent_tx_id = getID c\<rparr>"

definition eventB :: "Command \<Rightarrow> Event" where
  "eventB c = \<lparr>action = getAction c, account = getAccount2 c, amount = ''+'' @ getAmount c,
     parent_tx_id = getID c\<rparr>"

text \<open>The repeated error branch: report the status and go back to LISTEN.\<close>

definition db_error :: "'db Extern \<Rightarrow> 'db World \<Rightarrow> 'db World" where
  [wallet_defs]: "db_error ext s =
     setState ServiceListen (log_cerr (''DB error: '' @ ToString ext (status s)) s)"

text \<open>The two writes, the event log, and the way back to LISTEN.\<close>

definition apply_writes ::
  "'db Extern \<Rightarrow> Config \<Rightarrow> int \<Rightarrow> int \<Rightarrow> 'db World \<Rightarrow> 'db World stmt" where
  "apply_writes ext config balance1 balance2 s =
     (let c = command_to_process s;
          s1 = service_Put ext (account (eventA c)) (to_string balance1) s
      in if \<not> ok (status s1) then (None, db_error ext s1)
         else let s2 = service_Put ext (account (eventB c)) (to_string balance2) s1
              in if \<not> ok (status s2) then (None, db_error ext s2)
                 else (None, setState ServiceListen
                        (append_file (event_log config)
                           (oarchive ext (Event_save (eventA c) @ Event_save (eventB c))) s2)))"

definition ServiceApply_process :: "'db Extern \<Rightarrow> Config \<Rightarrow> 'db World \<Rightarrow> 'db World stmt" where
  "ServiceApply_process ext config s =
     (let c = command_to_process s;
          (balance, s1) = service_Get ext (account (eventA c)) s
      in if \<not> ok (status s1) then (None, db_error ext s1)
         else case stoi balance of Inl e \<Rightarrow> (Some e, s1) | Inr accountBalanceA \<Rightarrow>
      (let (balance, s2) = service_Get ext (account (eventB c)) s1
       in if \<not> ok (status s2) then (None, db_error ext s2)
          else case stoi balance of Inl e \<Rightarrow> (Some e, s2) | Inr accountBalanceB \<Rightarrow>
       (case stoi (getAmount c) of Inl e \<Rightarrow> (Some e, s2) | Inr a \<Rightarrow>
       (case int_result (accountBalanceA - a) of Inl e \<Rightarrow> (Some e, s2) | Inr balance1 \<Rightarrow>
       (case int_result (accountBalanceB + a) of Inl e \<Rightarrow> (Some e, s2) | Inr balance2 \<Rightarrow>
          apply_writes ext config balance1 balance2 s2)))))"

section \<open>VALIDATE and the dispatch of process\<close>

text \<open>
  \<^verbatim>\<open>Service::process\<close> calls the current state, and the state VALIDATE calls
  \<^verbatim>\<open>service->process()\<close> again once it has moved to APPLY.
\<close>

function (sequential) process :: "'db Extern \<Rightarrow> Config \<Rightarrow> 'db World \<Rightarrow> 'db World stmt"
  and ServiceValidate_process :: "'db Extern \<Rightarrow> Config \<Rightarrow> 'db World \<Rightarrow> 'db World stmt" where
  "process ext config s =
     (case currentState s of
        ServiceListen \<Rightarrow> (None, s)
      | ServiceValidate \<Rightarrow> ServiceValidate_process ext config s
      | ServiceApply \<Rightarrow> ServiceApply_process ext config s)"
| "ServiceValidate_process ext config s =
     (let c = command_to_process s;
          (balance, s1) = service_Get ext (getAccount2 c) s
      in if \<not> ok (status s1)
         then (None, setState ServiceListen (log_cout ''Account not found'' s1))
         else
      (let (balance, s2) = service_Get ext (getAccount1 c) s1
       in if \<not> ok (status s2)
          then (None, setState ServiceListen (log_cout ''Account not found'' s2))
          else case stoi balance of Inl e \<Rightarrow> (Some e, s2) | Inr b \<Rightarrow>
       (case stoi (getAmount c) of Inl e \<Rightarrow> (Some e, s2) | Inr a \<Rightarrow>
          if b < a then (None, setState ServiceListen (log_cerr ''Balance too low'' s2))
          else if getAction c = ''TRANSFER'' then process ext config (setState ServiceApply s2)
          else (None, setState ServiceListen s2))))"
  by pat_completeness auto
termination
  by (relation "measure (\<lambda>x. case x of
        Inl (_, _, s) \<Rightarrow> if currentState s = ServiceValidate then 2 else 0
      | Inr _ \<Rightarrow> 1)")
     (auto simp: setState_def)

declare process.simps [simp del] ServiceValidate_process.simps [simp del]

section \<open>LISTEN and the dispatch of toggle\<close>

definition ServiceListen_toggle :: "'db Extern \<Rightarrow> Config \<Rightarrow> 'db World \<Rightarrow> 'db World stmt" where
  "ServiceListen_toggle ext config s =
     (case receive (command_queue s) of
        None \<Rightarrow> (Some Waits, s)
      | Some (msg, q) \<Rightarrow>
          process ext config
            (setState ServiceValidate (s\<lparr>command_to_process := msg, command_queue := q\<rparr>)))"

definition toggle :: "'db Extern \<Rightarrow> Config \<Rightarrow> 'db World \<Rightarrow> 'db World stmt" where
  "toggle ext config s =
     (case currentState s of
        ServiceListen \<Rightarrow> ServiceListen_toggle ext config s
      | ServiceValidate \<Rightarrow> (None, s)
      | ServiceApply \<Rightarrow> (None, s))"

section \<open>Construction\<close>

text \<open>
  \<^verbatim>\<open>Service::Service\<close> and \<^verbatim>\<open>Service::init\<close>; opening the database is the argument
  \<open>db_open\<close>, and \<open>d0\<close> stands for the pointer before it is set.
\<close>

definition Service_init ::
  "'db Extern \<Rightarrow> (string \<Rightarrow> Status \<times> 'db) \<Rightarrow> Config \<Rightarrow> 'db World \<Rightarrow> 'db World stmt" where
  "Service_init ext db_open config s =
     (let (st, d) = db_open (db_path config); s1 = s\<lparr>accountDB := d, status := st\<rparr>
      in if \<not> ok st
         then (Some (Throw (Runtime_error (''Failed to open database: '' @ ToString ext st))), s1)
         else (None, s1))"

definition Service_ctor ::
  "'db Extern \<Rightarrow> (string \<Rightarrow> Status \<times> 'db) \<Rightarrow> Config \<Rightarrow> 'db \<Rightarrow> (string \<rightharpoonup> string) \<Rightarrow> 'db World stmt" where
  "Service_ctor ext db_open config d0 fs =
     Service_init ext db_open config
       \<lparr>accountDB = d0, status = Status_default, command_queue = [], currentState = ServiceListen,
        command_to_process = Command_default, cv_notifications = 0,
        files = fs, cout = [], cerr = []\<rparr>"

end
