(* ===== verification/Crow_Common.thy ===== *)
theory Crow_Common
  imports Cxx_Std
begin

text \<open>
  The vocabulary of the HTTP layer (lib/crowapi/crow_all.h): methods and their names, status
  codes, MIME types, parameter kinds of routes, and the case-insensitive multimap of
  headers. The enumerations and tables are those of the header, entry by entry.
\<close>

section \<open>Methods\<close>

datatype HTTPMethod =
    Delete | Get | Head | Post | Put | Connect | Options | Trace | Patch | Purge | Copy |
    Lock | MkCol | Move | Propfind | Proppatch | Search | Unlock | Bind | Rebind | Unbind |
    Acl | Report | MkActivity | Checkout | Merge | MSearch | Notify | Subscribe |
    Unsubscribe | MkCalendar | Link | Unlink | Source | InternalMethodCount

definition methods :: "HTTPMethod list" where
  "methods =
    [Delete, Get, Head, Post, Put, Connect, Options, Trace, Patch, Purge, Copy, Lock,
     MkCol, Move, Propfind, Proppatch, Search, Unlock, Bind, Rebind, Unbind, Acl, Report,
     MkActivity, Checkout, Merge, MSearch, Notify, Subscribe, Unsubscribe, MkCalendar,
     Link, Unlink, Source]"

fun method_value :: "HTTPMethod \<Rightarrow> nat" where
  "method_value Delete = 0"
| "method_value Get = 1"
| "method_value Head = 2"
| "method_value Post = 3"
| "method_value Put = 4"
| "method_value Connect = 5"
| "method_value Options = 6"
| "method_value Trace = 7"
| "method_value Patch = 8"
| "method_value Purge = 9"
| "method_value Copy = 10"
| "method_value Lock = 11"
| "method_value MkCol = 12"
| "method_value Move = 13"
| "method_value Propfind = 14"
| "method_value Proppatch = 15"
| "method_value Search = 16"
| "method_value Unlock = 17"
| "method_value Bind = 18"
| "method_value Rebind = 19"
| "method_value Unbind = 20"
| "method_value Acl = 21"
| "method_value Report = 22"
| "method_value MkActivity = 23"
| "method_value Checkout = 24"
| "method_value Merge = 25"
| "method_value MSearch = 26"
| "method_value Notify = 27"
| "method_value Subscribe = 28"
| "method_value Unsubscribe = 29"
| "method_value MkCalendar = 30"
| "method_value Link = 31"
| "method_value Unlink = 32"
| "method_value Source = 33"
| "method_value InternalMethodCount = 34"

definition method_strings :: "string list" where
  "method_strings =
    [''DELETE'', ''GET'', ''HEAD'', ''POST'', ''PUT'', ''CONNECT'', ''OPTIONS'', ''TRACE'',
     ''PATCH'', ''PURGE'', ''COPY'', ''LOCK'', ''MKCOL'', ''MOVE'', ''PROPFIND'',
     ''PROPPATCH'', ''SEARCH'', ''UNLOCK'', ''BIND'', ''REBIND'', ''UNBIND'', ''ACL'',
     ''REPORT'', ''MKACTIVITY'', ''CHECKOUT'', ''MERGE'', ''M-SEARCH'', ''NOTIFY'',
     ''SUBSCRIBE'', ''UNSUBSCRIBE'', ''MKCALENDAR'', ''LINK'', ''UNLINK'', ''SOURCE'']"

definition method_name :: "HTTPMethod \<Rightarrow> string" where
  "method_name m =
     (if method_value m < method_value InternalMethodCount then method_strings ! method_value m
      else ''invalid'')"

text \<open>
  \<open>is_equ_p\<close> compares two C strings, here without their terminators: an empty list is a pointer
  at the NUL.
\<close>

fun is_equ_p :: "string \<Rightarrow> string \<Rightarrow> nat \<Rightarrow> bool" where
  "is_equ_p [] [] n = (n = 0)"
| "is_equ_p [] (_ # _) n = False"
| "is_equ_p (_ # _) [] n = False"
| "is_equ_p (a # as) (b # bs) 0 = True"
| "is_equ_p (a # as) (b # bs) (Suc n) = (if a \<noteq> b then False else is_equ_p as bs n)"

definition method_from_string :: "string \<Rightarrow> HTTPMethod result" where
  "method_from_string str =
     (if is_equ_p str ''GET'' 3 then Inr Get
      else if is_equ_p str ''DELETE'' 6 then Inr Delete
      else if is_equ_p str ''HEAD'' 4 then Inr Head
      else if is_equ_p str ''POST'' 4 then Inr Post
      else if is_equ_p str ''PUT'' 3 then Inr Put
      else if is_equ_p str ''OPTIONS'' 7 then Inr Options
      else if is_equ_p str ''CONNECT'' 7 then Inr Connect
      else if is_equ_p str ''TRACE'' 5 then Inr Trace
      else if is_equ_p str ''PATCH'' 5 then Inr Patch
      else if is_equ_p str ''PURGE'' 5 then Inr Purge
      else if is_equ_p str ''COPY'' 4 then Inr Copy
      else if is_equ_p str ''LOCK'' 4 then Inr Lock
      else if is_equ_p str ''MKCOL'' 5 then Inr MkCol
      else if is_equ_p str ''MOVE'' 4 then Inr Move
      else if is_equ_p str ''PROPFIND'' 8 then Inr Propfind
      else if is_equ_p str ''PROPPATCH'' 9 then Inr Proppatch
      else if is_equ_p str ''SEARCH'' 6 then Inr Search
      else if is_equ_p str ''UNLOCK'' 6 then Inr Unlock
      else if is_equ_p str ''BIND'' 4 then Inr Bind
      else if is_equ_p str ''REBIND'' 6 then Inr Rebind
      else if is_equ_p str ''UNBIND'' 6 then Inr Unbind
      else if is_equ_p str ''ACL'' 3 then Inr Acl
      else if is_equ_p str ''REPORT'' 6 then Inr Report
      else if is_equ_p str ''MKACTIVITY'' 10 then Inr MkActivity
      else if is_equ_p str ''CHECKOUT'' 8 then Inr Checkout
      else if is_equ_p str ''MERGE'' 5 then Inr Merge
      else if is_equ_p str ''MSEARCH'' 7 then Inr MSearch
      else if is_equ_p str ''NOTIFY'' 6 then Inr Notify
      else if is_equ_p str ''SUBSCRIBE'' 9 then Inr Subscribe
      else if is_equ_p str ''UNSUBSCRIBE'' 11 then Inr Unsubscribe
      else if is_equ_p str ''MKCALENDAR'' 10 then Inr MkCalendar
      else if is_equ_p str ''LINK'' 4 then Inr Link
      else if is_equ_p str ''UNLINK'' 6 then Inr Unlink
      else if is_equ_p str ''SOURCE'' 6 then Inr Source
      else Inl (Throw (Runtime_error ''invalid http method'')))"

section \<open>Status codes, MIME types, parameters\<close>

datatype http_status =
    CONTINUE | SWITCHING_PROTOCOLS | HTTP_OK | CREATED | ACCEPTED |
    NON_AUTHORITATIVE_INFORMATION | NO_CONTENT | RESET_CONTENT | PARTIAL_CONTENT |
    MULTIPLE_CHOICES | MOVED_PERMANENTLY | FOUND | SEE_OTHER | NOT_MODIFIED |
    TEMPORARY_REDIRECT | PERMANENT_REDIRECT | BAD_REQUEST | UNAUTHORIZED | FORBIDDEN |
    NOT_FOUND | METHOD_NOT_ALLOWED | PROXY_AUTHENTICATION_REQUIRED | CONFLICT | GONE |
    PAYLOAD_TOO_LARGE | UNSUPPORTED_MEDIA_TYPE | RANGE_NOT_SATISFIABLE |
    EXPECTATION_FAILED | PRECONDITION_REQUIRED | TOO_MANY_REQUESTS |
    UNAVAILABLE_FOR_LEGAL_REASONS | INTERNAL_SERVER_ERROR | NOT_IMPLEMENTED | BAD_GATEWAY |
    SERVICE_UNAVAILABLE | GATEWAY_TIMEOUT | VARIANT_ALSO_NEGOTIATES

fun http_status_value :: "http_status \<Rightarrow> int" where
  "http_status_value CONTINUE = 100"
| "http_status_value SWITCHING_PROTOCOLS = 101"
| "http_status_value HTTP_OK = 200"
| "http_status_value CREATED = 201"
| "http_status_value ACCEPTED = 202"
| "http_status_value NON_AUTHORITATIVE_INFORMATION = 203"
| "http_status_value NO_CONTENT = 204"
| "http_status_value RESET_CONTENT = 205"
| "http_status_value PARTIAL_CONTENT = 206"
| "http_status_value MULTIPLE_CHOICES = 300"
| "http_status_value MOVED_PERMANENTLY = 301"
| "http_status_value FOUND = 302"
| "http_status_value SEE_OTHER = 303"
| "http_status_value NOT_MODIFIED = 304"
| "http_status_value TEMPORARY_REDIRECT = 307"
| "http_status_value PERMANENT_REDIRECT = 308"
| "http_status_value BAD_REQUEST = 400"
| "http_status_value UNAUTHORIZED = 401"
| "http_status_value FORBIDDEN = 403"
| "http_status_value NOT_FOUND = 404"
| "http_status_value METHOD_NOT_ALLOWED = 405"
| "http_status_value PROXY_AUTHENTICATION_REQUIRED = 407"
| "http_status_value CONFLICT = 409"
| "http_status_value GONE = 410"
| "http_status_value PAYLOAD_TOO_LARGE = 413"
| "http_status_value UNSUPPORTED_MEDIA_TYPE = 415"
| "http_status_value RANGE_NOT_SATISFIABLE = 416"
| "http_status_value EXPECTATION_FAILED = 417"
| "http_status_value PRECONDITION_REQUIRED = 428"
| "http_status_value TOO_MANY_REQUESTS = 429"
| "http_status_value UNAVAILABLE_FOR_LEGAL_REASONS = 451"
| "http_status_value INTERNAL_SERVER_ERROR = 500"
| "http_status_value NOT_IMPLEMENTED = 501"
| "http_status_value BAD_GATEWAY = 502"
| "http_status_value SERVICE_UNAVAILABLE = 503"
| "http_status_value GATEWAY_TIMEOUT = 504"
| "http_status_value VARIANT_ALSO_NEGOTIATES = 506"

definition mime_types :: "(string \<times> string) list" where
  "mime_types =
    [(''shtml'', ''text/html''), (''htm'', ''text/html''), (''html'', ''text/html''),
     (''css'', ''text/css''), (''xml'', ''text/xml''), (''gif'', ''image/gif''),
     (''jpg'', ''image/jpeg''), (''jpeg'', ''image/jpeg''),
     (''js'', ''application/javascript''), (''atom'', ''application/atom+xml''),
     (''rss'', ''application/rss+xml''), (''mml'', ''text/mathml''),
     (''txt'', ''text/plain''), (''jad'', ''text/vnd.sun.j2me.app-descriptor''),
     (''wml'', ''text/vnd.wap.wml''), (''htc'', ''text/x-component''),
     (''avif'', ''image/avif''), (''png'', ''image/png''), (''svgz'', ''image/svg+xml''),
     (''svg'', ''image/svg+xml''), (''tiff'', ''image/tiff''), (''tif'', ''image/tiff''),
     (''wbmp'', ''image/vnd.wap.wbmp''), (''webp'', ''image/webp''),
     (''ico'', ''image/x-icon''), (''jng'', ''image/x-jng''),
     (''bmp'', ''image/x-ms-bmp''), (''woff'', ''font/woff''), (''woff2'', ''font/woff2''),
     (''ear'', ''application/java-archive''), (''war'', ''application/java-archive''),
     (''jar'', ''application/java-archive''), (''json'', ''application/json''),
     (''hqx'', ''application/mac-binhex40''), (''doc'', ''application/msword''),
     (''pdf'', ''application/pdf''), (''ai'', ''application/postscript''),
     (''eps'', ''application/postscript''), (''ps'', ''application/postscript''),
     (''rtf'', ''application/rtf''), (''m3u8'', ''application/vnd.apple.mpegurl''),
     (''kml'', ''application/vnd.google-earth.kml+xml''),
     (''kmz'', ''application/vnd.google-earth.kmz''),
     (''xls'', ''application/vnd.ms-excel''), (''eot'', ''application/vnd.ms-fontobject''),
     (''ppt'', ''application/vnd.ms-powerpoint''),
     (''odg'', ''application/vnd.oasis.opendocument.graphics''),
     (''odp'', ''application/vnd.oasis.opendocument.presentation''),
     (''ods'', ''application/vnd.oasis.opendocument.spreadsheet''),
     (''odt'', ''application/vnd.oasis.opendocument.text''),
     (''pptx'', ''application/vnd.openxmlformats-officedocument.presentationml.presentation''),
     (''xlsx'', ''application/vnd.openxmlformats-officedocument.spreadsheetml.sheet''),
     (''docx'', ''application/vnd.openxmlformats-officedocument.wordprocessingml.document''),
     (''wmlc'', ''application/vnd.wap.wmlc''), (''wasm'', ''application/wasm''),
     (''7z'', ''application/x-7z-compressed''), (''cco'', ''application/x-cocoa''),
     (''jardiff'', ''application/x-java-archive-diff''),
     (''jnlp'', ''application/x-java-jnlp-file''), (''run'', ''application/x-makeself''),
     (''pm'', ''application/x-perl''), (''pl'', ''application/x-perl''),
     (''pdb'', ''application/x-pilot''), (''prc'', ''application/x-pilot''),
     (''rar'', ''application/x-rar-compressed''),
     (''rpm'', ''application/x-redhat-package-manager''), (''sea'', ''application/x-sea''),
     (''swf'', ''application/x-shockwave-flash''), (''sit'', ''application/x-stuffit''),
     (''tk'', ''application/x-tcl''), (''tcl'', ''application/x-tcl''),
     (''crt'', ''application/x-x509-ca-cert''), (''pem'', ''application/x-x509-ca-cert''),
     (''der'', ''application/x-x509-ca-cert''), (''xpi'', ''application/x-xpinstall''),
     (''xhtml'', ''application/xhtml+xml''), (''xspf'', ''application/xspf+xml''),
     (''zip'', ''application/zip''), (''dll'', ''application/octet-stream''),
     (''exe'', ''application/octet-stream''), (''bin'', ''application/octet-stream''),
     (''deb'', ''application/octet-stream''), (''dmg'', ''application/octet-stream''),
     (''img'', ''application/octet-stream''), (''iso'', ''application/octet-stream''),
     (''msm'', ''application/octet-stream''), (''msp'', ''application/octet-stream''),
     (''msi'', ''application/octet-stream''), (''kar'', ''audio/midi''),
     (''midi'', ''audio/midi''), (''mid'', ''audio/midi''), (''mp3'', ''audio/mpeg''),
     (''ogg'', ''audio/ogg''), (''m4a'', ''audio/x-m4a''), (''ra'', ''audio/x-realaudio''),
     (''3gp'', ''video/3gpp''), (''3gpp'', ''video/3gpp''), (''ts'', ''video/mp2t''),
     (''mp4'', ''video/mp4''), (''mpg'', ''video/mpeg''), (''mpeg'', ''video/mpeg''),
     (''mov'', ''video/quicktime''), (''webm'', ''video/webm''),
     (''flv'', ''video/x-flv''), (''m4v'', ''video/x-m4v''), (''mng'', ''video/x-mng''),
     (''asf'', ''video/x-ms-asf''), (''asx'', ''video/x-ms-asf''),
     (''wmv'', ''video/x-ms-wmv''), (''avi'', ''video/x-msvideo'')]"

datatype ParamType = INT_PARAM | UINT_PARAM | DOUBLE_PARAM | STRING_PARAM | PATH_PARAM | MAX_PARAM

text \<open>
  \<open>routing_params\<close>: the values bound by the parameters of a route, one vector per type. A
  \<^verbatim>\<open>double\<close> is kept as the text it was parsed from.
\<close>

record routing_params =
  int_params :: "64 word list"
  uint_params :: "64 word list"
  double_params :: "string list"
  string_params :: "string list"

section \<open>Headers\<close>

definition toupper :: "char \<Rightarrow> char" where
  "toupper c = (if 97 \<le> byte c \<and> byte c \<le> 122 then char_of (byte c - 32) else c)"

text \<open>\<open>ci_key_eq\<close>: \<^verbatim>\<open>boost::iequals\<close> in the classic locale.\<close>

definition ci_key_eq :: "string \<Rightarrow> string \<Rightarrow> bool" where
  "ci_key_eq l r \<longleftrightarrow> map toupper l = map toupper r"

text \<open>
  The multimap of headers, a \<^verbatim>\<open>std::unordered_multimap\<close>: the entries in the order of insertion, which is
  one of the orders the container may iterate in. Which of several entries with equal keys \<^verbatim>\<open>find\<close>
  returns is left open by the standard; here it is the first. The round trip of a
  request claims only what does not depend on that choice: the entries as a multiset, and the value of a name that
  occurs once.
\<close>

type_synonym ci_map = "(string \<times> string) list"

definition ci_emplace :: "string \<Rightarrow> string \<Rightarrow> ci_map \<Rightarrow> ci_map" where
  "ci_emplace k v h = h @ [(k, v)]"

definition ci_erase :: "string \<Rightarrow> ci_map \<Rightarrow> ci_map" where
  "ci_erase k h = filter (\<lambda>(k', _). \<not> ci_key_eq k' k) h"

definition ci_count :: "string \<Rightarrow> ci_map \<Rightarrow> nat" where
  "ci_count k h = length (filter (\<lambda>(k', _). ci_key_eq k' k) h)"

definition ci_find :: "string \<Rightarrow> ci_map \<Rightarrow> string option" where
  "ci_find k h = map_option snd (find (\<lambda>(k', _). ci_key_eq k' k) h)"

definition get_header_value :: "ci_map \<Rightarrow> string \<Rightarrow> string" where
  "get_header_value h k =
     (if 0 < ci_count k h then (case ci_find k h of Some v \<Rightarrow> v | None \<Rightarrow> []) else [])"

lemma ci_key_eq_refl [simp]: "ci_key_eq k k"
  by (simp add: ci_key_eq_def)

lemma ci_key_eq_sym: "ci_key_eq k l \<longleftrightarrow> ci_key_eq l k"
  by (auto simp: ci_key_eq_def)

lemma ci_key_eq_trans: "ci_key_eq k l \<Longrightarrow> ci_key_eq l m \<Longrightarrow> ci_key_eq k m"
  by (simp add: ci_key_eq_def)

lemma ci_count_find: "ci_find k h = None \<longleftrightarrow> ci_count k h = 0"
  by (auto simp: ci_find_def ci_count_def find_None_iff filter_empty_conv)

lemma get_header_value_find: "get_header_value h k = (case ci_find k h of Some v \<Rightarrow> v | None \<Rightarrow> [])"
  using ci_count_find [of k h] by (auto simp: get_header_value_def split: option.splits)

lemma find_append: "find P (xs @ ys) = (case find P xs of Some x \<Rightarrow> Some x | None \<Rightarrow> find P ys)"
  by (induction xs) simp_all

lemma ci_find_emplace:
  "ci_find k (ci_emplace l v h) = (case ci_find k h of Some w \<Rightarrow> Some w
     | None \<Rightarrow> if ci_key_eq l k then Some v else None)"
  by (simp add: ci_find_def ci_emplace_def find_append split: option.splits)

lemma find_filter: "find P (filter Q xs) = find (\<lambda>x. Q x \<and> P x) xs"
  by (induction xs) simp_all

lemma ci_find_erase: "ci_find k (ci_erase l h) = (if ci_key_eq l k then None else ci_find k h)"
proof (cases "ci_key_eq l k")
  case True
  have "\<not> (\<not> ci_key_eq k' l \<and> ci_key_eq k' k)" for k'
    using True ci_key_eq_trans [of k' k l] by (auto simp: ci_key_eq_sym [of k l])
  then show ?thesis
    using True by (auto simp: ci_find_def ci_erase_def find_filter find_None_iff)
next
  case False
  have "(\<lambda>(k', _ :: string). \<not> ci_key_eq k' l \<and> ci_key_eq k' k) = (\<lambda>(k', _). ci_key_eq k' k)"
    using False ci_key_eq_trans [of l _ k] by (auto simp: fun_eq_iff ci_key_eq_sym [of _ l])
  then show ?thesis
    using False by (simp add: ci_find_def ci_erase_def find_filter case_prod_unfold)
qed

lemma ci_find_cong: "ci_key_eq k l \<Longrightarrow> ci_find k h = ci_find l h"
  by (simp add: ci_find_def ci_key_eq_def)

section \<open>Facts about methods\<close>

lemma is_equ_p_length: "is_equ_p s t (length t) \<longleftrightarrow> s = t"
  by (induction s t "length t" rule: is_equ_p.induct) auto

lemma methods_all: "m \<in> set (methods @ [InternalMethodCount])"
  by (cases m) (simp_all add: methods_def)

lemma method_names_read:
  "list_all (\<lambda>m. method_from_string (method_name m) =
     (if m = MSearch \<or> m = InternalMethodCount
      then Inl (Throw (Runtime_error ''invalid http method'')) else Inr m))
     (methods @ [InternalMethodCount])"
  by code_simp

text \<open>
  Printing a method and reading the name back gives the method, for every method except
  \<^verbatim>\<open>MSearch\<close>: it prints as \<^verbatim>\<open>M-SEARCH\<close>, and the reader only knows \<^verbatim>\<open>MSEARCH\<close>.
\<close>

theorem method_name_roundtrip:
  "method_from_string (method_name m) =
     (if m = MSearch \<or> m = InternalMethodCount
      then Inl (Throw (Runtime_error ''invalid http method'')) else Inr m)"
  using method_names_read methods_all [of m] unfolding list_all_iff by (rule bspec)

end
