(* ===== verification/Query_String.thy ===== *)
theory Query_String
  imports Prelude "HOL-Library.Monad_Syntax"
begin

text \<open>
  The query string of a request: \<^verbatim>\<open>qs_parse\<close> and its helpers and the class
  \<^verbatim>\<open>crow::query_string\<close> (lib/crowapi/crow_all.h). The code works on C strings inside
  one buffer, which it decodes in place, and keeps pointers into it. The buffer is a list of
  characters ending in NUL, a pointer is an index, and every read is checked: a function
  whose code would read outside its buffer has no value (\<open>None\<close>). A null pointer that the
  code returns is an inner \<open>None\<close>.
\<close>

type_synonym buffer = "char list"

definition rd :: "buffer \<Rightarrow> nat \<Rightarrow> char option" where
  "rd b i = (if i < length b then Some (b ! i) else None)"

text \<open>\<open>strcspn(b + p, set)\<close>: the distance to the first character of the set or to the NUL.\<close>

fun cspn :: "char list \<Rightarrow> char list \<Rightarrow> nat option" where
  "cspn [] cset = None"
| "cspn (c # cs) cset = (if c = nul \<or> c \<in> set cset then Some 0 else map_option Suc (cspn cs cset))"

definition strcspn :: "buffer \<Rightarrow> nat \<Rightarrow> char list \<Rightarrow> nat option" where
  "strcspn b p cset = cspn (drop p b) cset"

text \<open>The C string at a pointer, as \<open>std::string(ptr)\<close> copies it.\<close>

definition cstr :: "buffer \<Rightarrow> nat \<Rightarrow> string" where
  "cstr b p = takeWhile (\<lambda>c. c \<noteq> nul) (drop p b)"

section \<open>Character classes\<close>

definition CROW_QS_ISHEX :: "char \<Rightarrow> bool" where
  "CROW_QS_ISHEX x \<longleftrightarrow> (48 \<le> byte x \<and> byte x \<le> 57) \<or> (65 \<le> byte x \<and> byte x \<le> 70)
     \<or> (97 \<le> byte x \<and> byte x \<le> 102)"

definition CROW_QS_HEX2DEC :: "char \<Rightarrow> nat" where
  "CROW_QS_HEX2DEC x =
     (if 48 \<le> byte x \<and> byte x \<le> 57 then byte x - 48
      else if 65 \<le> byte x \<and> byte x \<le> 70 then byte x - 55
      else if 97 \<le> byte x \<and> byte x \<le> 102 then byte x - 87 else 0)"

definition CROW_QS_ISQSCHR :: "char \<Rightarrow> bool" where
  "CROW_QS_ISQSCHR x \<longleftrightarrow> \<not> (x = CHR ''='' \<or> x = CHR ''#'' \<or> x = CHR ''&'' \<or> x = nul)"

section \<open>Comparison\<close>

text \<open>
  One character of either string as \<open>qs_strncmp\<close> reads it: a delimiter counts as NUL, \<open>+\<close> as a
  space, and \<open>%\<close> takes two more characters without looking whether the string ended.
  The value and the pointer after it.
\<close>

definition qs_char :: "buffer \<Rightarrow> nat \<Rightarrow> (nat \<times> nat) option" where
  "qs_char b p =
     do {
       c \<leftarrow> rd b p;
       let u = (if CROW_QS_ISQSCHR c then c else nul);
       if u = CHR ''+'' then Some (byte (CHR '' ''), p + 1)
       else if u = CHR ''%'' then
         do {
           unyb \<leftarrow> rd b (p + 1);
           lnyb \<leftarrow> rd b (p + 2);
           Some (if CROW_QS_ISHEX unyb \<and> CROW_QS_ISHEX lnyb
                 then (CROW_QS_HEX2DEC unyb * 16 + CROW_QS_HEX2DEC lnyb) mod 256 else 0, p + 3)
         }
       else Some (byte u, p + 1)
     }"

fun qs_strncmp :: "buffer \<Rightarrow> nat \<Rightarrow> buffer \<Rightarrow> nat \<Rightarrow> nat \<Rightarrow> int option" where
  "qs_strncmp sb s qb qs 0 =
     do { c \<leftarrow> rd qb qs; Some (if CROW_QS_ISQSCHR c then -1 else 0) }"
| "qs_strncmp sb s qb qs (Suc n) =
     do {
       (u1, s') \<leftarrow> qs_char sb s;
       (u2, qs') \<leftarrow> qs_char qb qs;
       if u1 \<noteq> u2 then Some (int u1 - int u2)
       else if u1 = 0 then Some 0
       else qs_strncmp sb s' qb qs' n
     }"

section \<open>Decoding in place\<close>

function qs_decode_loop :: "buffer \<Rightarrow> nat \<Rightarrow> nat \<Rightarrow> nat \<Rightarrow> (buffer \<times> nat) option" where
  "qs_decode_loop b qs i j =
     (case rd b (qs + j) of
        None \<Rightarrow> None
      | Some c \<Rightarrow>
          if \<not> CROW_QS_ISQSCHR c then Some (b[qs + i := nul], i)
          else if c = CHR ''+'' then qs_decode_loop (b[qs + i := CHR '' '']) qs (i + 1) (j + 1)
          else if c = CHR ''%'' then
            (case rd b (qs + j + 1) of
               None \<Rightarrow> None
             | Some h1 \<Rightarrow>
                 if \<not> CROW_QS_ISHEX h1 then Some (b[qs + i := nul], i)
                 else (case rd b (qs + j + 2) of
                         None \<Rightarrow> None
                       | Some h2 \<Rightarrow>
                           if \<not> CROW_QS_ISHEX h2 then Some (b[qs + i := nul], i)
                           else qs_decode_loop
                                  (b[qs + i := char_of (CROW_QS_HEX2DEC h1 * 16 + CROW_QS_HEX2DEC h2)])
                                  qs (i + 1) (j + 3)))
          else qs_decode_loop (b[qs + i := c]) qs (i + 1) (j + 1))"
  by pat_completeness auto
termination
  by (relation "measure (\<lambda>(b, qs, i, j). length b - (qs + j))") (auto simp: rd_def split: if_splits)

declare qs_decode_loop.simps [simp del]

definition qs_decode :: "buffer \<Rightarrow> nat \<Rightarrow> (buffer \<times> nat) option" where
  "qs_decode b qs = qs_decode_loop b qs 0 0"

section \<open>Parsing\<close>

text \<open>The starts of the key/value pairs, at most \<open>n\<close> of them.\<close>

fun qs_pairs :: "nat \<Rightarrow> buffer \<Rightarrow> nat \<Rightarrow> nat list option" where
  "qs_pairs 0 b p = Some []"
| "qs_pairs (Suc n) b p =
     do {
       j \<leftarrow> strcspn b p ''&'';
       c \<leftarrow> rd b (p + j);
       if c = nul then Some [p]
       else do { ps \<leftarrow> qs_pairs n b (p + j + 1); Some (p # ps) }
     }"

text \<open>The second loop: terminate blank values, decode the others in place.\<close>

fun qs_decode_pairs :: "buffer \<Rightarrow> nat list \<Rightarrow> buffer option" where
  "qs_decode_pairs b [] = Some b"
| "qs_decode_pairs b (p # ps) =
     do {
       j \<leftarrow> strcspn b p ''=&#'';
       c \<leftarrow> rd b (p + j);
       b' \<leftarrow> (if c = CHR ''&'' \<or> c = nul then Some (b[p + j := nul])
             else map_option fst (qs_decode b (p + j + 1)));
       qs_decode_pairs b' ps
     }"

definition qs_parse :: "buffer \<Rightarrow> nat \<Rightarrow> (buffer \<times> nat list) option" where
  "qs_parse b qs_kv_size =
     do {
       k \<leftarrow> strcspn b 0 ''?#'';
       c \<leftarrow> rd b k;
       if c = nul then Some (b, [])
       else do {
         qs_kv \<leftarrow> qs_pairs qs_kv_size b (k + 1);
         b' \<leftarrow> qs_decode_pairs b qs_kv;
         Some (b', qs_kv)
       }
     }"

section \<open>Lookup\<close>

definition skip_to :: "buffer \<Rightarrow> nat \<Rightarrow> char \<Rightarrow> nat option" where
  "skip_to b p c =
     do {
       skip \<leftarrow> strcspn b p [c];
       d \<leftarrow> rd b (p + skip);
       Some (if d = c then skip + 1 else skip)
     }"

fun qs_k2v :: "buffer \<Rightarrow> buffer \<Rightarrow> nat list \<Rightarrow> nat \<Rightarrow> nat option option" where
  "qs_k2v key b [] n = Some None"
| "qs_k2v key b (p # ps) n =
     do {
       r \<leftarrow> qs_strncmp key 0 b p (length (cstr key 0));
       if r = 0 then
         do {
           skip \<leftarrow> skip_to b p (CHR ''='');
           if n = 0 then Some (Some (p + skip)) else qs_k2v key b ps (n - 1)
         }
       else qs_k2v key b ps n
     }"

section \<open>The class\<close>

record query_string =
  url :: buffer
  key_value_pairs :: "nat list"

definition MAX_KEY_VALUE_PAIRS_COUNT :: nat where
  "MAX_KEY_VALUE_PAIRS_COUNT = 256"

definition qs_empty :: query_string where
  "qs_empty = \<lparr>url = [nul], key_value_pairs = []\<rparr>"

definition mk_query_string :: "string \<Rightarrow> query_string option" where
  "mk_query_string u =
     (if u = [] then Some qs_empty
      else do {
        (b, kv) \<leftarrow> qs_parse (u @ [nul]) MAX_KEY_VALUE_PAIRS_COUNT;
        Some \<lparr>url = b, key_value_pairs = kv\<rparr>
      })"

text \<open>\<open>get\<close> returns a pointer; its clients copy the C string there.\<close>

definition qs_get :: "query_string \<Rightarrow> string \<Rightarrow> nat option option" where
  "qs_get q name = qs_k2v (name @ [nul]) (url q) (key_value_pairs q) 0"

definition qs_value :: "query_string \<Rightarrow> string \<Rightarrow> string option option" where
  "qs_value q name = map_option (map_option (cstr (url q))) (qs_get q name)"

end
