(* ===== verification/Crow_Message.thy ===== *)
theory Crow_Message
  imports Crow_Common Query_String
begin

text \<open>
  \<^verbatim>\<open>crow::request\<close> and \<^verbatim>\<open>crow::response\<close> (lib/crowapi/crow_all.h): what a handler
  receives and what it returns. The pointers to the I/O service and the middleware of a
  request are not part of the model. The completion handler of a response is a flag telling
  whether one is set; calling it is the second result of \<open>response_end\<close>. The system call
  \<^verbatim>\<open>stat\<close> is an argument: the size of a file, if it exists.
\<close>

section \<open>Requests\<close>

record request =
  req_method :: HTTPMethod
  raw_url :: string
  req_url :: string
  url_params :: query_string
  req_headers :: ci_map
  req_body :: string
  remote_ip_address :: string
  http_ver_major :: "8 word"
  http_ver_minor :: "8 word"
  keep_alive :: bool
  close_connection :: bool
  upgrade :: bool

definition mk_request ::
  "HTTPMethod \<Rightarrow> string \<Rightarrow> string \<Rightarrow> query_string \<Rightarrow> ci_map \<Rightarrow> string \<Rightarrow> 8 word \<Rightarrow> 8 word \<Rightarrow>
   bool \<Rightarrow> bool \<Rightarrow> bool \<Rightarrow> request" where
  "mk_request m raw u params h b major minor has_keep_alive has_close_connection is_upgrade =
     \<lparr>req_method = m, raw_url = raw, req_url = u, url_params = params, req_headers = h, req_body = b,
      remote_ip_address = [], http_ver_major = major, http_ver_minor = minor,
      keep_alive = has_keep_alive, close_connection = has_close_connection, upgrade = is_upgrade\<rparr>"

definition request_add_header :: "string \<Rightarrow> string \<Rightarrow> request \<Rightarrow> request" where
  "request_add_header k v r = r\<lparr>req_headers := ci_emplace k v (req_headers r)\<rparr>"

definition request_get_header_value :: "request \<Rightarrow> string \<Rightarrow> string" where
  "request_get_header_value r k = get_header_value (req_headers r) k"

definition check_version :: "request \<Rightarrow> 8 word \<Rightarrow> 8 word \<Rightarrow> bool" where
  "check_version r major minor \<longleftrightarrow> http_ver_major r = major \<and> http_ver_minor r = minor"

section \<open>Responses\<close>

record response =
  code :: int
  body :: string
  headers :: ci_map
  skip_body :: bool
  manual_length_header :: bool
  completed :: bool
  has_complete_request_handler :: bool
  file_path :: string

definition response_default :: response where
  "response_default = \<lparr>code = 200, body = [], headers = [], skip_body = False,
     manual_length_header = False, completed = False, has_complete_request_handler = False,
     file_path = []\<rparr>"

definition set_header :: "string \<Rightarrow> string \<Rightarrow> response \<Rightarrow> response" where
  "set_header k v r = r\<lparr>headers := ci_emplace k v (ci_erase k (headers r))\<rparr>"

definition add_header :: "string \<Rightarrow> string \<Rightarrow> response \<Rightarrow> response" where
  "add_header k v r = r\<lparr>headers := ci_emplace k v (headers r)\<rparr>"

definition response_get_header_value :: "response \<Rightarrow> string \<Rightarrow> string" where
  "response_get_header_value r k = get_header_value (headers r) k"

definition response_code :: "int \<Rightarrow> response" where
  "response_code c = response_default\<lparr>code := c\<rparr>"

definition response_body :: "string \<Rightarrow> response" where
  "response_body b = response_default\<lparr>body := b\<rparr>"

definition response_code_body :: "int \<Rightarrow> string \<Rightarrow> response" where
  "response_code_body c b = response_default\<lparr>code := c, body := b\<rparr>"

text \<open>A returnable is its content type and what it dumps.\<close>

definition response_returnable :: "int \<Rightarrow> string \<Rightarrow> string \<Rightarrow> response" where
  "response_returnable c content_type dump =
     set_header ''Content-Type'' content_type (response_default\<lparr>code := c, body := dump\<rparr>)"

text \<open>The constructors that look the content type up: \<^verbatim>\<open>at\<close> throws on an unknown one.\<close>

definition response_typed :: "int \<Rightarrow> string \<Rightarrow> string \<Rightarrow> response result" where
  "response_typed c contentType b =
     (case map_of mime_types contentType of
        None \<Rightarrow> Inl (Throw Out_of_range)
      | Some t \<Rightarrow> Inr (set_header ''Content-Type'' t (response_default\<lparr>code := c, body := b\<rparr>)))"

text \<open>Move assignment: \<open>skip_body\<close>, the length flag and the handlers of the target stay.\<close>

definition response_assign :: "response \<Rightarrow> response \<Rightarrow> response" where
  "response_assign this r = this\<lparr>body := body r, code := code r, headers := headers r,
     completed := completed r, file_path := file_path r\<rparr>"

definition response_clear :: "response \<Rightarrow> response" where
  "response_clear r = r\<lparr>body := [], code := 200, headers := [], completed := False, file_path := []\<rparr>"

definition redirect :: "string \<Rightarrow> response \<Rightarrow> response" where
  "redirect location r = set_header ''Location'' location (r\<lparr>code := 307\<rparr>)"

definition redirect_perm :: "string \<Rightarrow> response \<Rightarrow> response" where
  "redirect_perm location r = set_header ''Location'' location (r\<lparr>code := 308\<rparr>)"

definition moved :: "string \<Rightarrow> response \<Rightarrow> response" where
  "moved location r = set_header ''Location'' location (r\<lparr>code := 302\<rparr>)"

definition moved_perm :: "string \<Rightarrow> response \<Rightarrow> response" where
  "moved_perm location r = set_header ''Location'' location (r\<lparr>code := 301\<rparr>)"

definition response_write :: "string \<Rightarrow> response \<Rightarrow> response" where
  "response_write part r = r\<lparr>body := body r @ part\<rparr>"

text \<open>\<open>end()\<close>: the response, and whether the completion handler was called.\<close>

definition response_end :: "response \<Rightarrow> response \<times> bool" where
  "response_end r =
     (if completed r then (r, False)
      else let r1 = r\<lparr>completed := True\<rparr>;
               r2 = (if skip_body r1
                     then (set_header ''Content-Length'' (to_string (int (length (body r1)))) r1)
                            \<lparr>body := [], manual_length_header := True\<rparr>
                     else r1)
           in (r2, has_complete_request_handler r2))"

definition response_end_part :: "string \<Rightarrow> response \<Rightarrow> response \<times> bool" where
  "response_end_part part r = response_end (response_write part r)"

definition is_static_type :: "response \<Rightarrow> bool" where
  "is_static_type r \<longleftrightarrow> file_path r \<noteq> []"

text \<open>
  The part of a path behind the last dot; \<^verbatim>\<open>find_last_of\<close> without a match gives
  \<open>npos\<close>, and \<open>npos + 1\<close> wraps to 0, so the whole path is the extension then.
\<close>

definition path_extension :: "string \<Rightarrow> string" where
  "path_extension p = rev (takeWhile (\<lambda>c. c \<noteq> CHR ''.'') (rev p))"

definition set_static_file_info_unsafe ::
  "(string \<Rightarrow> int option) \<Rightarrow> string \<Rightarrow> response \<Rightarrow> response \<times> bool" where
  "set_static_file_info_unsafe stat path r =
     (case stat path of
        Some st_size \<Rightarrow>
          (let r1 = add_header ''Content-Length'' (to_string st_size) (r\<lparr>file_path := path, code := 200\<rparr>);
               extension = path_extension path
           in (if extension = [] then r1
               else add_header ''Content-Type''
                      (case map_of mime_types extension of Some t \<Rightarrow> t | None \<Rightarrow> ''text/plain'') r1, False))
      | None \<Rightarrow> response_end (r\<lparr>code := 404, file_path := []\<rparr>))"

section \<open>Lemmas\<close>

lemma get_set_header:
  "response_get_header_value (set_header k v r) l =
     (if ci_key_eq k l then v else response_get_header_value r l)"
  by (simp add: response_get_header_value_def get_header_value_find set_header_def ci_find_emplace
        ci_find_erase split: option.splits)

lemma response_end_completed [simp]: "completed (fst (response_end r))"
  by (simp add: response_end_def Let_def set_header_def)

lemma response_end_twice: "response_end (fst (response_end r)) = (fst (response_end r), False)"
  by (simp add: response_end_def [of "fst (response_end r)"])

lemma response_simps [simp]:
  "code (response_code_body c b) = c" "body (response_code_body c b) = b"
  "code (response_body b) = 200" "body (response_body b) = b"
  by (simp_all add: response_code_body_def response_body_def response_default_def)

text \<open>
  Ending a response to a HEAD request: the handler is called exactly when one is set, the
  body is emptied, the Content-Length header is the length the body had, every other header is
  kept, and ending it again does nothing.
\<close>

theorem response_end_head:
  assumes "\<not> completed r" and "skip_body r"
  shows "\<exists>r'. response_end r = (r', has_complete_request_handler r) \<and> body r' = [] \<and> code r' = code r \<and>
    stoi (response_get_header_value r' ''content-length'') =
      (if int (length (body r)) \<le> INT_MAX then Inr (int (length (body r))) else Inl (Throw Out_of_range)) \<and>
    (\<forall>k. \<not> ci_key_eq ''Content-Length'' k \<longrightarrow> response_get_header_value r' k = response_get_header_value r k) \<and>
    response_end r' = (r', False)"
proof -
  let ?r' = "fst (response_end r)"
  let ?s = "set_header ''Content-Length'' (to_string (int (length (body r)))) (r\<lparr>completed := True\<rparr>)"
  have r': "?r' = ?s\<lparr>body := [], manual_length_header := True\<rparr>"
    and call: "snd (response_end r) = has_complete_request_handler r"
    using assms by (simp_all add: response_end_def Let_def set_header_def)
  have get: "response_get_header_value ?r' k = response_get_header_value ?s k" for k
    unfolding r' by (simp add: response_get_header_value_def)
  have ci: "ci_key_eq ''Content-Length'' ''content-length''" by code_simp
  have "response_get_header_value ?r' ''content-length'' = to_string (int (length (body r)))"
    unfolding get get_set_header using ci by simp
  then have "stoi (response_get_header_value ?r' ''content-length'') =
      (if int (length (body r)) \<le> INT_MAX then Inr (int (length (body r))) else Inl (Throw Out_of_range))"
    by (simp add: stoi_def strtol_to_string in_int_def)
  moreover have "response_get_header_value ?r' k = response_get_header_value r k"
    if "\<not> ci_key_eq ''Content-Length'' k" for k
    using that unfolding get get_set_header by (simp add: response_get_header_value_def)
  moreover have "body ?r' = []" "code ?r' = code r" unfolding r' by (simp_all add: set_header_def)
  moreover have "response_end ?r' = (?r', False)" by (rule response_end_twice)
  moreover have "response_end r = (?r', has_complete_request_handler r)" unfolding call [symmetric] by simp
  ultimately show ?thesis by blast
qed

theorem response_end_head_witness:
  "\<exists>r'. response_end ((response_body ''pong'')\<lparr>skip_body := True\<rparr>) = (r', False) \<and> body r' = [] \<and>
     stoi (response_get_header_value r' ''content-length'') = Inr 4"
  using response_end_head [of "(response_body ''pong'')\<lparr>skip_body := True\<rparr>"]
  by (auto simp: response_body_def response_default_def)

end
