(* ===== verification/Handlers.thy ===== *)
theory Handlers
  imports Service Crow_Message
begin

text \<open>
  The HTTP handlers of the wallet (src/main.cpp): account numbers, and the four endpoints as
  functions from a request and the world to a response or a fault, and the world after it.
  A handler here runs alone; how several of them interleave is the theory \<open>Concurrency\<close>. Files
  are created where the code opens them for writing. The identifier of a new command is an
  argument, as in \<open>mk_Command\<close>.
\<close>

section \<open>Account numbers\<close>

text \<open>\<^verbatim>\<open>std::ofstream\<close> without \<open>app\<close>: the file is truncated.\<close>

definition write_file :: "string \<Rightarrow> string \<Rightarrow> 'db World \<Rightarrow> 'db World" where
  "write_file path txt s = s\<lparr>files := (files s)(path \<mapsto> txt)\<rparr>"

definition generateSeedFile :: "'db Extern \<Rightarrow> string \<Rightarrow> 'db World \<Rightarrow> 'db World" where
  "generateSeedFile ext sfile s =
     (if files s sfile = None then write_file sfile (oarchive ext [PInt 0]) s else s)"

definition read_seed :: "'db Extern \<Rightarrow> string \<Rightarrow> 'db World \<Rightarrow> int result" where
  "read_seed ext path s =
     (case files s path of
        None \<Rightarrow> Inl (Throw Archive_exception)
      | Some txt \<Rightarrow> (case iarchive ext [KInt] txt of
          Some [PInt i] \<Rightarrow> Inr i
        | _ \<Rightarrow> Inl (Throw Archive_exception)))"

definition account_id :: "int \<Rightarrow> string" where
  "account_id account_num = ''7'' @ setw_setfill 8 (CHR ''0'') (to_string account_num)"

definition genAccountID :: "'db Extern \<Rightarrow> string \<Rightarrow> 'db World \<Rightarrow> string result \<times> 'db World" where
  "genAccountID ext sfile s =
     (let s1 = generateSeedFile ext sfile s
      in case read_seed ext sfile s1 of Inl e \<Rightarrow> (Inl e, s1) | Inr account_num \<Rightarrow>
        (case int_result (account_num + 1) of Inl e \<Rightarrow> (Inl e, s1) | Inr account_num \<Rightarrow>
           (Inr (account_id account_num), write_file sfile (oarchive ext [PInt account_num]) s1)))"

section \<open>Endpoints\<close>

type_synonym 'db handler = "request \<Rightarrow> 'db World \<Rightarrow> response result \<times> 'db World"

text \<open>A parameter of the request: no value at all when the lookup leaves its buffer.\<close>

definition param :: "request \<Rightarrow> string \<Rightarrow> string option result" where
  "param req name = (case qs_value (url_params req) name of
     None \<Rightarrow> Inl Out_of_bounds_read | Some v \<Rightarrow> Inr v)"

definition endl :: "string \<Rightarrow> string" where
  "endl t = t @ [newline]"

text \<open>The checks of a new account: a response, or the amount it starts with.\<close>

definition start_amount :: "request \<Rightarrow> (response + int) result" where
  "start_amount req =
     (case param req ''startAmount'' of Inl e \<Rightarrow> Inl e
      | Inr None \<Rightarrow>
          Inr (Inl (response_code_body 400 (endl ''Missing required parameter: startAmount'')))
      | Inr (Some startAmountParam) \<Rightarrow>
     (case stoi startAmountParam of
        Inl e \<Rightarrow> Inr (Inl (response_code_body 400 (endl ''Invalid startAmount: must be an integer'')))
      | Inr startAmount \<Rightarrow>
          if startAmount < 0
          then Inr (Inl (response_code_body 400 (endl ''Invalid startAmount: must not be negative'')))
          else Inr (Inr startAmount)))"

definition create_account :: "'db Extern \<Rightarrow> Config \<Rightarrow> 'db handler" where
  "create_account ext config req s =
     (case start_amount req of Inl e \<Rightarrow> (Inl e, s)
      | Inr (Inl r) \<Rightarrow> (Inr r, s)
      | Inr (Inr startAmount) \<Rightarrow>
     (case genAccountID ext (seed_file config) s of (Inl e, s1) \<Rightarrow> (Inl e, s1) | (Inr accountID, s1) \<Rightarrow>
        (let v = to_string startAmount; s2 = service_Put ext accountID v s1
         in if \<not> ok (status s2) then (Inl Assert_failed, s2)
            else (Inr (response_body (endl (''Account: '' @ accountID @ '' : Balance: '' @ v))), s2))))"

text \<open>The three parameters of a transfer, in the order in which the condition looks at them.\<close>

definition transfer_params :: "request \<Rightarrow> (string \<times> string \<times> string) option result" where
  "transfer_params req =
     (case param req ''fromAccount'' of Inl e \<Rightarrow> Inl e | Inr None \<Rightarrow> Inr None
      | Inr (Some fromAccount) \<Rightarrow>
     (case param req ''toAccount'' of Inl e \<Rightarrow> Inl e | Inr None \<Rightarrow> Inr None
      | Inr (Some toAccount) \<Rightarrow>
     (case param req ''amount'' of Inl e \<Rightarrow> Inl e | Inr None \<Rightarrow> Inr None
      | Inr (Some amountStr) \<Rightarrow> Inr (Some (fromAccount, toAccount, amountStr)))))"

text \<open>The checks of a transfer before the queue is touched: a response, or the command to send.\<close>

definition transfer_command :: "string \<Rightarrow> request \<Rightarrow> (response + Command) result" where
  "transfer_command uuid req =
     (case transfer_params req of Inl e \<Rightarrow> Inl e
      | Inr None \<Rightarrow>
          Inr (Inl (response_code_body 400
            (endl ''Missing required parameters: fromAccount, toAccount, amount'')))
      | Inr (Some (fromAccount, toAccount, amountStr)) \<Rightarrow>
     (case stoi amountStr of
        Inl e \<Rightarrow> Inr (Inl (response_code_body 400 (endl ''Invalid amount: must be an integer'')))
      | Inr a \<Rightarrow>
          if a \<le> 0
          then Inr (Inl (response_code_body 400 (endl ''Invalid amount: must be a positive integer'')))
          else Inr (Inr (mk_Command uuid fromAccount toAccount (to_string a) ''TRANSFER''))))"

definition send_command :: "Command \<Rightarrow> 'db World \<Rightarrow> 'db World" where
  "send_command c s = s\<lparr>command_queue := send c (command_queue s)\<rparr>"

text \<open>
  From the wait for LISTEN to the response. A handler that runs alone stays in the wait
  when the state is another one.
\<close>

definition transfer_process :: "'db Extern \<Rightarrow> Config \<Rightarrow> 'db World \<Rightarrow> response result \<times> 'db World" where
  "transfer_process ext config s =
     (if getStateName (currentState s) \<noteq> ''LISTEN'' then (Inl Waits, s)
      else case toggle ext config s of
             (Some e, s1) \<Rightarrow> (Inl e, s1)
           | (None, s1) \<Rightarrow>
               (Inr (response_body (endl (''Return Status: '' @ ToString ext (status s1)))), s1))"

definition balance_transfer :: "'db Extern \<Rightarrow> Config \<Rightarrow> string \<Rightarrow> 'db handler" where
  "balance_transfer ext config uuid req s =
     (case transfer_command uuid req of Inl e \<Rightarrow> (Inl e, s)
      | Inr (Inl r) \<Rightarrow> (Inr r, s)
      | Inr (Inr c) \<Rightarrow> transfer_process ext config (send_command c s))"

definition get_balance :: "'db Extern \<Rightarrow> 'db handler" where
  "get_balance ext req s =
     (case param req ''accountID'' of Inl e \<Rightarrow> (Inl e, s)
      | Inr None \<Rightarrow> (Inr (response_body (endl ''Missing required parameter: accountID'')), s)
      | Inr (Some accountID) \<Rightarrow>
     (let (v, s1) = service_Get ext accountID s
      in if ok (status s1)
         then (Inr (response_body (endl (''Account: '' @ accountID @ '' : Balance: '' @ v))), s1)
         else (Inr (response_body (endl ''Account not found'')),
               log_cerr (''Account '' @ accountID @ '' not found.'') s1)))"

definition read_events :: "'db Extern \<Rightarrow> string \<Rightarrow> 'db World \<Rightarrow> (Event \<times> Event) result" where
  "read_events ext path s =
     (case files s path of
        None \<Rightarrow> Inr (Event_default, Event_default)
      | Some txt \<Rightarrow>
          (case iarchive ext (Event_kinds @ Event_kinds) txt of
             None \<Rightarrow> Inl (Throw Archive_exception)
           | Some ps \<Rightarrow> (case Event_load ps of
               None \<Rightarrow> Inl (Throw Archive_exception)
             | Some (event1, ps') \<Rightarrow> (case Event_load ps' of
                 None \<Rightarrow> Inl (Throw Archive_exception)
               | Some (event2, _) \<Rightarrow> Inr (event1, event2)))))"

definition events :: "'db Extern \<Rightarrow> Config \<Rightarrow> 'db handler" where
  "events ext config req s =
     (case read_events ext (event_log config) s of
        Inl e \<Rightarrow> (Inl e, s)
      | Inr (event1, event2) \<Rightarrow>
          (Inr (response_body (endl (Event_toString event1) @ endl (Event_toString event2))), s))"

text \<open>The routes \<open>main\<close> registers, with their handlers.\<close>

definition routes :: "'db Extern \<Rightarrow> Config \<Rightarrow> string \<Rightarrow> (string \<times> 'db handler) list" where
  "routes ext config uuid =
     [(''/api/1.0/wallet/create_account'', create_account ext config),
      (''/api/1.0/wallet/balance_transfer'', balance_transfer ext config uuid),
      (''/api/1.0/wallet/get_balance'', get_balance ext),
      (''/api/1.0/wallet/events'', events ext config)]"

end
