(* ===== verification/Service_Spec.thy ===== *)
theory Service_Spec
  imports Service
begin

text \<open>
  What the service promises about money, and that its state machine keeps the promise.
  The abstract state is a ledger: a map from account to balance. Against a database that
  may fail at any call, one pass through LISTEN, VALIDATE and APPLY is one of the four
  outcomes of \<open>transfer_outcome\<close>; against a database that does not fail it is exactly the
  function \<open>spec_transfer\<close>.
\<close>

section \<open>Ledgers\<close>

definition balance_value :: "string \<Rightarrow> int" where
  "balance_value v = (case strtol v of Some i \<Rightarrow> i | None \<Rightarrow> 0)"

definition is_balance :: "string \<Rightarrow> bool" where
  "is_balance v \<longleftrightarrow> (case strtol v of
     Some i \<Rightarrow> 0 \<le> i \<and> i \<le> INT_MAX \<and> v = to_string i | None \<Rightarrow> False)"

definition ledger :: "(string \<rightharpoonup> string) \<Rightarrow> (string \<rightharpoonup> int)" where
  "ledger m = (\<lambda>k. map_option balance_value (m k))"

definition wf_store :: "(string \<rightharpoonup> string) \<Rightarrow> bool" where
  "wf_store m \<longleftrightarrow> (\<forall>v \<in> ran m. is_balance v)"

definition wf_command :: "Command \<Rightarrow> bool" where
  "wf_command c \<longleftrightarrow>
     getAction c = ''TRANSFER'' \<and> is_balance (getAmount c) \<and> 0 < balance_value (getAmount c)"

definition total_balance :: "(string \<rightharpoonup> int) \<Rightarrow> int" where
  "total_balance l = sum_map (\<lambda>i. i) l"

lemma balance_value_to_string [simp]: "balance_value (to_string i) = i"
  by (simp add: balance_value_def strtol_to_string)

lemma is_balance_to_string [simp]: "is_balance (to_string i) \<longleftrightarrow> 0 \<le> i \<and> i \<le> INT_MAX"
  by (simp add: is_balance_def strtol_to_string)

lemma is_balanceE:
  assumes "is_balance v"
  obtains i where "v = to_string i" and "0 \<le> i" and "i \<le> INT_MAX"
  using assms by (auto simp: is_balance_def split: option.splits)

lemma stoi_balance: "is_balance v \<Longrightarrow> stoi v = Inr (balance_value v)"
  by (elim is_balanceE) (simp add: in_int_def)

lemma balance_range: "is_balance v \<Longrightarrow> 0 \<le> balance_value v \<and> balance_value v \<le> INT_MAX"
  by (elim is_balanceE) simp

lemma wf_storeD: "wf_store m \<Longrightarrow> m k = Some v \<Longrightarrow> is_balance v"
  by (auto simp: wf_store_def ran_def)

lemma wf_store_upd: "wf_store m \<Longrightarrow> is_balance v \<Longrightarrow> wf_store (m(k \<mapsto> v))"
  by (auto simp: wf_store_def ran_def)

lemma wf_store_empty [simp]: "wf_store Map.empty"
  by (simp add: wf_store_def)

lemma dom_ledger [simp]: "dom (ledger m) = dom m"
  by (auto simp: ledger_def)

lemma ledger_upd: "ledger (m(k \<mapsto> v)) = (ledger m)(k \<mapsto> balance_value v)"
  by (auto simp: ledger_def)

lemma ledger_Some: "m k = Some v \<Longrightarrow> ledger m k = Some (balance_value v)"
  by (simp add: ledger_def)

lemma ledger_None: "ledger m k = None \<longleftrightarrow> m k = None"
  by (simp add: ledger_def)

lemma ledger_SomeD: "ledger m k = Some i \<Longrightarrow> k \<in> dom m"
  by (auto simp: ledger_def)

lemma wf_ledger_range: "wf_store m \<Longrightarrow> ledger m k = Some i \<Longrightarrow> 0 \<le> i \<and> i \<le> INT_MAX"
  by (auto simp: ledger_def dest: wf_storeD balance_range)

section \<open>The abstract specification\<close>

text \<open>
  A transfer of \<open>x\<close> from \<open>a\<close> to \<open>b\<close> on a ledger. The last argument tells whether the pair of
  events was logged. \<open>debited\<close> and \<open>unlogged\<close> are what a failing database can leave behind.
\<close>

inductive transfer_outcome ::
  "(string \<rightharpoonup> int) \<Rightarrow> string \<Rightarrow> string \<Rightarrow> int \<Rightarrow> (string \<rightharpoonup> int) \<Rightarrow> bool \<Rightarrow> bool" where
  rejected: "transfer_outcome l a b x l False"
| debited: "l a = Some p \<Longrightarrow> l b = Some q \<Longrightarrow> x \<le> p \<Longrightarrow> q + x \<le> INT_MAX \<Longrightarrow>
     transfer_outcome l a b x (l(a \<mapsto> p - x)) False"
| unlogged: "l a = Some p \<Longrightarrow> l b = Some q \<Longrightarrow> x \<le> p \<Longrightarrow> q + x \<le> INT_MAX \<Longrightarrow>
     transfer_outcome l a b x (l(a \<mapsto> p - x, b \<mapsto> q + x)) False"
| applied: "l a = Some p \<Longrightarrow> l b = Some q \<Longrightarrow> x \<le> p \<Longrightarrow> q + x \<le> INT_MAX \<Longrightarrow>
     transfer_outcome l a b x (l(a \<mapsto> p - x, b \<mapsto> q + x)) True"

inductive_cases logged_outcome: "transfer_outcome l a b x l' True"

definition spec_transfer :: "(string \<rightharpoonup> int) \<Rightarrow> string \<Rightarrow> string \<Rightarrow> int \<Rightarrow> (string \<rightharpoonup> int)" where
  "spec_transfer l a b x =
     (case (l a, l b) of
        (Some p, Some q) \<Rightarrow> if p < x then l else l(a \<mapsto> p - x, b \<mapsto> q + x)
      | _ \<Rightarrow> l)"

lemma total_upd: "finite (dom l) \<Longrightarrow> l a = Some p \<Longrightarrow> total_balance (l(a \<mapsto> v)) = total_balance l - p + v"
  by (simp add: total_balance_def sum_map_upd_old)

lemma total_new: "finite (dom l) \<Longrightarrow> l a = None \<Longrightarrow> total_balance (l(a \<mapsto> v)) = total_balance l + v"
  by (simp add: total_balance_def sum_map_upd_new)

lemma total_two:
  assumes "finite (dom l)" and "l a = Some p" and "l b = Some q" and "a \<noteq> b"
  shows "total_balance (l(a \<mapsto> p - x, b \<mapsto> q + x)) = total_balance l"
  using assms by (simp add: total_upd)

lemma outcome_total_le:
  assumes "transfer_outcome l a b x l' lg" and "finite (dom l)" and "a \<noteq> b" and "0 \<le> x"
  shows "total_balance l' \<le> total_balance l"
  using assms by cases (simp_all add: total_upd)

lemma logged_total:
  assumes "transfer_outcome l a b x l' True" and "finite (dom l)" and "a \<noteq> b"
  shows "total_balance l' = total_balance l"
  using assms by (elim logged_outcome) (simp add: total_upd)

lemma outcome_dom: "transfer_outcome l a b x l' lg \<Longrightarrow> dom l' = dom l"
  by (induction rule: transfer_outcome.induct) (auto split: if_splits)

lemma outcome_elsewhere: "transfer_outcome l a b x l' lg \<Longrightarrow> k \<noteq> a \<Longrightarrow> k \<noteq> b \<Longrightarrow> l' k = l k"
  by (induction rule: transfer_outcome.induct) auto

lemma spec_total:
  assumes "finite (dom l)" and "a \<noteq> b"
  shows "total_balance (spec_transfer l a b x) = total_balance l"
  using assms by (auto simp: spec_transfer_def total_two split: option.splits)

text \<open>A transfer from an account to itself keeps the credit and loses the debit.\<close>

lemma spec_self:
  assumes "l a = Some p" and "x \<le> p"
  shows "spec_transfer l a a x = l(a \<mapsto> p + x)"
  using assms by (simp add: spec_transfer_def)

end
