(* ===== verification/Service_Proofs.thy ===== *)
theory Service_Proofs
  imports Service_Spec
begin

text \<open>
  One pass of the state machine, proved against the contract of the database. The locale
  \<open>wallet_env\<close> joins the contracts of the database and of the archives for the record of
  external code; \<open>reliable_env\<close> is the same over a database that does not fail.
\<close>

lemma setState_simps [simp]:
  "currentState (setState n s) = n"
  "accountDB (setState n s) = accountDB s"
  "status (setState n s) = status s"
  "command_queue (setState n s) = command_queue s"
  "command_to_process (setState n s) = command_to_process s"
  "files (setState n s) = files s"
  by (cases n; simp add: setState_def)+

lemma log_simps [simp]:
  "accountDB (log_cout l s) = accountDB s" "accountDB (log_cerr l s) = accountDB s"
  "status (log_cout l s) = status s" "status (log_cerr l s) = status s"
  "command_queue (log_cout l s) = command_queue s" "command_queue (log_cerr l s) = command_queue s"
  "command_to_process (log_cout l s) = command_to_process s"
  "command_to_process (log_cerr l s) = command_to_process s"
  "files (log_cout l s) = files s" "files (log_cerr l s) = files s"
  by (simp_all add: log_cout_def log_cerr_def)

lemma append_file_simps [simp]:
  "accountDB (append_file p t s) = accountDB s"
  "status (append_file p t s) = status s"
  "command_queue (append_file p t s) = command_queue s"
  "command_to_process (append_file p t s) = command_to_process s"
  by (simp_all add: append_file_def)

lemma db_error_simps [simp]:
  "currentState (db_error ext s) = ServiceListen"
  "accountDB (db_error ext s) = accountDB s"
  "status (db_error ext s) = status s"
  "command_queue (db_error ext s) = command_queue s"
  "command_to_process (db_error ext s) = command_to_process s"
  "files (db_error ext s) = files s"
  by (simp_all add: db_error_def)

lemma event_accounts [simp]:
  "account (eventA c) = getAccount1 c" "account (eventB c) = getAccount2 c"
  by (simp_all add: eventA_def eventB_def)

text \<open>Entering APPLY from VALIDATE runs \<open>ServiceApply_process\<close>.\<close>

lemma process_Apply [simp]:
  "process ext config (setState ServiceApply s) = ServiceApply_process ext config (setState ServiceApply s)"
  by (simp add: process.simps)

lemma process_Validate [simp]:
  "process ext config (setState ServiceValidate s)
     = ServiceValidate_process ext config (setState ServiceValidate s)"
  by (simp add: process.simps)

section \<open>The text logged for a command\<close>

definition logged_text :: "'db Extern \<Rightarrow> Command \<Rightarrow> string" where
  "logged_text ext c = oarchive ext (Event_save (eventA c) @ Event_save (eventB c))"

definition log_extended :: "'db Extern \<Rightarrow> Config \<Rightarrow> Command \<Rightarrow> 'db World \<Rightarrow> 'db World \<Rightarrow> bool" where
  "log_extended ext config c s s' \<longleftrightarrow>
     files s' = (files s)(event_log config \<mapsto>
       (case files s (event_log config) of None \<Rightarrow> [] | Some old \<Rightarrow> old) @ logged_text ext c)"

text \<open>
  What one pass over a command \<open>c\<close> may have done, whatever the database did: it ended in
  LISTEN with one of the outcomes of the specification, or it stopped on signed overflow
  of the credited balance with nothing written.
\<close>

definition pass_outcome ::
  "('db \<Rightarrow> (string \<rightharpoonup> string)) \<Rightarrow> 'db Extern \<Rightarrow> Config \<Rightarrow> Command \<Rightarrow> 'db World \<Rightarrow> 'db World stmt \<Rightarrow> bool" where
  "pass_outcome contents ext config c s res \<longleftrightarrow>
     (let l = ledger (contents (accountDB s)); a = getAccount1 c; b = getAccount2 c;
          x = balance_value (getAmount c); r = fst res; s' = snd res
      in wf_store (contents (accountDB s')) \<and>
         (r = None \<and> currentState s' = ServiceListen \<and>
            (\<exists>lg. transfer_outcome l a b x (ledger (contents (accountDB s'))) lg \<and>
               (if lg then log_extended ext config c s s' else files s' = files s))
          \<or> r = Some Signed_overflow \<and> contents (accountDB s') = contents (accountDB s) \<and>
            files s' = files s \<and> (\<exists>q. l b = Some q \<and> INT_MAX < q + x)))"

lemma pass_outcome_cong:
  assumes "contents (accountDB s1) = contents (accountDB s)" and "files s1 = files s"
  shows "pass_outcome contents ext config c s1 res = pass_outcome contents ext config c s res"
  using assms by (simp add: pass_outcome_def log_extended_def)

lemma pass_rejected:
  assumes "wf_store (contents (accountDB s))" and "contents (accountDB s') = contents (accountDB s)"
    and "files s' = files s" and "currentState s' = ServiceListen"
  shows "pass_outcome contents ext config c s (None, s')"
  using assms by (auto simp: pass_outcome_def intro: transfer_outcome.rejected)

locale wallet_env = rocksdb ext contents + archive "oarchive ext" "iarchive ext"
  for ext :: "'db Extern" and contents :: "'db \<Rightarrow> (string \<rightharpoonup> string)"
begin

lemma service_GetE:
  obtains d st v where "service_Get ext k s = (v, s\<lparr>accountDB := d, status := st\<rparr>)"
    and "contents d = contents (accountDB s)"
    and "ok st \<Longrightarrow> contents (accountDB s) k = Some v"
proof -
  obtain st v d where g: "db_Get ext (accountDB s) k = (st, v, d)" by (metis surj_pair)
  show ?thesis
    by (rule that [of v st d]) (use g in \<open>auto simp: service_Get_def dest: Get_keeps Get_ok\<close>)
qed

lemma service_PutE:
  obtains d st where "service_Put ext k v s = s\<lparr>accountDB := d, status := st\<rparr>"
    and "ok st \<Longrightarrow> contents d = (contents (accountDB s))(k \<mapsto> v)"
    and "\<not> ok st \<Longrightarrow> contents d = contents (accountDB s) \<or> contents d = (contents (accountDB s))(k \<mapsto> v)"
proof -
  obtain st d where p: "db_Put ext (accountDB s) k v = (st, d)" by (metis surj_pair)
  show ?thesis
    by (rule that [of st d]) (use p in \<open>auto simp: service_Put_def dest: Put_ok Put_failed\<close>)
qed

text \<open>
  The writing half of APPLY always returns to LISTEN. Nothing but the two accounts is
  written, the credit is written only after the debit, and the events are logged exactly
  when both writes succeeded.
\<close>

lemma apply_writes_outcome:
  assumes "apply_writes ext config b1 b2 s = (r, s')"
    and c: "command_to_process s = c" and m: "contents (accountDB s) = m"
  shows "r = None \<and> currentState s' = ServiceListen \<and> command_queue s' = command_queue s \<and>
    (log_extended ext config c s s' \<and> ok (status s') \<and>
       contents (accountDB s') = m(getAccount1 c \<mapsto> to_string b1, getAccount2 c \<mapsto> to_string b2)
     \<or> files s' = files s \<and> \<not> ok (status s') \<and>
       contents (accountDB s') \<in> {m, m(getAccount1 c \<mapsto> to_string b1),
         m(getAccount1 c \<mapsto> to_string b1, getAccount2 c \<mapsto> to_string b2)})"
proof -
  obtain d1 st1 where p1: "service_Put ext (getAccount1 c) (to_string b1) s = s\<lparr>accountDB := d1, status := st1\<rparr>"
    and ok1: "ok st1 \<Longrightarrow> contents d1 = m(getAccount1 c \<mapsto> to_string b1)"
    and f1: "\<not> ok st1 \<Longrightarrow> contents d1 = m \<or> contents d1 = m(getAccount1 c \<mapsto> to_string b1)"
    using m by (metis service_PutE)
  show ?thesis
  proof (cases "ok st1")
    case False
    with assms(1) f1 show ?thesis by (auto simp: apply_writes_def c p1 Let_def)
  next
    case True
    obtain d2 st2 where p2: "service_Put ext (getAccount2 c) (to_string b2) (s\<lparr>accountDB := d1, status := st1\<rparr>)
         = s\<lparr>accountDB := d2, status := st2\<rparr>"
      and ok2: "ok st2 \<Longrightarrow> contents d2 = (contents d1)(getAccount2 c \<mapsto> to_string b2)"
      and f2: "\<not> ok st2 \<Longrightarrow> contents d2 = contents d1 \<or> contents d2 = (contents d1)(getAccount2 c \<mapsto> to_string b2)"
      by (rule service_PutE [of "getAccount2 c" "to_string b2" "s\<lparr>accountDB := d1, status := st1\<rparr>"]) auto
    from assms(1) True ok1 ok2 f2 show ?thesis
      by (auto simp: apply_writes_def c p1 p2 Let_def log_extended_def logged_text_def append_file_def
            split: if_splits)
  qed
qed

text \<open>The balances APPLY computes, turned into an outcome on ledgers.\<close>

lemma writes_pass:
  assumes w: "apply_writes ext config (balance_value va - x) (balance_value vb + x) s = (r, s')"
    and c: "command_to_process s = c" and x: "x = balance_value (getAmount c)"
    and m: "m = contents (accountDB s)" and wf: "wf_store m"
    and va: "m (getAccount1 c) = Some va" and vb: "m (getAccount2 c) = Some vb"
    and le: "0 \<le> x" "x \<le> balance_value va" "balance_value vb + x \<le> INT_MAX"
  shows "pass_outcome contents ext config c s (r, s')"
proof -
  let ?b1 = "balance_value va - x" and ?b2 = "balance_value vb + x"
  have rng: "is_balance (to_string ?b1)" "is_balance (to_string ?b2)"
    using le balance_range [OF wf_storeD [OF wf va]] balance_range [OF wf_storeD [OF wf vb]] by simp_all
  have la: "ledger m (getAccount1 c) = Some (balance_value va)"
    and lb: "ledger m (getAccount2 c) = Some (balance_value vb)"
    using va vb by (simp_all add: ledger_Some)
  note out = transfer_outcome.intros(2-4) [OF la lb le(2,3)]
  have wfs: "wf_store (m(getAccount1 c \<mapsto> to_string ?b1))"
    "wf_store (m(getAccount1 c \<mapsto> to_string ?b1, getAccount2 c \<mapsto> to_string ?b2))"
    using wf rng by (simp_all add: wf_store_upd)
  let ?m1 = "m(getAccount1 c \<mapsto> to_string ?b1)" and ?m' = "contents (accountDB s')"
  let ?m2 = "?m1(getAccount2 c \<mapsto> to_string ?b2)"
  have aw: "r = None" "currentState s' = ServiceListen"
    and cases: "log_extended ext config c s s' \<and> ?m' = ?m2 \<or> files s' = files s \<and> ?m' \<in> {m, ?m1, ?m2}"
    using apply_writes_outcome [OF w c m [symmetric]] by blast+
  have "wf_store ?m'" using cases wf wfs by (elim disjE conjE insertE) auto
  moreover from cases have "\<exists>lg. transfer_outcome (ledger m) (getAccount1 c) (getAccount2 c) x (ledger ?m') lg \<and>
      (if lg then log_extended ext config c s s' else files s' = files s)"
  proof (elim disjE conjE)
    assume "log_extended ext config c s s'" and "?m' = ?m2"
    then show ?thesis using out(3) by (intro exI [of _ True]) (simp add: ledger_upd)
  next
    assume "files s' = files s" and "?m' \<in> {m, ?m1, ?m2}"
    then show ?thesis
      using out(1,2) transfer_outcome.rejected by (intro exI [of _ False]) (elim insertE; simp add: ledger_upd)
  qed
  ultimately show ?thesis
    using aw unfolding pass_outcome_def Let_def x [symmetric] m [symmetric] fst_conv snd_conv by blast
qed

lemma apply_pass:
  assumes "command_to_process s = c" and "wf_command c" and "wf_store (contents (accountDB s))"
    and le: "\<And>v. contents (accountDB s) (getAccount1 c) = Some v \<Longrightarrow> balance_value (getAmount c) \<le> balance_value v"
  shows "pass_outcome contents ext config c s (ServiceApply_process ext config s)"
proof -
  note wf = assms(3)
  obtain d1 st1 va where g1: "service_Get ext (getAccount1 c) s = (va, s\<lparr>accountDB := d1, status := st1\<rparr>)"
    and k1: "contents d1 = contents (accountDB s)"
    and v1: "ok st1 \<Longrightarrow> contents (accountDB s) (getAccount1 c) = Some va"
    by (rule service_GetE [of "getAccount1 c" s]) blast
  obtain d2 st2 vb where g2: "service_Get ext (getAccount2 c) (s\<lparr>accountDB := d1, status := st1\<rparr>)
       = (vb, s\<lparr>accountDB := d2, status := st2\<rparr>)"
    and k2: "contents d2 = contents (accountDB s)"
    and v2: "ok st2 \<Longrightarrow> contents (accountDB s) (getAccount2 c) = Some vb"
    by (rule service_GetE [of "getAccount2 c" "s\<lparr>accountDB := d1, status := st1\<rparr>"]) (auto simp: k1)
  show ?thesis
  proof (cases "ok st1 \<and> ok st2")
    case False
    then show ?thesis
      using g1 g2 k1 k2 v1 wf stoi_balance [OF wf_storeD [OF wf]]
      by (auto simp: ServiceApply_process_def assms(1) Let_def intro!: pass_rejected)
  next
    case True
    let ?x = "balance_value (getAmount c)" and ?s2 = "s\<lparr>accountDB := d2, status := st2\<rparr>"
    have b: "is_balance va" "is_balance vb" "is_balance (getAmount c)"
      using True v1 v2 wf assms(2) by (auto dest: wf_storeD simp: wf_command_def)
    have i1: "in_int (balance_value va - ?x)"
      using b [THEN balance_range] le True v1 by (simp add: in_int_def)
    have eq: "ServiceApply_process ext config s =
        (case int_result (balance_value vb + ?x) of Inl e \<Rightarrow> (Some e, ?s2)
         | Inr b2 \<Rightarrow> apply_writes ext config (balance_value va - ?x) b2 ?s2)"
      using True g1 g2 b i1 by (simp add: ServiceApply_process_def assms(1) stoi_balance)
    show ?thesis
    proof (cases "balance_value vb + ?x \<le> INT_MAX")
      case False
      then have "\<not> in_int (balance_value vb + ?x)" by (simp add: in_int_def)
      with False True v2 wf k2 show ?thesis
        unfolding eq by (auto simp: pass_outcome_def ledger_Some)
    next
      case sum: True
      then have i2: "in_int (balance_value vb + ?x)"
        using b [THEN balance_range] by (simp add: in_int_def)
      obtain r s' where w: "apply_writes ext config (balance_value va - ?x) (balance_value vb + ?x) ?s2 = (r, s')"
        by (metis surj_pair)
      have "pass_outcome contents ext config c ?s2 (r, s')"
        by (rule writes_pass [OF w, where m = "contents d2"])
           (use assms True v1 v2 k2 wf b [THEN balance_range] le sum in auto)
      then show ?thesis
        unfolding eq using i2 w k2 by (simp add: pass_outcome_cong [of contents ?s2 s])
    qed
  qed
qed

lemma validate_pass:
  assumes "command_to_process s = c" and "wf_command c" and "wf_store (contents (accountDB s))"
  shows "pass_outcome contents ext config c s (ServiceValidate_process ext config s)"
proof -
  note wf = assms(3)
  obtain d1 st1 vb where g1: "service_Get ext (getAccount2 c) s = (vb, s\<lparr>accountDB := d1, status := st1\<rparr>)"
    and k1: "contents d1 = contents (accountDB s)"
    by (rule service_GetE [of "getAccount2 c" s]) blast
  obtain d2 st2 va where g2: "service_Get ext (getAccount1 c) (s\<lparr>accountDB := d1, status := st1\<rparr>)
       = (va, s\<lparr>accountDB := d2, status := st2\<rparr>)"
    and k2: "contents d2 = contents (accountDB s)"
    and v2: "ok st2 \<Longrightarrow> contents (accountDB s) (getAccount1 c) = Some va"
    by (rule service_GetE [of "getAccount1 c" "s\<lparr>accountDB := d1, status := st1\<rparr>"]) (auto simp: k1)
  show ?thesis
  proof (cases "ok st1 \<and> ok st2")
    case False
    with g1 g2 k1 k2 wf show ?thesis
      by (auto simp: ServiceValidate_process.simps assms(1) Let_def intro!: pass_rejected)
  next
    case True
    let ?s2 = "s\<lparr>accountDB := d2, status := st2\<rparr>" and ?x = "balance_value (getAmount c)"
    have b: "is_balance va" "is_balance (getAmount c)"
      using True v2 wf assms(2) by (auto dest: wf_storeD simp: wf_command_def)
    have eq: "ServiceValidate_process ext config s =
        (if balance_value va < ?x then (None, setState ServiceListen (log_cerr ''Balance too low'' ?s2))
         else ServiceApply_process ext config (setState ServiceApply ?s2))"
      using True g1 g2 b assms(2)
      by (simp add: ServiceValidate_process.simps assms(1) stoi_balance wf_command_def)
    show ?thesis
    proof (cases "balance_value va < ?x")
      case low: True
      then show ?thesis using wf k2 by (auto simp: eq intro: pass_rejected)
    next
      case False
      have "pass_outcome contents ext config c (setState ServiceApply ?s2)
              (ServiceApply_process ext config (setState ServiceApply ?s2))"
        by (rule apply_pass) (use assms wf k2 v2 True False in auto)
      then show ?thesis
        using False k2 by (simp add: eq pass_outcome_cong [of contents "setState ServiceApply ?s2" s])
    qed
  qed
qed

theorem toggle_pass:
  assumes "currentState s = ServiceListen" and "receive (command_queue s) = Some (c, q)"
    and "wf_command c" and "wf_store (contents (accountDB s))"
  shows "pass_outcome contents ext config c s (toggle ext config s)"
proof -
  let ?s1 = "setState ServiceValidate (s\<lparr>command_to_process := c, command_queue := q\<rparr>)"
  have "pass_outcome contents ext config c ?s1 (ServiceValidate_process ext config ?s1)"
    by (rule validate_pass) (use assms in auto)
  then show ?thesis
    using assms by (simp add: toggle_def ServiceListen_toggle_def pass_outcome_cong [of contents ?s1 s])
qed

end

section \<open>What a pass leaves alone\<close>

lemma service_Get_frame [simp]:
  "command_queue (snd (service_Get ext k s)) = command_queue s"
  "command_to_process (snd (service_Get ext k s)) = command_to_process s"
  "currentState (snd (service_Get ext k s)) = currentState s"
  "files (snd (service_Get ext k s)) = files s"
  by (simp_all add: service_Get_def split: prod.splits)

lemma service_Put_frame [simp]:
  "command_queue (service_Put ext k v s) = command_queue s"
  "command_to_process (service_Put ext k v s) = command_to_process s"
  "currentState (service_Put ext k v s) = currentState s"
  "files (service_Put ext k v s) = files s"
  by (simp_all add: service_Put_def split: prod.splits)

lemma apply_writes_queue: "command_queue (snd (apply_writes ext config x y s)) = command_queue s"
  by (simp add: apply_writes_def Let_def)

lemma ServiceApply_queue: "command_queue (snd (ServiceApply_process ext config s)) = command_queue s"
  by (auto simp: ServiceApply_process_def Let_def apply_writes_queue case_prod_beta split: sum.splits)

lemma ServiceValidate_queue:
  "command_queue (snd (ServiceValidate_process ext config s)) = command_queue s"
  by (auto simp: ServiceValidate_process.simps Let_def case_prod_beta ServiceApply_queue split: sum.splits)

lemma toggle_queue:
  assumes "currentState s = ServiceListen" and "receive (command_queue s) = Some (c, q)"
  shows "command_queue (snd (toggle ext config s)) = q"
  using assms by (simp add: toggle_def ServiceListen_toggle_def ServiceValidate_queue)

lemma toggle_empty_waits:
  "currentState s = ServiceListen \<Longrightarrow> command_queue s = [] \<Longrightarrow> toggle ext config s = (Some Waits, s)"
  by (simp add: toggle_def ServiceListen_toggle_def)

lemma toggle_elsewhere: "currentState s \<noteq> ServiceListen \<Longrightarrow> toggle ext config s = (None, s)"
  by (cases "currentState s") (simp_all add: toggle_def)

end
