(* ===== verification/Service_Exact.thy ===== *)
theory Service_Exact
  imports Service_Proofs
begin

text \<open>
  The state machine over a database that does not fail: one pass computes exactly
  \<open>spec_transfer\<close>, logs the pair of events exactly when the transfer is accepted, and
  reports an OK status whenever both accounts exist.
\<close>

definition accepts :: "(string \<rightharpoonup> int) \<Rightarrow> string \<Rightarrow> string \<Rightarrow> int \<Rightarrow> bool" where
  "accepts l a b x \<longleftrightarrow> (case (l a, l b) of (Some p, Some q) \<Rightarrow> x \<le> p | _ \<Rightarrow> False)"

text \<open>Crediting an accepted transfer does not overflow.\<close>

definition credit_fits :: "(string \<rightharpoonup> int) \<Rightarrow> string \<Rightarrow> string \<Rightarrow> int \<Rightarrow> bool" where
  "credit_fits l a b x \<longleftrightarrow>
     (case (l a, l b) of (Some p, Some q) \<Rightarrow> x \<le> p \<longrightarrow> q + x \<le> INT_MAX | _ \<Rightarrow> True)"

lemma credit_fits_within_total:
  assumes "finite (dom l)" and "\<And>k i. l k = Some i \<Longrightarrow> 0 \<le> i" and "a \<noteq> b" and "total_balance l \<le> INT_MAX"
  shows "credit_fits l a b x"
proof -
  have "q + x \<le> INT_MAX" if "l a = Some p" "l b = Some q" "x \<le> p" for p q
  proof -
    have "{a, b} \<subseteq> dom l" using that by auto
    then have "(\<Sum>k \<in> {a, b}. the (l k)) \<le> total_balance l"
      unfolding total_balance_def sum_map_def using assms(1,2) by (intro sum_mono2) auto
    with that assms(3,4) show ?thesis by simp
  qed
  then show ?thesis by (auto simp: credit_fits_def split: option.splits)
qed

lemma spec_not_accepted: "\<not> accepts l a b x \<Longrightarrow> spec_transfer l a b x = l"
  by (auto simp: accepts_def spec_transfer_def split: option.splits)

lemma spec_accepted:
  "l a = Some p \<Longrightarrow> l b = Some q \<Longrightarrow> x \<le> p \<Longrightarrow> spec_transfer l a b x = l(a \<mapsto> p - x, b \<mapsto> q + x)"
  by (simp add: spec_transfer_def)

locale reliable_env = wallet_env ext contents + reliable_rocksdb ext contents
  for ext :: "'db Extern" and contents :: "'db \<Rightarrow> (string \<rightharpoonup> string)"
begin

lemma reliable_GetE:
  obtains d st v where "service_Get ext k s = (v, s\<lparr>accountDB := d, status := st\<rparr>)"
    and "contents d = contents (accountDB s)"
    and "ok st \<longleftrightarrow> k \<in> dom (contents (accountDB s))"
    and "\<And>w. contents (accountDB s) k = Some w \<Longrightarrow> v = w"
proof -
  obtain st v d where g: "db_Get ext (accountDB s) k = (st, v, d)" by (metis surj_pair)
  show ?thesis
    by (rule that [of v st d])
       (use g Get_iff [OF g] in \<open>auto simp: service_Get_def dest: Get_keeps Get_value\<close>)
qed

lemma reliable_Put: "ok (status (service_Put ext k v s))"
  by (auto simp: service_Put_def split: prod.splits dest: Put_reliable)

lemma reliable_writes: "ok (status (snd (apply_writes ext config b1 b2 s)))"
  by (simp add: apply_writes_def Let_def reliable_Put)

lemma apply_exact:
  assumes "command_to_process s = c" and "wf_command c" and "wf_store (contents (accountDB s))"
    and va: "contents (accountDB s) (getAccount1 c) = Some va"
    and vb: "contents (accountDB s) (getAccount2 c) = Some vb"
    and x: "x = balance_value (getAmount c)"
    and le: "x \<le> balance_value va" "balance_value vb + x \<le> INT_MAX"
  obtains s' where "ServiceApply_process ext config s = (None, s')"
    and "currentState s' = ServiceListen" and "ok (status s')" and "log_extended ext config c s s'"
    and "contents (accountDB s') = (contents (accountDB s))
           (getAccount1 c \<mapsto> to_string (balance_value va - x), getAccount2 c \<mapsto> to_string (balance_value vb + x))"
proof -
  note wf = assms(3)
  obtain d1 st1 where g1: "service_Get ext (getAccount1 c) s = (va, s\<lparr>accountDB := d1, status := st1\<rparr>)"
    and k1: "contents d1 = contents (accountDB s)" and o1: "ok st1"
    by (rule reliable_GetE [of "getAccount1 c" s]) (use va in auto)
  obtain d2 st2 where g2: "service_Get ext (getAccount2 c) (s\<lparr>accountDB := d1, status := st1\<rparr>)
       = (vb, s\<lparr>accountDB := d2, status := st2\<rparr>)"
    and k2: "contents d2 = contents (accountDB s)" and o2: "ok st2"
    by (rule reliable_GetE [of "getAccount2 c" "s\<lparr>accountDB := d1, status := st1\<rparr>"])
       (use vb k1 in auto)
  have b: "is_balance va" "is_balance vb" "is_balance (getAmount c)"
    using va vb wf assms(2) by (auto dest: wf_storeD simp: wf_command_def)
  have i: "in_int (balance_value va - x)" "in_int (balance_value vb + x)"
    using b [THEN balance_range] le x by (simp_all add: in_int_def)
  let ?s2 = "s\<lparr>accountDB := d2, status := st2\<rparr>"
  let ?w = "apply_writes ext config (balance_value va - x) (balance_value vb + x) ?s2"
  have eq: "ServiceApply_process ext config s = ?w"
    using g1 g2 o1 o2 b i x by (simp add: ServiceApply_process_def assms(1) stoi_balance)
  obtain r s' where w: "?w = (r, s')" by (metis surj_pair)
  have "ok (status s')" using reliable_writes [of config "balance_value va - x" "balance_value vb + x" ?s2] w by simp
  with apply_writes_outcome [OF w, of c "contents d2"] assms(1)
  have "r = None" "currentState s' = ServiceListen" "ok (status s')" "log_extended ext config c s s'"
    "contents (accountDB s') = (contents d2)
       (getAccount1 c \<mapsto> to_string (balance_value va - x), getAccount2 c \<mapsto> to_string (balance_value vb + x))"
    by (auto simp: log_extended_def)
  with that [of s'] eq w k2 show ?thesis by simp
qed

lemma validate_exact:
  assumes "command_to_process s = c" and "wf_command c" and "wf_store (contents (accountDB s))"
    and l: "l = ledger (contents (accountDB s))" and x: "x = balance_value (getAmount c)"
    and fits: "credit_fits l (getAccount1 c) (getAccount2 c) x"
  obtains s' where "ServiceValidate_process ext config s = (None, s')"
    and "currentState s' = ServiceListen"
    and "ledger (contents (accountDB s')) = spec_transfer l (getAccount1 c) (getAccount2 c) x"
    and "if accepts l (getAccount1 c) (getAccount2 c) x then log_extended ext config c s s' else files s' = files s"
    and "ok (status s') \<longleftrightarrow> getAccount1 c \<in> dom l \<and> getAccount2 c \<in> dom l"
proof -
  let ?m = "contents (accountDB s)" and ?a = "getAccount1 c" and ?b = "getAccount2 c"
  obtain d1 st1 vb where g1: "service_Get ext ?b s = (vb, s\<lparr>accountDB := d1, status := st1\<rparr>)"
    and k1: "contents d1 = ?m" and o1: "ok st1 \<longleftrightarrow> ?b \<in> dom ?m"
    by (rule reliable_GetE [of ?b s]) blast
  obtain d2 st2 va where g2: "service_Get ext ?a (s\<lparr>accountDB := d1, status := st1\<rparr>)
       = (va, s\<lparr>accountDB := d2, status := st2\<rparr>)"
    and k2: "contents d2 = ?m" and o2: "ok st2 \<longleftrightarrow> ?a \<in> dom ?m"
    and v2: "\<And>w. ?m ?a = Some w \<Longrightarrow> va = w"
    by (rule reliable_GetE [of ?a "s\<lparr>accountDB := d1, status := st1\<rparr>"]) (use k1 in auto)
  let ?s2 = "s\<lparr>accountDB := d2, status := st2\<rparr>"
  show thesis
  proof (cases "ok st1 \<and> ok st2")
    case False
    then have na: "\<not> accepts l ?a ?b x"
      using o1 o2 l by (auto simp: accepts_def ledger_def split: option.splits)
    from False g1 g2 k1 k2 show ?thesis
      by (intro that [of "snd (ServiceValidate_process ext config s)"])
         (use na o1 o2 l spec_not_accepted [OF na] in
           \<open>auto simp: ServiceValidate_process.simps assms(1) Let_def\<close>)
  next
    case True
    then obtain wa wb where w: "?m ?a = Some wa" "?m ?b = Some wb" using o1 o2 by auto
    have la: "l ?a = Some (balance_value va)" "l ?b = Some (balance_value wb)" "?m ?a = Some va"
      using w v2 l by (auto simp: ledger_Some)
    have b: "is_balance va" "is_balance (getAmount c)"
      using la(3) assms(2,3) by (auto dest: wf_storeD simp: wf_command_def)
    have eq: "ServiceValidate_process ext config s =
        (if balance_value va < x then (None, setState ServiceListen (log_cerr ''Balance too low'' ?s2))
         else ServiceApply_process ext config (setState ServiceApply ?s2))"
      using True g1 g2 b assms(2) x
      by (simp add: ServiceValidate_process.simps assms(1) stoi_balance wf_command_def)
    show ?thesis
    proof (cases "balance_value va < x")
      case low: True
      then have na: "\<not> accepts l ?a ?b x" using la by (simp add: accepts_def)
      from low True show ?thesis
        by (intro that [of "setState ServiceListen (log_cerr ''Balance too low'' ?s2)"])
           (use na eq k2 l la w spec_not_accepted [OF na] in auto)
    next
      case False
      obtain s' where s': "ServiceApply_process ext config (setState ServiceApply ?s2) = (None, s')"
        "currentState s' = ServiceListen" "ok (status s')"
        "log_extended ext config c (setState ServiceApply ?s2) s'"
        "contents (accountDB s') = ?m(?a \<mapsto> to_string (balance_value va - x), ?b \<mapsto> to_string (balance_value wb + x))"
        by (rule apply_exact [of "setState ServiceApply ?s2" c va wb x])
           (use assms k2 la w False fits x in \<open>auto simp: credit_fits_def\<close>)
      from False have "accepts l ?a ?b x" using la by (simp add: accepts_def)
      then show ?thesis
        using s' False la l w by (intro that [of s']) (auto simp: eq log_extended_def ledger_upd spec_accepted)
    qed
  qed
qed

theorem toggle_exact:
  assumes "currentState s = ServiceListen" and "receive (command_queue s) = Some (c, q)"
    and "wf_command c" and "wf_store (contents (accountDB s))"
    and l: "l = ledger (contents (accountDB s))" and x: "x = balance_value (getAmount c)"
    and fits: "credit_fits l (getAccount1 c) (getAccount2 c) x"
  obtains s' where "toggle ext config s = (None, s')"
    and "currentState s' = ServiceListen" and "command_queue s' = q"
    and "ledger (contents (accountDB s')) = spec_transfer l (getAccount1 c) (getAccount2 c) x"
    and "if accepts l (getAccount1 c) (getAccount2 c) x then log_extended ext config c s s' else files s' = files s"
    and "ok (status s') \<longleftrightarrow> getAccount1 c \<in> dom l \<and> getAccount2 c \<in> dom l"
proof -
  let ?s1 = "setState ServiceValidate (s\<lparr>command_to_process := c, command_queue := q\<rparr>)"
  obtain s' where v: "ServiceValidate_process ext config ?s1 = (None, s')"
    and r: "currentState s' = ServiceListen"
      "ledger (contents (accountDB s')) = spec_transfer l (getAccount1 c) (getAccount2 c) x"
      "if accepts l (getAccount1 c) (getAccount2 c) x then log_extended ext config c ?s1 s' else files s' = files ?s1"
      "ok (status s') \<longleftrightarrow> getAccount1 c \<in> dom l \<and> getAccount2 c \<in> dom l"
    by (rule validate_exact [of ?s1 c l x]) (use assms in auto)
  have t: "toggle ext config s = (None, s')"
    using assms(1,2) v by (simp add: toggle_def ServiceListen_toggle_def)
  have "command_queue s' = q" using toggle_queue [OF assms(1,2), of ext config] t by simp
  with t r show ?thesis by (intro that [of s']) (auto simp: log_extended_def)
qed

end

end
