(* ===== verification/Handlers_Proofs.thy ===== *)
theory Handlers_Proofs
  imports Handlers Service_Exact
begin

text \<open>
  Facts about the handlers: account numbers are distinct, the checks of the requests decide
  which commands are sent, and what every handler keeps of the invariant \<open>wallet_inv\<close> of the
  whole service.
\<close>

section \<open>Account numbers\<close>

lemma digits_value_account: "0 \<le> n \<Longrightarrow> digits_value 0 (tl (account_id n)) = nat n"
  by (simp add: account_id_def to_string_nonneg setw_value)

lemma account_id_inj: "account_id i = account_id j \<Longrightarrow> 0 \<le> i \<Longrightarrow> 0 \<le> j \<Longrightarrow> i = j"
  using digits_value_account by (metis int_nat_eq)

lemma account_id_length: "0 \<le> n \<Longrightarrow> n < 10 ^ 8 \<Longrightarrow> length (account_id n) = 9"
  using show_nat_length [of "nat n" 8]
  by (simp add: account_id_def to_string_nonneg setw_length max_def nat_less_iff)

lemma files_write_file [simp]: "files (write_file p t s) = (files s)(p \<mapsto> t)"
  by (simp add: write_file_def)

lemma write_file_frame [simp]:
  "accountDB (write_file p t s) = accountDB s" "command_queue (write_file p t s) = command_queue s"
  "currentState (write_file p t s) = currentState s" "status (write_file p t s) = status s"
  by (simp_all add: write_file_def)

text \<open>The number the seed file stands for: a missing file counts as 0.\<close>

definition seed_number :: "'db Extern \<Rightarrow> string \<Rightarrow> 'db World \<Rightarrow> int result" where
  "seed_number ext sfile s = (if files s sfile = None then Inr 0 else read_seed ext sfile s)"

lemma seed_number_cong: "files s' sfile = files s sfile \<Longrightarrow> seed_number ext sfile s' = seed_number ext sfile s"
  by (simp add: seed_number_def read_seed_def)

context wallet_env
begin

lemma read_written_seed: "files s sfile = Some (oarchive ext [PInt n]) \<Longrightarrow> read_seed ext sfile s = Inr n"
  by (simp add: read_seed_def load_int)

lemma read_after_generate: "read_seed ext sfile (generateSeedFile ext sfile s) = seed_number ext sfile s"
  by (simp add: generateSeedFile_def seed_number_def read_written_seed)

lemma genAccountID_counts:
  assumes "seed_number ext sfile s = Inr n"
  shows "genAccountID ext sfile s =
    (if in_int (n + 1)
     then (Inr (account_id (n + 1)), write_file sfile (oarchive ext [PInt (n + 1)]) (generateSeedFile ext sfile s))
     else (Inl Signed_overflow, generateSeedFile ext sfile s))"
  using assms by (simp add: genAccountID_def Let_def read_after_generate)

lemma seed_number_written:
  "seed_number ext sfile (write_file sfile (oarchive ext [PInt n]) s) = Inr n"
  by (simp add: seed_number_def read_written_seed)

lemma seed_number_generate: "seed_number ext sfile (generateSeedFile ext sfile s) = seed_number ext sfile s"
  by (simp add: generateSeedFile_def seed_number_def read_written_seed)

end

lemma generateSeedFile_frame [simp]:
  "accountDB (generateSeedFile ext f s) = accountDB s"
  "command_queue (generateSeedFile ext f s) = command_queue s"
  "currentState (generateSeedFile ext f s) = currentState s"
  "p \<noteq> f \<Longrightarrow> files (generateSeedFile ext f s) p = files s p"
  by (simp_all add: generateSeedFile_def)

section \<open>What the checks let through\<close>

lemma transfer_command_wf:
  assumes "transfer_command uuid req = Inr (Inr c)"
  shows "wf_command c" and "getID c = uuid"
    and "\<exists>a x. transfer_params req = Inr (Some (getAccount1 c, getAccount2 c, a)) \<and>
           stoi a = Inr x \<and> 0 < x \<and> balance_value (getAmount c) = x"
proof -
  obtain f t a x where p: "transfer_params req = Inr (Some (f, t, a))" and x: "stoi a = Inr x" "0 < x"
    and c: "c = mk_Command uuid f t (to_string x) ''TRANSFER''"
    using assms by (auto simp: transfer_command_def split: sum.splits option.splits if_splits)
  from x have "x \<le> INT_MAX" using stoi_range [OF x(1)] by (simp add: in_int_def)
  with x show "wf_command c" by (simp add: c wf_command_def mk_Command_def)
  show "getID c = uuid" by (simp add: c mk_Command_def)
  show "\<exists>a x. transfer_params req = Inr (Some (getAccount1 c, getAccount2 c, a)) \<and>
           stoi a = Inr x \<and> 0 < x \<and> balance_value (getAmount c) = x"
    using p x by (simp add: c mk_Command_def)
qed

lemma start_amount_range:
  assumes "start_amount req = Inr (Inr x)"
  shows "0 \<le> x" and "x \<le> INT_MAX" and "\<exists>v. param req ''startAmount'' = Inr (Some v) \<and> stoi v = Inr x"
proof -
  obtain v where v: "param req ''startAmount'' = Inr (Some v)" "stoi v = Inr x" "0 \<le> x"
    using assms by (auto simp: start_amount_def split: sum.splits option.splits if_splits)
  then show "0 \<le> x" and "x \<le> INT_MAX" using stoi_range [OF v(2)] by (simp_all add: in_int_def)
  show "\<exists>v. param req ''startAmount'' = Inr (Some v) \<and> stoi v = Inr x" using v by blast
qed

lemma receive_sent [simp]:
  "receive (command_queue (send_command c s)) = Some (c, command_queue s)"
  by (simp add: send_command_def mq.receive_send)

lemma send_command_frame [simp]:
  "accountDB (send_command c s) = accountDB s" "files (send_command c s) = files s"
  "currentState (send_command c s) = currentState s"
  by (simp_all add: send_command_def)

section \<open>The invariant of the service\<close>

text \<open>
  The service is in LISTEN, every stored balance is well-formed, every waiting command is,
  and the accounts of the database are among those the seed file has handed out.
\<close>

definition accounts_numbered :: "(string \<rightharpoonup> string) \<Rightarrow> int \<Rightarrow> bool" where
  "accounts_numbered m n \<longleftrightarrow> 0 \<le> n \<and> (\<forall>a \<in> dom m. \<exists>j. 0 < j \<and> j \<le> n \<and> a = account_id j)"

definition wallet_inv ::
  "'db Extern \<Rightarrow> ('db \<Rightarrow> (string \<rightharpoonup> string)) \<Rightarrow> Config \<Rightarrow> 'db World \<Rightarrow> bool" where
  "wallet_inv ext contents config s \<longleftrightarrow>
     currentState s = ServiceListen \<and> wf_store (contents (accountDB s)) \<and>
     (\<forall>c \<in> set (command_queue s). wf_command c) \<and>
     (\<exists>n. seed_number ext (seed_file config) s = Inr n \<and> accounts_numbered (contents (accountDB s)) n)"

lemma accounts_numbered_fresh: "accounts_numbered m n \<Longrightarrow> m (account_id (n + 1)) = None"
proof (rule ccontr)
  assume a: "accounts_numbered m n" "m (account_id (n + 1)) \<noteq> None"
  then obtain j where "0 < j" "j \<le> n" "account_id (n + 1) = account_id j"
    by (auto simp: accounts_numbered_def dom_def)
  then show False using account_id_inj [of "n + 1" j] by simp
qed

lemma accounts_numbered_mono:
  assumes "accounts_numbered m n" and "dom m' \<subseteq> insert (account_id (n + 1)) (dom m)"
  shows "accounts_numbered m' (n + 1)"
  unfolding accounts_numbered_def
proof (intro conjI ballI)
  show "0 \<le> n + 1" using assms(1) by (simp add: accounts_numbered_def)
  fix a assume "a \<in> dom m'"
  with assms consider "a = account_id (n + 1)" | "a \<in> dom m" by blast
  then show "\<exists>j. 0 < j \<and> j \<le> n + 1 \<and> a = account_id j"
  proof cases
    case 1
    with assms(1) show ?thesis by (intro exI [of _ "n + 1"]) (simp add: accounts_numbered_def)
  next
    case 2
    then obtain j where "0 < j" "j \<le> n" "a = account_id j"
      using assms(1) by (auto simp: accounts_numbered_def)
    then show ?thesis by (intro exI [of _ j]) simp
  qed
qed

lemma accounts_numbered_dom: "dom m' = dom m \<Longrightarrow> accounts_numbered m' n = accounts_numbered m n"
  by (simp add: accounts_numbered_def)

lemma wf_queue_receive:
  assumes "receive q = Some (c, q')" and "\<forall>c \<in> set q. wf_command c"
  shows "wf_command c" and "\<forall>c \<in> set q'. wf_command c"
  using assms by (auto simp: receive_def split: if_splits dest: in_set_butlastD)

context wallet_env
begin

text \<open>A pass keeps the invariant, unless it ends in undefined behaviour.\<close>

lemma toggle_inv:
  assumes inv: "wallet_inv ext contents config s" and sep: "seed_file config \<noteq> event_log config"
    and rcv: "receive (command_queue s) = Some (c, q)" and t: "toggle ext config s = (r, s')"
    and r: "r \<noteq> Some Signed_overflow"
  shows "wallet_inv ext contents config s'" and "r = None" and "command_queue s' = q"
    and "dom (contents (accountDB s')) = dom (contents (accountDB s))"
proof -
  from inv obtain n where l: "currentState s = ServiceListen" "wf_store (contents (accountDB s))"
    "\<forall>c \<in> set (command_queue s). wf_command c"
    and n: "seed_number ext (seed_file config) s = Inr n" "accounts_numbered (contents (accountDB s)) n"
    by (auto simp: wallet_inv_def)
  note q = wf_queue_receive [OF rcv l(3)]
  have p: "pass_outcome contents ext config c s (r, s')"
    using toggle_pass [OF l(1) rcv q(1) l(2), of config] t by simp
  then obtain lg where o: "transfer_outcome (ledger (contents (accountDB s))) (getAccount1 c) (getAccount2 c)
      (balance_value (getAmount c)) (ledger (contents (accountDB s'))) lg"
    and f: "if lg then log_extended ext config c s s' else files s' = files s"
    and w: "wf_store (contents (accountDB s'))" "currentState s' = ServiceListen" "r = None"
    using r by (auto simp: pass_outcome_def Let_def)
  show "r = None" by (rule w(3))
  show q': "command_queue s' = q" using toggle_queue [OF l(1) rcv, of ext config] t by simp
  show d: "dom (contents (accountDB s')) = dom (contents (accountDB s))"
    using outcome_dom [OF o] by simp
  have "files s' (seed_file config) = files s (seed_file config)"
    using f sep by (auto simp: log_extended_def split: if_splits)
  then have "seed_number ext (seed_file config) s' = Inr n" using n(1) seed_number_cong by metis
  then show "wallet_inv ext contents config s'"
    using w q(2) q' n(2) accounts_numbered_dom [OF d] by (auto simp: wallet_inv_def)
qed

lemma balance_transfer_inv:
  assumes inv: "wallet_inv ext contents config s" and sep: "seed_file config \<noteq> event_log config"
    and h: "balance_transfer ext config uuid req s = (r, s')" and r: "r \<noteq> Inl Signed_overflow"
  shows "wallet_inv ext contents config s'" and "command_queue s' = command_queue s"
    and "dom (contents (accountDB s')) = dom (contents (accountDB s))"
proof -
  have "wallet_inv ext contents config s' \<and> command_queue s' = command_queue s \<and>
    dom (contents (accountDB s')) = dom (contents (accountDB s))"
  proof (cases "\<exists>c. transfer_command uuid req = Inr (Inr c)")
    case False
    then have "s' = s"
      using h by (auto simp: balance_transfer_def split: sum.splits)
    with inv show ?thesis by simp
  next
    case True
    then obtain c where c: "transfer_command uuid req = Inr (Inr c)" by blast
    let ?s = "send_command c s"
    have i: "wallet_inv ext contents config ?s"
      using inv transfer_command_wf(1) [OF c]
      by (auto simp: wallet_inv_def send_command_def send_def seed_number_def read_seed_def)
    have l: "currentState ?s = ServiceListen" using i by (simp add: wallet_inv_def)
    obtain f s1 where t: "toggle ext config ?s = (f, s1)" by (metis surj_pair)
    have "s1 = s'" "f \<noteq> Some Signed_overflow"
      using h r t l by (auto simp: balance_transfer_def c transfer_process_def split: option.splits)
    then show ?thesis
      using toggle_inv [OF i sep receive_sent t] by simp
  qed
  then show "wallet_inv ext contents config s'" and "command_queue s' = command_queue s"
    and "dom (contents (accountDB s')) = dom (contents (accountDB s))" by blast+
qed

lemma create_account_inv:
  assumes inv: "wallet_inv ext contents config s"
    and h: "create_account ext config req s = (r, s')"
  shows "wallet_inv ext contents config s'"
proof -
  from inv obtain n where l: "currentState s = ServiceListen" "wf_store (contents (accountDB s))"
    "\<forall>c \<in> set (command_queue s). wf_command c"
    and n: "seed_number ext (seed_file config) s = Inr n" "accounts_numbered (contents (accountDB s)) n"
    by (auto simp: wallet_inv_def)
  consider "s' = s" | x where "0 \<le> x" "x \<le> INT_MAX" "in_int (n + 1)"
      "s' = service_Put ext (account_id (n + 1)) (to_string x)
         (write_file (seed_file config) (oarchive ext [PInt (n + 1)]) (generateSeedFile ext (seed_file config) s))"
    | "s' = generateSeedFile ext (seed_file config) s"
    using h start_amount_range [of req]
    by (auto simp: create_account_def genAccountID_counts [OF n(1)] Let_def
        split: sum.splits if_splits)
  then show ?thesis
  proof cases
    case 1
    with inv show ?thesis by simp
  next
    case 3
    with l n show ?thesis by (auto simp: wallet_inv_def seed_number_generate)
  next
    case 2
    let ?g = "write_file (seed_file config) (oarchive ext [PInt (n + 1)]) (generateSeedFile ext (seed_file config) s)"
    obtain d st where p: "service_Put ext (account_id (n + 1)) (to_string x) ?g = ?g\<lparr>accountDB := d, status := st\<rparr>"
      and d: "ok st \<Longrightarrow> contents d = (contents (accountDB ?g))(account_id (n + 1) \<mapsto> to_string x)"
        "\<not> ok st \<Longrightarrow> contents d = contents (accountDB ?g) \<or> contents d = (contents (accountDB ?g))(account_id (n + 1) \<mapsto> to_string x)"
      by (rule service_PutE [of "account_id (n + 1)" "to_string x" ?g]) blast
    have c: "contents d = contents (accountDB s) \<or> contents d = (contents (accountDB s))(account_id (n + 1) \<mapsto> to_string x)"
      using d by (cases "ok st") auto
    have "wf_store (contents d)" using c l(2) 2(1,2) by (auto simp: wf_store_upd)
    moreover have "accounts_numbered (contents d) (n + 1)"
      using c by (intro accounts_numbered_mono [OF n(2)]) auto
    moreover have "seed_number ext (seed_file config) s' = Inr (n + 1)"
      using seed_number_written [of "seed_file config" "n + 1"] 2(4)
      by (simp add: seed_number_def read_seed_def p)
    ultimately show ?thesis using 2(4) l p by (auto simp: wallet_inv_def)
  qed
qed

lemma get_balance_inv:
  assumes "wallet_inv ext contents config s" and "get_balance ext req s = (r, s')"
  shows "wallet_inv ext contents config s'" and "contents (accountDB s') = contents (accountDB s)"
    and "command_queue s' = command_queue s" and "files s' = files s"
proof -
  have "contents (accountDB s') = contents (accountDB s) \<and> files s' = files s \<and>
    command_queue s' = command_queue s \<and> currentState s' = currentState s"
  proof (cases "param req ''accountID''")
    case (Inl e)
    with assms(2) show ?thesis by (simp add: get_balance_def)
  next
    case (Inr v)
    show ?thesis
    proof (cases v)
      case None
      with Inr assms(2) show ?thesis by (simp add: get_balance_def)
    next
      case (Some k)
      obtain d st w where "service_Get ext k s = (w, s\<lparr>accountDB := d, status := st\<rparr>)"
        and "contents d = contents (accountDB s)"
        by (rule service_GetE [of k s]) blast
      with Inr Some assms(2) show ?thesis
        by (auto simp: get_balance_def log_cerr_def split: if_splits)
    qed
  qed
  then show "wallet_inv ext contents config s'" and "contents (accountDB s') = contents (accountDB s)"
    and "command_queue s' = command_queue s" and "files s' = files s"
    using assms(1) by (auto simp: wallet_inv_def seed_number_def read_seed_def)
qed

end

lemma events_pure: "snd (events ext config req s) = s"
  by (simp add: events_def split: sum.splits)

end
