(* ===== verification/Handlers_Exact.thy ===== *)
theory Handlers_Exact
  imports Handlers_Proofs
begin

text \<open>
  The handlers over a database that does not fail: what each endpoint answers and what it
  does to the ledger, and the amount of money a whole sequence of requests leaves.
\<close>

context reliable_env
begin

lemma reliable_Put_contents:
  "contents (accountDB (service_Put ext k v s)) = (contents (accountDB s))(k \<mapsto> v)"
proof -
  obtain st d where p: "db_Put ext (accountDB s) k v = (st, d)" by (metis surj_pair)
  then have "contents d = (contents (accountDB s))(k \<mapsto> v)" using Put_ok Put_reliable by blast
  with p show ?thesis by (simp add: service_Put_def)
qed

lemma create_account_exact:
  assumes x: "start_amount req = Inr (Inr x)" and n: "seed_number ext (seed_file config) s = Inr n"
    and i: "in_int (n + 1)"
  obtains s' where "create_account ext config req s =
      (Inr (response_body (endl (''Account: '' @ account_id (n + 1) @ '' : Balance: '' @ to_string x))), s')"
    and "contents (accountDB s') = (contents (accountDB s))(account_id (n + 1) \<mapsto> to_string x)"
    and "seed_number ext (seed_file config) s' = Inr (n + 1)"
proof -
  let ?g = "write_file (seed_file config) (oarchive ext [PInt (n + 1)]) (generateSeedFile ext (seed_file config) s)"
  let ?s' = "service_Put ext (account_id (n + 1)) (to_string x) ?g"
  have "create_account ext config req s =
      (Inr (response_body (endl (''Account: '' @ account_id (n + 1) @ '' : Balance: '' @ to_string x))), ?s')"
    using x i by (simp add: create_account_def genAccountID_counts [OF n] Let_def reliable_Put)
  moreover have "contents (accountDB ?s') = (contents (accountDB s))(account_id (n + 1) \<mapsto> to_string x)"
    by (simp add: reliable_Put_contents)
  moreover have "seed_number ext (seed_file config) ?s' = Inr (n + 1)"
    using seed_number_written [of "seed_file config" "n + 1" "generateSeedFile ext (seed_file config) s"]
    by (simp add: seed_number_def read_seed_def)
  ultimately show ?thesis by (rule that)
qed

lemma create_account_total:
  assumes inv: "wallet_inv ext contents config s" and x: "start_amount req = Inr (Inr x)"
    and h: "create_account ext config req s = (Inr r, s')"
  shows "total_balance (ledger (contents (accountDB s'))) = total_balance (ledger (contents (accountDB s))) + x"
proof -
  from inv obtain n where n: "seed_number ext (seed_file config) s = Inr n"
    and m: "accounts_numbered (contents (accountDB s)) n" by (auto simp: wallet_inv_def)
  have i: "in_int (n + 1)"
    using h x by (auto simp: create_account_def genAccountID_counts [OF n] split: if_splits)
  obtain s'' where "create_account ext config req s =
      (Inr (response_body (endl (''Account: '' @ account_id (n + 1) @ '' : Balance: '' @ to_string x))), s'')"
    and "contents (accountDB s'') = (contents (accountDB s))(account_id (n + 1) \<mapsto> to_string x)"
    by (rule create_account_exact [OF x n i])
  then have "contents (accountDB s') = (contents (accountDB s))(account_id (n + 1) \<mapsto> to_string x)"
    using h by simp
  moreover have "ledger (contents (accountDB s)) (account_id (n + 1)) = None"
    using accounts_numbered_fresh [OF m] by (simp add: ledger_None)
  ultimately show ?thesis
    using finite_contents by (simp add: ledger_upd total_new)
qed

text \<open>A pass that returns conserves money, whether or not the credit would have fitted.\<close>

lemma toggle_conserves:
  assumes l: "currentState s = ServiceListen" "receive (command_queue s) = Some (c, q)"
    "wf_command c" "wf_store (contents (accountDB s))"
    and d: "getAccount1 c \<noteq> getAccount2 c" and t: "toggle ext config s = (None, s')"
  shows "total_balance (ledger (contents (accountDB s'))) = total_balance (ledger (contents (accountDB s)))"
proof -
  let ?l = "ledger (contents (accountDB s))" and ?x = "balance_value (getAmount c)"
  have fin: "finite (dom ?l)" using finite_contents by simp
  show ?thesis
  proof (cases "credit_fits ?l (getAccount1 c) (getAccount2 c) ?x")
    case True
    obtain s'' where "toggle ext config s = (None, s'')"
      "ledger (contents (accountDB s'')) = spec_transfer ?l (getAccount1 c) (getAccount2 c) ?x"
      by (rule toggle_exact [OF l refl refl True])
    with t spec_total [OF fin d] show ?thesis by simp
  next
    case False
    have "pass_outcome contents ext config c s (None, s')"
      using toggle_pass [OF l, of config] t by simp
    then obtain lg where "transfer_outcome ?l (getAccount1 c) (getAccount2 c) ?x (ledger (contents (accountDB s'))) lg"
      by (auto simp: pass_outcome_def Let_def)
    then show ?thesis
      using False by cases (auto simp: credit_fits_def split: option.splits)
  qed
qed

lemma balance_transfer_conserves:
  assumes inv: "wallet_inv ext contents config s"
    and d: "\<And>f t a. transfer_params req = Inr (Some (f, t, a)) \<Longrightarrow> f \<noteq> t"
    and h: "balance_transfer ext config uuid req s = (Inr r, s')"
  shows "total_balance (ledger (contents (accountDB s'))) = total_balance (ledger (contents (accountDB s)))"
proof (cases "\<exists>c. transfer_command uuid req = Inr (Inr c)")
  case False
  then have "s' = s" using h by (auto simp: balance_transfer_def split: sum.splits)
  then show ?thesis by simp
next
  case True
  then obtain c where c: "transfer_command uuid req = Inr (Inr c)" by blast
  have l: "currentState (send_command c s) = ServiceListen" "wf_store (contents (accountDB (send_command c s)))"
    using inv by (simp_all add: wallet_inv_def)
  have "getAccount1 c \<noteq> getAccount2 c" using transfer_command_wf(3) [OF c] d by blast
  moreover have "toggle ext config (send_command c s) = (None, s')"
    using h l(1) by (auto simp: balance_transfer_def c transfer_process_def split: prod.splits option.splits)
  ultimately show ?thesis
    using toggle_conserves [OF l(1) receive_sent transfer_command_wf(1) [OF c] l(2)] by simp
qed

text \<open>The status a transfer reports, against the ledger it found.\<close>

lemma balance_transfer_exact:
  assumes inv: "wallet_inv ext contents config s" and c: "transfer_command uuid req = Inr (Inr c)"
    and l: "l = ledger (contents (accountDB s))" and x: "x = balance_value (getAmount c)"
    and fits: "credit_fits l (getAccount1 c) (getAccount2 c) x"
  obtains s' where "balance_transfer ext config uuid req s =
      (Inr (response_body (endl (''Return Status: '' @ ToString ext (status s')))), s')"
    and "ledger (contents (accountDB s')) = spec_transfer l (getAccount1 c) (getAccount2 c) x"
    and "ok (status s') \<longleftrightarrow> getAccount1 c \<in> dom l \<and> getAccount2 c \<in> dom l"
    and "command_queue s' = command_queue s"
    and "if accepts l (getAccount1 c) (getAccount2 c) x then log_extended ext config c s s' else files s' = files s"
proof -
  let ?s = "send_command c s"
  have i: "currentState ?s = ServiceListen" "wf_store (contents (accountDB ?s))"
    "l = ledger (contents (accountDB ?s))"
    using inv l by (simp_all add: wallet_inv_def)
  obtain s' where s': "toggle ext config ?s = (None, s')"
    "ledger (contents (accountDB s')) = spec_transfer l (getAccount1 c) (getAccount2 c) x"
    "ok (status s') \<longleftrightarrow> getAccount1 c \<in> dom l \<and> getAccount2 c \<in> dom l"
    "command_queue s' = command_queue s"
    "if accepts l (getAccount1 c) (getAccount2 c) x then log_extended ext config c ?s s' else files s' = files ?s"
    by (rule toggle_exact [OF i(1) receive_sent transfer_command_wf(1) [OF c] i(2,3) x fits])
  have "balance_transfer ext config uuid req s =
      (Inr (response_body (endl (''Return Status: '' @ ToString ext (status s')))), s')"
    using c i(1) s'(1) by (simp add: balance_transfer_def transfer_process_def)
  with s' show ?thesis by (intro that [of s']) (auto simp: log_extended_def)
qed

lemma get_balance_exact:
  assumes "param req ''accountID'' = Inr (Some k)"
  obtains s' where "get_balance ext req s =
      (Inr (response_body (endl (case contents (accountDB s) k of
           Some v \<Rightarrow> ''Account: '' @ k @ '' : Balance: '' @ v | None \<Rightarrow> ''Account not found''))), s')"
    and "contents (accountDB s') = contents (accountDB s)"
proof -
  obtain d st v where g: "service_Get ext k s = (v, s\<lparr>accountDB := d, status := st\<rparr>)"
    and k: "contents d = contents (accountDB s)" "ok st \<longleftrightarrow> k \<in> dom (contents (accountDB s))"
      "\<And>w. contents (accountDB s) k = Some w \<Longrightarrow> v = w"
    by (rule reliable_GetE [of k s]) blast
  show ?thesis
  proof (cases "contents (accountDB s) k")
    case None
    then have "\<not> ok st" using k(2) by auto
    with None g k(1) assms show ?thesis
      by (intro that [of "log_cerr (''Account '' @ k @ '' not found.'') (s\<lparr>accountDB := d, status := st\<rparr>)"])
         (simp_all add: get_balance_def)
  next
    case (Some w)
    then have "ok st" "v = w" using k by auto
    with Some g k(1) assms show ?thesis
      by (intro that [of "s\<lparr>accountDB := d, status := st\<rparr>"]) (simp_all add: get_balance_def)
  qed
qed

end

section \<open>Sequences of requests\<close>

text \<open>
  A request to one of the endpoints, with the identifier its command would get, and a
  sequence of them served one after the other until one does not return.
\<close>

datatype endpoint = Create_account | Balance_transfer | Get_balance | Events

fun serve :: "'db Extern \<Rightarrow> Config \<Rightarrow> endpoint \<Rightarrow> string \<Rightarrow> 'db handler" where
  "serve ext config Create_account uuid = create_account ext config"
| "serve ext config Balance_transfer uuid = balance_transfer ext config uuid"
| "serve ext config Get_balance uuid = get_balance ext"
| "serve ext config Events uuid = events ext config"

fun serve_all :: "'db Extern \<Rightarrow> Config \<Rightarrow> (endpoint \<times> string \<times> request) list \<Rightarrow> 'db World \<Rightarrow>
    (response list) result \<times> 'db World" where
  "serve_all ext config [] s = (Inr [], s)"
| "serve_all ext config ((e, uuid, req) # rest) s =
     (case serve ext config e uuid req s of
        (Inl f, s1) \<Rightarrow> (Inl f, s1)
      | (Inr r, s1) \<Rightarrow> (case serve_all ext config rest s1 of
          (Inl f, s2) \<Rightarrow> (Inl f, s2)
        | (Inr rs, s2) \<Rightarrow> (Inr (r # rs), s2)))"

text \<open>What a request brings in, and the transfers that name one account twice.\<close>

definition deposit :: "endpoint \<times> string \<times> request \<Rightarrow> int" where
  "deposit x = (case x of
     (Create_account, _, req) \<Rightarrow> (case start_amount req of Inr (Inr a) \<Rightarrow> a | _ \<Rightarrow> 0)
   | _ \<Rightarrow> 0)"

definition self_transfer :: "endpoint \<times> string \<times> request \<Rightarrow> bool" where
  "self_transfer x = (case x of
     (Balance_transfer, _, req) \<Rightarrow>
       (case transfer_params req of Inr (Some (f, t, _)) \<Rightarrow> f = t | _ \<Rightarrow> False)
   | _ \<Rightarrow> False)"

context wallet_env
begin

lemma serve_inv:
  assumes "wallet_inv ext contents config s" and "seed_file config \<noteq> event_log config"
    and "serve ext config e uuid req s = (r, s')" and "r \<noteq> Inl Signed_overflow"
  shows "wallet_inv ext contents config s'"
proof (cases e)
  case Create_account
  with assms create_account_inv show ?thesis by simp
next
  case Balance_transfer
  with assms balance_transfer_inv(1) [OF assms(1,2)] show ?thesis by simp
next
  case Get_balance
  with assms get_balance_inv(1) show ?thesis by simp
next
  case Events
  with assms events_pure [of ext config req s] show ?thesis by simp
qed

lemma serve_all_inv:
  assumes "wallet_inv ext contents config s" and "seed_file config \<noteq> event_log config"
    and "serve_all ext config reqs s = (r, s')" and "r \<noteq> Inl Signed_overflow"
  shows "wallet_inv ext contents config s'"
  using assms
proof (induction reqs arbitrary: s r)
  case (Cons x reqs)
  obtain e uuid req where x: "x = (e, uuid, req)" by (metis surj_pair)
  obtain f s1 where f: "serve ext config e uuid req s = (f, s1)" by (metis surj_pair)
  have nf: "f \<noteq> Inl Signed_overflow" using Cons.prems(3,4) by (auto simp: x f)
  note inv1 = serve_inv [OF Cons.prems(1,2) f nf]
  show ?case
  proof (cases f)
    case (Inl a)
    with Cons.prems(3) inv1 show ?thesis by (simp add: x f)
  next
    case (Inr a)
    obtain r' where "serve_all ext config reqs s1 = (r', s')" "r' \<noteq> Inl Signed_overflow"
      using Cons.prems(3,4) by (auto simp: x f Inr split: prod.splits sum.splits)
    then show ?thesis using Cons.IH [OF inv1 Cons.prems(2)] by blast
  qed
qed simp

end

context reliable_env
begin

lemma serve_total:
  assumes inv: "wallet_inv ext contents config s" and h: "serve ext config e uuid req s = (Inr r, s')"
    and d: "\<not> self_transfer (e, uuid, req)"
  shows "total_balance (ledger (contents (accountDB s')))
       = total_balance (ledger (contents (accountDB s))) + deposit (e, uuid, req)"
proof (cases e)
  case Create_account
  show ?thesis
  proof (cases "\<exists>x. start_amount req = Inr (Inr x)")
    case True
    then obtain x where "start_amount req = Inr (Inr x)" by blast
    with Create_account h create_account_total [OF inv] show ?thesis by (simp add: deposit_def)
  next
    case False
    with h Create_account show ?thesis
      by (auto simp: deposit_def create_account_def split: sum.splits)
  qed
next
  case Balance_transfer
  have "total_balance (ledger (contents (accountDB s'))) = total_balance (ledger (contents (accountDB s)))"
    by (rule balance_transfer_conserves [OF inv, of req uuid r])
       (use d h in \<open>auto simp: self_transfer_def Balance_transfer\<close>)
  then show ?thesis by (simp add: deposit_def Balance_transfer)
next
  case Get_balance
  with h get_balance_inv(2) [OF inv] show ?thesis by (simp add: deposit_def)
next
  case Events
  with h events_pure [of ext config req s] show ?thesis by (simp add: deposit_def)
qed

lemma serve_all_total:
  assumes "wallet_inv ext contents config s" and "seed_file config \<noteq> event_log config"
    and "serve_all ext config reqs s = (Inr rs, s')" and "\<forall>x \<in> set reqs. \<not> self_transfer x"
  shows "total_balance (ledger (contents (accountDB s')))
       = total_balance (ledger (contents (accountDB s))) + sum_list (map deposit reqs)"
  using assms
proof (induction reqs arbitrary: s rs)
  case (Cons x reqs)
  obtain e uuid req where x: "x = (e, uuid, req)" by (metis surj_pair)
  obtain r s1 rs' where f: "serve ext config e uuid req s = (Inr r, s1)"
    and g: "serve_all ext config reqs s1 = (Inr rs', s')"
    using Cons.prems(3) by (auto simp: x split: prod.splits sum.splits)
  have "wallet_inv ext contents config s1" by (rule serve_inv [OF Cons.prems(1,2) f]) simp
  from Cons.IH [OF this Cons.prems(2) g] serve_total [OF Cons.prems(1) f] Cons.prems(4)
  show ?case by (simp add: x)
qed simp

end

end
