(* ===== verification/Concurrency.thy ===== *)
theory Concurrency
  imports Handlers_Exact
begin

text \<open>
  Several transfers at once. A thread that serves \<^verbatim>\<open>balance_transfer\<close> sends its command to
  the queue, which \<open>send\<close> does under the mutex of the queue; it then waits until it holds
  \<^verbatim>\<open>cv_m\<close> and the state is LISTEN, and keeps the lock until the pass of the state machine is
  over and it has built its answer from \<^verbatim>\<open>_status\<close>. Passes of different threads therefore exclude
  each other, and within a pass the queue is touched only once, by \<open>receive\<close>, so a command sent
  during a pass counts as sent before it or after it. A run of the threads is then an interleaving
  of two kinds of step, the sending and the pass. A thread whose handler does not return takes no step.

  Only transfers run here: \<^verbatim>\<open>create_account\<close> and \<^verbatim>\<open>get_balance\<close> assign \<^verbatim>\<open>_status\<close>
  without \<^verbatim>\<open>cv_m\<close>, so next to a transfer they are not atomic, and nothing is claimed of such runs.
\<close>

datatype thread = Sending Command | Waiting | Answered response

datatype label =
    Sent nat Command
  | Processed nat Command

type_synonym 'db conf = "thread list \<times> 'db World"

inductive step :: "'db Extern \<Rightarrow> Config \<Rightarrow> label \<Rightarrow> 'db conf \<Rightarrow> 'db conf \<Rightarrow> bool"
  for ext :: "'db Extern" and config :: Config where
  Send: "i < length ts \<Longrightarrow> ts ! i = Sending c \<Longrightarrow>
     step ext config (Sent i c) (ts, s) (ts[i := Waiting], send_command c s)"
| Process: "i < length ts \<Longrightarrow> ts ! i = Waiting \<Longrightarrow> transfer_process ext config s = (Inr r, s') \<Longrightarrow>
     step ext config (Processed i (command_to_process s')) (ts, s) (ts[i := Answered r], s')"

inductive_cases SentE: "step ext config (Sent i c) x y"
inductive_cases ProcessedE: "step ext config (Processed i c) x y"

inductive run :: "'db Extern \<Rightarrow> Config \<Rightarrow> 'db conf \<Rightarrow> label list \<Rightarrow> 'db conf \<Rightarrow> bool"
  for ext :: "'db Extern" and config :: Config where
  Done: "run ext config x [] x"
| Step: "step ext config a x y \<Longrightarrow> run ext config y tr z \<Longrightarrow> run ext config x (a # tr) z"

lemma run_append: "run ext config x tr y \<Longrightarrow> run ext config y tr' z \<Longrightarrow> run ext config x (tr @ tr') z"
  by (induction rule: run.induct) (auto intro: run.intros)

section \<open>Counting threads and commands\<close>

definition waiting :: "thread list \<Rightarrow> nat" where
  "waiting ts = length (filter (\<lambda>t. t = Waiting) ts)"

definition sending :: "thread list \<Rightarrow> Command list" where
  "sending ts = concat (map (\<lambda>t. case t of Sending c \<Rightarrow> [c] | _ \<Rightarrow> []) ts)"

definition all_answered :: "thread list \<Rightarrow> bool" where
  "all_answered ts \<longleftrightarrow> waiting ts = 0 \<and> sending ts = []"

fun sent :: "label list \<Rightarrow> Command list" where
  "sent [] = []"
| "sent (Sent i c # tr) = c # sent tr"
| "sent (_ # tr) = sent tr"

fun processed :: "label list \<Rightarrow> Command list" where
  "processed [] = []"
| "processed (Processed i c # tr) = c # processed tr"
| "processed (_ # tr) = processed tr"

lemma split_at: "i < length ts \<Longrightarrow> ts = take i ts @ ts ! i # drop (Suc i) ts"
  by (rule id_take_nth_drop)

lemma waiting_append: "waiting (xs @ ys) = waiting xs + waiting ys"
  by (simp add: waiting_def)

lemma sending_append: "sending (xs @ ys) = sending xs @ sending ys"
  by (simp add: sending_def)

lemma counts_Cons:
  "waiting (Waiting # ts) = Suc (waiting ts)" "waiting (Sending c # ts) = waiting ts"
  "waiting (Answered r # ts) = waiting ts" "sending (Waiting # ts) = sending ts"
  "sending (Sending c # ts) = c # sending ts" "sending (Answered r # ts) = sending ts"
  "waiting [] = 0" "sending [] = []"
  by (simp_all add: waiting_def sending_def)

lemmas thread_counts = waiting_append sending_append counts_Cons upd_conv_take_nth_drop

lemma count_send:
  assumes "i < length ts" and "ts ! i = Sending c"
  shows "waiting (ts[i := Waiting]) = Suc (waiting ts)"
    and "mset (sending ts) = add_mset c (mset (sending (ts[i := Waiting])))"
proof -
  have ts: "ts = take i ts @ Sending c # drop (Suc i) ts" using split_at [OF assms(1)] assms(2) by simp
  show "waiting (ts[i := Waiting]) = Suc (waiting ts)"
    by (subst (2) ts) (simp add: assms(1) thread_counts)
  show "mset (sending ts) = add_mset c (mset (sending (ts[i := Waiting])))"
    by (subst ts) (simp add: assms(1) thread_counts)
qed

lemma count_answer:
  assumes "i < length ts" and "ts ! i = Waiting"
  shows "waiting ts = Suc (waiting (ts[i := Answered r]))" and "sending (ts[i := Answered r]) = sending ts"
proof -
  have ts: "ts = take i ts @ Waiting # drop (Suc i) ts" using split_at [OF assms(1)] assms(2) by simp
  show "waiting ts = Suc (waiting (ts[i := Answered r]))"
    by (subst ts) (simp add: assms(1) thread_counts)
  show "sending (ts[i := Answered r]) = sending ts"
    by (subst (2) ts) (simp add: assms(1) thread_counts)
qed

lemma waiting_pos: "0 < waiting ts \<Longrightarrow> \<exists>i < length ts. ts ! i = Waiting"
  by (auto simp: waiting_def filter_empty_conv in_set_conv_nth)

lemma sending_member: "c \<in> set (sending ts) \<longleftrightarrow> Sending c \<in> set ts"
  by (auto simp: sending_def split: thread.splits)

lemma sending_pos: "sending ts \<noteq> [] \<Longrightarrow> \<exists>i c. i < length ts \<and> ts ! i = Sending c"
  using sending_member by (metis in_set_conv_nth list.set_sel(1))

section \<open>The command a pass processes\<close>

lemma command_frames [simp]:
  "command_to_process (snd (apply_writes ext config x y s)) = command_to_process s"
  "command_to_process (snd (ServiceApply_process ext config s)) = command_to_process s"
  "command_to_process (snd (ServiceValidate_process ext config s)) = command_to_process s"
proof -
  show w: "command_to_process (snd (apply_writes ext config x y s)) = command_to_process s" for x y s
    by (simp add: apply_writes_def Let_def)
  show a: "command_to_process (snd (ServiceApply_process ext config s)) = command_to_process s" for s
    by (auto simp: ServiceApply_process_def Let_def w case_prod_beta split: sum.splits)
  show "command_to_process (snd (ServiceValidate_process ext config s)) = command_to_process s"
    by (auto simp: ServiceValidate_process.simps Let_def case_prod_beta a split: sum.splits)
qed

lemma toggle_command:
  assumes "currentState s = ServiceListen" and "receive (command_queue s) = Some (c, q)"
  shows "command_to_process (snd (toggle ext config s)) = c"
  using assms by (simp add: toggle_def ServiceListen_toggle_def)

text \<open>What an answered pass did to the queue.\<close>

lemma transfer_process_queue:
  assumes "transfer_process ext config s = (Inr r, s')"
  obtains c q where "currentState s = ServiceListen" and "receive (command_queue s) = Some (c, q)"
    and "toggle ext config s = (None, s')" and "command_to_process s' = c" and "command_queue s' = q"
proof -
  have l: "currentState s = ServiceListen" and t: "toggle ext config s = (None, s')"
    using assms by (cases "currentState s";
      auto simp: transfer_process_def split: if_splits prod.splits option.splits)+
  have "command_queue s \<noteq> []" using t toggle_empty_waits [OF l] by auto
  then obtain c q where rcv: "receive (command_queue s) = Some (c, q)"
    by (auto simp: receive_def)
  with l t toggle_command [OF l rcv, of ext config] toggle_queue [OF l rcv, of ext config] show ?thesis
    by (intro that) simp_all
qed

end
