(* ===== verification/Service_Properties.thy ===== *)
theory Service_Properties
  imports Service_Exact
begin

text \<open>
  The state machine's contract as closed statements over the service's definitions, and
  concrete environments in which they apply: \<open>mem_ext\<close> over a database with injected
  failures and \<open>map_ext\<close> over one that does not fail, both with the text archive.
\<close>

definition status_text :: "Status \<Rightarrow> string" where
  "status_text st = (if ok st then ''OK'' else ''NotFound: '')"

definition mem_ext :: "mem_db Extern" where
  "mem_ext = \<lparr>db_Get = mem_Get, db_Put = mem_Put, ToString = status_text,
     oarchive = text_save, iarchive = text_load\<rparr>"

definition map_ext :: "map_db Extern" where
  "map_ext = \<lparr>db_Get = map_Get, db_Put = map_Put, ToString = status_text,
     oarchive = text_save, iarchive = text_load\<rparr>"

interpretation mem_env: wallet_env mem_ext mem_contents
  by (intro wallet_env.intro mem_rocksdb)
     (simp_all add: mem_ext_def text_archive.archive_axioms)

interpretation map_env: reliable_env map_ext map_of
proof (intro reliable_env.intro wallet_env.intro)
  have r: "reliable_rocksdb map_ext map_of"
    by (rule map_reliable) (simp_all add: map_ext_def)
  then show "reliable_rocksdb map_ext map_of" and "rocksdb map_ext map_of"
    by (simp_all add: reliable_rocksdb_def)
  show "archive (oarchive map_ext) (iarchive map_ext)"
    by (simp add: map_ext_def text_archive.archive_axioms)
qed

text \<open>A service in LISTEN with one command waiting, over a given database.\<close>

definition demo_world :: "'db \<Rightarrow> Command list \<Rightarrow> 'db World" where
  "demo_world d q = \<lparr>accountDB = d, status = OK, command_queue = q, currentState = ServiceListen,
     command_to_process = Command_default, cv_notifications = 0, files = Map.empty, cout = [], cerr = []\<rparr>"

definition demo_accounts :: map_db where
  "demo_accounts = [(''700000001'', ''1000''), (''700000002'', ''50'')]"

definition demo_command :: Command where
  "demo_command = mk_Command ''tx'' ''700000001'' ''700000002'' ''30'' ''TRANSFER''"

definition demo_config :: Config where
  "demo_config = Config_defaults"

lemma to_string_examples:
  "to_string 1000 = ''1000''" "to_string 50 = ''50''" "to_string 30 = ''30''"
  by code_simp+

lemma balance_examples:
  "is_balance ''1000''" "is_balance ''50''" "is_balance ''30''"
  "balance_value ''1000'' = 1000" "balance_value ''50'' = 50" "balance_value ''30'' = 30"
  unfolding to_string_examples [symmetric] by simp_all

lemma demo_wf [simp]:
  "wf_store (map_of demo_accounts)" "wf_command demo_command"
  by (auto simp: wf_store_def ran_def demo_accounts_def wf_command_def demo_command_def mk_Command_def
        balance_examples split: if_splits)

lemma demo_world_simps [simp]:
  "currentState (demo_world d q) = ServiceListen" "command_queue (demo_world d q) = q"
  "accountDB (demo_world d q) = d" "files (demo_world d q) = Map.empty"
  by (simp_all add: demo_world_def)

text \<open>
  C1. Against a database that may fail at every call, taking one well-formed command from
  the queue in LISTEN ends in LISTEN with that command removed and one of the outcomes of
  the specification: rejected, applied and logged, or (after a failed write) debited
  without credit or applied without log. The only fault is overflow of the credited
  balance, before anything is written.
\<close>

theorem toggle_refines_outcome:
  assumes "wallet_env ext contents" and "currentState s = ServiceListen"
    and "receive (command_queue s) = Some (c, q)" and "wf_command c"
    and "wf_store (contents (accountDB s))" and "toggle ext config s = (r, s')"
  shows "command_queue s' = q \<and>
    (r = None \<and> currentState s' = ServiceListen \<and>
       (\<exists>logged. transfer_outcome (ledger (contents (accountDB s))) (getAccount1 c) (getAccount2 c)
           (balance_value (getAmount c)) (ledger (contents (accountDB s'))) logged \<and>
         (if logged then log_extended ext config c s s' else files s' = files s))
     \<or> r = Some Signed_overflow \<and> contents (accountDB s') = contents (accountDB s) \<and> files s' = files s \<and>
       (\<exists>b. ledger (contents (accountDB s)) (getAccount2 c) = Some b \<and>
            INT_MAX < b + balance_value (getAmount c)))"
proof -
  have "pass_outcome contents ext config c s (r, s')"
    using wallet_env.toggle_pass [OF assms(1-5), of config] assms(6) by simp
  moreover have "command_queue s' = q" using toggle_queue [OF assms(2,3), of ext config] assms(6) by simp
  ultimately show ?thesis unfolding pass_outcome_def Let_def fst_conv snd_conv by blast
qed

theorem toggle_refines_outcome_witness:
  "\<exists>s' logged. toggle mem_ext demo_config (demo_world (demo_accounts, [OK, OK, OK, OK, OK, IOError kNone]) [demo_command])
      = (None, s') \<and> command_queue s' = [] \<and>
    transfer_outcome (ledger (map_of demo_accounts)) ''700000001'' ''700000002'' 30
      (ledger (mem_contents (accountDB s'))) logged"
proof -
  let ?s = "demo_world (demo_accounts, [OK, OK, OK, OK, OK, IOError kNone]) [demo_command]"
  obtain r s' where t: "toggle mem_ext demo_config ?s = (r, s')" by (metis surj_pair)
  have c: "getAccount1 demo_command = ''700000001''" "getAccount2 demo_command = ''700000002''"
    "balance_value (getAmount demo_command) = 30"
    by (simp_all add: demo_command_def mk_Command_def balance_examples)
  have m: "mem_contents (accountDB ?s) = map_of demo_accounts" by (simp add: mem_contents_def)
  have l: "ledger (map_of demo_accounts) ''700000002'' = Some 50"
    by (simp add: ledger_def demo_accounts_def balance_examples)
  have "command_queue s' = [] \<and>
     (r = None \<and> (\<exists>logged. transfer_outcome (ledger (map_of demo_accounts)) ''700000001'' ''700000002'' 30
        (ledger (mem_contents (accountDB s'))) logged) \<or> (\<exists>b. Some 50 = Some b \<and> INT_MAX < b + 30))"
    using toggle_refines_outcome [OF mem_env.wallet_env_axioms _ _ _ _ t, of demo_command "[]"]
    unfolding m c l by (auto simp: receive_def)
  then show ?thesis using t by auto
qed

text \<open>
  C2. Over a database that does not fail, one pass on a well-formed command whose credit
  fits computes exactly the specified transfer on the ledger, returns to LISTEN without a
  fault, logs the two events exactly when the transfer is accepted, and leaves an OK status
  exactly when both accounts exist.
\<close>

theorem toggle_refines_spec:
  assumes "reliable_env ext contents" and "currentState s = ServiceListen"
    and "receive (command_queue s) = Some (c, q)" and "wf_command c"
    and "wf_store (contents (accountDB s))"
    and "credit_fits (ledger (contents (accountDB s))) (getAccount1 c) (getAccount2 c) (balance_value (getAmount c))"
  shows "\<exists>s'. toggle ext config s = (None, s') \<and> currentState s' = ServiceListen \<and> command_queue s' = q \<and>
    ledger (contents (accountDB s')) =
      spec_transfer (ledger (contents (accountDB s))) (getAccount1 c) (getAccount2 c) (balance_value (getAmount c)) \<and>
    (if accepts (ledger (contents (accountDB s))) (getAccount1 c) (getAccount2 c) (balance_value (getAmount c))
     then log_extended ext config c s s' else files s' = files s) \<and>
    (ok (status s') \<longleftrightarrow>
       {getAccount1 c, getAccount2 c} \<subseteq> dom (contents (accountDB s)))"
proof -
  obtain s' where "toggle ext config s = (None, s')" "currentState s' = ServiceListen" "command_queue s' = q"
    "ledger (contents (accountDB s')) =
       spec_transfer (ledger (contents (accountDB s))) (getAccount1 c) (getAccount2 c) (balance_value (getAmount c))"
    "if accepts (ledger (contents (accountDB s))) (getAccount1 c) (getAccount2 c) (balance_value (getAmount c))
     then log_extended ext config c s s' else files s' = files s"
    "ok (status s') \<longleftrightarrow> getAccount1 c \<in> dom (contents (accountDB s)) \<and> getAccount2 c \<in> dom (contents (accountDB s))"
    by (rule reliable_env.toggle_exact [OF assms(1-5) refl refl assms(6), of config]) auto
  then show ?thesis by blast
qed

lemma demo_simps:
  "getAccount1 demo_command = ''700000001''" "getAccount2 demo_command = ''700000002''"
  "balance_value (getAmount demo_command) = 30"
  "ledger (map_of demo_accounts) ''700000001'' = Some 1000"
  "ledger (map_of demo_accounts) ''700000002'' = Some 50"
  by (simp_all add: demo_command_def mk_Command_def balance_examples ledger_def demo_accounts_def)

lemma demo_fits: "credit_fits (ledger (map_of demo_accounts)) (getAccount1 demo_command) (getAccount2 demo_command)
    (balance_value (getAmount demo_command))"
  by (simp add: credit_fits_def demo_simps)

lemma demo_receive [simp]: "receive [c] = Some (c, [])"
  by (simp add: receive_def)

theorem toggle_refines_spec_witness:
  "\<exists>s'. toggle map_ext demo_config (demo_world demo_accounts [demo_command]) = (None, s') \<and>
     ledger (map_of (accountDB s')) ''700000001'' = Some 970 \<and>
     ledger (map_of (accountDB s')) ''700000002'' = Some 80"
proof -
  let ?l = "ledger (map_of demo_accounts)"
  obtain s' where "toggle map_ext demo_config (demo_world demo_accounts [demo_command]) = (None, s')"
    "ledger (map_of (accountDB s')) = spec_transfer ?l ''700000001'' ''700000002'' 30"
    using toggle_refines_spec [OF map_env.reliable_env_axioms, of "demo_world demo_accounts [demo_command]"
        demo_command "[]" demo_config] demo_fits
    unfolding demo_simps by auto
  then show ?thesis
    by (auto simp: spec_transfer_def demo_simps)
qed

text \<open>
  C7. Over a failing database, with distinct accounts, no pass ever creates money: the total
  of all balances does not grow, and when the events were logged it is unchanged.
\<close>

theorem toggle_never_mints:
  assumes "wallet_env ext contents" and "currentState s = ServiceListen"
    and "receive (command_queue s) = Some (c, q)" and "wf_command c"
    and "wf_store (contents (accountDB s))" and "getAccount1 c \<noteq> getAccount2 c"
    and "toggle ext config s = (r, s')"
  shows "total_balance (ledger (contents (accountDB s'))) \<le> total_balance (ledger (contents (accountDB s))) \<and>
    (files s' \<noteq> files s \<longrightarrow> total_balance (ledger (contents (accountDB s'))) = total_balance (ledger (contents (accountDB s))))"
proof -
  have fin: "finite (dom (ledger (contents (accountDB s))))"
    using assms(1) by (auto simp: wallet_env_def dest: rocksdb.finite_contents)
  have pos: "0 \<le> balance_value (getAmount c)" using assms(4) by (simp add: wf_command_def)
  have "pass_outcome contents ext config c s (r, s')"
    using wallet_env.toggle_pass [OF assms(1-5), of config] assms(7) by simp
  then show ?thesis
    unfolding pass_outcome_def Let_def fst_conv snd_conv
    using outcome_total_le [OF _ fin assms(6) pos] logged_total [OF _ fin assms(6)]
    by (metis (full_types) order_refl)
qed

theorem toggle_never_mints_witness:
  "total_balance (ledger (mem_contents (accountDB (snd (toggle mem_ext demo_config
      (demo_world (demo_accounts, [OK, OK, OK, OK, OK, IOError kNone]) [demo_command])))))) \<le> 1050"
proof -
  let ?s = "demo_world (demo_accounts, [OK, OK, OK, OK, OK, IOError kNone]) [demo_command]"
  obtain r s' where t: "toggle mem_ext demo_config ?s = (r, s')" by (metis surj_pair)
  have "ledger (map_of demo_accounts) = Map.empty(''700000002'' \<mapsto> 50, ''700000001'' \<mapsto> 1000)"
    by (rule ext) (simp add: ledger_def demo_accounts_def balance_examples)
  then have tot: "total_balance (ledger (map_of demo_accounts)) = 1050"
    by (simp add: total_new) (simp add: total_balance_def)
  have "total_balance (ledger (mem_contents (accountDB s'))) \<le> total_balance (ledger (map_of demo_accounts))"
    using toggle_never_mints [OF mem_env.wallet_env_axioms _ _ _ _ _ t, of demo_command "[]"]
    by (simp add: mem_contents_def demo_simps)
  then show ?thesis using t tot by simp
qed

text \<open>
  C8. Well-formedness of the database is an invariant of the state machine: if every stored
  value is the decimal text of an integer between 0 and INT_MAX, it still is after a pass,
  whatever the database did and whatever the pass decided. No balance becomes negative.
\<close>

theorem toggle_keeps_wf_store:
  assumes "wallet_env ext contents" and "currentState s = ServiceListen"
    and "receive (command_queue s) = Some (c, q)" and "wf_command c"
    and "wf_store (contents (accountDB s))"
  shows "wf_store (contents (accountDB (snd (toggle ext config s))))"
  using wallet_env.toggle_pass [OF assms, of config] by (simp add: pass_outcome_def Let_def)

theorem toggle_keeps_wf_store_witness:
  "wf_store (mem_contents (accountDB (snd (toggle mem_ext demo_config
     (demo_world (demo_accounts, [OK, OK, OK, OK, IOError kNone]) [demo_command])))))"
  by (rule toggle_keeps_wf_store [OF mem_env.wallet_env_axioms, of _ demo_command "[]"])
     (simp_all add: mem_contents_def)

text \<open>
  C20. On a database that does not fail, a transfer from an account to itself is accepted whenever the balance covers it
  and the credit fits, and
  then creates money: both balances are read before either is written, so the credit
  overwrites the debit and the account ends with its balance plus the amount.
\<close>

theorem self_transfer_mints:
  assumes "reliable_env ext contents" and "currentState s = ServiceListen"
    and "receive (command_queue s) = Some (c, q)" and "wf_command c"
    and "wf_store (contents (accountDB s))" and "getAccount1 c = getAccount2 c"
    and "ledger (contents (accountDB s)) (getAccount1 c) = Some b"
    and "balance_value (getAmount c) \<le> b" and "b + balance_value (getAmount c) \<le> INT_MAX"
  shows "total_balance (ledger (contents (accountDB (snd (toggle ext config s)))))
       = total_balance (ledger (contents (accountDB s))) + balance_value (getAmount c)"
proof -
  let ?l = "ledger (contents (accountDB s))" and ?x = "balance_value (getAmount c)"
  have fin: "finite (dom ?l)"
    using assms(1) by (auto simp: reliable_env_def wallet_env_def dest: rocksdb.finite_contents)
  have fits: "credit_fits ?l (getAccount1 c) (getAccount2 c) ?x"
    using assms(6,7,9) by (simp add: credit_fits_def)
  obtain s' where "toggle ext config s = (None, s')"
    "ledger (contents (accountDB s')) = spec_transfer ?l (getAccount1 c) (getAccount2 c) ?x"
    by (rule reliable_env.toggle_exact [OF assms(1-5) refl refl fits])
  then show ?thesis
    using assms(6-8) fin spec_self [of ?l "getAccount1 c" b ?x] by (simp add: total_upd)
qed

definition self_command :: Command where
  "self_command = mk_Command ''tx'' ''700000001'' ''700000001'' ''30'' ''TRANSFER''"

theorem self_transfer_mints_witness:
  "total_balance (ledger (map_of (accountDB (snd (toggle map_ext demo_config (demo_world demo_accounts [self_command]))))))
     = total_balance (ledger (map_of demo_accounts)) + 30"
proof -
  have c: "wf_command self_command" "getAccount1 self_command = ''700000001''"
    "getAccount2 self_command = ''700000001''" "balance_value (getAmount self_command) = 30"
    by (simp_all add: self_command_def mk_Command_def wf_command_def balance_examples)
  show ?thesis
    using self_transfer_mints [OF map_env.reliable_env_axioms, of "demo_world demo_accounts [self_command]"
        self_command "[]" 1000 demo_config] c
    by (simp add: demo_simps)
qed

text \<open>
  The two writes of APPLY are not atomic: when the first succeeds and the second fails
  without effect, the pass ends normally in LISTEN with the sender debited, the receiver not
  credited, nothing logged, and the total smaller by the amount.
\<close>

theorem failed_credit_loses_money:
  assumes "wallet_env ext contents" and "command_to_process s = c"
    and "getAccount1 c \<noteq> getAccount2 c"
    and "ledger (contents (accountDB s)) (getAccount1 c) = Some p"
    and "db_Put ext (accountDB s) (getAccount1 c) (to_string (p - x)) = (st1, d1)" and "ok st1"
    and "db_Put ext d1 (getAccount2 c) (to_string y) = (st2, d2)" and "\<not> ok st2"
    and "contents d2 = contents d1"
  shows "\<exists>s'. apply_writes ext config (p - x) y s = (None, s') \<and> currentState s' = ServiceListen \<and>
    files s' = files s \<and>
    total_balance (ledger (contents (accountDB s'))) = total_balance (ledger (contents (accountDB s))) - x"
proof -
  have r: "rocksdb ext contents" using assms(1) by (simp add: wallet_env_def)
  have fin: "finite (dom (ledger (contents (accountDB s))))"
    using r by (auto dest: rocksdb.finite_contents)
  have "contents d1 = (contents (accountDB s))(getAccount1 c \<mapsto> to_string (p - x))"
    using rocksdb.Put_ok [OF r] assms(5,6) by blast
  then have "total_balance (ledger (contents d2)) = total_balance (ledger (contents (accountDB s))) - x"
    using assms(4,9) fin by (simp add: ledger_upd total_upd)
  moreover have "apply_writes ext config (p - x) y s = (None, db_error ext (s\<lparr>accountDB := d2, status := st2\<rparr>))"
    using assms(2,5-8) by (simp add: apply_writes_def Let_def service_Put_def)
  ultimately show ?thesis by simp
qed

theorem failed_credit_loses_money_witness:
  "\<exists>s'. apply_writes mem_ext demo_config 970 80
      ((demo_world (demo_accounts, [OK, IOError kNone]) [])\<lparr>command_to_process := demo_command\<rparr>) = (None, s') \<and>
    total_balance (ledger (mem_contents (accountDB s'))) = total_balance (ledger (map_of demo_accounts)) - 30"
proof -
  let ?s = "(demo_world (demo_accounts, [OK, IOError kNone]) [])\<lparr>command_to_process := demo_command\<rparr>"
  let ?d1 = "((''700000001'', to_string 970) # demo_accounts, [IOError kNone])"
  have p1: "db_Put mem_ext (accountDB ?s) (getAccount1 demo_command) (to_string (1000 - 30)) = (OK, ?d1)"
    by (simp add: mem_ext_def mem_Put_def mem_fault_def demo_simps)
  have p2: "db_Put mem_ext ?d1 (getAccount2 demo_command) (to_string 80)
      = (IOError kNone, ((''700000001'', to_string 970) # demo_accounts, []))"
    by (simp add: mem_ext_def mem_Put_def mem_fault_def demo_simps)
  show ?thesis
    using failed_credit_loses_money [OF mem_env.wallet_env_axioms _ _ _ p1 _ p2, of demo_config]
    by (auto simp: demo_simps mem_contents_def)
qed

section \<open>Event sourcing\<close>

text \<open>Replaying one event on a ledger: its signed amount is added to its account.\<close>

definition replay_event :: "(string \<rightharpoonup> int) \<Rightarrow> Event \<Rightarrow> (string \<rightharpoonup> int)" where
  "replay_event l e = (case l (account e) of
     None \<Rightarrow> l | Some b \<Rightarrow> l(account e \<mapsto> b + balance_value (amount e)))"

lemma strtol_minus: "0 \<le> x \<Longrightarrow> strtol (''-'' @ to_string x) = Some (- x)"
  using strtol_neg_show_nat [of "nat x"] by (simp add: to_string_nonneg)

lemma strtol_plus: "0 \<le> x \<Longrightarrow> strtol (''+'' @ to_string x) = Some x"
  by (simp add: to_string_nonneg strtol_def isspace_def)

lemma event_deltas:
  assumes "wf_command c"
  shows "balance_value (amount (eventA c)) = - balance_value (getAmount c)"
    and "balance_value (amount (eventB c)) = balance_value (getAmount c)"
proof -
  obtain x where "getAmount c = to_string x" "0 \<le> x"
    using assms by (auto simp: wf_command_def elim: is_balanceE)
  then show "balance_value (amount (eventA c)) = - balance_value (getAmount c)"
    and "balance_value (amount (eventB c)) = balance_value (getAmount c)"
    using strtol_minus [of x] strtol_plus [of x] by (simp_all add: eventA_def eventB_def balance_value_def strtol_to_string)
qed

lemma replay_pair:
  assumes "wf_command c" and "getAccount1 c \<noteq> getAccount2 c" and "l (getAccount1 c) = Some p"
    and "l (getAccount2 c) = Some q" and "balance_value (getAmount c) \<le> p"
  shows "foldl replay_event l [eventA c, eventB c]
       = spec_transfer l (getAccount1 c) (getAccount2 c) (balance_value (getAmount c))"
  using assms by (simp add: replay_event_def event_deltas spec_transfer_def)

text \<open>
  C9. The event log is a faithful journal: on a database that does not fail and with a log file that exists, when a transfer
  between distinct accounts whose credit fits is accepted, what is appended to the log file decodes to exactly the debit event and the
  credit event of the command, and replaying these two events on the old ledger gives the
  new ledger.
\<close>

theorem log_replays_ledger:
  assumes "reliable_env ext contents" and "currentState s = ServiceListen"
    and "receive (command_queue s) = Some (c, q)" and "wf_command c"
    and "wf_store (contents (accountDB s))"
    and "credit_fits (ledger (contents (accountDB s))) (getAccount1 c) (getAccount2 c) (balance_value (getAmount c))"
    and "getAccount1 c \<noteq> getAccount2 c"
    and "accepts (ledger (contents (accountDB s))) (getAccount1 c) (getAccount2 c) (balance_value (getAmount c))"
    and "files s (event_log config) = Some old"
  shows "\<exists>s' text. toggle ext config s = (None, s') \<and>
    files s' (event_log config) = Some (old @ text) \<and>
    iarchive ext (Event_kinds @ Event_kinds) text = Some (Event_save (eventA c) @ Event_save (eventB c)) \<and>
    ledger (contents (accountDB s')) = foldl replay_event (ledger (contents (accountDB s))) [eventA c, eventB c]"
proof -
  let ?l = "ledger (contents (accountDB s))" and ?x = "balance_value (getAmount c)"
  have arch: "archive (oarchive ext) (iarchive ext)"
    using assms(1) by (simp add: reliable_env_def wallet_env_def)
  obtain s' where s': "toggle ext config s = (None, s')"
    "ledger (contents (accountDB s')) = spec_transfer ?l (getAccount1 c) (getAccount2 c) ?x"
    "log_extended ext config c s s'"
    by (rule reliable_env.toggle_exact [OF assms(1-5) refl refl assms(6)]) (use assms(8) in auto)
  obtain p b where "?l (getAccount1 c) = Some p" "?l (getAccount2 c) = Some b" "?x \<le> p"
    using assms(8) by (auto simp: accepts_def split: option.splits)
  then have "foldl replay_event ?l [eventA c, eventB c] = spec_transfer ?l (getAccount1 c) (getAccount2 c) ?x"
    using assms(4,7) by (intro replay_pair)
  moreover have "files s' (event_log config) = Some (old @ logged_text ext c)"
    using s'(3) assms(9) by (simp add: log_extended_def)
  moreover have "iarchive ext (Event_kinds @ Event_kinds) (logged_text ext c)
      = Some (Event_save (eventA c) @ Event_save (eventB c))"
    using archive.load_events [OF arch, of _ _ "[]"] by (simp add: logged_text_def)
  ultimately show ?thesis using s'(1,2) by metis
qed

theorem log_replays_ledger_witness:
  "\<exists>s' text. toggle map_ext demo_config
      ((demo_world demo_accounts [demo_command])\<lparr>files := [''./data/event-log.txt'' \<mapsto> []]\<rparr>) = (None, s') \<and>
    files s' ''./data/event-log.txt'' = Some text \<and>
    iarchive map_ext (Event_kinds @ Event_kinds) text
      = Some (Event_save (eventA demo_command) @ Event_save (eventB demo_command))"
proof -
  let ?s = "(demo_world demo_accounts [demo_command])\<lparr>files := [''./data/event-log.txt'' \<mapsto> []]\<rparr>"
  have "\<exists>s' text. toggle map_ext demo_config ?s = (None, s') \<and>
    files s' (event_log demo_config) = Some ([] @ text) \<and>
    iarchive map_ext (Event_kinds @ Event_kinds) text
      = Some (Event_save (eventA demo_command) @ Event_save (eventB demo_command)) \<and>
    ledger (map_of (accountDB s')) = foldl replay_event (ledger (map_of (accountDB ?s))) [eventA demo_command, eventB demo_command]"
    by (rule log_replays_ledger [OF map_env.reliable_env_axioms, of _ _ "[]"])
       (simp_all add: demo_simps accepts_def demo_fits [unfolded demo_simps] demo_config_def Config_defaults_def)
  then show ?thesis by (auto simp: demo_config_def Config_defaults_def)
qed

end
