(* ===== verification/Handlers_Properties.thy ===== *)
theory Handlers_Properties
  imports Handlers_Exact Service_Properties
begin

text \<open>
  The endpoints' contract as closed statements: the invariant of the service over any
  sequence of requests, conservation of money over it, and what each endpoint answers and
  changes on each of its branches.
\<close>

definition demo_request :: "string \<Rightarrow> request" where
  "demo_request u = mk_request Get u []
     (case mk_query_string u of Some q \<Rightarrow> q | None \<Rightarrow> qs_empty) [] [] 1 1 True False False"

definition demo_create :: request where
  "demo_create = demo_request ''/api/1.0/wallet/create_account?startAmount=500''"

definition demo_transfer :: request where
  "demo_transfer = demo_request ''/?fromAccount=700000001&toAccount=700000002&amount=30''"

definition demo_big_transfer :: request where
  "demo_big_transfer = demo_request ''/?fromAccount=700000001&toAccount=700000002&amount=3000''"

lemma demo_requests:
  "start_amount demo_create = Inr (Inr 500)"
  "transfer_command ''tx'' demo_transfer = Inr (Inr demo_command)"
  "transfer_params demo_transfer = Inr (Some (''700000001'', ''700000002'', ''30''))"
  "transfer_command ''tx'' demo_big_transfer = Inr (Inr (mk_Command ''tx'' ''700000001'' ''700000002'' ''3000'' ''TRANSFER''))"
  "param (demo_request ''/?accountID=700000001'') ''accountID'' = Inr (Some ''700000001'')"
  "account_id 1 = ''700000001''" "account_id 2 = ''700000002''" "account_id 3 = ''700000003''"
  by code_simp+

lemma demo_dom: "map_of demo_accounts ''700000001'' = Some ''1000''" "map_of demo_accounts ''700000002'' = Some ''50''"
  by (simp_all add: demo_accounts_def)

text \<open>A service with two accounts handed out, and one that has just started.\<close>

definition demo_service :: "'db \<Rightarrow> 'db World" where
  "demo_service d = (demo_world d [])\<lparr>files := [''./data/account-seed.dat'' \<mapsto> text_save [PInt 2]]\<rparr>"

lemma demo_config_simps [simp]:
  "seed_file demo_config = ''./data/account-seed.dat''" "event_log demo_config = ''./data/event-log.txt''"
  by (simp_all add: demo_config_def Config_defaults_def)

lemma demo_accounts_numbered: "accounts_numbered (map_of demo_accounts) 2"
proof -
  have "a = account_id 1 \<or> a = account_id 2" if "a \<in> dom (map_of demo_accounts)" for a
    using that by (auto simp: demo_accounts_def demo_requests split: if_splits)
  then show ?thesis
    unfolding accounts_numbered_def by (metis one_less_numeral_iff order_refl one_le_numeral semiring_norm(76) zero_less_numeral zero_less_one zero_le_numeral)
qed

lemma demo_seed:
  assumes "iarchive ext = text_load"
  shows "seed_number ext ''./data/account-seed.dat'' (demo_service d) = Inr 2"
proof -
  have "text_load [KInt] (text_save [PInt 2]) = Some [PInt 2]" using text_archive.load_int .
  with assms show ?thesis by (simp add: seed_number_def read_seed_def demo_service_def)
qed

lemma demo_service_inv:
  "wallet_inv map_ext map_of demo_config (demo_service demo_accounts)"
  "wallet_inv mem_ext mem_contents demo_config (demo_service (demo_accounts, sts))"
  using demo_accounts_numbered demo_seed [of map_ext demo_accounts] demo_seed [of mem_ext "(demo_accounts, sts)"]
  by (auto simp: wallet_inv_def demo_service_def demo_world_def map_ext_def mem_ext_def mem_contents_def)

text \<open>
  C4. The invariant of the whole service survives every sequence of requests over a database
  that may fail at any call: in LISTEN, every balance the text of a number from 0 to INT_MAX,
  every waiting command well-formed, every account one that the seed file has handed out. The
  only exception is a request that runs into signed overflow.
\<close>

theorem requests_keep_invariant:
  assumes "wallet_env ext contents" and "seed_file config \<noteq> event_log config"
    and "wallet_inv ext contents config s" and "serve_all ext config reqs s = (r, s')"
    and "r \<noteq> Inl Signed_overflow"
  shows "wallet_inv ext contents config s'"
  by (rule wallet_env.serve_all_inv [OF assms(1,3,2,4,5)])

theorem requests_keep_invariant_witness:
  "wallet_inv mem_ext mem_contents demo_config
     (snd (serve_all mem_ext demo_config [(Create_account, ''tx'', demo_create)]
       (demo_service (demo_accounts, [IOError kNone]))))"
proof -
  let ?s = "demo_service (demo_accounts, [IOError kNone])"
  obtain r s' where h: "serve_all mem_ext demo_config [(Create_account, ''tx'', demo_create)] ?s = (r, s')"
    by (metis surj_pair)
  have n: "seed_number mem_ext ''./data/account-seed.dat'' ?s = Inr 2"
    using demo_seed [of mem_ext] by (simp add: mem_ext_def)
  have "r \<noteq> Inl Signed_overflow"
    using h by (auto simp: create_account_def demo_requests wallet_env.genAccountID_counts [OF mem_env.wallet_env_axioms n] in_int_def Let_def
        split: prod.splits if_splits)
  then show ?thesis
    using requests_keep_invariant [OF mem_env.wallet_env_axioms _ demo_service_inv(2) h] h by simp
qed

text \<open>
  C5. Conservation of money over any sequence of requests: on a database that does not fail, if
  every request is answered and no transfer names one account twice, the total of all
  balances afterwards is the total before plus the starting amounts of the accounts created.
\<close>

theorem requests_conserve_money:
  assumes "reliable_env ext contents" and "seed_file config \<noteq> event_log config"
    and "wallet_inv ext contents config s" and "serve_all ext config reqs s = (Inr rs, s')"
    and "\<forall>x \<in> set reqs. \<not> self_transfer x"
  shows "total_balance (ledger (contents (accountDB s')))
       = total_balance (ledger (contents (accountDB s))) + sum_list (map deposit reqs)"
  by (rule reliable_env.serve_all_total [OF assms(1,3,2,4,5)])

theorem requests_conserve_money_witness:
  "\<exists>rs s'. serve_all map_ext demo_config
      [(Create_account, ''u'', demo_create), (Get_balance, ''v'', demo_request ''/?accountID=700000001'')]
      (demo_service demo_accounts) = (Inr rs, s') \<and>
    total_balance (ledger (map_of (accountDB s'))) = total_balance (ledger (map_of demo_accounts)) + 500"
proof -
  let ?s = "demo_service demo_accounts"
  let ?r = "[(Create_account, ''u'', demo_create), (Get_balance, ''v'', demo_request ''/?accountID=700000001'')]"
  have n: "seed_number map_ext (seed_file demo_config) ?s = Inr 2"
    using demo_seed [of map_ext] by (simp add: map_ext_def)
  obtain r1 s1 where c: "create_account map_ext demo_config demo_create ?s = (Inr r1, s1)"
    by (rule reliable_env.create_account_exact [OF map_env.reliable_env_axioms demo_requests(1) n]) (simp_all add: in_int_def)
  obtain r2 s2 where g: "get_balance map_ext (demo_request ''/?accountID=700000001'') s1 = (Inr r2, s2)"
    by (rule reliable_env.get_balance_exact [OF map_env.reliable_env_axioms demo_requests(5), of s1])
  have h: "serve_all map_ext demo_config ?r ?s = (Inr [r1, r2], s2)" by (simp add: c g)
  have d: "accountDB ?s = demo_accounts" by (simp add: demo_service_def demo_world_def)
  have "sum_list (map deposit ?r) = 500" by (simp add: deposit_def demo_requests)
  then show ?thesis
    using requests_conserve_money [OF map_env.reliable_env_axioms _ demo_service_inv(1) h] h d
    by (auto simp: self_transfer_def)
qed

text \<open>
  C14. Creating an account on a database that does not fail: with a parameter that reads as a number from 0 to INT_MAX and \<open>n\<close>
  numbers handed out so far, the answer names the account number \<open>n + 1\<close> and the amount, that account
  was not in the database before and is now with exactly this balance, no other account
  changes, and the seed file records \<open>n + 1\<close>. The number has nine digits below one hundred million.
\<close>

theorem create_account_opens:
  assumes "reliable_env ext contents" and "wallet_inv ext contents config s"
    and "start_amount req = Inr (Inr x)" and "seed_number ext (seed_file config) s = Inr n" and "n < INT_MAX"
  shows "\<exists>s'. create_account ext config req s =
      (Inr (response_body (endl (''Account: '' @ account_id (n + 1) @ '' : Balance: '' @ to_string x))), s') \<and>
    contents (accountDB s) (account_id (n + 1)) = None \<and>
    ledger (contents (accountDB s')) = (ledger (contents (accountDB s)))(account_id (n + 1) \<mapsto> x) \<and>
    seed_number ext (seed_file config) s' = Inr (n + 1) \<and>
    (n + 1 < 100000000 \<longrightarrow> length (account_id (n + 1)) = 9)"
proof -
  have m: "accounts_numbered (contents (accountDB s)) n" using assms(2,4) by (auto simp: wallet_inv_def)
  then have "0 \<le> n" by (simp add: accounts_numbered_def)
  then have i: "in_int (n + 1)" using assms(5) by (simp add: in_int_def)
  obtain s' where s': "create_account ext config req s =
      (Inr (response_body (endl (''Account: '' @ account_id (n + 1) @ '' : Balance: '' @ to_string x))), s')"
    "contents (accountDB s') = (contents (accountDB s))(account_id (n + 1) \<mapsto> to_string x)"
    "seed_number ext (seed_file config) s' = Inr (n + 1)"
    by (rule reliable_env.create_account_exact [OF assms(1,3,4) i])
  with accounts_numbered_fresh [OF m] \<open>0 \<le> n\<close> show ?thesis
    by (auto simp: ledger_upd account_id_length)
qed

theorem create_account_opens_witness:
  "\<exists>s'. create_account map_ext demo_config demo_create (demo_service demo_accounts) =
      (Inr (response_body (endl (''Account: 700000003 : Balance: 500''))), s') \<and>
    ledger (map_of (accountDB s')) ''700000003'' = Some 500"
proof -
  have n: "seed_number map_ext (seed_file demo_config) (demo_service demo_accounts) = Inr 2"
    using demo_seed [of map_ext] by (simp add: map_ext_def)
  have "to_string 500 = ''500''" by code_simp
  then show ?thesis
    using create_account_opens [OF map_env.reliable_env_axioms demo_service_inv(1) demo_requests(1) n]
    by (auto simp: demo_requests)
qed

text \<open>
  C16. Requests with missing or malformed parameters are turned away without touching anything:
  creating an account without a number that \<^verbatim>\<open>int\<close> holds, or with a negative one, and a transfer
  with a parameter missing or an amount that is not a positive number, answer 400 and leave the
  world as it was.
\<close>

theorem bad_requests_rejected:
  assumes "param req ''startAmount'' = Inr p" and "transfer_params req = Inr q"
  shows "((\<forall>v x. p = Some v \<and> stoi v = Inr x \<longrightarrow> x < 0) \<longrightarrow>
      (\<exists>msg. create_account ext config req s = (Inr (response_code_body 400 msg), s))) \<and>
    ((\<forall>f t a x. q = Some (f, t, a) \<and> stoi a = Inr x \<longrightarrow> x \<le> 0) \<longrightarrow>
      (\<exists>msg. balance_transfer ext config uuid req s = (Inr (response_code_body 400 msg), s)))"
  using assms
  by (auto simp: create_account_def start_amount_def balance_transfer_def transfer_command_def
      split: option.splits sum.splits)

theorem bad_requests_rejected_witness:
  "(\<exists>msg. create_account map_ext demo_config (demo_request ''/?startAmount=-5&amount=x'') (demo_service demo_accounts)
      = (Inr (response_code_body 400 msg), demo_service demo_accounts)) \<and>
   (\<exists>msg. balance_transfer map_ext demo_config ''tx'' (demo_request ''/?startAmount=-5&amount=x'') (demo_service demo_accounts)
      = (Inr (response_code_body 400 msg), demo_service demo_accounts))"
proof -
  have p: "param (demo_request ''/?startAmount=-5&amount=x'') ''startAmount'' = Inr (Some ''-5'')"
    "transfer_params (demo_request ''/?startAmount=-5&amount=x'') = Inr None" "stoi ''-5'' = Inr (- 5)"
    by code_simp+
  then show ?thesis
    using bad_requests_rejected [OF p(1,2), of map_ext demo_config "demo_service demo_accounts" "''tx''"] by simp
qed

text \<open>
  C15. A valid transfer request whose credit fits, end to end on a database that does not fail: the ledger
  becomes what the specification says, the queue is as before, and the answer is the text of
  a status that is OK exactly when both accounts exist.
\<close>

theorem balance_transfer_end_to_end:
  assumes "reliable_env ext contents" and "wallet_inv ext contents config s"
    and "transfer_command uuid req = Inr (Inr c)"
    and "credit_fits (ledger (contents (accountDB s))) (getAccount1 c) (getAccount2 c) (balance_value (getAmount c))"
  shows "\<exists>s'. balance_transfer ext config uuid req s =
      (Inr (response_body (endl (''Return Status: '' @ ToString ext (status s')))), s') \<and>
    ledger (contents (accountDB s')) = spec_transfer (ledger (contents (accountDB s)))
      (getAccount1 c) (getAccount2 c) (balance_value (getAmount c)) \<and>
    (ok (status s') \<longleftrightarrow> {getAccount1 c, getAccount2 c} \<subseteq> dom (ledger (contents (accountDB s)))) \<and>
    command_queue s' = command_queue s"
proof -
  obtain s' where "balance_transfer ext config uuid req s =
      (Inr (response_body (endl (''Return Status: '' @ ToString ext (status s')))), s')"
    "ledger (contents (accountDB s')) = spec_transfer (ledger (contents (accountDB s)))
      (getAccount1 c) (getAccount2 c) (balance_value (getAmount c))"
    "ok (status s') \<longleftrightarrow> getAccount1 c \<in> dom (ledger (contents (accountDB s))) \<and>
       getAccount2 c \<in> dom (ledger (contents (accountDB s)))"
    "command_queue s' = command_queue s"
    by (rule reliable_env.balance_transfer_exact [OF assms(1-3) refl refl assms(4)])
  then show ?thesis by auto
qed

theorem balance_transfer_end_to_end_witness:
  "\<exists>s'. balance_transfer map_ext demo_config ''tx'' demo_transfer (demo_service demo_accounts) =
      (Inr (response_body (endl (''Return Status: '' @ ToString map_ext (status s')))), s') \<and>
    ledger (map_of (accountDB s')) ''700000001'' = Some 970 \<and> ledger (map_of (accountDB s')) ''700000002'' = Some 80 \<and>
    ok (status s')"
proof -
  have d: "accountDB (demo_service demo_accounts) = demo_accounts" by (simp add: demo_service_def demo_world_def)
  obtain s' where "balance_transfer map_ext demo_config ''tx'' demo_transfer (demo_service demo_accounts) =
      (Inr (response_body (endl (''Return Status: '' @ ToString map_ext (status s')))), s')"
    "ledger (map_of (accountDB s')) = spec_transfer (ledger (map_of demo_accounts)) ''700000001'' ''700000002'' 30"
    "ok (status s')"
    using balance_transfer_end_to_end [OF map_env.reliable_env_axioms demo_service_inv(1) demo_requests(2)] demo_fits
    by (auto simp: d demo_simps demo_dom)
  then show ?thesis by (auto simp: spec_transfer_def demo_simps)
qed

text \<open>
  A transfer the balance does not cover is turned away silently: ledger and files stay
  as they are, but the answer carries the OK status of the last read, the same text that a
  transfer that went through reports.
\<close>

theorem uncovered_transfer_reports_ok:
  assumes "reliable_env ext contents" and "wallet_inv ext contents config s"
    and "transfer_command uuid req = Inr (Inr c)"
    and "ledger (contents (accountDB s)) (getAccount1 c) = Some p"
    and "ledger (contents (accountDB s)) (getAccount2 c) = Some q"
    and "p < balance_value (getAmount c)"
  shows "\<exists>s'. balance_transfer ext config uuid req s =
      (Inr (response_body (endl (''Return Status: '' @ ToString ext (status s')))), s') \<and> ok (status s') \<and>
    ledger (contents (accountDB s')) = ledger (contents (accountDB s)) \<and> files s' = files s"
proof -
  have fits: "credit_fits (ledger (contents (accountDB s))) (getAccount1 c) (getAccount2 c) (balance_value (getAmount c))"
    using assms(4-6) by (simp add: credit_fits_def)
  have na: "\<not> accepts (ledger (contents (accountDB s))) (getAccount1 c) (getAccount2 c) (balance_value (getAmount c))"
    using assms(4-6) by (simp add: accepts_def)
  show ?thesis
    by (rule reliable_env.balance_transfer_exact [OF assms(1-3) refl refl fits])
       (use na ledger_SomeD [OF assms(4)] ledger_SomeD [OF assms(5)] spec_not_accepted [OF na] in simp)
qed

theorem uncovered_transfer_reports_ok_witness:
  "\<exists>s'. balance_transfer map_ext demo_config ''tx'' demo_big_transfer (demo_service demo_accounts) =
      (Inr (response_body (endl (''Return Status: OK''))), s') \<and>
    ledger (map_of (accountDB s')) = ledger (map_of demo_accounts)"
proof -
  have d: "accountDB (demo_service demo_accounts) = demo_accounts" by (simp add: demo_service_def demo_world_def)
  have v: "balance_value ''3000'' = 3000" by code_simp
  obtain s' where "balance_transfer map_ext demo_config ''tx'' demo_big_transfer (demo_service demo_accounts) =
      (Inr (response_body (endl (''Return Status: '' @ ToString map_ext (status s')))), s')" "ok (status s')"
    "ledger (map_of (accountDB s')) = ledger (map_of demo_accounts)"
    using uncovered_transfer_reports_ok [OF map_env.reliable_env_axioms demo_service_inv(1) demo_requests(4), of 1000 50]
    by (auto simp: d demo_simps mk_Command_def v)
  then show ?thesis by (auto simp: map_ext_def status_text_def)
qed

text \<open>
  Reading a balance on a database that does not fail: the answer is the stored text of
  the account, or that it was not found, exactly when it is absent, and the database is unchanged.
  A request without the parameter is answered with code 200.
\<close>

theorem get_balance_reads:
  assumes "reliable_env ext contents" and "param req ''accountID'' = Inr p"
  shows "\<exists>s' r. get_balance ext req s = (Inr r, s') \<and> contents (accountDB s') = contents (accountDB s) \<and> code r = 200 \<and>
    body r = endl (case p of
        None \<Rightarrow> ''Missing required parameter: accountID''
      | Some k \<Rightarrow> (case contents (accountDB s) k of
          None \<Rightarrow> ''Account not found''
        | Some v \<Rightarrow> ''Account: '' @ k @ '' : Balance: '' @ v))"
proof (cases p)
  case None
  then show ?thesis using assms(2) by (simp add: get_balance_def)
next
  case (Some k)
  with assms(2) have "param req ''accountID'' = Inr (Some k)" by simp
  from reliable_env.get_balance_exact [OF assms(1) this, of s] obtain s' where
    "get_balance ext req s = (Inr (response_body (endl (case contents (accountDB s) k of
       Some v \<Rightarrow> ''Account: '' @ k @ '' : Balance: '' @ v | None \<Rightarrow> ''Account not found''))), s')"
    "contents (accountDB s') = contents (accountDB s)" .
  then show ?thesis using Some by (auto split: option.splits)
qed

theorem get_balance_reads_witness:
  "\<exists>s' r. get_balance map_ext (demo_request ''/?accountID=700000001'') (demo_service demo_accounts) = (Inr r, s') \<and>
     body r = endl ''Account: 700000001 : Balance: 1000''"
proof -
  have d: "map_of (accountDB (demo_service demo_accounts)) ''700000001'' = Some ''1000''"
    by (simp add: demo_service_def demo_world_def demo_accounts_def)
  obtain s' r where "get_balance map_ext (demo_request ''/?accountID=700000001'') (demo_service demo_accounts) = (Inr r, s')"
    "body r = endl (''Account: '' @ ''700000001'' @ '' : Balance: '' @ ''1000'')"
    using get_balance_reads [OF map_env.reliable_env_axioms demo_requests(5), of "demo_service demo_accounts"] d
    by (auto simp del: append.simps)
  then show ?thesis by auto
qed

text \<open>
  The events endpoint reads one archive of two events from the start of the log: whatever
  has been appended behind the first transfer's pair, the answer shows that first pair.
\<close>

theorem events_show_first_pair:
  assumes "archive (oarchive ext) (iarchive ext)"
    and "files s (event_log config) = Some (logged_text ext c @ rest)"
  shows "events ext config req s =
    (Inr (response_body (endl (Event_toString (eventA c)) @ endl (Event_toString (eventB c)))), s)"
  using assms(2) archive.load_events [OF assms(1), of "eventA c" "eventB c" rest]
    Event_load_save [of "eventB c" "[]"]
  by (simp add: events_def read_events_def logged_text_def)

theorem events_show_first_pair_witness:
  "events map_ext demo_config demo_create ((demo_world demo_accounts [])\<lparr>files :=
       [''./data/event-log.txt'' \<mapsto> logged_text map_ext demo_command @ logged_text map_ext self_command]\<rparr>)
   = (Inr (response_body (endl (Event_toString (eventA demo_command)) @ endl (Event_toString (eventB demo_command)))),
      (demo_world demo_accounts [])\<lparr>files :=
       [''./data/event-log.txt'' \<mapsto> logged_text map_ext demo_command @ logged_text map_ext self_command]\<rparr>)"
  by (rule events_show_first_pair) (simp_all add: map_env.archive_axioms)

end
