(* ===== verification/Concurrency_Properties.thy ===== *)
theory Concurrency_Properties
  imports Concurrency Handlers_Properties
begin

text \<open>
  What holds of every interleaving of the threads: the invariant of the service together
  with one waiting thread per queued command, so that no thread blocks in \<open>receive\<close> while it
  holds the lock; every command processed exactly once; the ledger the result of the
  processed transfers in the order of processing; every run can be completed and takes at
  most two steps per thread.
\<close>

definition conf_inv ::
  "'db Extern \<Rightarrow> ('db \<Rightarrow> (string \<rightharpoonup> string)) \<Rightarrow> Config \<Rightarrow> 'db conf \<Rightarrow> bool" where
  "conf_inv ext contents config x \<longleftrightarrow>
     wallet_inv ext contents config (snd x) \<and> (\<forall>c \<in> set (sending (fst x)). wf_command c) \<and>
     length (command_queue (snd x)) = waiting (fst x)"

lemma send_command_inv:
  "wallet_inv ext contents config s \<Longrightarrow> wf_command c \<Longrightarrow> wallet_inv ext contents config (send_command c s)"
  by (auto simp: wallet_inv_def send_command_def send_def seed_number_def read_seed_def)

lemma receive_length: "receive q = Some (c, q') \<Longrightarrow> length q = Suc (length q')"
  by (auto simp: receive_def split: if_splits)

lemma sending_update: "set (sending (ts[i := Waiting])) \<subseteq> set (sending ts)"
  using set_update_subset_insert [of ts i Waiting] by (auto simp: sending_member)

context wallet_env
begin

lemma step_inv:
  assumes "step ext config a x y" and "conf_inv ext contents config x"
    and sep: "seed_file config \<noteq> event_log config"
  shows "conf_inv ext contents config y"
  using assms(1,2)
proof cases
  case (Send i ts c s)
  have c: "Sending c \<in> set ts" using Send(4,5) nth_mem by metis
  with Send assms(2) count_send(1) [OF Send(4,5)] sending_update [of ts i] show ?thesis
    by (auto simp: conf_inv_def sending_member send_command_inv) (simp_all add: send_command_def send_def)
next
  case (Process i ts s r s')
  obtain c q where p: "receive (command_queue s) = Some (c, q)" "toggle ext config s = (None, s')"
    "command_queue s' = q"
    by (rule transfer_process_queue [OF Process(6)])
  have "wallet_inv ext contents config s" using assms(2) Process by (simp add: conf_inv_def)
  from toggle_inv(1) [OF this sep p(1,2)] p receive_length [OF p(1)] count_answer [OF Process(4,5), of r]
    assms(2) Process
  show ?thesis by (simp add: conf_inv_def)
qed

lemma run_inv:
  assumes "run ext config x tr y" and "conf_inv ext contents config x"
    and sep: "seed_file config \<noteq> event_log config"
  shows "conf_inv ext contents config y"
  using assms(1,2) by (induction rule: run.induct) (auto dest: step_inv [OF _ _ sep])

end

section \<open>Accounting of commands\<close>

lemma step_accounting:
  assumes "step ext config a x y"
  shows "mset (sent [a]) + mset (sending (fst y)) = mset (sending (fst x))"
    and "mset (processed [a]) + mset (command_queue (snd y)) = mset (sent [a]) + mset (command_queue (snd x))"
  using assms
proof (atomize (full), cases)
  case (Send i ts c s)
  then show "mset (sent [a]) + mset (sending (fst y)) = mset (sending (fst x)) \<and>
      mset (processed [a]) + mset (command_queue (snd y)) = mset (sent [a]) + mset (command_queue (snd x))"
    using count_send(2) [of i ts c] by (simp add: send_command_def send_def)
next
  case (Process i ts s r s')
  obtain c q where "receive (command_queue s) = Some (c, q)" "command_to_process s' = c" "command_queue s' = q"
    by (rule transfer_process_queue [OF Process(6)])
  with mq.receive_Some [of "command_queue s" c q] Process
  show "mset (sent [a]) + mset (sending (fst y)) = mset (sending (fst x)) \<and>
      mset (processed [a]) + mset (command_queue (snd y)) = mset (sent [a]) + mset (command_queue (snd x))"
    using count_answer(2) [OF Process(4,5), of r] by simp
qed

lemma sent_Cons: "sent (a # tr) = sent [a] @ sent tr"
  by (cases a) simp_all

lemma processed_Cons: "processed (a # tr) = processed [a] @ processed tr"
  by (cases a) simp_all

lemma run_accounting:
  assumes "run ext config x tr y"
  shows "mset (sent tr) + mset (sending (fst y)) = mset (sending (fst x))"
    and "mset (processed tr) + mset (command_queue (snd y)) = mset (sent tr) + mset (command_queue (snd x))"
  using assms
proof (atomize (full), induction rule: run.induct)
  case (Step a x y tr z)
  note s = step_accounting [OF Step.hyps(1)]
  have "mset (sent (a # tr)) + mset (sending (fst z)) = mset (sending (fst x))"
    using Step.IH s(1) unfolding sent_Cons [of a tr] mset_append by (simp add: add.assoc)
  moreover have "mset (processed (a # tr)) + mset (command_queue (snd z)) = mset (processed [a]) + mset (command_queue (snd y)) + mset (sent tr)"
    using Step.IH unfolding processed_Cons [of a tr] mset_append by (simp add: add.assoc add.commute)
  then have "mset (processed (a # tr)) + mset (command_queue (snd z)) = mset (sent (a # tr)) + mset (command_queue (snd x))"
    unfolding s(2) sent_Cons [of a tr] mset_append by (simp add: ac_simps)
  ultimately show ?case by simp
qed simp

section \<open>Bounded runs\<close>

definition thread_steps :: "label list \<Rightarrow> nat" where
  "thread_steps tr = length (sent tr) + length (processed tr)"

definition remaining :: "thread list \<Rightarrow> nat" where
  "remaining ts = 2 * length (sending ts) + waiting ts"

lemma step_remaining:
  assumes "step ext config a x y"
  shows "remaining (fst x) = thread_steps [a] + remaining (fst y)"
  using assms
proof cases
  case (Send i ts c s)
  then show ?thesis
    using count_send(1) [of i ts c] arg_cong [OF count_send(2) [of i ts c], of size]
    by (simp add: remaining_def thread_steps_def)
next
  case (Process i ts s r s')
  then show ?thesis
    using count_answer [of i ts r] by (simp add: remaining_def thread_steps_def)
qed

lemma run_remaining:
  assumes "run ext config x tr y"
  shows "remaining (fst x) = thread_steps tr + remaining (fst y)"
  using assms
proof (induction rule: run.induct)
  case (Step a x y tr z)
  then show ?case
    using step_remaining [OF Step.hyps(1)]
    by (simp add: thread_steps_def sent_Cons [of a tr] processed_Cons [of a tr])
qed (simp add: thread_steps_def)

lemma remaining_0: "remaining ts = 0 \<longleftrightarrow> all_answered ts"
  by (auto simp: remaining_def all_answered_def)

section \<open>Over a database that does not fail\<close>

definition distinct_accounts :: "Command \<Rightarrow> bool" where
  "distinct_accounts c \<longleftrightarrow> getAccount1 c \<noteq> getAccount2 c"

definition apply_command :: "(string \<rightharpoonup> int) \<Rightarrow> Command \<Rightarrow> (string \<rightharpoonup> int)" where
  "apply_command l c = spec_transfer l (getAccount1 c) (getAccount2 c) (balance_value (getAmount c))"

text \<open>Every command in sight: about to be sent, or waiting.\<close>

definition commands :: "'db conf \<Rightarrow> Command set" where
  "commands x = set (sending (fst x)) \<union> set (command_queue (snd x))"

lemma step_commands: "step ext config a x y \<Longrightarrow> commands y \<subseteq> commands x"
  and step_processed: "step ext config a x y \<Longrightarrow> set (processed [a]) \<subseteq> commands x"
proof -
  assume st: "step ext config a x y"
  have s: "set (sent [a]) \<union> set (sending (fst y)) = set (sending (fst x))"
    using arg_cong [OF step_accounting(1) [OF st], of set_mset] by simp
  have p: "set (processed [a]) \<union> set (command_queue (snd y)) = set (sent [a]) \<union> set (command_queue (snd x))"
    using arg_cong [OF step_accounting(2) [OF st], of set_mset] by simp
  show "commands y \<subseteq> commands x" and "set (processed [a]) \<subseteq> commands x"
    using s p unfolding commands_def by blast+
qed

context reliable_env
begin

lemma process_exact:
  assumes inv: "wallet_inv ext contents config s" and rcv: "receive (command_queue s) = Some (c, q)"
    and d: "distinct_accounts c" and t: "total_balance (ledger (contents (accountDB s))) \<le> INT_MAX"
  obtains s' r where "transfer_process ext config s = (Inr r, s')" and "command_to_process s' = c"
    and "ledger (contents (accountDB s')) = apply_command (ledger (contents (accountDB s))) c"
proof -
  let ?l = "ledger (contents (accountDB s))"
  have l: "currentState s = ServiceListen" and wf: "wf_store (contents (accountDB s))"
    and c: "wf_command c"
    using inv wf_queue_receive(1) [OF rcv] by (auto simp: wallet_inv_def)
  have "0 \<le> i" if "?l k = Some i" for k i using wf_ledger_range [OF wf that] by blast
  then have fits: "credit_fits ?l (getAccount1 c) (getAccount2 c) (balance_value (getAmount c))"
    using finite_contents t d by (intro credit_fits_within_total) (auto simp: distinct_accounts_def)
  obtain s' where s': "toggle ext config s = (None, s')"
    "ledger (contents (accountDB s')) = spec_transfer ?l (getAccount1 c) (getAccount2 c) (balance_value (getAmount c))"
    by (rule toggle_exact [OF l rcv c wf refl refl fits])
  show ?thesis
    by (rule that) (use s' l toggle_command [OF l rcv, of ext config] in
      \<open>auto simp: transfer_process_def apply_command_def\<close>)
qed

lemma apply_command_total:
  "distinct_accounts c \<Longrightarrow> total_balance (apply_command (ledger (contents d)) c) = total_balance (ledger (contents d))"
  using finite_contents by (simp add: apply_command_def distinct_accounts_def spec_total)

lemma step_ledger:
  assumes st: "step ext config a x y" and inv: "conf_inv ext contents config x"
    and d: "\<forall>c \<in> commands x. distinct_accounts c"
    and t: "total_balance (ledger (contents (accountDB (snd x)))) \<le> INT_MAX"
  shows "ledger (contents (accountDB (snd y))) = foldl apply_command (ledger (contents (accountDB (snd x)))) (processed [a])"
  using st
proof cases
  case (Process i ts s r s')
  obtain c q where p: "receive (command_queue s) = Some (c, q)" by (rule transfer_process_queue [OF Process(6)])
  have "c \<in> commands x"
    using mq.receive_member [OF p] Process by (simp add: commands_def)
  then have "distinct_accounts c" using d by blast
  moreover have "wallet_inv ext contents config s" "total_balance (ledger (contents (accountDB s))) \<le> INT_MAX"
    using inv t Process by (simp_all add: conf_inv_def)
  ultimately obtain s'' r' where "transfer_process ext config s = (Inr r', s'')" "command_to_process s'' = c"
    "ledger (contents (accountDB s'')) = apply_command (ledger (contents (accountDB s))) c"
    using process_exact p by metis
  with Process show ?thesis by simp
qed simp

lemma run_ledger:
  assumes "run ext config x tr y" and "conf_inv ext contents config x"
    and sep: "seed_file config \<noteq> event_log config"
    and "\<forall>c \<in> commands x. distinct_accounts c"
    and "total_balance (ledger (contents (accountDB (snd x)))) \<le> INT_MAX"
  shows "ledger (contents (accountDB (snd y))) = foldl apply_command (ledger (contents (accountDB (snd x)))) (processed tr)"
    and "total_balance (ledger (contents (accountDB (snd y)))) = total_balance (ledger (contents (accountDB (snd x))))"
  using assms(1,2,4,5)
proof (atomize (full), induction rule: run.induct)
  case (Step a x y tr z)
  have l: "ledger (contents (accountDB (snd y))) = foldl apply_command (ledger (contents (accountDB (snd x)))) (processed [a])"
    using step_ledger [OF Step.hyps(1) Step.prems(1-3)] .
  have "\<forall>c \<in> set (processed [a]). distinct_accounts c"
    using step_processed [OF Step.hyps(1)] Step.prems(2) by blast
  then have t: "total_balance (ledger (contents (accountDB (snd y)))) = total_balance (ledger (contents (accountDB (snd x))))"
    unfolding l by (cases a) (simp_all add: apply_command_total)
  have "\<forall>c \<in> commands y. distinct_accounts c"
    using step_commands [OF Step.hyps(1)] Step.prems(2) by blast
  from Step.IH [OF step_inv [OF Step.hyps(1) Step.prems(1) sep] this] t Step.prems(3) l
  show ?case unfolding processed_Cons [of a tr] by auto
qed simp

text \<open>Some thread can always move, and moving brings every thread to its answer.\<close>

lemma thread_progress:
  assumes inv: "conf_inv ext contents config x" and d: "\<forall>c \<in> commands x. distinct_accounts c"
    and t: "total_balance (ledger (contents (accountDB (snd x)))) \<le> INT_MAX"
    and n: "\<not> all_answered (fst x)"
  obtains a y where "step ext config a x y" and "thread_steps [a] = 1"
proof -
  obtain ts s where x: "x = (ts, s)" by (cases x)
  show ?thesis
  proof (cases "waiting ts = 0")
    case True
    then obtain i c where "i < length ts" "ts ! i = Sending c"
      using n sending_pos [of ts] by (auto simp: x all_answered_def)
    then show ?thesis
      using that [OF step.Send [of i ts c ext config s, folded x]] by (simp add: thread_steps_def)
  next
    case False
    then obtain i where i: "i < length ts" "ts ! i = Waiting" using waiting_pos by blast
    have "command_queue s \<noteq> []" using inv False by (auto simp: x conf_inv_def)
    then obtain c q where r: "receive (command_queue s) = Some (c, q)" by (auto simp: receive_def)
    have "c \<in> commands x" using mq.receive_member [OF r] by (simp add: x commands_def)
    then obtain s' rs where "transfer_process ext config s = (Inr rs, s')"
      using process_exact [OF _ r] inv d t by (metis conf_inv_def snd_conv x)
    then show ?thesis
      using that [OF step.Process [OF i, of ext config s, folded x]] by (simp add: thread_steps_def)
  qed
qed

lemma run_completes:
  assumes "conf_inv ext contents config x" and sep: "seed_file config \<noteq> event_log config"
    and "\<forall>c \<in> commands x. distinct_accounts c"
    and "total_balance (ledger (contents (accountDB (snd x)))) \<le> INT_MAX"
  shows "\<exists>tr y. run ext config x tr y \<and> all_answered (fst y)"
  using assms(1,3,4)
proof (induction "remaining (fst x)" arbitrary: x rule: less_induct)
  case less
  show ?case
  proof (cases "all_answered (fst x)")
    case True
    then show ?thesis using run.Done [of ext config x] by (intro exI [of _ "[]"] exI [of _ x]) simp
  next
    case False
    obtain a y where a: "step ext config a x y" "thread_steps [a] = 1"
      by (rule thread_progress [OF less.prems False])
    have r: "run ext config x [a] y" using a(1) run.intros by blast
    have "\<forall>c \<in> commands y. distinct_accounts c" using step_commands [OF a(1)] less.prems(2) by blast
    moreover have "total_balance (ledger (contents (accountDB (snd y)))) \<le> INT_MAX"
      using run_ledger(2) [OF r less.prems(1) sep less.prems(2,3)] less.prems(3) by simp
    moreover have "remaining (fst y) < remaining (fst x)"
      using step_remaining [OF a(1)] a(2) by simp
    ultimately obtain tr z where "run ext config y tr z" "all_answered (fst z)"
      using less.hyps [of y] step_inv [OF a(1) less.prems(1) sep] by blast
    then show ?thesis using run.Step [OF a(1)] by (intro exI [of _ "a # tr"] exI [of _ z]) auto
  qed
qed

end

section \<open>Properties\<close>

text \<open>The configuration in which a set of threads is about to send its commands.\<close>

definition start :: "Command list \<Rightarrow> 'db World \<Rightarrow> 'db conf" where
  "start cs s = (map Sending cs, s)"

lemma start_counts: "waiting (map Sending cs) = 0" "sending (map Sending cs) = cs"
  by (induction cs) (simp_all add: counts_Cons)

lemma start_inv:
  "wallet_inv ext contents config s \<Longrightarrow> command_queue s = [] \<Longrightarrow> list_all wf_command cs \<Longrightarrow>
   conf_inv ext contents config (start cs s)"
  by (simp add: conf_inv_def start_def start_counts list_all_iff)

text \<open>
  C6. In every interleaving of transfer threads over a database that may fail at any call, the service invariant
  holds and each queued command has a waiting thread, so the thread that holds the lock finds a
  command; the commands processed so far and those still queued are together the commands sent; and the
  threads take at most two steps each.
\<close>

theorem interleavings_safe:
  assumes "wallet_env ext contents" and "seed_file config \<noteq> event_log config"
    and "wallet_inv ext contents config s" and "command_queue s = []" and "list_all wf_command cs"
    and "run ext config (start cs s) tr (ts, s')"
  shows "wallet_inv ext contents config s' \<and> length (command_queue s') = waiting ts \<and>
    mset (processed tr) + mset (command_queue s') = mset (sent tr) \<and>
    mset (sent tr) + mset (sending ts) = mset cs \<and> thread_steps tr \<le> 2 * length cs"
  using wallet_env.run_inv [OF assms(1,6) start_inv [OF assms(3-5)] assms(2)]
    run_accounting [OF assms(6)] run_remaining [OF assms(6)] assms(4)
  by (simp add: conf_inv_def start_def start_counts remaining_def)

theorem interleavings_safe_witness:
  "\<exists>ts s'. run mem_ext demo_config (start [demo_command] (demo_service (demo_accounts, [IOError kNone])))
       [Sent 0 demo_command] (ts, s') \<and> wallet_inv mem_ext mem_contents demo_config s' \<and>
     length (command_queue s') = waiting ts"
proof -
  let ?s = "demo_service (demo_accounts, [IOError kNone])"
  have q: "command_queue ?s = []" by (simp add: demo_service_def)
  have "run mem_ext demo_config (start [demo_command] ?s) [Sent 0 demo_command]
     ([Waiting], send_command demo_command ?s)"
    using run.Step [OF step.Send [of 0 "[Sending demo_command]" demo_command mem_ext demo_config ?s] run.Done]
    by (simp add: start_def)
  then show ?thesis
    using interleavings_safe [OF mem_env.wallet_env_axioms _ demo_service_inv(2) q, of "[demo_command]"] by fastforce
qed

text \<open>
  C3. Deadlock freedom and serialisability: on a database that does not fail, with distinct
  accounts and no more money than an \<^verbatim>\<open>int\<close> holds, every interleaving that has begun can be
  completed; then every thread has its answer, after exactly two steps per thread, every command was
  processed exactly once, and the ledger is the result of applying them one after the other in the order
  of processing.
\<close>

theorem interleavings_complete:
  assumes "reliable_env ext contents" and "seed_file config \<noteq> event_log config"
    and "wallet_inv ext contents config s" and "command_queue s = []"
    and "list_all wf_command cs" and "list_all distinct_accounts cs"
    and "total_balance (ledger (contents (accountDB s))) \<le> INT_MAX"
    and "run ext config (start cs s) tr y"
  shows "\<exists>tr' z. run ext config y tr' z \<and> all_answered (fst z) \<and> thread_steps (tr @ tr') = 2 * length cs \<and>
    mset (processed (tr @ tr')) = mset cs \<and>
    ledger (contents (accountDB (snd z))) = foldl apply_command (ledger (contents (accountDB s))) (processed (tr @ tr'))"
proof -
  have env: "wallet_env ext contents" using assms(1) by (simp add: reliable_env_def)
  note i = start_inv [OF assms(3-5)]
  have d: "\<forall>c \<in> commands (start cs s). distinct_accounts c"
    using assms(4,6) by (simp add: commands_def start_def start_counts list_all_iff)
  have t: "total_balance (ledger (contents (accountDB (snd (start cs s))))) \<le> INT_MAX"
    using assms(7) by (simp add: start_def)
  note yi = wallet_env.run_inv [OF env assms(8) i assms(2)]
  have "commands y \<subseteq> commands (start cs s)"
    using assms(8) by (induction rule: run.induct) (auto dest: step_commands)
  then have yd: "\<forall>c \<in> commands y. distinct_accounts c" using d by blast
  have yt: "total_balance (ledger (contents (accountDB (snd y)))) \<le> INT_MAX"
    using reliable_env.run_ledger(2) [OF assms(1,8) i assms(2) d t] t by simp
  obtain tr' z where z: "run ext config y tr' z" "all_answered (fst z)"
    using reliable_env.run_completes [OF assms(1) yi assms(2) yd yt] by blast
  note full = run_append [OF assms(8) z(1)]
  have "command_queue (snd z) = []"
    using wallet_env.run_inv [OF env full i assms(2)] z(2) by (simp add: conf_inv_def all_answered_def)
  then have "mset (processed (tr @ tr')) = mset cs" "thread_steps (tr @ tr') = 2 * length cs"
    using run_accounting [OF full] run_remaining [OF full] z(2) assms(4)
    by (simp_all add: start_def start_counts all_answered_def remaining_def)
  moreover have "ledger (contents (accountDB (snd z))) = foldl apply_command (ledger (contents (accountDB s))) (processed (tr @ tr'))"
    using reliable_env.run_ledger(1) [OF assms(1) full i assms(2) d t] by (simp add: start_def)
  ultimately show ?thesis using z by blast
qed

lemma demo_total: "total_balance (ledger (map_of demo_accounts)) = 1050"
proof -
  have "ledger (map_of demo_accounts) = Map.empty(''700000002'' \<mapsto> 50, ''700000001'' \<mapsto> 1000)"
    by (rule ext) (simp add: ledger_def demo_accounts_def balance_examples)
  then show ?thesis by (simp add: total_new) (simp add: total_balance_def)
qed

definition demo_back :: Command where
  "demo_back = mk_Command ''ty'' ''700000002'' ''700000001'' ''30'' ''TRANSFER''"

lemma demo_back_simps:
  "wf_command demo_back" "distinct_accounts demo_back" "distinct_accounts demo_command"
  by (simp_all add: demo_back_def demo_command_def mk_Command_def wf_command_def distinct_accounts_def balance_examples)

lemma demo_service_simps [simp]: "command_queue (demo_service d) = []" "accountDB (demo_service d) = d"
  by (simp_all add: demo_service_def)

theorem interleavings_complete_witness:
  "\<exists>tr' z. run map_ext demo_config (start [demo_command, demo_back] (demo_service demo_accounts)) tr' z \<and>
     all_answered (fst z) \<and> thread_steps tr' = 4 \<and> mset (processed tr') = {#demo_command, demo_back#}"
  using interleavings_complete [OF map_env.reliable_env_axioms _ demo_service_inv(1) _ _ _ _ run.Done,
      of "[demo_command, demo_back]"] demo_total demo_back_simps
  by auto

text \<open>
  The queue hands out the command sent last: when two threads have sent one after the other,
  the next pass processes the second command, even when the first thread runs it, which is then
  answered with the status of the other thread's transfer.
\<close>

theorem last_sent_processed_first:
  assumes "run ext config x [Sent i c1, Sent j c2, Processed k c] y"
  shows "c = c2"
proof -
  obtain x1 x2 where s: "step ext config (Sent j c2) x1 x2" "step ext config (Processed k c) x2 y"
    using assms by (auto elim!: run.cases)
  obtain s where x2: "snd x2 = send_command c2 s" using s(1) by (rule SentE) auto
  from s(2) obtain r s' where p: "transfer_process ext config (snd x2) = (Inr r, s')" "c = command_to_process s'"
    by (rule ProcessedE) auto
  obtain c' q where "receive (command_queue (snd x2)) = Some (c', q)" "command_to_process s' = c'"
    by (rule transfer_process_queue [OF p(1)])
  with x2 p(2) show ?thesis by simp
qed

theorem last_sent_processed_first_witness:
  "\<exists>y. run map_ext demo_config (start [demo_command, demo_back] (demo_service demo_accounts))
     [Sent 0 demo_command, Sent 1 demo_back, Processed 0 demo_back] y"
proof -
  let ?s = "send_command demo_back (send_command demo_command (demo_service demo_accounts))"
  have i: "wallet_inv map_ext map_of demo_config ?s"
    using demo_service_inv(1) demo_back_simps(1) by (intro send_command_inv) simp_all
  obtain r s' where p: "transfer_process map_ext demo_config ?s = (Inr r, s')"
    by (rule reliable_env.process_exact [OF map_env.reliable_env_axioms i receive_sent demo_back_simps(2)])
       (simp_all add: demo_total)
  have r: "run map_ext demo_config (start [demo_command, demo_back] (demo_service demo_accounts))
     [Sent 0 demo_command, Sent 1 demo_back, Processed 0 (command_to_process s')] ([Answered r, Waiting], s')"
  proof -
    have s1: "step map_ext demo_config (Sent 0 demo_command) (start [demo_command, demo_back] (demo_service demo_accounts))
        ([Waiting, Sending demo_back], send_command demo_command (demo_service demo_accounts))"
      using step.Send [of 0 "[Sending demo_command, Sending demo_back]" demo_command map_ext demo_config] by (simp add: start_def)
    have s2: "step map_ext demo_config (Sent 1 demo_back)
        ([Waiting, Sending demo_back], send_command demo_command (demo_service demo_accounts)) ([Waiting, Waiting], ?s)"
      using step.Send [of 1 "[Waiting, Sending demo_back]" demo_back map_ext demo_config] by simp
    have s3: "step map_ext demo_config (Processed 0 (command_to_process s')) ([Waiting, Waiting], ?s) ([Answered r, Waiting], s')"
      using step.Process [OF _ _ p, of 0 "[Waiting, Waiting]"] by simp
    show ?thesis by (intro run.Step [OF s1] run.Step [OF s2] run.Step [OF s3] run.Done)
  qed
  have "command_to_process s' = demo_back" by (rule last_sent_processed_first [OF r])
  with r show ?thesis by auto
qed

end
