(* ===== verification/Query_String_Proofs.thy ===== *)
theory Query_String_Proofs
  imports Query_String
begin

text \<open>
  What the in-place parser computes. \<open>qs_decoded\<close> is the decoding of a value as a function
  on strings; the buffer after \<open>qs_parse\<close> is described segment by segment, and lookup on it
  is lookup of the decoded pairs. The parser itself never reads outside its buffer, for any
  URL; the comparison of a key may.
\<close>

section \<open>Reading and scanning\<close>

lemma rd_append [simp]: "rd (xs @ c # ys) (length xs) = Some c"
  by (simp add: rd_def)

lemma rd_at: "length xs = n \<Longrightarrow> rd (xs @ c # ys) n = Some c"
  by auto

lemma rd_Some: "rd b i = Some c \<longleftrightarrow> i < length b \<and> b ! i = c"
  by (auto simp: rd_def)

lemma cspn_append:
  "(\<And>c. c \<in> set xs \<Longrightarrow> c \<noteq> nul \<and> c \<notin> set cset) \<Longrightarrow> t = nul \<or> t \<in> set cset \<Longrightarrow>
   cspn (xs @ t # r) cset = Some (length xs)"
  by (induction xs) auto

lemma strcspn_append:
  "(\<And>c. c \<in> set xs \<Longrightarrow> c \<noteq> nul \<and> c \<notin> set cset) \<Longrightarrow> t = nul \<or> t \<in> set cset \<Longrightarrow>
   strcspn (pre @ xs @ t # r) (length pre) cset = Some (length xs)"
  by (simp add: strcspn_def cspn_append)

lemma cspn_total: "nul \<in> set xs \<Longrightarrow> \<exists>n. cspn xs cset = Some n \<and> n < length xs"
  by (induction xs) auto

text \<open>Buffers whose last character is the terminator; pointers into them.\<close>

definition terminated :: "buffer \<Rightarrow> bool" where
  "terminated b \<longleftrightarrow> b \<noteq> [] \<and> last b = nul"

lemma terminated_drop: "terminated b \<Longrightarrow> p < length b \<Longrightarrow> nul \<in> set (drop p b)"
  by (metis drop_eq_Nil last_drop last_in_set linorder_not_le terminated_def)

lemma terminated_next: "terminated b \<Longrightarrow> q < length b \<Longrightarrow> b ! q \<noteq> nul \<Longrightarrow> q + 1 < length b"
  by (metis Suc_eq_plus1 Suc_lessI diff_Suc_1 last_conv_nth terminated_def)

lemma strcspn_terminated:
  assumes "terminated b" and "p < length b"
  obtains j where "strcspn b p cset = Some j" and "p + j < length b"
  using cspn_total [OF terminated_drop [OF assms], of cset] by (auto simp: strcspn_def)

section \<open>Decoding as a function on strings\<close>

fun qs_decoded :: "string \<Rightarrow> string" where
  "qs_decoded [] = []"
| "qs_decoded (c # cs) =
     (if \<not> CROW_QS_ISQSCHR c then []
      else if c = CHR ''+'' then CHR '' '' # qs_decoded cs
      else if c = CHR ''%'' then
        (case cs of
           h1 # h2 # r \<Rightarrow>
             if CROW_QS_ISHEX h1 \<and> CROW_QS_ISHEX h2
             then char_of (CROW_QS_HEX2DEC h1 * 16 + CROW_QS_HEX2DEC h2) # qs_decoded r else []
         | _ \<Rightarrow> [])
      else c # qs_decoded cs)"

lemma delimiter_not_hex: "\<not> CROW_QS_ISQSCHR t \<Longrightarrow> \<not> CROW_QS_ISHEX t"
  by (auto simp: CROW_QS_ISQSCHR_def CROW_QS_ISHEX_def)

lemma isqschr_simps [simp]:
  "\<not> CROW_QS_ISQSCHR nul" "\<not> CROW_QS_ISQSCHR (CHR ''='')" "\<not> CROW_QS_ISQSCHR (CHR ''&'')"
  "\<not> CROW_QS_ISQSCHR (CHR ''#'')"
  by (simp_all add: CROW_QS_ISQSCHR_def)

lemma qs_decoded_append: "\<not> CROW_QS_ISQSCHR t \<Longrightarrow> qs_decoded (v @ t # rest) = qs_decoded v"
proof (induction v rule: qs_decoded.induct)
  case 1
  then show ?case by simp
next
  case (2 c cs)
  show ?case
  proof (cases "c = CHR ''%''")
    case False
    with 2 show ?thesis by auto
  next
    case True
    then show ?thesis
      using 2 delimiter_not_hex [OF "2.prems"] by (auto split: list.splits simp: append_eq_Cons_conv)
  qed
qed

lemma length_qs_decoded: "length (qs_decoded v) \<le> length v"
  by (induction v rule: qs_decoded.induct) (auto split: list.splits intro!: le_SucI)

lemma tl_append_update:
  assumes "xs = h # js"
  shows "(pre @ xs @ r)[length pre := x] = (pre @ [x]) @ js @ r"
  using assms by simp

text \<open>
  The decoder writes behind its read position. With \<open>pre\<close> the finished part and \<open>junk\<close> what
  lies between the write and the read position, the result is spelled out.
\<close>

lemma decode_loop_eq:
  assumes "nul \<in> set suf" and "length pre = qs + i" and "length junk + i = j"
  shows "qs_decode_loop (pre @ junk @ suf) qs i j =
    Some (pre @ qs_decoded suf @ nul # drop (Suc (length (qs_decoded suf))) (junk @ suf),
          i + length (qs_decoded suf))"
  using assms
proof (induction suf arbitrary: pre junk i j rule: qs_decoded.induct)
  case 1
  then show ?case by simp
next
  case (2 c cs)
  have rdc: "rd (pre @ junk @ c # cs) (qs + j) = Some c"
    using rd_at [of "pre @ junk" "qs + j" c cs] 2(5,6) by simp
  obtain h js where hjs: "junk @ [c] = h # js" by (cases "junk @ [c]") auto
  have upd: "(pre @ junk @ c # cs)[qs + i := x] = (pre @ [x]) @ js @ cs" for x
    using tl_append_update [OF hjs, of pre cs x] 2(5) by simp
  have tail: "drop (Suc n) (junk @ c # cs) = drop n (js @ cs)" for n
    using hjs by (metis append_Cons append_assoc append_Nil drop_Suc_Cons)
  have len: "length js + (i + 1) = j + 1" "length (pre @ [x]) = qs + (i + 1)" for x
    using 2(5,6) arg_cong [OF hjs, of length] by simp_all
  have glue: ?case
    if "qs_decode_loop (pre @ junk @ c # cs) qs i j = qs_decode_loop ((pre @ [x]) @ js' @ r) qs (i + 1) j'"
      and "qs_decode_loop ((pre @ [x]) @ js' @ r) qs (i + 1) j' =
        Some ((pre @ [x]) @ qs_decoded r @ nul # drop (Suc (length (qs_decoded r))) (js' @ r),
              i + 1 + length (qs_decoded r))"
      and "qs_decoded (c # cs) = x # qs_decoded r" and "js' @ r = js @ cs" for x r js' j'
    using that(2) unfolding that(1,3) by (simp add: tail that(4) del: drop_append)
  have one: ?case
    if "qs_decode_loop (pre @ junk @ c # cs) qs i j = qs_decode_loop ((pre @ junk @ c # cs)[qs + i := x]) qs (i + 1) (j + 1)"
      and "qs_decode_loop ((pre @ [x]) @ js @ cs) qs (i + 1) (j + 1) =
        Some ((pre @ [x]) @ qs_decoded cs @ nul # drop (Suc (length (qs_decoded cs))) (js @ cs),
              i + 1 + length (qs_decoded cs))"
      and "qs_decoded (c # cs) = x # qs_decoded cs" for x
    using that by (intro glue [where x = x and js' = js and r = cs]) (simp_all only: upd)
  have ih: "qs_decode_loop ((pre @ [x]) @ js @ cs) qs (i + 1) (j + 1) =
      Some ((pre @ [x]) @ qs_decoded cs @ nul # drop (Suc (length (qs_decoded cs))) (js @ cs),
            i + 1 + length (qs_decoded cs))"
    if q: "CROW_QS_ISQSCHR c" "c \<noteq> CHR ''%''" for x
  proof (cases "c = CHR ''+''")
    case True
    show ?thesis by (rule 2(1)) (use 2(4) q True len in auto)
  next
    case False
    show ?thesis by (rule 2(3)) (use 2(4) q False len in auto)
  qed
  note unfold = qs_decode_loop.simps [of "pre @ junk @ c # cs" qs i j, unfolded rdc option.case]
  consider (stop) "\<not> CROW_QS_ISQSCHR c" | (plus) "CROW_QS_ISQSCHR c" "c = CHR ''+''"
    | (hex) "CROW_QS_ISQSCHR c" "c = CHR ''%''" | (plain) "CROW_QS_ISQSCHR c" "c \<noteq> CHR ''+''" "c \<noteq> CHR ''%''"
    by blast
  then show ?case
  proof cases
    case stop
    then show ?thesis
      using upd [of nul] tail [of 0] by (simp add: unfold)
  next
    case plus
    show ?thesis
      by (rule one [where x = "CHR '' ''"]) (unfold unfold, use plus ih in auto)
  next
    case plain
    show ?thesis
      by (rule one [where x = c]) (unfold unfold, use plain ih in auto)
  next
    case hex
    have stops: "qs_decoded (c # cs) = [] \<Longrightarrow> ?thesis" if "qs_decode_loop (pre @ junk @ c # cs) qs i j =
        Some ((pre @ junk @ c # cs)[qs + i := nul], i)"
      using that upd [of nul] tail [of 0] by simp
    obtain h1 cs1 where cs: "cs = h1 # cs1" using 2(4) hex by (cases cs) auto
    have rd1: "rd (pre @ junk @ c # cs) (qs + j + 1) = Some h1"
      using rd_at [of "pre @ junk @ [c]" "qs + j + 1" h1 cs1] 2(5,6) cs by simp
    show ?thesis
    proof (cases "CROW_QS_ISHEX h1")
      case False
      then show ?thesis
        using hex cs rd1 unfold by (intro stops) (auto split: list.splits)
    next
      case True
      then have nn: "nul \<in> set cs1" using 2(4) hex cs by (auto simp: delimiter_not_hex)
      then obtain h2 r where cs1: "cs1 = h2 # r" by (cases cs1) auto
      have rd2: "rd (pre @ junk @ c # cs) (qs + j + 2) = Some h2"
        using rd_at [of "pre @ junk @ [c, h1]" "qs + j + 2" h2 r] 2(5,6) cs cs1 by simp
      show ?thesis
      proof (cases "CROW_QS_ISHEX h2")
        case False
        then show ?thesis
          using hex cs cs1 rd1 rd2 True unfold by (intro stops) auto
      next
        case h2: True
        let ?x = "char_of (CROW_QS_HEX2DEC h1 * 16 + CROW_QS_HEX2DEC h2)"
        have "nul \<in> set r" using nn cs1 h2 by (auto simp: delimiter_not_hex)
        moreover have "length (js @ [h1, h2]) + (i + 1) = j + 3" using len(1) by simp
        ultimately have rec: "qs_decode_loop ((pre @ [?x]) @ (js @ [h1, h2]) @ r) qs (i + 1) (j + 3) =
            Some ((pre @ [?x]) @ qs_decoded r @ nul # drop (Suc (length (qs_decoded r))) ((js @ [h1, h2]) @ r),
                  i + 1 + length (qs_decoded r))"
          using hex cs cs1 True h2 len(2) by (intro 2(2) [OF _ _ _ cs cs1]) simp_all
        have step: "qs_decode_loop (pre @ junk @ c # cs) qs i j
            = qs_decode_loop ((pre @ [?x]) @ (js @ [h1, h2]) @ r) qs (i + 1) (j + 3)"
          unfolding unfold using hex rd1 rd2 True h2 upd [of ?x] cs cs1 by simp
        show ?thesis
          by (rule glue [OF step rec]) (use hex cs cs1 True h2 in simp_all)
      qed
    qed
  qed
qed


lemma qs_decode_eq:
  assumes "nul \<in> set suf"
  shows "qs_decode (pre @ suf) (length pre) =
    Some (pre @ qs_decoded suf @ nul # drop (Suc (length (qs_decoded suf))) suf, length (qs_decoded suf))"
  using decode_loop_eq [OF assms, of pre "length pre" 0 "[]" 0] by (simp add: qs_decode_def)

section \<open>No read outside the buffer\<close>

lemma qs_decode_terminated:
  assumes "terminated b" and "p < length b"
  obtains b' n where "qs_decode b p = Some (b', n)" and "terminated b'" and "length b' = length b"
proof -
  let ?d = "qs_decoded (drop p b)"
  have nn: "nul \<in> set (drop p b)" using assms by (rule terminated_drop)
  have len: "length ?d < length (drop p b)"
  proof -
    obtain v rest where v: "drop p b = v @ nul # rest" "nul \<notin> set v"
      using split_list_first [OF nn] by blast
    then show ?thesis
      using length_qs_decoded [of v] qs_decoded_append [of nul v rest] by simp
  qed
  have eq: "qs_decode b p = Some (take p b @ ?d @ nul # drop (Suc (length ?d)) (drop p b), length ?d)"
    using qs_decode_eq [OF nn, of "take p b"] assms(2) by simp
  have "last (nul # drop (Suc (length ?d)) (drop p b)) = nul"
    using assms(1) len by (auto simp: terminated_def last_drop)
  then have "terminated (take p b @ ?d @ nul # drop (Suc (length ?d)) (drop p b))"
    by (simp add: terminated_def)
  with len assms(2) show ?thesis by (intro that [OF eq]) auto
qed

lemma terminated_update: "terminated b \<Longrightarrow> terminated (b[i := nul])"
  by (auto simp: terminated_def last_list_update)

lemma qs_pairs_terminated:
  assumes "terminated b" and "p < length b"
  shows "\<exists>ps. qs_pairs n b p = Some ps \<and> (\<forall>q \<in> set ps. q < length b) \<and> length ps \<le> n"
  using assms(2)
proof (induction n arbitrary: p)
  case 0
  then show ?case by simp
next
  case (Suc n)
  obtain j where j: "strcspn b p ''&'' = Some j" "p + j < length b"
    using assms(1) Suc.prems by (rule strcspn_terminated)
  show ?case
  proof (cases "b ! (p + j) = nul")
    case True
    with j Suc.prems show ?thesis by (simp add: rd_def)
  next
    case False
    have "p + j + 1 < length b" using terminated_next [OF assms(1) j(2) False] .
    with Suc.IH [of "p + j + 1"] False j Suc.prems show ?thesis by (auto simp: rd_def)
  qed
qed

lemma qs_decode_pairs_terminated:
  "terminated b \<Longrightarrow> \<forall>p \<in> set ps. p < length b \<Longrightarrow>
   \<exists>b'. qs_decode_pairs b ps = Some b' \<and> terminated b' \<and> length b' = length b"
proof (induction ps arbitrary: b)
  case Nil
  then show ?case by simp
next
  case (Cons p ps)
  obtain j where j: "strcspn b p ''=&#'' = Some j" "p + j < length b"
    using Cons.prems by (auto intro: strcspn_terminated)
  have "\<exists>b1. (if b ! (p + j) = CHR ''&'' \<or> b ! (p + j) = nul then Some (b[p + j := nul])
      else map_option fst (qs_decode b (p + j + 1))) = Some b1 \<and> terminated b1 \<and> length b1 = length b"
  proof (cases "b ! (p + j) = CHR ''&'' \<or> b ! (p + j) = nul")
    case True
    with Cons.prems(1) show ?thesis by (simp add: terminated_update)
  next
    case False
    then have "p + j + 1 < length b"
      using terminated_next [OF Cons.prems(1) j(2)] by simp
    with Cons.prems(1) obtain b1 n where "qs_decode b (p + j + 1) = Some (b1, n)" "terminated b1" "length b1 = length b"
      by (rule qs_decode_terminated)
    with False show ?thesis by simp
  qed
  then obtain b1 where b1: "(if b ! (p + j) = CHR ''&'' \<or> b ! (p + j) = nul then Some (b[p + j := nul])
      else map_option fst (qs_decode b (p + j + 1))) = Some b1" "terminated b1" "length b1 = length b"
    by blast
  with Cons.IH [of b1] Cons.prems(2) obtain b2 where "qs_decode_pairs b1 ps = Some b2" "terminated b2" "length b2 = length b"
    by auto
  with j b1 show ?case by (auto simp: rd_def)
qed

section \<open>Queries made of key/value pairs\<close>

text \<open>Characters a key can have without any special meaning to the parser.\<close>

definition plain :: "string \<Rightarrow> bool" where
  "plain k \<longleftrightarrow> (\<forall>c \<in> set k. CROW_QS_ISQSCHR c \<and> c \<noteq> CHR ''+'' \<and> c \<noteq> CHR ''%'')"

definition value_text :: "string \<Rightarrow> bool" where
  "value_text v \<longleftrightarrow> (\<forall>c \<in> set v. CROW_QS_ISQSCHR c)"

fun query_text :: "(string \<times> string) list \<Rightarrow> string" where
  "query_text [] = []"
| "query_text [(k, v)] = k @ ''='' @ v"
| "query_text ((k, v) # kvs) = k @ ''='' @ v @ ''&'' @ query_text kvs"

text \<open>Where the pairs start, and the bytes of their regions after decoding.\<close>

fun starts :: "nat \<Rightarrow> (string \<times> string) list \<Rightarrow> nat list" where
  "starts p [] = []"
| "starts p ((k, v) # kvs) = p # starts (p + length k + length v + 2) kvs"

fun regions :: "(string \<times> string) list \<Rightarrow> buffer" where
  "regions [] = []"
| "regions ((k, v) # kvs) =
     k @ ''='' @ qs_decoded v @ nul # drop (Suc (length (qs_decoded v)))
       (v @ (if kvs = [] then [nul] else ''&'')) @ regions kvs"

lemma value_char: "value_text v \<Longrightarrow> c \<in> set v \<Longrightarrow> c \<noteq> nul \<and> c \<notin> set ''=&#''"
  by (auto simp: value_text_def CROW_QS_ISQSCHR_def)

lemma plain_value_text: "plain k \<Longrightarrow> value_text k"
  by (simp add: plain_def value_text_def)

lemmas plain_char = value_char [OF plain_value_text]

lemma drop_within:
  assumes "n \<le> Suc (length xs)"
  shows "drop n (xs @ t # r) = drop n (xs @ [t]) @ r"
proof -
  have "drop n ((xs @ [t]) @ r) = drop n (xs @ [t]) @ drop (n - length (xs @ [t])) r"
    by (rule drop_append)
  then show ?thesis using assms by (simp del: drop_append)
qed

lemma query_text_Cons:
  "query_text ((k, v) # kvs) @ [nul] =
     k @ CHR ''='' # v @ (if kvs = [] then [nul] else CHR ''&'' # query_text kvs @ [nul])"
  by (cases kvs) auto

lemma qs_pairs_starts:
  assumes "kvs \<noteq> []" and "length kvs \<le> n" and "\<forall>(k, v) \<in> set kvs. plain k \<and> value_text v"
  shows "qs_pairs n (pre @ query_text kvs @ [nul]) (length pre) = Some (starts (length pre) kvs)"
  using assms
proof (induction kvs arbitrary: n pre)
  case Nil
  then show ?case by simp
next
  case (Cons kv kvs)
  obtain k v where kv: "kv = (k, v)" by (cases kv)
  have pv: "plain k" "value_text v" using Cons.prems(3) kv by simp_all
  obtain m where n: "n = Suc m" using Cons.prems(2) by (cases n) auto
  let ?t = "if kvs = [] then nul else CHR ''&''"
  have b: "pre @ query_text (kv # kvs) @ [nul] =
      pre @ (k @ CHR ''='' # v) @ ?t # (if kvs = [] then [] else query_text kvs @ [nul])"
    by (simp only: kv query_text_Cons) simp
  have ok: "c \<noteq> nul \<and> c \<notin> set ''&''" if "c \<in> set (k @ CHR ''='' # v)" for c
    using that plain_char [OF pv(1), of c] value_char [OF pv(2), of c] by auto
  have j: "strcspn (pre @ query_text (kv # kvs) @ [nul]) (length pre) ''&'' = Some (length k + length v + 1)"
    unfolding b using strcspn_append [of "k @ CHR ''='' # v" "''&''" ?t pre] ok by auto
  have c: "rd (pre @ query_text (kv # kvs) @ [nul]) (length pre + (length k + length v + 1)) = Some ?t"
    unfolding b using rd_at [of "pre @ (k @ CHR ''='' # v)"] by simp
  show ?case
  proof (cases "kvs = []")
    case True
    then show ?thesis using j c n kv by simp
  next
    case False
    let ?pre = "pre @ k @ CHR ''='' # v @ ''&''"
    have "qs_pairs m (?pre @ query_text kvs @ [nul]) (length ?pre) = Some (starts (length ?pre) kvs)"
      using Cons.prems False n by (intro Cons.IH) auto
    moreover have "pre @ query_text (kv # kvs) @ [nul] = ?pre @ query_text kvs @ [nul]"
      using b False by simp
    ultimately show ?thesis
      using j c n kv False by (simp add: algebra_simps)
  qed
qed

lemma qs_decode_pairs_regions:
  assumes "kvs \<noteq> []" and "\<forall>(k, v) \<in> set kvs. plain k \<and> value_text v"
  shows "qs_decode_pairs (pre @ query_text kvs @ [nul]) (starts (length pre) kvs) = Some (pre @ regions kvs)"
  using assms
proof (induction kvs arbitrary: pre)
  case Nil
  then show ?case by simp
next
  case (Cons kv kvs)
  obtain k v where kv: "kv = (k, v)" by (cases kv)
  have pv: "plain k" using Cons.prems(2) kv by simp
  let ?t = "if kvs = [] then nul else CHR ''&''" and ?d = "qs_decoded v"
  let ?rest = "if kvs = [] then [] else query_text kvs @ [nul]"
  have b: "pre @ query_text (kv # kvs) @ [nul] = pre @ k @ CHR ''='' # v @ ?t # ?rest"
    by (simp only: kv query_text_Cons) simp
  have ok: "c \<noteq> nul \<and> c \<notin> set ''=&#''" if "c \<in> set k" for c
    by (rule plain_char [OF pv that])
  have j: "strcspn (pre @ query_text (kv # kvs) @ [nul]) (length pre) ''=&#'' = Some (length k)"
    unfolding b using strcspn_append [of k "''=&#''" "CHR ''=''" pre] ok by auto
  have c: "rd (pre @ query_text (kv # kvs) @ [nul]) (length pre + length k) = Some (CHR ''='')"
    unfolding b using rd_at [of "pre @ k"] by simp
  have dv: "qs_decoded (v @ ?t # ?rest) = ?d" by (rule qs_decoded_append) simp
  have "qs_decode ((pre @ k @ ''='') @ v @ ?t # ?rest) (length (pre @ k @ ''=''))
      = Some ((pre @ k @ ''='') @ ?d @ nul # drop (Suc (length ?d)) (v @ ?t # ?rest), length ?d)"
    using qs_decode_eq [of "v @ ?t # ?rest" "pre @ k @ ''=''"] by (simp add: dv split: if_splits)
  moreover have "drop (Suc (length ?d)) (v @ ?t # ?rest) = drop (Suc (length ?d)) (v @ [?t]) @ ?rest"
    using length_qs_decoded [of v] by (intro drop_within) simp
  ultimately have d: "qs_decode (pre @ query_text (kv # kvs) @ [nul]) (length pre + length k + 1)
      = Some ((pre @ k @ ''='' @ ?d @ nul # drop (Suc (length ?d)) (v @ [?t])) @ ?rest, length ?d)"
    unfolding b by simp
  let ?pre = "pre @ k @ ''='' @ ?d @ nul # drop (Suc (length ?d)) (v @ [?t])"
  have len: "length ?pre = length pre + length k + length v + 2"
    using length_qs_decoded [of v] by simp
  have "qs_decode_pairs (?pre @ ?rest) (starts (length ?pre) kvs) = Some (?pre @ regions kvs)"
    using Cons.IH [of ?pre] Cons.prems(2) by (cases "kvs = []") auto
  then show ?case
    using j c d unfolding kv starts.simps len [symmetric] by (simp add: len)
qed

section \<open>Lookup\<close>

lemma qs_char_plain:
  "CROW_QS_ISQSCHR c \<Longrightarrow> c \<noteq> CHR ''+'' \<Longrightarrow> c \<noteq> CHR ''%'' \<Longrightarrow>
   qs_char (xs @ c # ys) (length xs) = Some (byte c, length xs + 1)"
  by (simp add: qs_char_def)

lemma qs_char_delim: "\<not> CROW_QS_ISQSCHR d \<Longrightarrow> qs_char (xs @ d # ys) (length xs) = Some (0, length xs + 1)"
  by (simp add: qs_char_def)

lemma byte_pos: "CROW_QS_ISQSCHR c \<Longrightarrow> byte c \<noteq> 0"
proof
  assume "CROW_QS_ISQSCHR c" and "byte c = 0"
  then have "byte c = byte nul" by simp
  then have "c = nul" by (simp only: of_char_eq_iff)
  with \<open>CROW_QS_ISQSCHR c\<close> show False by simp
qed

lemma qs_strncmp_plain:
  assumes "plain name" and "plain k" and "\<not> CROW_QS_ISQSCHR d"
  shows "\<exists>x. qs_strncmp (kp @ name @ [nul]) (length kp) (pre @ k @ d # rest) (length pre) (length name) = Some x
     \<and> (x = 0 \<longleftrightarrow> k = name)"
  using assms
proof (induction name arbitrary: kp pre k)
  case Nil
  then show ?case by (cases k) (auto simp: plain_def)
next
  case (Cons a name)
  have a: "CROW_QS_ISQSCHR a" "a \<noteq> CHR ''+''" "a \<noteq> CHR ''%''" "plain name"
    using Cons.prems(1) by (auto simp: plain_def)
  have ka: "qs_char (kp @ (a # name) @ [nul]) (length kp) = Some (byte a, length kp + 1)"
    using qs_char_plain [OF a(1-3), of kp "name @ [nul]"] by simp
  show ?case
  proof (cases k)
    case Nil
    with ka byte_pos [OF a(1)] qs_char_delim [OF Cons.prems(3), of pre rest] show ?thesis by simp
  next
    case (Cons e k')
    then have e: "CROW_QS_ISQSCHR e" "e \<noteq> CHR ''+''" "e \<noteq> CHR ''%''" "plain k'"
      using Cons.prems(2) by (auto simp: plain_def)
    have ke: "qs_char (pre @ k @ d # rest) (length pre) = Some (byte e, length pre + 1)"
      using qs_char_plain [OF e(1-3), of pre "k' @ d # rest"] Cons by simp
    show ?thesis
    proof (cases "a = e")
      case False
      with ka ke Cons show ?thesis by simp
    next
      case True
      from Cons.IH [OF a(4) e(4) Cons.prems(3), of "kp @ [a]" "pre @ [e]"] True ka ke Cons byte_pos [OF a(1)]
      show ?thesis by simp
    qed
  qed
qed

definition c_string :: "string \<Rightarrow> string" where
  "c_string s = takeWhile (\<lambda>c. c \<noteq> nul) s"

lemma cstr_at: "cstr (pre @ s @ nul # r) (length pre) = c_string s"
  by (induction s) (simp_all add: cstr_def c_string_def)

lemma c_string_id: "nul \<notin> set s \<Longrightarrow> c_string s = s"
  by (auto simp: c_string_def takeWhile_eq_all_conv)

lemma plain_no_nul: "plain name \<Longrightarrow> nul \<notin> set name"
  using plain_char by blast

lemma qs_k2v_regions:
  assumes "\<forall>(k, v) \<in> set kvs. plain k" and "plain name"
  shows "\<exists>r. qs_k2v (name @ [nul]) (pre @ regions kvs) (starts (length pre) kvs) 0 = Some r \<and>
     map_option (cstr (pre @ regions kvs)) r = map_of (map (\<lambda>(k, v). (k, c_string (qs_decoded v))) kvs) name"
  using assms(1)
proof (induction kvs arbitrary: pre)
  case Nil
  then show ?case by simp
next
  case (Cons kv kvs)
  obtain k v where kv: "kv = (k, v)" by (cases kv)
  have pk: "plain k" using Cons.prems kv by simp
  let ?d = "qs_decoded v"
  let ?junk = "drop (Suc (length ?d)) (v @ (if kvs = [] then [nul] else ''&''))"
  let ?b = "pre @ regions (kv # kvs)" and ?pre = "pre @ k @ ''='' @ ?d @ nul # ?junk"
  have b: "?b = pre @ k @ CHR ''='' # ?d @ nul # ?junk @ regions kvs" by (simp add: kv)
  have len: "length ?pre = length pre + length k + length v + 2"
    using length_qs_decoded [of v] by simp
  have key: "cstr (name @ [nul]) 0 = name"
    using cstr_at [of "[]" name "[]"] plain_no_nul [OF assms(2)] by (simp add: c_string_id)
  obtain x where x: "qs_strncmp (name @ [nul]) 0 ?b (length pre) (length name) = Some x" "x = 0 \<longleftrightarrow> k = name"
    using qs_strncmp_plain [OF assms(2) pk, of "CHR ''=''" "[]" pre "?d @ nul # ?junk @ regions kvs"]
    unfolding b by auto
  show ?case
  proof (cases "k = name")
    case True
    have "strcspn ?b (length pre) ''='' = Some (length k)"
      unfolding b using strcspn_append [of k "''=''" "CHR ''=''" pre] plain_char [OF pk] by auto
    moreover have "rd ?b (length pre + length k) = Some (CHR ''='')"
      unfolding b using rd_at [of "pre @ k"] by simp
    ultimately have "skip_to ?b (length pre) (CHR ''='') = Some (length k + 1)"
      by (simp add: skip_to_def)
    moreover have "cstr ?b (length pre + (length k + 1)) = c_string ?d"
      using cstr_at [of "pre @ k @ ''=''" ?d "?junk @ regions kvs"] unfolding b by simp
    ultimately show ?thesis using x True by (simp add: kv key)
  next
    case False
    have bp: "?b = ?pre @ regions kvs" by (simp add: kv)
    obtain r where r: "qs_k2v (name @ [nul]) ?b (starts (length ?pre) kvs) 0 = Some r"
      "map_option (cstr ?b) r = map_of (map (\<lambda>(k, v). (k, c_string (qs_decoded v))) kvs) name"
      using Cons.IH [of ?pre] Cons.prems unfolding bp by auto
    have "qs_k2v (name @ [nul]) B (starts (length pre) (kv # kvs)) 0 = Some r" if "B = ?b" for B
      using r(1) [folded that, unfolded len] x(1) [folded that] x(2) False unfolding kv by (simp add: key)
    with r(2) False show ?thesis by (auto simp: kv)
  qed
qed

lemma mk_query_string_pairs:
  assumes "\<And>c. c \<in> set path \<Longrightarrow> c \<noteq> nul \<and> c \<notin> set ''?#''" and "kvs \<noteq> []"
    and "length kvs \<le> MAX_KEY_VALUE_PAIRS_COUNT" and "\<forall>(k, v) \<in> set kvs. plain k \<and> value_text v"
  shows "mk_query_string (path @ ''?'' @ query_text kvs) =
     Some \<lparr>url = (path @ ''?'') @ regions kvs, key_value_pairs = starts (length (path @ ''?'')) kvs\<rparr>"
proof -
  let ?b = "(path @ ''?'') @ query_text kvs @ [nul]"
  have "strcspn ?b 0 ''?#'' = Some (length path)"
    using strcspn_append [of path "''?#''" "CHR ''?''" "[]"] assms(1) by auto
  moreover have "rd ?b (length path) = Some (CHR ''?'')"
    using rd_at [of path] by simp
  moreover note qs_pairs_starts [OF assms(2-4), of "path @ ''?''"] qs_decode_pairs_regions [OF assms(2,4), of "path @ ''?''"]
  ultimately show ?thesis
    by (simp add: mk_query_string_def qs_parse_def)
qed

lemma query_value:
  assumes "\<And>c. c \<in> set path \<Longrightarrow> c \<noteq> nul \<and> c \<notin> set ''?#''" and "kvs \<noteq> []"
    and "length kvs \<le> 256" and "\<forall>(k, v) \<in> set kvs. plain k \<and> value_text v" and "plain name"
  shows "\<exists>q. mk_query_string (path @ ''?'' @ query_text kvs) = Some q \<and>
    qs_value q name = Some (map_of (map (\<lambda>(k, v). (k, c_string (qs_decoded v))) kvs) name)"
proof -
  let ?q = "\<lparr>url = (path @ ''?'') @ regions kvs, key_value_pairs = starts (length (path @ ''?'')) kvs\<rparr>"
  have "\<forall>(k, v) \<in> set kvs. plain k" using assms(4) by auto
  from qs_k2v_regions [OF this assms(5), of "path @ ''?''"]
  have "qs_value ?q name = Some (map_of (map (\<lambda>(k, v). (k, c_string (qs_decoded v))) kvs) name)"
    by (auto simp: qs_value_def qs_get_def)
  moreover have "mk_query_string (path @ ''?'' @ query_text kvs) = Some ?q"
    using assms(3) by (intro mk_query_string_pairs assms) (simp_all add: MAX_KEY_VALUE_PAIRS_COUNT_def)
  ultimately show ?thesis by blast
qed

text \<open>The constructor stays inside its buffer.\<close>

lemma mk_query_string_safe:
  "\<exists>q. mk_query_string u = Some q \<and> terminated (url q) \<and> length (url q) = length u + 1 \<and>
       length (key_value_pairs q) \<le> 256 \<and> list_all (\<lambda>p. p < length (url q)) (key_value_pairs q)"
proof (cases "u = []")
  case True
  then show ?thesis by (simp add: mk_query_string_def qs_empty_def terminated_def)
next
  case False
  let ?b = "u @ [nul]"
  have t: "terminated ?b" by (simp add: terminated_def)
  then obtain k where k: "strcspn ?b 0 ''?#'' = Some k" "0 + k < length ?b"
    by (rule strcspn_terminated) auto
  show ?thesis
  proof (cases "?b ! k = nul")
    case True
    with k False t show ?thesis by (simp add: mk_query_string_def qs_parse_def rd_def)
  next
    case nn: False
    have "k + 1 < length ?b" using terminated_next [OF t _ nn] k by simp
    then obtain ps where ps: "qs_pairs 256 ?b (k + 1) = Some ps" "\<forall>q \<in> set ps. q < length ?b" "length ps \<le> 256"
      using qs_pairs_terminated [OF t] by blast
    then obtain b' where "qs_decode_pairs ?b ps = Some b'" "terminated b'" "length b' = length ?b"
      using qs_decode_pairs_terminated [OF t] by blast
    with k ps nn False show ?thesis
      by (simp add: mk_query_string_def qs_parse_def rd_def MAX_KEY_VALUE_PAIRS_COUNT_def list_all_iff)
  qed
qed

end
