(* ===== verification/Query_String_Properties.thy ===== *)
theory Query_String_Properties
  imports Query_String_Proofs
begin

text \<open>
  The properties of the query string: parsing is memory-safe and bounded for every URL,
  lookup returns the decoded value of the first pair with the key, percent-encoding is
  undone, and looking up a key can read past the end of the buffer.
\<close>


text \<open>
  C18. For a URL whose query is a sequence of at most 256 pairs \<open>key=value\<close> with plain keys, \<open>get\<close>
  returns the decoded value of the first pair with the given name, as the C string the
  handlers copy, and the null pointer when there is none.
\<close>

theorem query_string_lookup:
  assumes "\<And>c. c \<in> set path \<Longrightarrow> c \<noteq> nul \<and> c \<notin> set ''?#''" and "kvs \<noteq> []"
    and "length kvs \<le> 256" and "\<forall>(k, v) \<in> set kvs. plain k \<and> value_text v" and "plain name"
  shows "\<exists>q. mk_query_string (path @ ''?'' @ query_text kvs) = Some q \<and>
    qs_value q name = Some (map_of (map (\<lambda>(k, v). (k, c_string (qs_decoded v))) kvs) name)"
  by (rule query_value) (use assms in auto)

theorem query_string_lookup_witness:
  "\<exists>q. mk_query_string ''/api?accountID=700%30&amount=5+0'' = Some q \<and>
       qs_value q ''accountID'' = Some (Some ''7000'') \<and> qs_value q ''amount'' = Some (Some ''5 0'') \<and>
       qs_value q ''x'' = Some None"
proof -
  let ?kvs = "[(''accountID'', ''700%30''), (''amount'', ''5+0'')]"
  have d: "c_string (qs_decoded ''700%30'') = ''7000''" "c_string (qs_decoded ''5+0'') = ''5 0''"
    by code_simp+
  have pl: "plain ''accountID''" "plain ''amount''" "plain ''x''" "value_text ''700%30''" "value_text ''5+0''"
    by (simp_all add: plain_def value_text_def CROW_QS_ISQSCHR_def)
  let ?u = "''/api?accountID=700%30&amount=5+0''"
  have u: "''/api'' @ ''?'' @ query_text ?kvs = ?u" by simp
  have lk: "\<exists>q. mk_query_string ?u = Some q \<and>
      qs_value q name = Some (map_of (map (\<lambda>(k, v). (k, c_string (qs_decoded v))) ?kvs) name)" if "plain name" for name
    unfolding u [symmetric] by (rule query_string_lookup) (use pl that in auto)
  obtain q where q: "mk_query_string ?u = Some q" using lk [OF pl(1)] by blast
  have "qs_value q name = Some (map_of (map (\<lambda>(k, v). (k, c_string (qs_decoded v))) ?kvs) name)" if "plain name" for name
    using lk [OF that] q by simp
  from q this [OF pl(1)] this [OF pl(2)] this [OF pl(3)] show ?thesis
    by (simp add: d del: qs_decoded.simps)
qed

section \<open>Percent-encoding\<close>

definition hex_digit :: "nat \<Rightarrow> char" where
  "hex_digit d = (if d < 10 then char_of (48 + d) else char_of (55 + d))"

text \<open>The encoding a client uses: every byte as \<open>%\<close> and two hexadecimal digits.\<close>

definition percent_encode :: "string \<Rightarrow> string" where
  "percent_encode v = concat (map (\<lambda>c. [CHR ''%'', hex_digit (byte c div 16), hex_digit (byte c mod 16)]) v)"

lemma byte_hex_digit: "d < 16 \<Longrightarrow> byte (hex_digit d) = (if d < 10 then 48 + d else 55 + d)"
  by (simp add: hex_digit_def)

lemma hex_digit_class: "d < 16 \<Longrightarrow> CROW_QS_ISHEX (hex_digit d) \<and> CROW_QS_HEX2DEC (hex_digit d) = d"
  by (auto simp: CROW_QS_ISHEX_def CROW_QS_HEX2DEC_def byte_hex_digit)

lemma hex_digit_isqschr: "d < 16 \<Longrightarrow> CROW_QS_ISQSCHR (hex_digit d)"
  using hex_digit_class delimiter_not_hex by blast

lemma byte_split: "byte c div 16 * 16 + byte c mod 16 = byte c"
  by simp

lemma byte_nibbles: "byte c div 16 < 16" "byte c mod 16 < 16"
  using byte_less [of c] by presburger+

lemma qs_decoded_encoded: "qs_decoded (percent_encode v) = v"
proof (induction v)
  case (Cons c v)
  have "char_of (byte c div 16 * 16 + byte c mod 16) = c" unfolding byte_split by simp
  with Cons hex_digit_class [OF byte_nibbles(1) [of c]] hex_digit_class [OF byte_nibbles(2) [of c]]
  show ?case by (simp add: percent_encode_def CROW_QS_ISQSCHR_def)
qed (simp add: percent_encode_def)

lemma encoded_value_text: "value_text (percent_encode v)"
  using hex_digit_isqschr [OF byte_nibbles(1)] hex_digit_isqschr [OF byte_nibbles(2)]
  by (auto simp: value_text_def percent_encode_def CROW_QS_ISQSCHR_def)

text \<open>
  C19. Round trip: a value of any bytes other than NUL, percent-encoded into the query by the
  client, is the value the handlers read for its key.
\<close>

theorem query_string_roundtrip:
  assumes "\<And>c. c \<in> set path \<Longrightarrow> c \<noteq> nul \<and> c \<notin> set ''?#''"
    and "length kvs \<le> 256" and "\<forall>(k, w) \<in> set kvs. plain k \<and> nul \<notin> set w" and "map_of kvs name = Some w"
  shows "\<exists>q. mk_query_string (path @ ''?'' @ query_text (map (\<lambda>(k, v). (k, percent_encode v)) kvs)) = Some q \<and>
    qs_value q name = Some (Some w)"
proof -
  let ?enc = "map (\<lambda>(k, v). (k, percent_encode v)) kvs"
  have name: "plain name" using assms(3) map_of_SomeD [OF assms(4)] by auto
  have dec: "map (\<lambda>(k, v). (k, c_string (qs_decoded v))) ?enc = kvs"
    using assms(3) by (auto simp: qs_decoded_encoded c_string_id intro!: map_idI)
  have ne: "?enc \<noteq> []" "length ?enc \<le> 256" using assms(2,4) by auto
  have wf: "\<forall>(k, v) \<in> set ?enc. plain k \<and> value_text v"
    using assms(3) by (auto simp: encoded_value_text)
  show ?thesis
    using query_value [OF assms(1) ne wf name] unfolding dec assms(4) .
qed

theorem query_string_roundtrip_witness:
  "\<exists>q. mk_query_string (''/api'' @ ''?'' @ query_text [(''a'', percent_encode ''x&y=%'')]) = Some q \<and>
       qs_value q ''a'' = Some (Some ''x&y=%'')"
proof -
  have "\<exists>q. mk_query_string (''/api'' @ ''?'' @ query_text (map (\<lambda>(k, v). (k, percent_encode v)) [(''a'', ''x&y=%'')])) = Some q \<and>
      qs_value q ''a'' = Some (Some ''x&y=%'')"
    by (rule query_string_roundtrip) (auto simp: plain_def CROW_QS_ISQSCHR_def)
  then show ?thesis by simp
qed

text \<open>
  Looking a key up can read past the end of the buffer: when the last pair of the URL is
  a proper prefix of the key followed by a percent sign, the comparison skips the terminator and
  reads the byte behind it, so \<open>get\<close> has no value within the buffer.
\<close>

theorem query_string_get_overreads:
  assumes "\<And>c. c \<in> set path \<Longrightarrow> c \<noteq> nul \<and> c \<notin> set ''?#''" and "plain (k @ a # rest)"
  shows "\<exists>q. mk_query_string (path @ ''?'' @ k @ ''%'') = Some q \<and> qs_get q (k @ a # rest) = None"
proof -
  let ?b = "(path @ ''?'') @ (k @ ''%'') @ [nul]"
  have kc: "c \<noteq> nul \<and> c \<notin> set ''=&#''" if "c \<in> set (k @ ''%'')" for c
    using that plain_char [OF assms(2), of c] by auto
  have "strcspn ?b 0 ''?#'' = Some (length path)"
    using strcspn_append [of path "''?#''" "CHR ''?''" "[]"] assms(1) by auto
  moreover have "rd ?b (length path) = Some (CHR ''?'')" using rd_at [of path] by simp
  moreover have "qs_pairs 256 ?b (length (path @ ''?'')) = Some [length (path @ ''?'')]"
    using strcspn_append [of "k @ ''%''" "''&''" nul "path @ ''?''" "[]"] kc rd_at [of "path @ ''?'' @ k @ ''%''" _ nul "[]"]
    by (auto simp: numeral_eq_Suc)
  moreover have "qs_decode_pairs ?b [length (path @ ''?'')] = Some ?b"
    using strcspn_append [of "k @ ''%''" "''=&#''" nul "path @ ''?''" "[]"] kc rd_at [of "path @ ''?'' @ k @ ''%''" _ nul "[]"]
    by (auto simp: list_update_append)
  ultimately have q: "mk_query_string (path @ ''?'' @ k @ ''%'') = Some \<lparr>url = ?b, key_value_pairs = [length (path @ ''?'')]\<rparr>"
    by (simp add: mk_query_string_def qs_parse_def MAX_KEY_VALUE_PAIRS_COUNT_def)
  have over: "qs_strncmp (kp @ k @ a # r) (length kp) (pre @ k @ ''%'' @ [nul]) (length pre) (length k + Suc n) = None"
    if "plain (k @ [a])" for kp pre k r n
    using that
  proof (induction k arbitrary: kp pre)
    case Nil
    then show ?case by (simp add: plain_def qs_char_def rd_def CROW_QS_ISQSCHR_def)
  next
    case (Cons e k)
    then have e: "CROW_QS_ISQSCHR e" "e \<noteq> CHR ''+''" "e \<noteq> CHR ''%''" "plain (k @ [a])" by (auto simp: plain_def)
    from Cons.IH [OF e(4), of "kp @ [e]" "pre @ [e]"] show ?case
      using qs_char_plain [OF e(1-3), of kp "k @ a # r"] qs_char_plain [OF e(1-3), of pre "k @ ''%'' @ [nul]"] byte_pos [OF e(1)]
      by simp
  qed
  have pl: "plain (k @ [a])" using assms(2) by (simp add: plain_def)
  have "cstr ((k @ a # rest) @ [nul]) 0 = k @ a # rest"
    using cstr_at [of "[]" "k @ a # rest" "[]"] plain_no_nul [OF assms(2)] by (simp add: c_string_id)
  then have "qs_get \<lparr>url = ?b, key_value_pairs = [length (path @ ''?'')]\<rparr> (k @ a # rest) = None"
    using over [OF pl, of "[]" "rest @ [nul]" "path @ ''?''" "length rest"] by (simp add: qs_get_def)
  with q show ?thesis by blast
qed

theorem query_string_get_overreads_witness:
  "\<exists>q. mk_query_string ''/api/1.0/wallet/balance_transfer?fromAccoun%'' = Some q \<and> qs_get q ''fromAccount'' = None"
proof -
  have "\<exists>q. mk_query_string (''/api/1.0/wallet/balance_transfer'' @ ''?'' @ ''fromAccoun'' @ ''%'') = Some q \<and>
      qs_get q (''fromAccoun'' @ CHR ''t'' # []) = None"
    by (rule query_string_get_overreads) (auto simp: plain_def CROW_QS_ISQSCHR_def)
  then show ?thesis by simp
qed

end
