(* ===== verification/Crow_Utility.thy ===== *)
theory Crow_Utility
  imports Crow_Message
begin

text \<open>
  \<^verbatim>\<open>crow::utility\<close> (lib/crowapi/crow_all.h): base64 in both alphabets, and the
  sanitizer of file names that static responses go through. Bytes are 8-bit words and the
  shifts and masks are those of the code. Decoding reads its input by position, so it has no
  value where the code would read outside of it. The sanitizer walks over its string
  once; the model keeps what lies before the current position out of the way and works on the
  rest, which is all that the code changes from there on.
\<close>

section \<open>Base64\<close>

definition base64_key :: string where
  "base64_key = ''ABCDEFGHIJKLMNOPQRSTUVWXYZabcdefghijklmnopqrstuvwxyz0123456789+/''"

definition base64_key_urlsafe :: string where
  "base64_key_urlsafe = ''ABCDEFGHIJKLMNOPQRSTUVWXYZabcdefghijklmnopqrstuvwxyz0123456789-_''"

text \<open>
  The four groups of six bits of three bytes, and the bits \<open>h\<close> that one byte leaves for the next
  group.
\<close>

definition sextet1 :: "8 word \<Rightarrow> 8 word" where
  "sextet1 a = drop_bit 2 (a AND 0xFC)"

definition h1 :: "8 word \<Rightarrow> 8 word" where
  "h1 a = push_bit 4 (a AND 0x03)"

definition sextet2 :: "8 word \<Rightarrow> 8 word \<Rightarrow> 8 word" where
  "sextet2 a b = h1 a OR drop_bit 4 (b AND 0xF0)"

definition h2 :: "8 word \<Rightarrow> 8 word" where
  "h2 b = push_bit 2 (b AND 0x0F)"

definition sextet3 :: "8 word \<Rightarrow> 8 word \<Rightarrow> 8 word" where
  "sextet3 b c = h2 b OR drop_bit 6 (c AND 0xC0)"

definition sextet4 :: "8 word \<Rightarrow> 8 word" where
  "sextet4 c = c AND 0x3F"

fun base64encode_with :: "string \<Rightarrow> 8 word list \<Rightarrow> string" where
  "base64encode_with key (a # b # c # rest) =
     [key ! unat (sextet1 a), key ! unat (sextet2 a b), key ! unat (sextet3 b c), key ! unat (sextet4 c)]
       @ base64encode_with key rest"
| "base64encode_with key [a] = [key ! unat (sextet1 a), key ! unat (h1 a), CHR ''='', CHR ''='']"
| "base64encode_with key [a, b] =
     [key ! unat (sextet1 a), key ! unat (sextet2 a b), key ! unat (h2 b), CHR ''='']"
| "base64encode_with key [] = []"

definition base64encode :: "8 word list \<Rightarrow> string" where
  "base64encode data = base64encode_with base64_key data"

definition base64encode_urlsafe :: "8 word list \<Rightarrow> string" where
  "base64encode_urlsafe data = base64encode_with base64_key_urlsafe data"

definition decode_key :: "char \<Rightarrow> 8 word" where
  "decode_key c =
     (if 65 \<le> byte c \<and> byte c \<le> 90 then of_nat (byte c - 65)
      else if 97 \<le> byte c \<and> byte c \<le> 122 then of_nat (byte c - 97 + 26)
      else if 48 \<le> byte c \<and> byte c \<le> 57 then of_nat (byte c - 48 + 52)
      else if c = CHR ''+'' \<or> c = CHR ''-'' then 62
      else if c = CHR ''/'' \<or> c = CHR ''_'' then 63
      else 0)"

text \<open>The number of bytes the text stands for.\<close>

definition decoded_size :: "string \<Rightarrow> nat option" where
  "decoded_size data =
     (let n = length data in
      if n mod 4 = 2 then Some (n div 4 * 3 + 1)
      else if n mod 4 = 3 then Some (n div 4 * 3 + 2)
      else if n < 2 then None
      else if data ! (n - 2) = CHR ''='' then Some (n div 4 * 3 - 2)
      else if data ! (n - 1) = CHR ''='' then Some (n div 4 * 3 - 1)
      else Some (n div 4 * 3))"

text \<open>The three bytes of four groups of six bits.\<close>

definition octet1 :: "8 word \<Rightarrow> 8 word \<Rightarrow> 8 word" where
  "octet1 od ev = push_bit 2 od OR drop_bit 4 (ev AND 0x30)"

definition octet2 :: "8 word \<Rightarrow> 8 word \<Rightarrow> 8 word" where
  "octet2 ev od = push_bit 4 (ev AND 0x0F) OR drop_bit 2 (od AND 0x3C)"

definition octet3 :: "8 word \<Rightarrow> 8 word \<Rightarrow> 8 word" where
  "octet3 od ev = push_bit 6 (od AND 0x03) OR ev"

fun decode_blocks :: "nat \<Rightarrow> string \<Rightarrow> 8 word list option" where
  "decode_blocks n data =
     (if 3 \<le> n then
        (case data of
           c1 # c2 # c3 # c4 # rest \<Rightarrow>
             map_option (\<lambda>ds. [octet1 (decode_key c1) (decode_key c2), octet2 (decode_key c2) (decode_key c3),
                               octet3 (decode_key c3) (decode_key c4)] @ ds)
               (decode_blocks (n - 3) rest)
         | _ \<Rightarrow> None)
      else if n = 2 then
        (case data of
           c1 # c2 # c3 # rest \<Rightarrow>
             Some [octet1 (decode_key c1) (decode_key c2), octet2 (decode_key c2) (decode_key c3)]
         | _ \<Rightarrow> None)
      else if n = 1 then
        (case data of
           c1 # c2 # rest \<Rightarrow> Some [octet1 (decode_key c1) (decode_key c2)]
         | _ \<Rightarrow> None)
      else Some [])"

declare decode_blocks.simps [simp del]

definition base64decode :: "string \<Rightarrow> 8 word list option" where
  "base64decode data = (case decoded_size data of None \<Rightarrow> None | Some n \<Rightarrow> decode_blocks n data)"

section \<open>File names\<close>

definition is_slash :: "char \<Rightarrow> bool" where
  "is_slash c \<longleftrightarrow> c = CHR ''/'' \<or> c = CHR 0x5C"

text \<open>What follows the pattern, matched without regard to case, at the start of a string.\<close>

fun match_pattern :: "string \<Rightarrow> string \<Rightarrow> string option" where
  "match_pattern s [] = Some s"
| "match_pattern [] (p # ps) = None"
| "match_pattern (c # s) (p # ps) = (if toupper c \<noteq> p then None else match_pattern s ps)"

definition special_rest :: "string \<Rightarrow> bool \<Rightarrow> string \<Rightarrow> string option" where
  "special_rest pattern includeNumber source =
     (case match_pattern source pattern of
        None \<Rightarrow> None
      | Some r \<Rightarrow>
          (case (if includeNumber
                 then (case r of [] \<Rightarrow> None
                       | d # r' \<Rightarrow> if byte d < 49 \<or> byte d > 57 then None else Some r')
                 else Some r) of
             None \<Rightarrow> None
           | Some r' \<Rightarrow>
               (case r' of [] \<Rightarrow> Some r'
                | e # _ \<Rightarrow> if e = CHR ''.'' \<or> e = CHR '':'' \<or> is_slash e then Some r' else None)))"

definition sanitizeSpecialFile :: "char \<Rightarrow> string \<Rightarrow> bool \<Rightarrow> string \<Rightarrow> string" where
  "sanitizeSpecialFile replacement pattern includeNumber source =
     (case special_rest pattern includeNumber source of
        None \<Rightarrow> source | Some r \<Rightarrow> replacement # r)"

definition special_entries :: "char \<Rightarrow> string \<Rightarrow> string" where
  "special_entries rep s =
     (case s of [] \<Rightarrow> [] | c # _ \<Rightarrow>
        (let u = toupper c in
         if u = CHR ''A'' then sanitizeSpecialFile rep ''AUX'' False s
         else if u = CHR ''C'' then
           sanitizeSpecialFile rep ''COM'' True (sanitizeSpecialFile rep ''CON'' False s)
         else if u = CHR ''L'' then sanitizeSpecialFile rep ''LPT'' True s
         else if u = CHR ''N'' then sanitizeSpecialFile rep ''NUL'' False s
         else if u = CHR ''P'' then sanitizeSpecialFile rep ''PRN'' False s
         else if u = CHR ''.'' then sanitizeSpecialFile rep ''..'' False s
         else s))"

definition bad_char :: "char \<Rightarrow> bool" where
  "bad_char c \<longleftrightarrow> byte c < 32 \<or> (0x80 \<le> byte c \<and> byte c \<le> 0x9F) \<or> c \<in> set ''?<>:*|'' \<or> c = CHR 0x22"

lemma match_pattern_length: "match_pattern s p = Some r \<Longrightarrow> length r + length p = length s"
  by (induction s p rule: match_pattern.induct) (auto split: if_splits)

lemma special_rest_match:
  "special_rest p n s = Some r \<Longrightarrow> \<exists>m. match_pattern s p = Some m \<and> length r \<le> length m"
  by (auto simp: special_rest_def split: option.splits if_splits list.splits)

lemma special_rest_length: "special_rest p n s = Some r \<Longrightarrow> p \<noteq> [] \<Longrightarrow> length r < length s"
  by (metis le_less_trans length_greater_0_conv less_add_same_cancel1 match_pattern_length special_rest_match)

lemma sanitizeSpecialFile_length: "p \<noteq> [] \<Longrightarrow> length (sanitizeSpecialFile rep p n s) \<le> length s"
  using special_rest_length [of p n s] by (auto simp: sanitizeSpecialFile_def split: option.splits)

lemma special_entries_length: "length (special_entries rep s) \<le> length s"
  using order_trans [OF sanitizeSpecialFile_length [of "''COM''" rep True "sanitizeSpecialFile rep ''CON'' False s"]
      sanitizeSpecialFile_length [of "''CON''" rep False s]]
    sanitizeSpecialFile_length [of "''AUX''" rep False s] sanitizeSpecialFile_length [of "''LPT''" rep True s]
    sanitizeSpecialFile_length [of "''NUL''" rep False s] sanitizeSpecialFile_length [of "''PRN''" rep False s]
    sanitizeSpecialFile_length [of "''..''" rep False s]
  by (cases s) (simp_all add: special_entries_def Let_def)

text \<open>The loop from one position on: whether it is the first, and whether an entry starts here.\<close>

function sanitize_loop :: "char \<Rightarrow> bool \<Rightarrow> bool \<Rightarrow> string \<Rightarrow> string" where
  "sanitize_loop rep first checkForSpecialEntries s =
     (case (if checkForSpecialEntries then special_entries rep s else s) of
        [] \<Rightarrow> []
      | c # rest \<Rightarrow>
          if bad_char c then rep # sanitize_loop rep False False rest
          else if is_slash c then
            (if first then rep # sanitize_loop rep False False rest
             else c # sanitize_loop rep False True rest)
          else c # sanitize_loop rep False False rest)"
  by pat_completeness auto
termination
proof (relation "measure (\<lambda>(rep, first, chk, s). length s)", goal_cases)
  case (2 rep first chk s c rest)
  then show ?case using special_entries_length [of rep s] by (auto split: if_splits)
next
  case (3 rep first chk s c rest)
  then show ?case using special_entries_length [of rep s] by (auto split: if_splits)
next
  case (4 rep first chk s c rest)
  then show ?case using special_entries_length [of rep s] by (auto split: if_splits)
next
  case (5 rep first chk s c rest)
  then show ?case using special_entries_length [of rep s] by (auto split: if_splits)
qed simp

declare sanitize_loop.simps [simp del]

definition sanitize_filename :: "char \<Rightarrow> string \<Rightarrow> string" where
  "sanitize_filename replacement data = sanitize_loop replacement True True (take 255 data)"

text \<open>\<open>set_static_file_info\<close> sanitizes the path with the default replacement.\<close>

definition set_static_file_info :: "(string \<Rightarrow> int option) \<Rightarrow> string \<Rightarrow> response \<Rightarrow> response \<times> bool" where
  "set_static_file_info stat path r =
     set_static_file_info_unsafe stat (sanitize_filename (CHR ''_'') path) r"

end
