(* ===== verification/Crow_Utility_Properties.thy ===== *)
theory Crow_Utility_Properties
  imports Crow_Utility
begin

text \<open>
  Base64 decodes what it encodes, in both alphabets and with or without padding, and the
  sanitizer of file names leaves no path that climbs out of its directory or names a device.
\<close>

section \<open>Base64\<close>

lemma decode_key_table:
  "list_all (\<lambda>n. unat (decode_key (base64_key ! n)) = n) [0..<64]"
  "list_all (\<lambda>n. unat (decode_key (base64_key_urlsafe ! n)) = n) [0..<64]"
  by code_simp+

lemma no_padding_in_key:
  "list_all (\<lambda>n. base64_key ! n \<noteq> CHR ''='') [0..<64]"
  "list_all (\<lambda>n. base64_key_urlsafe ! n \<noteq> CHR ''='') [0..<64]"
  by code_simp+

definition alphabet :: "string \<Rightarrow> bool" where
  "alphabet key \<longleftrightarrow> key = base64_key \<or> key = base64_key_urlsafe"

lemma decode_key_nth:
  assumes "alphabet key" and "unat w < 64"
  shows "decode_key (key ! unat w) = w" and "key ! unat w \<noteq> CHR ''=''"
proof -
  have "unat (decode_key (key ! unat w)) = unat w"
    using assms decode_key_table by (auto simp: alphabet_def list_all_iff)
  then show "decode_key (key ! unat w) = w" by (rule word_unat_eq_iff [THEN iffD2])
  show "key ! unat w \<noteq> CHR ''=''"
    using assms no_padding_in_key by (auto simp: alphabet_def list_all_iff)
qed

lemma bit_numerals:
  "n < 8 \<Longrightarrow> bit (0x03 :: 8 word) n \<longleftrightarrow> n < 2"
  "n < 8 \<Longrightarrow> bit (0xFC :: 8 word) n \<longleftrightarrow> 2 \<le> n"
  "n < 8 \<Longrightarrow> bit (0x0F :: 8 word) n \<longleftrightarrow> n < 4"
  "n < 8 \<Longrightarrow> bit (0xF0 :: 8 word) n \<longleftrightarrow> 4 \<le> n"
  "n < 8 \<Longrightarrow> bit (0xC0 :: 8 word) n \<longleftrightarrow> 6 \<le> n"
  "n < 8 \<Longrightarrow> bit (0x3F :: 8 word) n \<longleftrightarrow> n < 6"
  "n < 8 \<Longrightarrow> bit (0x30 :: 8 word) n \<longleftrightarrow> n = 4 \<or> n = 5"
  "n < 8 \<Longrightarrow> bit (0x3C :: 8 word) n \<longleftrightarrow> 2 \<le> n \<and> n < 6"
  by (auto simp: less_Suc_eq numeral_eq_Suc bit_0)

lemma word8_eqI:
  fixes v w :: "8 word"
  assumes "bit v 0 = bit w 0" "bit v 1 = bit w 1" "bit v 2 = bit w 2" "bit v 3 = bit w 3"
    "bit v 4 = bit w 4" "bit v 5 = bit w 5" "bit v 6 = bit w 6" "bit v 7 = bit w 7"
  shows "v = w"
proof (rule bit_word_eqI)
  fix n assume "n < LENGTH(8)"
  then have "n = 0 \<or> n = 1 \<or> n = 2 \<or> n = 3 \<or> n = 4 \<or> n = 5 \<or> n = 6 \<or> n = 7" by auto
  with assms show "bit v n = bit w n" by auto
qed

lemma six_bits:
  fixes w :: "8 word"
  assumes "\<not> bit w 6" and "\<not> bit w 7"
  shows "unat w < 64"
proof -
  have "take_bit 6 w = w"
    by (rule word8_eqI) (simp_all add: bit_take_bit_iff assms)
  then have "unat w = take_bit 6 (unat w)" by (metis unsigned_take_bit_eq)
  then show ?thesis by (simp add: take_bit_eq_mod)
qed

lemmas base64_bits = sextet1_def sextet2_def sextet3_def sextet4_def h1_def h2_def
  octet1_def octet2_def octet3_def bit_simps bit_numerals

lemma sextets:
  "unat (sextet1 a) < 64" "unat (sextet2 a b) < 64" "unat (sextet3 b c) < 64" "unat (sextet4 c) < 64"
  "unat (h1 a) < 64" "unat (h2 b) < 64"
  by (rule six_bits; simp add: base64_bits; fail)+

lemma octets:
  "octet1 (sextet1 a) (sextet2 a b) = a" "octet1 (sextet1 a) (h1 a) = a"
  "octet2 (sextet2 a b) (sextet3 b c) = b" "octet2 (sextet2 a b) (h2 b) = b"
  "octet3 (sextet3 b c) (sextet4 c) = c"
  by (rule word8_eqI; simp add: base64_bits; fail)+

lemmas decode_sextets = sextets [THEN decode_key_nth(1) [rotated]]
lemmas key_sextets = sextets [THEN decode_key_nth(2) [rotated]]

text \<open>Decoding the blocks of an encoded text, padded or not.\<close>

definition unpadded :: "string \<Rightarrow> string" where
  "unpadded s = filter (\<lambda>c. c \<noteq> CHR ''='') s"

lemma decode_blocks_encoded:
  assumes "alphabet key"
  shows "decode_blocks (length data) (base64encode_with key data) = Some data"
    and "decode_blocks (length data) (unpadded (base64encode_with key data)) = Some data"
  using assms
  by (induction key data rule: base64encode_with.induct)
     (simp_all add: decode_blocks.simps [of "Suc _"] decode_blocks.simps [of 0] unpadded_def decode_sextets key_sextets octets)

lemma encoded_length: "length (base64encode_with key data) = (length data + 2) div 3 * 4"
proof (induction key data rule: base64encode_with.induct)
  case (1 key a b c data)
  have "(length (a # b # c # data) + 2) div 3 = Suc ((length data + 2) div 3)" by simp
  with 1 show ?case by simp
qed simp_all

lemma unpadded_length:
  "alphabet key \<Longrightarrow> length (unpadded (base64encode_with key data)) =
     length data div 3 * 4 + (if length data mod 3 = 0 then 0 else Suc (length data mod 3))"
proof (induction key data rule: base64encode_with.induct)
  case (1 key a b c data)
  have "length (a # b # c # data) div 3 = Suc (length data div 3)"
    "length (a # b # c # data) mod 3 = length data mod 3" by simp_all
  with 1 show ?case by (simp add: unpadded_def key_sextets)
qed (simp_all add: unpadded_def key_sextets)

lemma encoded_end:
  assumes "alphabet key" and "data \<noteq> []"
  shows "base64encode_with key data ! (length (base64encode_with key data) - 2) = CHR ''='' \<longleftrightarrow> length data mod 3 = 1"
    and "base64encode_with key data ! (length (base64encode_with key data) - 1) = CHR ''='' \<longleftrightarrow> length data mod 3 \<noteq> 0"
proof -
  have last: "(xs @ ys) ! (length (xs @ ys) - k) = ys ! (length ys - k)" if "k \<le> length ys" "0 < k" for xs ys :: string and k
    using that by (auto simp: nth_append)
  show "base64encode_with key data ! (length (base64encode_with key data) - 2) = CHR ''='' \<longleftrightarrow> length data mod 3 = 1"
    and "base64encode_with key data ! (length (base64encode_with key data) - 1) = CHR ''='' \<longleftrightarrow> length data mod 3 \<noteq> 0"
    using assms
  proof (atomize (full), induction key data rule: base64encode_with.induct)
    case (1 key a b c data)
    let ?xs = "[key ! unat (sextet1 a), key ! unat (sextet2 a b), key ! unat (sextet3 b c), key ! unat (sextet4 c)]"
    show ?case
    proof (cases "data = []")
      case True
      with 1(2) show ?thesis by (simp add: key_sextets)
    next
      case False
      then have l: "2 \<le> length (base64encode_with key data)" by (cases data) (simp_all add: encoded_length)
      have e: "base64encode_with key (a # b # c # data) = ?xs @ base64encode_with key data" by simp
      have m: "length (a # b # c # data) mod 3 = length data mod 3" by simp
      have "(?xs @ base64encode_with key data) ! (length (?xs @ base64encode_with key data) - k)
          = base64encode_with key data ! (length (base64encode_with key data) - k)" if "k = 1 \<or> k = 2" for k
        using l that by (intro last) auto
      from this [of 1] this [of 2] have
        "(?xs @ base64encode_with key data) ! (length (?xs @ base64encode_with key data) - 1)
          = base64encode_with key data ! (length (base64encode_with key data) - 1)"
        "(?xs @ base64encode_with key data) ! (length (?xs @ base64encode_with key data) - 2)
          = base64encode_with key data ! (length (base64encode_with key data) - 2)" by blast+
      with 1 False show ?thesis unfolding e m by metis
    qed
  qed (simp_all add: key_sextets)
qed

text \<open>
  C24. Base64 round trip: decoding what non-empty data was encoded to, with the standard or with the URL-safe alphabet,
  gives the data back, and so does decoding it, in either alphabet, after the padding was stripped. The empty
  text has no decoding: the code looks at the character two before its end.
\<close>

theorem base64_roundtrip:
  assumes "data \<noteq> []"
  shows "base64decode (base64encode data) = Some data \<and>
    base64decode (base64encode_urlsafe data) = Some data \<and>
    base64decode (unpadded (base64encode data)) = Some data \<and>
    base64decode (unpadded (base64encode_urlsafe data)) = Some data \<and> base64decode [] = None"
proof -
  have p: "decoded_size (base64encode_with key data) = Some (length data)" if k: "alphabet key" for key
  proof -
    let ?n = "length data"
    have l: "length (base64encode_with key data) = (?n + 2) div 3 * 4" by (rule encoded_length)
    then have b: "length (base64encode_with key data) mod 4 = 0" "\<not> length (base64encode_with key data) < 2"
      using assms by (cases data; simp)+
    show ?thesis
      unfolding decoded_size_def Let_def encoded_end [OF k assms]
      using b l assms by (auto simp: div_mult2_eq) presburger+
  qed
  have u: "decoded_size (unpadded (base64encode_with key data)) = Some (length data)" if k: "alphabet key" for key
  proof -
    let ?e = "unpadded (base64encode_with key data)"
    have eq: "?e ! i \<noteq> CHR ''=''" if "i < length ?e" for i
      using nth_mem [OF that] by (auto simp: unpadded_def)
    obtain q r where n: "length data = 3 * q + r" "r < 3" using mod_less_divisor [of 3 "length data"] by (metis mult_div_mod_eq zero_less_numeral)
    have l: "length ?e = 4 * q + (if r = 0 then 0 else Suc r)"
      using unpadded_length [OF k, of data] n by simp
    consider "r = 0" "0 < q" | "r = 1" | "r = 2"
      using n assms by (cases "r = 0"; cases "r = 1"; cases "q = 0") auto
    then show ?thesis
    proof cases
      case 1
      with eq l show ?thesis by (simp add: decoded_size_def Let_def n)
    next
      case 2
      have "(4 * q + 2) mod 4 = 2" "(4 * q + 2) div 4 = q" by presburger+
      with 2 l show ?thesis by (simp add: decoded_size_def Let_def n)
    next
      case 3
      have "(4 * q + 3) mod 4 = 3" "(4 * q + 3) div 4 = q" by presburger+
      with 3 l show ?thesis by (simp add: decoded_size_def Let_def n)
    qed
  qed
  have "alphabet base64_key" "alphabet base64_key_urlsafe" by (simp_all add: alphabet_def)
  with p u decode_blocks_encoded show ?thesis
    by (simp add: base64decode_def base64encode_def base64encode_urlsafe_def) (simp add: decoded_size_def)
qed

theorem base64_roundtrip_witness:
  "base64decode (base64encode [77, 97]) = Some [77, 97] \<and> base64encode [77, 97] = ''TWE=''"
  using base64_roundtrip [of "[77, 97]"] by (simp, code_simp)

section \<open>File names\<close>

text \<open>Names that a path component must not have: the parent directory and the devices.\<close>

definition specials :: "(string \<times> bool) list" where
  "specials = [(''AUX'', False), (''CON'', False), (''COM'', True), (''LPT'', True), (''NUL'', False),
     (''PRN'', False), (''..'', False)]"

definition is_special :: "string \<Rightarrow> bool" where
  "is_special s \<longleftrightarrow> list_ex (\<lambda>(p, n). special_rest p n s \<noteq> None) specials"

text \<open>No component of the path has such a name, alone or before a dot, a colon or a slash.\<close>

fun no_specials :: "bool \<Rightarrow> string \<Rightarrow> bool" where
  "no_specials start [] = True"
| "no_specials start (c # s) = (\<not> (start \<and> is_special (c # s)) \<and> no_specials (is_slash c) s)"

lemma special_rest_head [simp]:
  "special_rest (p # ps) n [] = None" "toupper c \<noteq> p \<Longrightarrow> special_rest (p # ps) n (c # s) = None"
  by (simp_all add: special_rest_def)

lemma toupper_rep [simp]: "toupper (CHR ''_'') = CHR ''_''"
  by (simp add: toupper_def)

lemma special_entries_safe: "\<not> is_special (special_entries (CHR ''_'') s)"
  by (cases s)
     (auto simp: special_entries_def Let_def sanitizeSpecialFile_def is_special_def specials_def
       split: option.splits)

abbreviation sanitized :: "bool \<Rightarrow> bool \<Rightarrow> string \<Rightarrow> string" where
  "sanitized \<equiv> sanitize_loop (CHR ''_'')"

lemma sanitized_check: "sanitized first True s = sanitized first False (special_entries (CHR ''_'') s)"
  by (simp add: sanitize_loop.simps [of _ first True] sanitize_loop.simps [of _ first False])

lemma sanitized_Nil [simp]: "sanitized first False [] = []"
  by (simp add: sanitize_loop.simps)

lemma sanitized_Cons:
  "sanitized first False (c # s) =
     (if bad_char c \<or> (is_slash c \<and> first) then CHR ''_'' # sanitized False False s
      else c # sanitized False (is_slash c) s)"
  by (simp add: sanitize_loop.simps [of _ first False "c # s"])

lemma sanitized_empty: "sanitized first False s = [] \<longleftrightarrow> s = []"
  by (cases s) (simp_all add: sanitized_Cons)

text \<open>What the sanitizer leaves was there before, except for the replacement.\<close>

lemma sanitized_head:
  assumes "sanitized first False s = d # r" and "d \<noteq> CHR ''_''"
  obtains t where "s = d # t" and "r = sanitized False (is_slash d) t"
  using assms by (cases s) (auto simp: sanitized_Cons split: if_splits)

lemma toupper_slash: "is_slash c \<Longrightarrow> toupper c = c"
  by (auto simp: is_slash_def toupper_def)

lemma match_sanitized:
  assumes "match_pattern (sanitized first False s) p = Some r"
    and "\<forall>c \<in> set p. c \<noteq> CHR ''_'' \<and> \<not> is_slash c"
  shows "\<exists>first' t. match_pattern s p = Some t \<and> r = sanitized first' False t"
  using assms
proof (induction p arbitrary: first s)
  case (Cons q p)
  obtain d u where d: "sanitized first False s = d # u" "toupper d = q" "match_pattern u p = Some r"
    using Cons.prems(1) by (cases "sanitized first False s") (auto split: if_splits)
  have "q \<noteq> CHR ''_''" "\<not> is_slash q" using Cons.prems(2) by simp_all
  then have nd: "d \<noteq> CHR ''_''" "\<not> is_slash d" using d(2) toupper_slash toupper_rep by metis+
  obtain t where t: "s = d # t" "u = sanitized False (is_slash d) t" by (rule sanitized_head [OF d(1) nd(1)])
  from Cons.IH [of False t] d t nd Cons.prems(2) show ?case by auto
qed auto

definition ends_name :: "string \<Rightarrow> bool" where
  "ends_name r \<longleftrightarrow> (case r of [] \<Rightarrow> True | e # _ \<Rightarrow> e = CHR ''.'' \<or> e = CHR '':'' \<or> is_slash e)"

lemma special_rest_iff:
  "special_rest p n s \<noteq> None \<longleftrightarrow> (\<exists>m. match_pattern s p = Some m \<and>
     (if n then (\<exists>d r. m = d # r \<and> 49 \<le> byte d \<and> byte d \<le> 57 \<and> ends_name r) else ends_name m))"
  by (cases "match_pattern s p")
     (auto simp: special_rest_def ends_name_def not_less split: list.splits option.splits if_splits)

lemma ends_name_sanitized: "ends_name (sanitized first False t) \<Longrightarrow> ends_name t"
  by (cases t) (auto simp: ends_name_def sanitized_Cons is_slash_def split: if_splits)

lemma special_sanitized:
  assumes "special_rest p n (sanitized first False s) \<noteq> None"
    and "\<forall>c \<in> set p. c \<noteq> CHR ''_'' \<and> \<not> is_slash c"
  shows "special_rest p n s \<noteq> None"
proof -
  obtain m where m: "match_pattern (sanitized first False s) p = Some m"
    "if n then (\<exists>d r. m = d # r \<and> 49 \<le> byte d \<and> byte d \<le> 57 \<and> ends_name r) else ends_name m"
    using assms(1) unfolding special_rest_iff by blast
  obtain first' t where t: "match_pattern s p = Some t" "m = sanitized first' False t"
    using match_sanitized [OF m(1) assms(2)] by blast
  show ?thesis
  proof (cases n)
    case False
    with m(2) t show ?thesis unfolding special_rest_iff using ends_name_sanitized by auto
  next
    case True
    then obtain d r where d: "m = d # r" "49 \<le> byte d" "byte d \<le> 57" "ends_name r" using m(2) by auto
    then have nd: "d \<noteq> CHR ''_''" "\<not> is_slash d" by (auto simp: is_slash_def)
    obtain u where "t = d # u" "r = sanitized False (is_slash d) u"
      using sanitized_head [of first' t d r] t(2) d(1) nd(1) by metis
    with True t(1) d nd ends_name_sanitized [of False u] show ?thesis unfolding special_rest_iff by auto
  qed
qed

lemma is_special_sanitized: "is_special (sanitized first False s) \<Longrightarrow> is_special s"
  using special_sanitized [of _ _ first s]
  by (auto simp: is_special_def specials_def is_slash_def)

lemma sanitized_no_specials: "no_specials check (sanitized first check s)"
proof (induction s arbitrary: first check rule: measure_induct_rule [of length])
  case (less s)
  have step: "no_specials False (sanitized first False t)" if "length t \<le> length s" for first t
  proof (cases t)
    case (Cons c u)
    with that have "length u < length s" by simp
    with less.IH [of u] show ?thesis by (simp add: Cons sanitized_Cons is_slash_def)
  qed simp
  have "no_specials True (sanitized first True s)"
  proof -
    let ?t = "special_entries (CHR ''_'') s"
    have "\<not> is_special (sanitized first False ?t)" using is_special_sanitized special_entries_safe by blast
    moreover have "no_specials False (sanitized first False ?t)" by (rule step [OF special_entries_length])
    ultimately show ?thesis unfolding sanitized_check by (cases "sanitized first False ?t") auto
  qed
  with step show ?case by (cases check) auto
qed

lemma sanitized_chars: "list_all (\<lambda>c. \<not> bad_char c) (sanitized first check s)"
proof (induction s arbitrary: first check rule: measure_induct_rule [of length])
  case (less s)
  have step: "list_all (\<lambda>c. \<not> bad_char c) (sanitized first False t)" if "length t \<le> length s" for first t
  proof (cases t)
    case (Cons c u)
    with that have "length u < length s" by simp
    with less.IH [of u] show ?thesis by (simp add: Cons sanitized_Cons bad_char_def)
  qed simp
  then show ?case using special_entries_length by (cases check) (auto simp: sanitized_check)
qed

lemma sanitized_length: "length (sanitized first check s) \<le> length s"
proof (induction s arbitrary: first check rule: measure_induct_rule [of length])
  case (less s)
  have step: "length (sanitized first False t) \<le> length t" if "length t \<le> length s" for first t
  proof (cases t)
    case (Cons c u)
    with that have "length u < length s" by simp
    with less.IH [of u] show ?thesis by (simp add: Cons sanitized_Cons)
  qed simp
  then show ?case
    using special_entries_length [of "CHR ''_''" s] by (cases check) (auto simp: sanitized_check intro: order_trans)
qed

text \<open>
  C25. The sanitizer of file names, for every input: the result has at most 255 characters and
  none that is forbidden (control characters, \<^verbatim>\<open>? < > : * |\<close> or a quote), does not start with a slash or a
  backslash, and no component of it is the parent directory or, with or without an
  extension, the name of a device.
\<close>

theorem sanitize_filename_safe:
  "length (sanitize_filename (CHR ''_'') path) \<le> 255 \<and>
   list_all (\<lambda>c. \<not> bad_char c) (sanitize_filename (CHR ''_'') path) \<and>
   \<not> is_slash (hd (sanitize_filename (CHR ''_'') path @ ''_'')) \<and>
   no_specials True (sanitize_filename (CHR ''_'') path)"
proof -
  have "length (sanitize_filename (CHR ''_'') path) \<le> 255"
    using sanitized_length [of True True "take 255 path"] by (simp add: sanitize_filename_def)
  moreover have "\<not> is_slash (hd (sanitized True False s @ ''_''))" for s
    by (cases s) (auto simp: sanitized_Cons is_slash_def)
  ultimately show ?thesis
    by (simp add: sanitize_filename_def sanitized_chars sanitized_no_specials sanitized_check [symmetric])
       (metis sanitized_check)
qed

end
