(* ===== verification/Crow_Routing.thy ===== *)
theory Crow_Routing
  imports Crow_Common
begin

text \<open>
  Matching URLs to rules (lib/crowapi/crow_all.h): the parameter tags of a route
  (\<^verbatim>\<open>black_magic\<close>) and the search tree \<^verbatim>\<open>Trie\<close> with its three operations \<open>add\<close>,
  \<open>optimize\<close> and \<open>find\<close>. A position in a URL is the rest of the URL from there. \<open>find\<close> changes the
  vectors of parameters and blueprints it is handed; the model returns the vector of
  blueprints as it is left (a vector that was moved from is empty), and restores the parameters as the
  code does. Reading a floating-point parameter is the argument \<open>strtod\<close>: how many characters were
  read, or no value when the result is out of range.
\<close>

section \<open>Parameter tags\<close>

text \<open>The check of a route: brackets are balanced and not nested.\<close>

fun is_valid_from :: "string \<Rightarrow> int \<Rightarrow> bool" where
  "is_valid_from [] f = (f = 0)"
| "is_valid_from (c # s) f =
     (if f < 0 \<or> f \<ge> 2 then False
      else if c = CHR ''<'' then is_valid_from s (f + 1)
      else if c = CHR ''>'' then is_valid_from s (f - 1)
      else is_valid_from s f)"

definition is_valid :: "string \<Rightarrow> bool" where
  "is_valid s = is_valid_from s 0"

text \<open>\<open>is_equ_n(a, ai, b, bi, n)\<close> on the rests of both strings.\<close>

fun is_equ_n :: "string \<Rightarrow> string \<Rightarrow> nat \<Rightarrow> bool" where
  "is_equ_n a b n =
     (if n > length a \<or> n > length b then False
      else if n = 0 then True
      else if hd a \<noteq> hd b then False
      else is_equ_n (tl a) (tl b) (n - 1))"

declare is_equ_n.simps [simp del]

definition is_int :: "string \<Rightarrow> bool" where
  "is_int s = is_equ_n s ''<int>'' 5"

definition is_uint :: "string \<Rightarrow> bool" where
  "is_uint s = is_equ_n s ''<uint>'' 6"

definition is_float :: "string \<Rightarrow> bool" where
  "is_float s \<longleftrightarrow> is_equ_n s ''<float>'' 7 \<or> is_equ_n s ''<double>'' 8"

definition is_str :: "string \<Rightarrow> bool" where
  "is_str s \<longleftrightarrow> is_equ_n s ''<str>'' 5 \<or> is_equ_n s ''<string>'' 8"

definition is_path :: "string \<Rightarrow> bool" where
  "is_path s = is_equ_n s ''<path>'' 6"

text \<open>The rest from the closing bracket on; running off the string throws.\<close>

fun find_closing_tag :: "string \<Rightarrow> string result" where
  "find_closing_tag [] = Inl (Throw (Runtime_error ''OutOfRange''))"
| "find_closing_tag (c # s) = (if c = CHR ''>'' then Inr (c # s) else find_closing_tag s)"

fun find_closing_tag_runtime :: "string \<Rightarrow> string result" where
  "find_closing_tag_runtime [] = Inl (Throw (Runtime_error ''unmatched tag <''))"
| "find_closing_tag_runtime (c # s) =
     (if c = nul then Inl (Throw (Runtime_error ''unmatched tag <''))
      else if c = CHR ''>'' then Inr (c # s) else find_closing_tag_runtime s)"

lemma find_closing_tag_length: "find_closing_tag s = Inr r \<Longrightarrow> length r \<le> length s \<and> hd r = CHR ''>'' \<and> r \<noteq> []"
  by (induction s) (auto split: if_splits)

lemma find_closing_tag_runtime_length:
  "find_closing_tag_runtime s = Inr r \<Longrightarrow> length r \<le> length s \<and> hd r = CHR ''>'' \<and> r \<noteq> []"
  by (induction s) (auto split: if_splits)

text \<open>The tag of a route: its parameters as digits in base 6, in 64 bits.\<close>

function get_parameter_tag :: "string \<Rightarrow> 64 word result" where
  "get_parameter_tag s =
     (case s of [] \<Rightarrow> Inr 0 | c # s' \<Rightarrow>
        if c = CHR ''<'' then
          (let k = (if is_int s then Some 1 else if is_uint s then Some 2 else if is_float s then Some 3
                    else if is_str s then Some 4 else if is_path s then Some (5 :: 64 word) else None)
           in case k of
                None \<Rightarrow> Inl (Throw (Runtime_error ''invalid parameter type''))
              | Some d \<Rightarrow>
                  (case find_closing_tag s' of Inl e \<Rightarrow> Inl e | Inr r \<Rightarrow>
                     (case get_parameter_tag r of Inl e \<Rightarrow> Inl e | Inr t \<Rightarrow> Inr (t * 6 + d))))
        else get_parameter_tag s')"
  by pat_completeness auto
termination
  by (relation "measure length") (auto dest: find_closing_tag_length)

declare get_parameter_tag.simps [simp del]

definition strncmp_eq :: "string \<Rightarrow> string \<Rightarrow> bool" where
  "strncmp_eq s lit \<longleftrightarrow> take (length lit) s = lit"

function get_parameter_tag_runtime :: "string \<Rightarrow> 64 word result" where
  "get_parameter_tag_runtime s =
     (case s of [] \<Rightarrow> Inr 0 | c # s' \<Rightarrow>
        if c = nul then Inr 0
        else if c = CHR ''<'' then
          (let k = (if strncmp_eq s ''<int>'' then Some 1 else if strncmp_eq s ''<uint>'' then Some 2
                    else if strncmp_eq s ''<float>'' \<or> strncmp_eq s ''<double>'' then Some 3
                    else if strncmp_eq s ''<str>'' \<or> strncmp_eq s ''<string>'' then Some 4
                    else if strncmp_eq s ''<path>'' then Some (5 :: 64 word) else None)
           in case k of
                None \<Rightarrow> Inl (Throw (Runtime_error ''invalid parameter type''))
              | Some d \<Rightarrow>
                  (case find_closing_tag_runtime s' of Inl e \<Rightarrow> Inl e | Inr r \<Rightarrow>
                     (case get_parameter_tag_runtime r of Inl e \<Rightarrow> Inl e | Inr t \<Rightarrow> Inr (t * 6 + d))))
        else get_parameter_tag_runtime s')"
  by pat_completeness auto
termination
  by (relation "measure length") (auto dest: find_closing_tag_runtime_length)

declare get_parameter_tag_runtime.simps [simp del]

text \<open>Whether the tag \<open>a\<close> of a rule fits the tag \<open>b\<close> of its handler; both digits come from \<open>a\<close>.\<close>

fun is_parameter_tag_compatible :: "nat \<Rightarrow> nat \<Rightarrow> bool" where
  "is_parameter_tag_compatible a b =
     (if a = 0 then b = 0
      else if b = 0 then a = 0
      else let sa = a mod 6; sb = a mod 6;
               sa' = (if sa = 5 then 4 else sa); sb' = (if sb = 5 then 4 else sb)
           in if sa' \<noteq> sb' then False else is_parameter_tag_compatible (a div 6) (b div 6))"

declare is_parameter_tag_compatible.simps [simp del]

section \<open>The search tree\<close>

abbreviation INVALID_BP_ID :: "16 word" where "INVALID_BP_ID \<equiv> - 1"

datatype Node = Node (rule_index: "16 word") (blueprint_index: "16 word") (node_key: string)
  (node_param: ParamType) (children: "Node list")

definition Node_default :: Node where
  "Node_default = Node 0 INVALID_BP_ID [] MAX_PARAM []"

definition IsSimpleNode :: "Node \<Rightarrow> bool" where
  "IsSimpleNode n \<longleftrightarrow> rule_index n = 0 \<and> blueprint_index n = INVALID_BP_ID \<and> length (children n) < 2 \<and>
     node_param n = MAX_PARAM \<and> list_all (\<lambda>x. node_param x = MAX_PARAM) (children n)"

definition Trie_is_empty :: "Node \<Rightarrow> bool" where
  "Trie_is_empty head \<longleftrightarrow> children head = []"

text \<open>\<open>optimizeNode\<close>: a simple node takes over the key, rule, blueprint and children of its only child.\<close>

function optimizeNode :: "Node \<Rightarrow> Node" where
  "optimizeNode n =
     (case children n of
        [] \<Rightarrow> n
      | child # rest \<Rightarrow>
          if IsSimpleNode n
          then optimizeNode (Node (rule_index child) (blueprint_index child) (node_key n @ node_key child)
                 (node_param n) (children child))
          else Node (rule_index n) (blueprint_index n) (node_key n) (node_param n) (map optimizeNode (children n)))"
  by pat_completeness auto
termination
proof (relation "measure size", goal_cases)
  case 1
  then show ?case by simp
next
  case (2 n child rest)
  then show ?case by (cases n; cases child) simp
next
  case (3 n child rest x)
  then show ?case by (cases n) (auto dest!: size_list_estimation' [of x _ "size x" size] simp: less_Suc_eq_le)
qed

declare optimizeNode.simps [simp del]

definition optimize :: "Node \<Rightarrow> Node" where
  "optimize head = Node (rule_index head) (blueprint_index head) (node_key head) (node_param head)
     (map optimizeNode (children head))"

definition Trie_validate :: "Node \<Rightarrow> Node result" where
  "Trie_validate head =
     (if \<not> IsSimpleNode head
      then Inl (Throw (Runtime_error ''Internal error: Trie header should be simple!''))
      else Inr (optimize head))"

text \<open>\<open>get_size\<close>: five bytes for a node and one for each character of its key, counted in 32 bits.\<close>

fun get_size :: "Node \<Rightarrow> 32 word" where
  "get_size (Node r b k p cs) = 5 + of_nat (length k) + sum_list (map get_size cs)"

section \<open>Finding a rule\<close>

text \<open>
  \<^verbatim>\<open>strtoll\<close> and \<^verbatim>\<open>strtoull\<close> in base 10 on text that starts with a digit or a sign: the value
  and the rest, if there is a digit to convert.
\<close>

definition strto_int :: "string \<Rightarrow> (int \<times> string) option" where
  "strto_int s =
     (let neg = (case s of c # _ \<Rightarrow> c = CHR ''-'' | [] \<Rightarrow> False);
          s1 = (case s of c # r \<Rightarrow> if c = CHR ''-'' \<or> c = CHR ''+'' then r else s | [] \<Rightarrow> []);
          ds = takeWhile isdigit s1
      in if ds = [] then None
         else Some (if neg then - int (digits_value 0 ds) else int (digits_value 0 ds), dropWhile isdigit s1))"

definition routing_params_empty :: routing_params where
  "routing_params_empty = \<lparr>int_params = [], uint_params = [], double_params = [], string_params = []\<rparr>"

text \<open>
  Whether a child accepts the URL from here: the parameters with the new one pushed, and where the
  URL goes on.
\<close>

definition match_child ::
  "(string \<Rightarrow> nat option) \<Rightarrow> Node \<Rightarrow> string \<Rightarrow> routing_params \<Rightarrow> (routing_params \<times> string) option" where
  "match_child strtod child s ps =
     (let c = hd s in
      case node_param child of
        INT_PARAM \<Rightarrow>
          if isdigit c \<or> c = CHR ''+'' \<or> c = CHR ''-''
          then (case strto_int s of
                  None \<Rightarrow> None
                | Some (v, r) \<Rightarrow> if - (2 ^ 63) \<le> v \<and> v < 2 ^ 63
                    then Some (ps\<lparr>int_params := int_params ps @ [of_int v]\<rparr>, r) else None)
          else None
      | UINT_PARAM \<Rightarrow>
          if isdigit c \<or> c = CHR ''+''
          then (case strto_int s of
                  None \<Rightarrow> None
                | Some (v, r) \<Rightarrow> if v < 2 ^ 64
                    then Some (ps\<lparr>uint_params := uint_params ps @ [of_int v]\<rparr>, r) else None)
          else None
      | DOUBLE_PARAM \<Rightarrow>
          if isdigit c \<or> c = CHR ''+'' \<or> c = CHR ''-'' \<or> c = CHR ''.''
          then (case strtod s of
                  None \<Rightarrow> None
                | Some k \<Rightarrow> if k = 0 then None
                    else Some (ps\<lparr>double_params := double_params ps @ [take k s]\<rparr>, drop k s))
          else None
      | STRING_PARAM \<Rightarrow>
          (let seg = takeWhile (\<lambda>c. c \<noteq> CHR ''/'') s
           in if seg = [] then None
              else Some (ps\<lparr>string_params := string_params ps @ [seg]\<rparr>, drop (length seg) s))
      | PATH_PARAM \<Rightarrow>
          if s = [] then None else Some (ps\<lparr>string_params := string_params ps @ [s]\<rparr>, [])
      | MAX_PARAM \<Rightarrow>
          if take (length (node_key child)) s = node_key child then Some (ps, drop (length (node_key child)) s) else None)"

type_synonym found = "16 word \<times> 16 word list \<times> routing_params"

definition update_found :: "found \<Rightarrow> found \<Rightarrow> found" where
  "update_found cur ret =
     (case cur of (f, bp, mp) \<Rightarrow> case ret of (r, rbp, rp) \<Rightarrow>
        if r \<noteq> 0 \<and> (f = 0 \<or> f > r) then (r, rbp, rp) else (f, rbp, mp))"

definition pop_back :: "'a list \<Rightarrow> 'a list" where
  "pop_back xs = (if xs \<noteq> [] then butlast xs else xs)"

text \<open>The result of a node and the blueprints it leaves; the loop over the children.\<close>

fun Trie_find ::
  "(string \<Rightarrow> nat option) \<Rightarrow> Node \<Rightarrow> string \<Rightarrow> routing_params \<Rightarrow> 16 word list \<Rightarrow> found \<times> 16 word list"
  and find_children ::
  "(string \<Rightarrow> nat option) \<Rightarrow> Node list \<Rightarrow> string \<Rightarrow> routing_params \<Rightarrow> 16 word list \<Rightarrow> found \<Rightarrow> bool \<Rightarrow>
   found \<times> bool \<times> 16 word list" where
  "Trie_find strtod (Node ri bi k p cs) s ps bps =
     (if s = [] then ((ri, [], ps), [])
      else case find_children strtod cs s ps bps (0, [], routing_params_empty) False of
             ((f, fbp, mp), found_fragment, bps') \<Rightarrow>
               if \<not> found_fragment then ((f, bps', mp), []) else ((f, fbp, mp), bps'))"
| "find_children strtod [] s ps bps cur found_fragment = (cur, found_fragment, bps)"
| "find_children strtod (child # cs) s ps bps cur found_fragment =
     (case match_child strtod child s ps of
        None \<Rightarrow> find_children strtod cs s ps bps cur found_fragment
      | Some (ps', r) \<Rightarrow>
          (case Trie_find strtod child r ps'
                  (if blueprint_index child \<noteq> INVALID_BP_ID then bps @ [blueprint_index child] else bps) of
             (ret, bps') \<Rightarrow>
               find_children strtod cs s ps (pop_back bps') (update_found cur ret) True))"

definition find_rule :: "(string \<Rightarrow> nat option) \<Rightarrow> Node \<Rightarrow> string \<Rightarrow> found" where
  "find_rule strtod head req_url = fst (Trie_find strtod head req_url routing_params_empty [])"

section \<open>Adding a rule\<close>

definition paramTraits :: "(ParamType \<times> string) list" where
  "paramTraits =
     [(INT_PARAM, ''<int>''), (UINT_PARAM, ''<uint>''), (DOUBLE_PARAM, ''<float>''), (DOUBLE_PARAM, ''<double>''),
      (STRING_PARAM, ''<str>''), (STRING_PARAM, ''<string>''), (PATH_PARAM, ''<path>'')]"

definition key_head :: "Node \<Rightarrow> char" where
  "key_head n = (case node_key n of [] \<Rightarrow> nul | c # _ \<Rightarrow> c)"

fun find_index :: "('a \<Rightarrow> bool) \<Rightarrow> 'a list \<Rightarrow> nat option" where
  "find_index P [] = None"
| "find_index P (x # xs) = (if P x then Some 0 else map_option Suc (find_index P xs))"

lemma find_index_Some: "find_index P xs = Some j \<Longrightarrow> j < length xs \<and> P (xs ! j)"
  by (induction xs arbitrary: j) (auto split: if_splits)

lemma find_index_None: "find_index P xs = None \<longleftrightarrow> (\<forall>x \<in> set xs. \<not> P x)"
  by (induction xs) auto

definition set_child :: "Node \<Rightarrow> nat option \<Rightarrow> Node \<Rightarrow> Node" where
  "set_child n j child = Node (rule_index n) (blueprint_index n) (node_key n) (node_param n)
     (case j of Some j \<Rightarrow> (children n)[j := child] | None \<Rightarrow> children n @ [child])"

lemma paramTraits_pos: "find (\<lambda>(_, name). take (length name) s = name) paramTraits = Some (ty, name) \<Longrightarrow> 0 < length name"
  by (auto simp: paramTraits_def split: if_splits)

text \<open>
  \<open>add\<close> from the node \<open>n\<close> with the rest \<open>s\<close> of the URL, which starts at position \<open>i\<close>. The loop need not end:
  at a bracket that opens no known parameter nothing is taken, \<^verbatim>\<open>i--\<close> and the \<^verbatim>\<open>i++\<close> of the
  loop cancel - at 0 as well, in the arithmetic of \<^verbatim>\<open>unsigned\<close> - and the next turn is the same one. The value
  \<open>None\<close> of the recursion is that of a call that does not return.
\<close>

partial_function (option) Trie_add_from ::
  "string \<Rightarrow> 16 word \<Rightarrow> nat \<Rightarrow> 16 word \<Rightarrow> Node \<Rightarrow> string \<Rightarrow> nat \<Rightarrow> Node result option" where
  "Trie_add_from url ri bp_prefix_length bi n s i =
     (case s of
        [] \<Rightarrow> Some (if rule_index n \<noteq> 0
              then Inl (Throw (Runtime_error (''handler already exists for '' @ url)))
              else Inr (Node ri (blueprint_index n) (node_key n) (node_param n) (children n)))
      | c # s' \<Rightarrow>
          if c = CHR ''<'' then
            (case find (\<lambda>(_, name). take (length name) s = name) paramTraits of
               None \<Rightarrow> Trie_add_from url ri bp_prefix_length bi n s i
             | Some (ty, name) \<Rightarrow>
                 (let j = find_index (\<lambda>x. node_param x = ty) (children n);
                      child = (case j of Some j \<Rightarrow> children n ! j | None \<Rightarrow> Node 0 INVALID_BP_ID [] ty [])
                  in Option.bind (Trie_add_from url ri bp_prefix_length bi child (drop (length name) s) (i + length name))
                       (\<lambda>r. Some (map_sum id (set_child n j) r))))
          else
            (let j = find_index (\<lambda>x. key_head x = c) (children n);
                 has_blueprint = (bp_prefix_length \<noteq> 0 \<and> bi \<noteq> INVALID_BP_ID);
                 child = (case j of
                     Some j \<Rightarrow> children n ! j
                   | None \<Rightarrow> Node 0 (if has_blueprint \<and> i = bp_prefix_length then bi else INVALID_BP_ID) [c] MAX_PARAM [])
             in Option.bind (Trie_add_from url ri bp_prefix_length bi child s' (i + 1))
                  (\<lambda>r. Some (map_sum id (set_child n j) r))))"

declare Trie_add_from.simps [code]

text \<open>For its callers a call that does not return is a fault of its own.\<close>

definition add_from ::
  "string \<Rightarrow> 16 word \<Rightarrow> nat \<Rightarrow> 16 word \<Rightarrow> Node \<Rightarrow> string \<Rightarrow> nat \<Rightarrow> Node result" where
  "add_from url ri bp_prefix_length bi n s i =
     (case Trie_add_from url ri bp_prefix_length bi n s i of None \<Rightarrow> Inl Loops | Some r \<Rightarrow> r)"

definition Trie_add :: "string \<Rightarrow> 16 word \<Rightarrow> nat \<Rightarrow> 16 word \<Rightarrow> Node \<Rightarrow> Node result" where
  "Trie_add url ri bp_prefix_length bi head = add_from url ri bp_prefix_length bi head url 0"

end
