(* ===== verification/Crow_Routing_Proofs.thy ===== *)
theory Crow_Routing_Proofs
  imports Crow_Routing
begin

text \<open>
  Facts about routing: the two computations of a parameter tag agree; and a search tree of
  static routes is a finite map, whose lookup \<open>walk\<close> is what \<open>Trie_find\<close> computes, \<open>optimizeNode\<close>
  preserves, and \<open>Trie_add\<close> updates.
\<close>

section \<open>Tags\<close>

lemma is_equ_n_iff: "is_equ_n a b n \<longleftrightarrow> n \<le> length a \<and> n \<le> length b \<and> take n a = take n b"
proof (induction a b n rule: is_equ_n.induct)
  case (1 a b n)
  show ?case
  proof (cases "n = 0 \<or> length a < n \<or> length b < n")
    case True
    then show ?thesis by (auto simp: is_equ_n.simps [of a b n])
  next
    case False
    then obtain x xs y ys m where "a = x # xs" "b = y # ys" "n = Suc m"
      by (metis Suc_lessD gr0_conv_Suc length_0_conv list.exhaust not_gr_zero not_less_zero)
    with 1 False show ?thesis by (auto simp: is_equ_n.simps [of "x # xs" "y # ys" "Suc m"])
  qed
qed

lemma is_equ_n_strncmp: "n = length lit \<Longrightarrow> is_equ_n s lit n = strncmp_eq s lit"
  by (auto simp: is_equ_n_iff strncmp_eq_def) (metis length_take min.absorb_iff2)

lemma strncmp_eq_append: "strncmp_eq s lit \<Longrightarrow> \<exists>r. s = lit @ r"
  by (metis append_take_drop_id strncmp_eq_def)

lemma closing_tags_agree:
  "nul \<notin> set s \<Longrightarrow> CHR ''>'' \<in> set s \<Longrightarrow> find_closing_tag s = find_closing_tag_runtime s"
  by (induction s) auto

lemma closing_tag_subset: "find_closing_tag s = Inr r \<Longrightarrow> set r \<subseteq> set s"
  by (induction s) (auto split: if_splits)

lemma parameter_tags_agree:
  "nul \<notin> set s \<Longrightarrow> get_parameter_tag s = get_parameter_tag_runtime s"
proof (induction s rule: get_parameter_tag.induct)
  case (1 s)
  show ?case
  proof (cases s)
    case Nil
    then show ?thesis by (simp add: get_parameter_tag.simps get_parameter_tag_runtime.simps)
  next
    case (Cons c s')
    let ?k = "if is_int s then Some 1 else if is_uint s then Some 2 else if is_float s then Some 3
       else if is_str s then Some 4 else if is_path s then Some (5 :: 64 word) else None"
    have k: "?k = (if strncmp_eq s ''<int>'' then Some 1 else if strncmp_eq s ''<uint>'' then Some 2
       else if strncmp_eq s ''<float>'' \<or> strncmp_eq s ''<double>'' then Some 3
       else if strncmp_eq s ''<str>'' \<or> strncmp_eq s ''<string>'' then Some 4
       else if strncmp_eq s ''<path>'' then Some (5 :: 64 word) else None)"
      by (simp add: is_int_def is_uint_def is_float_def is_str_def is_path_def is_equ_n_strncmp)
    have c: "c \<noteq> nul" "nul \<notin> set s'" using "1.prems" Cons by auto
    show ?thesis
    proof (cases "c = CHR ''<''")
      case False
      with 1 Cons c show ?thesis
        by (simp add: get_parameter_tag.simps [of "c # s'"] get_parameter_tag_runtime.simps [of "c # s'"])
    next
      case True
      show ?thesis
      proof (cases ?k)
        case None
        then show ?thesis
          unfolding get_parameter_tag.simps [of s] get_parameter_tag_runtime.simps [of s] Let_def k [symmetric]
          using Cons True c by simp
      next
        case (Some d)
        then have "CHR ''>'' \<in> set s'"
          unfolding k using Cons True by (auto dest!: strncmp_eq_append split: if_splits)
        then have f: "find_closing_tag s' = find_closing_tag_runtime s'" using c by (intro closing_tags_agree)
        have ih: "get_parameter_tag r = get_parameter_tag_runtime r" if "find_closing_tag s' = Inr r" for r
          using "1.IH"(1) [OF Cons True refl Some that] closing_tag_subset [OF that] c by blast
        show ?thesis
          unfolding get_parameter_tag.simps [of s] get_parameter_tag_runtime.simps [of s] Let_def k [symmetric]
          using Cons True c Some ih f by (auto split: sum.splits)
      qed
    qed
  qed
qed

text \<open>How many parameters a tag has.\<close>

fun tag_length :: "nat \<Rightarrow> nat" where
  "tag_length t = (if t = 0 then 0 else Suc (tag_length (t div 6)))"

declare tag_length.simps [simp del]

lemma compatible_tag_length: "is_parameter_tag_compatible a b \<longleftrightarrow> tag_length a = tag_length b"
proof (induction a b rule: is_parameter_tag_compatible.induct)
  case (1 a b)
  then show ?case
    by (simp add: is_parameter_tag_compatible.simps [of a b] tag_length.simps [of a] tag_length.simps [of b] Let_def)
qed

section \<open>Trees of static routes\<close>

fun static_node :: "Node \<Rightarrow> bool" where
  "static_node (Node ri bi k p cs) \<longleftrightarrow> bi = INVALID_BP_ID \<and> p = MAX_PARAM \<and>
     list_all static_node cs \<and> list_all (\<lambda>c. node_key c \<noteq> []) cs \<and> distinct (map key_head cs)"

definition static_children :: "Node list \<Rightarrow> bool" where
  "static_children cs \<longleftrightarrow> list_all static_node cs \<and> list_all (\<lambda>c. node_key c \<noteq> []) cs \<and> distinct (map key_head cs)"

lemma static_node_iff:
  "static_node n \<longleftrightarrow> blueprint_index n = INVALID_BP_ID \<and> node_param n = MAX_PARAM \<and> static_children (children n)"
  by (cases n) (simp add: static_children_def)

text \<open>The lookup a tree of static routes stands for.\<close>

fun walk :: "Node \<Rightarrow> string \<Rightarrow> 16 word" and walk_list :: "Node list \<Rightarrow> string \<Rightarrow> 16 word" where
  "walk (Node ri bi k p cs) s = (if s = [] then ri else walk_list cs s)"
| "walk_list [] s = 0"
| "walk_list (c # cs) s =
     (if take (length (node_key c)) s = node_key c then walk c (drop (length (node_key c)) s)
      else walk_list cs s)"

definition step_into :: "Node \<Rightarrow> string \<Rightarrow> 16 word" where
  "step_into c s =
     (if take (length (node_key c)) s = node_key c then walk c (drop (length (node_key c)) s) else 0)"

lemma walk_eq: "walk n s = (if s = [] then rule_index n else walk_list (children n) s)"
  by (cases n) simp

lemma prefix_head:
  assumes "take (length (node_key c)) s = node_key c" and "node_key c \<noteq> []"
  shows "key_head c = hd s"
  using assms by (cases "node_key c"; cases s) (auto simp: key_head_def)

lemma find_head_None: "find (\<lambda>c. key_head c = h) cs = None \<longleftrightarrow> h \<notin> key_head ` set cs"
  by (auto simp: find_None_iff)

lemma walk_list_other:
  "static_children cs \<Longrightarrow> hd s \<notin> key_head ` set cs \<Longrightarrow> walk_list cs s = 0"
  by (induction cs) (auto simp: static_children_def dest: prefix_head)

lemma walk_list_find:
  assumes "static_children cs"
  shows "walk_list cs s = (case find (\<lambda>c. key_head c = hd s) cs of None \<Rightarrow> 0 | Some c \<Rightarrow> step_into c s)"
  using assms
proof (induction cs)
  case (Cons c cs)
  have sc: "static_children cs" using Cons.prems by (simp add: static_children_def)
  show ?case
  proof (cases "key_head c = hd s")
    case True
    then have "hd s \<notin> key_head ` set cs" using Cons.prems by (auto simp: static_children_def)
    with True walk_list_other [OF sc] show ?thesis by (simp add: step_into_def)
  next
    case False
    then have "\<not> take (length (node_key c)) s = node_key c"
      using prefix_head [of c s] Cons.prems by (auto simp: static_children_def)
    with False Cons.IH [OF sc] show ?thesis by simp
  qed
qed simp

subsection \<open>Finding\<close>

lemma match_static:
  "node_param c = MAX_PARAM \<Longrightarrow> match_child strtod c s ps =
     (if take (length (node_key c)) s = node_key c then Some (ps, drop (length (node_key c)) s) else None)"
  by (simp add: match_child_def Let_def)

definition lookup_found :: "16 word \<Rightarrow> routing_params \<Rightarrow> found \<Rightarrow> bool" where
  "lookup_found w ps r \<longleftrightarrow> (case r of (f, bp, mp) \<Rightarrow> f = w \<and> bp = [] \<and> (w \<noteq> 0 \<longrightarrow> mp = ps))"

lemma no_match_children:
  "static_children cs \<Longrightarrow> hd s \<notin> key_head ` set cs \<Longrightarrow> find_children strtod cs s ps bps cur fr = (cur, fr, bps)"
  by (induction cs) (auto simp: static_children_def static_node_iff match_static dest: prefix_head)

lemma update_first: "update_found (0, [], mp0) (w, [], mp) = (if w = 0 then (0, [], mp0) else (w, [], mp))"
  by (simp add: update_found_def)

lemma find_static:
  "static_node n \<Longrightarrow>
   lookup_found (walk n s) ps (fst (Trie_find strtod n s ps [])) \<and> snd (Trie_find strtod n s ps []) = []"
proof (induction n arbitrary: s ps)
  case (Node ri bi k p cs)
  show ?case
  proof (cases "s = []")
    case True
    then show ?thesis by (simp add: lookup_found_def)
  next
    case False
    have loop: "\<exists>r fr. find_children strtod ds s ps [] (0, [], routing_params_empty) False = (r, fr, []) \<and>
        lookup_found (walk_list ds s) ps r" if "static_children ds" "set ds \<subseteq> set cs" for ds
      using that
    proof (induction ds)
      case Nil
      then show ?case by (auto simp: lookup_found_def intro: exI [of _ False])
    next
      case (Cons c ds)
      have sd: "static_children ds" "static_node c" "node_key c \<noteq> []" "node_param c = MAX_PARAM"
          "blueprint_index c = INVALID_BP_ID"
        using Cons.prems(1) by (auto simp: static_children_def static_node_iff)
      show ?case
      proof (cases "take (length (node_key c)) s = node_key c")
        case True
        then have "hd s \<notin> key_head ` set ds"
          using prefix_head [OF True sd(3)] Cons.prems(1) by (auto simp: static_children_def)
        note nm = no_match_children [OF sd(1) this]
        obtain w bp mp where t: "Trie_find strtod c (drop (length (node_key c)) s) ps [] = ((w, bp, mp), [])"
          and l: "lookup_found (walk c (drop (length (node_key c)) s)) ps (w, bp, mp)"
          using Node.IH [of c] Cons.prems(2) sd(2) by (metis (no_types, lifting) list.set_intros(1) prod.collapse subsetD)
        from l t True sd nm show ?thesis
          by (auto simp: match_static pop_back_def lookup_found_def update_first)
      next
        case False
        with Cons.IH [OF sd(1)] Cons.prems(2) sd(4) show ?thesis by (simp add: match_static)
      qed
    qed
    have "static_children cs" using Node.prems by (simp add: static_children_def)
    from loop [OF this] obtain r fr where "find_children strtod cs s ps [] (0, [], routing_params_empty) False = (r, fr, [])"
      "lookup_found (walk_list cs s) ps r" by blast
    with False show ?thesis by (cases r) (auto simp: lookup_found_def)
  qed
qed

corollary find_rule_static:
  "static_node n \<Longrightarrow> fst (find_rule strtod n s) = walk n s"
  using find_static [of n s routing_params_empty strtod]
  by (auto simp: find_rule_def lookup_found_def split: prod.splits)

subsection \<open>Optimizing\<close>

lemma static_child: "static_children cs \<Longrightarrow> c \<in> set cs \<Longrightarrow> static_node c \<and> node_key c \<noteq> []"
  by (auto simp: static_children_def list_all_iff)

lemma find_SomeD: "find P xs = Some x \<Longrightarrow> x \<in> set xs \<and> P x"
  by (auto simp: find_Some_iff)

lemma find_map_head:
  "(\<And>c. c \<in> set cs \<Longrightarrow> key_head (f c) = key_head c) \<Longrightarrow>
   find (\<lambda>c. key_head c = h) (map f cs) = map_option f (find (\<lambda>c. key_head c = h) cs)"
  by (induction cs) auto

lemma static_children_map:
  assumes "static_children cs"
    and "\<And>c. c \<in> set cs \<Longrightarrow> static_node (f c) \<and> key_head (f c) = key_head c \<and> node_key (f c) \<noteq> []"
  shows "static_children (map f cs)"
proof -
  have "map key_head (map f cs) = map key_head cs" using assms(2) by simp
  then have "distinct (map key_head (map f cs))" using assms(1) unfolding static_children_def by metis
  with assms(2) show ?thesis by (auto simp: static_children_def list_all_iff)
qed

lemma step_into_simple:
  assumes "children n = [child]" and "rule_index n = 0" and "node_key child \<noteq> []"
  shows "step_into (Node (rule_index child) bi (node_key n @ node_key child) p (children child)) s = step_into n s"
proof (cases "take (length (node_key n)) s = node_key n")
  case True
  then obtain t where s: "s = node_key n @ t" by (metis append_take_drop_id)
  show ?thesis
    using assms by (auto simp: step_into_def s walk_eq [of n] walk_eq [of child])
next
  case False
  then have "take (length (node_key n) + length (node_key child)) s \<noteq> node_key n @ node_key child"
    by (metis append_eq_conv_conj append_take_drop_id append.assoc)
  with False show ?thesis by (simp add: step_into_def)
qed

lemma optimizeNode_static:
  "static_node n \<Longrightarrow> node_key n \<noteq> [] \<Longrightarrow>
   static_node (optimizeNode n) \<and> key_head (optimizeNode n) = key_head n \<and> node_key (optimizeNode n) \<noteq> [] \<and>
   (\<forall>s. step_into (optimizeNode n) s = step_into n s)"
proof (induction n rule: optimizeNode.induct)
  case (1 n)
  show ?case
  proof (cases "children n")
    case Nil
    with "1.prems" show ?thesis by (simp add: optimizeNode.simps [of n])
  next
    case (Cons child rest)
    have sc: "static_children (children n)" and pn: "node_param n = MAX_PARAM" "blueprint_index n = INVALID_BP_ID"
      using "1.prems"(1) by (simp_all add: static_node_iff)
    show ?thesis
    proof (cases "IsSimpleNode n")
      case True
      then have r: "rest = []" "rule_index n = 0" using Cons by (auto simp: IsSimpleNode_def)
      have ch: "static_node child" "node_key child \<noteq> []" using static_child [OF sc] Cons by auto
      let ?n' = "Node (rule_index child) (blueprint_index child) (node_key n @ node_key child) (node_param n) (children child)"
      have "static_node ?n'" using ch pn by (simp add: static_node_iff)
      moreover have "key_head ?n' = key_head n" "node_key ?n' \<noteq> []"
        using "1.prems"(2) by (auto simp: key_head_def split: list.splits)
      moreover have "step_into ?n' s = step_into n s" for s
        using step_into_simple [of n child] Cons r ch(2) by simp
      moreover have "optimizeNode n = optimizeNode ?n'" using Cons True by (simp add: optimizeNode.simps [of n])
      ultimately show ?thesis using "1.IH"(1) [OF Cons True] by metis
    next
      case False
      let ?n' = "Node (rule_index n) (blueprint_index n) (node_key n) (node_param n) (map optimizeNode (children n))"
      have ih: "static_node (optimizeNode c) \<and> key_head (optimizeNode c) = key_head c \<and> node_key (optimizeNode c) \<noteq> [] \<and>
          (\<forall>s. step_into (optimizeNode c) s = step_into c s)" if "c \<in> set (children n)" for c
        using "1.IH"(2) [OF Cons False that] static_child [OF sc that] by blast
      have sc': "static_children (map optimizeNode (children n))"
        using sc ih by (intro static_children_map) auto
      have "walk_list (map optimizeNode (children n)) s = walk_list (children n) s" for s
        unfolding walk_list_find [OF sc] walk_list_find [OF sc'] using ih
        by (subst find_map_head) (auto split: option.splits dest: find_SomeD)
      then have "step_into ?n' s = step_into n s" for s
        by (simp add: step_into_def walk_eq [of n])
      moreover have "optimizeNode n = ?n'" using Cons False by (simp add: optimizeNode.simps [of n])
      ultimately show ?thesis using sc' pn "1.prems"(2) by (auto simp: static_node_iff key_head_def)
    qed
  qed
qed

lemma optimize_walk:
  assumes "static_node n"
  shows "static_node (optimize n)" and "walk (optimize n) s = walk n s"
proof -
  have sc: "static_children (children n)" using assms by (simp add: static_node_iff)
  have o: "static_node (optimizeNode c) \<and> key_head (optimizeNode c) = key_head c \<and> node_key (optimizeNode c) \<noteq> [] \<and>
      (\<forall>s. step_into (optimizeNode c) s = step_into c s)" if "c \<in> set (children n)" for c
    using optimizeNode_static static_child [OF sc that] by blast
  have sc': "static_children (map optimizeNode (children n))"
    using sc o by (intro static_children_map) auto
  show "static_node (optimize n)" using sc' assms by (simp add: optimize_def static_node_iff)
  have "walk_list (map optimizeNode (children n)) s = walk_list (children n) s" for s
    unfolding walk_list_find [OF sc] walk_list_find [OF sc'] using o
    by (subst find_map_head) (auto split: option.splits dest: find_SomeD)
  then show "walk (optimize n) s = walk n s" by (simp add: optimize_def walk_eq [of n])
qed

subsection \<open>Adding\<close>

text \<open>Before it is optimized, a tree has one character per node.\<close>

fun single_chars :: "Node \<Rightarrow> bool" where
  "single_chars (Node ri bi k p cs) \<longleftrightarrow> list_all (\<lambda>c. length (node_key c) = 1) cs \<and> list_all single_chars cs"

lemma single_chars_iff:
  "single_chars n \<longleftrightarrow> (\<forall>c \<in> set (children n). length (node_key c) = 1 \<and> single_chars c)"
  by (cases n) (auto simp: list_all_iff)

lemma single_charsD: "single_chars n \<Longrightarrow> c \<in> set (children n) \<Longrightarrow> length (node_key c) = 1 \<and> single_chars c"
  by (cases n) (auto simp: list_all_iff)

lemma single_chars_cong: "children n' = children n \<Longrightarrow> single_chars n' = single_chars n"
  by (cases n; cases n') simp

lemma key_single: "length (node_key c) = 1 \<Longrightarrow> node_key c = [key_head c]"
  by (cases "node_key c") (auto simp: key_head_def)

lemma walk_single:
  assumes "static_node n" and "single_chars n"
  shows "walk n (c # s) = (case find (\<lambda>x. key_head x = c) (children n) of None \<Rightarrow> 0 | Some x \<Rightarrow> walk x s)"
proof -
  have sc: "static_children (children n)" using assms(1) by (simp add: static_node_iff)
  have "step_into x (c # s) = walk x s" if "find (\<lambda>x. key_head x = c) (children n) = Some x" for x
    using find_SomeD [OF that] single_charsD [OF assms(2)] key_single [of x]
    by (simp add: step_into_def)
  then show ?thesis
    by (simp add: walk_eq [of n] walk_list_find [OF sc] split: option.splits)
qed

lemma find_index_find: "find_index P xs = Some j \<Longrightarrow> find P xs = Some (xs ! j)"
  by (induction xs arbitrary: j) (auto split: if_splits)

lemma find_head_update:
  "find_index (\<lambda>x. key_head x = c) cs = Some j \<Longrightarrow> key_head x' = c \<Longrightarrow>
   find (\<lambda>x. key_head x = d) (cs[j := x']) = (if d = c then Some x' else find (\<lambda>x. key_head x = d) cs)"
  by (induction cs arbitrary: j) (auto split: if_splits)

lemma find_head_append:
  "find_index (\<lambda>x. key_head x = c) cs = None \<Longrightarrow> key_head x' = c \<Longrightarrow>
   find (\<lambda>x. key_head x = d) (cs @ [x']) = (if d = c then Some x' else find (\<lambda>x. key_head x = d) cs)"
  by (induction cs) (auto split: if_splits option.splits)

text \<open>The children after the child of a character was replaced or added.\<close>

lemma set_child_facts:
  assumes n: "static_node n" "single_chars n"
    and j: "j = find_index (\<lambda>x. key_head x = c) (children n)"
    and x: "static_node x'" "single_chars x'" "node_key x' = [c]"
  shows "static_node (set_child n j x')" and "single_chars (set_child n j x')"
    and "find (\<lambda>x. key_head x = d) (children (set_child n j x'))
       = (if d = c then Some x' else find (\<lambda>x. key_head x = d) (children n))"
proof -
  have h: "key_head x' = c" using x(3) by (simp add: key_head_def)
  have sc: "static_children (children n)" using n(1) by (simp add: static_node_iff)
  let ?cs = "children (set_child n j x')"
  have sub: "set ?cs \<subseteq> insert x' (set (children n))"
    by (cases j) (auto simp: set_child_def dest: set_update_subset_insert [THEN subsetD])
  have "distinct (map key_head ?cs)"
  proof (cases j)
    case None
    then have "c \<notin> key_head ` set (children n)" using j by (auto simp: find_index_None)
    with None h sc show ?thesis by (simp add: set_child_def static_children_def)
  next
    case (Some i)
    then have fi: "find_index (\<lambda>x. key_head x = c) (children n) = Some i" using j by simp
    then have "map key_head ?cs = map key_head (children n)"
      using Some h find_index_Some [OF fi] by (simp add: set_child_def map_update list_update_same_conv)
    with sc show ?thesis unfolding static_children_def by metis
  qed
  moreover have "static_node y \<and> node_key y \<noteq> []" if "y \<in> set ?cs" for y
    using sub that static_child [OF sc, of y] x by auto
  ultimately have "static_children ?cs" by (simp add: static_children_def list_all_iff)
  then show "static_node (set_child n j x')" using n(1) by (simp add: static_node_iff set_child_def)
  show "single_chars (set_child n j x')"
    unfolding single_chars_iff [of "set_child n j x'"]
  proof
    fix y assume "y \<in> set ?cs"
    then consider "y = x'" | "y \<in> set (children n)" using sub by blast
    then show "length (node_key y) = 1 \<and> single_chars y"
      using single_charsD [OF n(2), of y] x(2,3) by cases simp_all
  qed
  show "find (\<lambda>x. key_head x = d) ?cs = (if d = c then Some x' else find (\<lambda>x. key_head x = d) (children n))"
    unfolding j
    using find_head_update [of c "children n" _ x' d] find_head_append [of c "children n" x' d] h
    by (cases "find_index (\<lambda>x. key_head x = c) (children n)") (simp_all add: set_child_def)
qed

definition char_child :: "Node \<Rightarrow> char \<Rightarrow> Node" where
  "char_child n c = (case find_index (\<lambda>x. key_head x = c) (children n) of
     Some j \<Rightarrow> children n ! j | None \<Rightarrow> Node 0 INVALID_BP_ID [c] MAX_PARAM [])"

lemma add_from_Nil:
  "add_from url ri bpl bi n [] i =
     (if rule_index n \<noteq> 0 then Inl (Throw (Runtime_error (''handler already exists for '' @ url)))
      else Inr (Node ri (blueprint_index n) (node_key n) (node_param n) (children n)))"
  by (simp add: add_from_def Trie_add_from.simps [of url ri bpl bi n "[]"])

lemma add_char:
  assumes "c \<noteq> CHR ''<''"
  shows "add_from url ri bpl INVALID_BP_ID n (c # s) i =
    (case add_from url ri bpl INVALID_BP_ID (char_child n c) s (i + 1) of
       Inl e \<Rightarrow> Inl e
     | Inr x \<Rightarrow> Inr (set_child n (find_index (\<lambda>x. key_head x = c) (children n)) x))"
  using assms unfolding add_from_def
  by (subst Trie_add_from.simps) (auto simp: Let_def char_child_def split: option.splits sum.splits bind_splits)

lemma add_static:
  assumes "static_node n" and "single_chars n" and "CHR ''<'' \<notin> set s" and "walk n s = 0"
  shows "\<exists>n'. add_from url ri bpl INVALID_BP_ID n s i = Inr n' \<and> static_node n' \<and> single_chars n' \<and>
     node_key n' = node_key n \<and> (\<forall>u. walk n' u = (if u = s then ri else walk n u))"
  using assms
proof (induction s arbitrary: n i)
  case Nil
  let ?n' = "Node ri (blueprint_index n) (node_key n) (node_param n) (children n)"
  have "rule_index n = 0" using Nil.prems(4) by (simp add: walk_eq [of n])
  then have "add_from url ri bpl INVALID_BP_ID n [] i = Inr ?n'" by (simp add: add_from_Nil)
  moreover have "static_node ?n'" using Nil.prems(1) by (simp add: static_node_iff)
  moreover have "single_chars ?n'" using Nil.prems(2) single_chars_cong [of ?n' n] by simp
  moreover have "walk ?n' u = (if u = [] then ri else walk n u)" for u by (simp add: walk_eq [of n])
  ultimately show ?case by simp
next
  case (Cons c s)
  let ?j = "find_index (\<lambda>x. key_head x = c) (children n)"
  let ?child = "char_child n c"
  have sc: "static_children (children n)" using Cons.prems(1) by (simp add: static_node_iff)
  have ch: "static_node ?child \<and> single_chars ?child \<and> node_key ?child = [c] \<and>
      (\<forall>u. walk ?child u = walk n (c # u))"
  proof (cases ?j)
    case None
    then have "find (\<lambda>x. key_head x = c) (children n) = None"
      by (auto simp: find_index_None find_None_iff)
    with None walk_single [OF Cons.prems(1,2)] show ?thesis by (simp add: char_child_def)
  next
    case (Some j)
    then have "children n ! j \<in> set (children n)" "key_head (children n ! j) = c" "find (\<lambda>x. key_head x = c) (children n) = Some (children n ! j)"
      using find_index_Some [OF Some] find_index_find [OF Some] by simp_all
    with Some walk_single [OF Cons.prems(1,2)] static_child [OF sc] single_charsD [OF Cons.prems(2)]
      key_single [of "children n ! j"] show ?thesis by (simp add: char_child_def)
  qed
  obtain x' where x': "add_from url ri bpl INVALID_BP_ID ?child s (i + 1) = Inr x'" "static_node x'" "single_chars x'"
    "node_key x' = [c]" "\<forall>u. walk x' u = (if u = s then ri else walk n (c # u))"
  proof -
    have "CHR ''<'' \<notin> set s" "walk ?child s = 0" using Cons.prems(3,4) ch by simp_all
    with Cons.IH [of ?child "i + 1"] ch that show thesis by metis
  qed
  let ?n' = "set_child n ?j x'"
  note f = set_child_facts [OF Cons.prems(1,2) refl x'(2-4)]
  have "add_from url ri bpl INVALID_BP_ID n (c # s) i = Inr ?n'"
    using Cons.prems(3) x'(1) by (subst add_char) auto
  moreover have "walk ?n' u = (if u = c # s then ri else walk n u)" for u
  proof (cases u)
    case Nil
    then show ?thesis by (simp add: walk_eq [of ?n'] walk_eq [of n]) (simp add: set_child_def)
  next
    case (Cons d v)
    then show ?thesis
      using walk_single [OF f(1,2)] walk_single [OF \<open>static_node n\<close> \<open>single_chars n\<close>] f(3) x'(5)
      by (auto split: option.splits)
  qed
  moreover have "node_key ?n' = node_key n" by (simp add: set_child_def)
  ultimately show ?case using f(1,2) by blast
qed

lemma add_duplicate:
  assumes "static_node n" and "single_chars n" and "CHR ''<'' \<notin> set s" and "walk n s \<noteq> 0"
  shows "add_from url ri bpl INVALID_BP_ID n s i = Inl (Throw (Runtime_error (''handler already exists for '' @ url)))"
  using assms
proof (induction s arbitrary: n i)
  case Nil
  then show ?case by (simp add: add_from_Nil walk_eq [of n])
next
  case (Cons c s)
  obtain x where x: "find (\<lambda>x. key_head x = c) (children n) = Some x" "walk x s \<noteq> 0"
    using Cons.prems(4) walk_single [OF Cons.prems(1,2), of c s] by (auto split: option.splits)
  then obtain j where j: "find_index (\<lambda>x. key_head x = c) (children n) = Some j" "children n ! j = x"
    by (metis find_SomeD find_index_None find_index_find option.exhaust option.inject)
  have "static_children (children n)" using Cons.prems(1) by (simp add: static_node_iff)
  then have "static_node x" "single_chars x"
    using static_child find_SomeD [OF x(1)] single_charsD [OF Cons.prems(2)] by blast+
  moreover have "char_child n c = x" using j by (simp add: char_child_def)
  ultimately show ?case
    using Cons.IH [of x "i + 1"] Cons.prems(3) x(2) by (subst add_char) auto
qed

lemma static_default: "static_node Node_default" "single_chars Node_default" "walk Node_default s = 0"
  by (simp_all add: Node_default_def static_children_def)

section \<open>URLs that can be added\<close>

text \<open>Every opening bracket starts the name of a parameter.\<close>

definition brackets_closed :: "string \<Rightarrow> bool" where
  "brackets_closed s \<longleftrightarrow> list_all (\<lambda>i. s ! i = CHR ''<'' \<longrightarrow> list_ex (\<lambda>(_, name). take (length name) (drop i s) = name) paramTraits) [0..<length s]"

lemma brackets_closed_iff:
  "brackets_closed s \<longleftrightarrow> (\<forall>i<length s. s ! i = CHR ''<'' \<longrightarrow> (\<exists>(ty, name)\<in>set paramTraits. take (length name) (drop i s) = name))"
  by (auto simp: brackets_closed_def list_all_iff list_ex_iff)

lemma brackets_closed_Cons:
  "brackets_closed (c # s) \<longleftrightarrow>
     (c = CHR ''<'' \<longrightarrow> (\<exists>(ty, name)\<in>set paramTraits. take (length name) (c # s) = name)) \<and> brackets_closed s"
  unfolding brackets_closed_iff by (simp add: All_less_Suc2 [of "length s"])

lemma brackets_closed_append:
  "CHR ''<'' \<notin> set w \<Longrightarrow> brackets_closed (w @ s) \<longleftrightarrow> brackets_closed s"
  by (induction w) (auto simp: brackets_closed_Cons)

lemma paramTraits_name: "(ty, name) \<in> set paramTraits \<Longrightarrow> \<exists>w. name = CHR ''<'' # w \<and> CHR ''<'' \<notin> set w"
  by (auto simp: paramTraits_def)

lemma brackets_closed_param:
  assumes "(ty, name) \<in> set paramTraits" and "take (length name) s = name"
  shows "brackets_closed s \<longleftrightarrow> brackets_closed (drop (length name) s)"
proof -
  obtain w where w: "name = CHR ''<'' # w" "CHR ''<'' \<notin> set w" using paramTraits_name [OF assms(1)] by blast
  have s: "s = CHR ''<'' # (w @ drop (length name) s)"
    using assms(2) w(1) by (metis append_Cons append_take_drop_id)
  have "brackets_closed s \<longleftrightarrow> brackets_closed (w @ drop (length name) s)"
    using assms s brackets_closed_Cons [of "CHR ''<''" "w @ drop (length name) s"] by auto
  then show ?thesis using brackets_closed_append [OF w(2)] by simp
qed

text \<open>
  What the loop returns, if it does: it has seen no stray bracket, and the only failure is the exception for a URL that
  has a handler. By the induction rule of the least fixed point.
\<close>

lemma Trie_add_from_returns:
  "Trie_add_from url ri bpl bi n s i = Some r \<Longrightarrow>
   brackets_closed s \<and> (\<forall>e. r = Inl e \<longrightarrow> e = Throw (Runtime_error (''handler already exists for '' @ url)))"
proof (induction rule: Trie_add_from.raw_induct [rotated, consumes 1, case_names step])
  case (step f url ri bpl bi n s i r)
  show ?case
  proof (cases s)
    case Nil
    then show ?thesis using step(2) by (auto simp: brackets_closed_def split: if_splits)
  next
    case (Cons c s')
    show ?thesis
    proof (cases "c = CHR ''<''")
      case True
      show ?thesis
      proof (cases "find (\<lambda>(_, name). take (length name) s = name) paramTraits")
        case None
        then show ?thesis using step Cons True by simp
      next
        case (Some x)
        obtain ty name where x: "x = (ty, name)" by fastforce
        have m: "(ty, name) \<in> set paramTraits" "take (length name) s = name"
          using Some x by (auto simp: find_Some_iff in_set_conv_nth)
        obtain child j r' where "f url ri bpl bi child (drop (length name) s) (i + length name) = Some r'"
          "r = map_sum id (set_child n j) r'"
          using step(2) Some x Cons True by (auto simp: Let_def bind_eq_Some_conv)
        with step(1) brackets_closed_param [OF m] show ?thesis by (cases r') fastforce+
      qed
    next
      case False
      then obtain child j r' where "f url ri bpl bi child s' (i + 1) = Some r'" "r = map_sum id (set_child n j) r'"
        using step(2) Cons by (auto simp: Let_def bind_eq_Some_conv)
      moreover have "brackets_closed s \<longleftrightarrow> brackets_closed s'" using False Cons by (simp add: brackets_closed_Cons)
      ultimately show ?thesis using step(1) by (cases r') fastforce+
    qed
  qed
qed

text \<open>A call at a stray bracket does not return.\<close>

lemma stray_bracket:
  assumes "find (\<lambda>(_, name). take (length name) (CHR ''<'' # s) = name) paramTraits = None"
  shows "Trie_add_from url ri bpl bi n (CHR ''<'' # s) i = None"
proof (rule ccontr)
  assume "Trie_add_from url ri bpl bi n (CHR ''<'' # s) i \<noteq> None"
  then obtain r where "Trie_add_from url ri bpl bi n (CHR ''<'' # s) i = Some r" by blast
  then have "brackets_closed (CHR ''<'' # s)" using Trie_add_from_returns by blast
  then show False using assms by (auto simp: brackets_closed_Cons find_None_iff)
qed

text \<open>Every call ends when the brackets are closed.\<close>

lemma Trie_add_from_ends: "brackets_closed s \<Longrightarrow> \<exists>r. Trie_add_from url ri bpl bi n s i = Some r"
proof (induction s arbitrary: n i rule: measure_induct_rule [of length])
  case (less s)
  show ?case
  proof (cases s)
    case Nil
    then show ?thesis by (simp add: Trie_add_from.simps [of url ri bpl bi n "[]"])
  next
    case (Cons c s')
    show ?thesis
    proof (cases "c = CHR ''<''")
      case True
      then obtain ty name where f: "find (\<lambda>(_, name). take (length name) s = name) paramTraits = Some (ty, name)"
        using less.prems Cons by (cases "find (\<lambda>(_, name). take (length name) s = name) paramTraits")
          (auto simp: brackets_closed_Cons find_None_iff)
      then have m: "(ty, name) \<in> set paramTraits" "take (length name) s = name"
        by (auto simp: find_Some_iff in_set_conv_nth)
      have "length (drop (length name) s) < length s" using paramTraits_pos [OF f] Cons by simp
      then have "\<exists>r. Trie_add_from url ri bpl bi child (drop (length name) s) k = Some r" for child k
        using less.IH brackets_closed_param [OF m] less.prems by blast
      then show ?thesis using f Cons True
        by (subst Trie_add_from.simps) (auto simp: Let_def bind_eq_Some_conv)
    next
      case False
      then have "\<exists>r. Trie_add_from url ri bpl bi child s' k = Some r" for child k
        using less.IH [of s'] less.prems Cons by (auto simp: brackets_closed_Cons)
      then show ?thesis using Cons False
        by (subst Trie_add_from.simps) (auto simp: Let_def bind_eq_Some_conv)
    qed
  qed
qed

end
