(* ===== verification/Crow_Routing_Properties.thy ===== *)
theory Crow_Routing_Properties
  imports Crow_Routing_Proofs
begin

text \<open>
  The contract of the search tree and of the parameter tags. Adding a list of rules one after
  the other is what \<open>Router::validate\<close> does for one method.
\<close>

fun add_routes :: "(string \<times> 16 word) list \<Rightarrow> Node \<Rightarrow> Node result" where
  "add_routes [] n = Inr n"
| "add_routes ((u, i) # us) n =
     (case Trie_add u i 0 INVALID_BP_ID n of Inl e \<Rightarrow> Inl e | Inr n' \<Rightarrow> add_routes us n')"

definition static_route :: "string \<times> 16 word \<Rightarrow> bool" where
  "static_route r \<longleftrightarrow> snd r \<noteq> 0 \<and> fst r \<noteq> [] \<and> hd (fst r) = CHR ''/'' \<and> CHR ''<'' \<notin> set (fst r)"

text \<open>The head of a tree that holds only such routes: no rule of its own and at most the child of the slash.\<close>

definition slash_head :: "Node \<Rightarrow> bool" where
  "slash_head n \<longleftrightarrow> static_node n \<and> single_chars n \<and> rule_index n = 0 \<and> node_key n = [] \<and>
     key_head ` set (children n) \<subseteq> {CHR ''/''}"

lemma slash_head_simple: "slash_head n \<Longrightarrow> IsSimpleNode n"
proof -
  assume a: "slash_head n"
  then have s: "static_children (children n)" by (simp add: slash_head_def static_node_iff)
  then have "distinct (map key_head (children n))" "set (map key_head (children n)) \<subseteq> {CHR ''/''}"
    using a by (auto simp: static_children_def slash_head_def)
  then have "length (map key_head (children n)) \<le> card {CHR ''/''}"
    using card_mono [of "{CHR ''/''}" "set (map key_head (children n))"] distinct_card [of "map key_head (children n)"] by simp
  then have "length (children n) < 2" by simp
  moreover have "node_param c = MAX_PARAM" if "c \<in> set (children n)" for c
    using static_child [OF s that] by (simp add: static_node_iff)
  moreover have "blueprint_index n = INVALID_BP_ID" "node_param n = MAX_PARAM" "rule_index n = 0"
    using a by (simp_all add: slash_head_def static_node_iff)
  ultimately show ?thesis by (simp add: IsSimpleNode_def list_all_iff)
qed

lemma map_sum_Inr: "map_sum id f r = Inr y \<longleftrightarrow> (\<exists>x. r = Inr x \<and> y = f x)"
  by (cases r) auto

lemma add_keeps_key: "Trie_add_from url ri bpl bi n s i = Some (Inr n') \<Longrightarrow> node_key n' = node_key n"
proof (induction "Inr n' :: Node result" arbitrary: n' rule: Trie_add_from.raw_induct [rotated, consumes 1, case_names step])
  case (step f url ri bpl bi n s i n')
  then show ?case
    by (auto simp: set_child_def Let_def bind_eq_Some_conv map_sum_Inr split: list.splits if_splits option.splits)
qed

lemma char_child_head: "key_head (char_child n c) = c"
  by (auto simp: char_child_def key_head_def [of "Node _ _ _ _ _"] dest: find_index_Some split: option.splits)

lemma add_slash_head:
  assumes n: "slash_head n" and r: "static_route (u, i)" and w: "walk n u = 0"
  shows "\<exists>n'. Trie_add u i 0 INVALID_BP_ID n = Inr n' \<and> slash_head n' \<and>
    (\<forall>v. walk n' v = (if v = u then i else walk n v))"
proof -
  obtain v where u: "u = CHR ''/'' # v" using r by (cases u) (auto simp: static_route_def)
  obtain n' where n': "Trie_add u i 0 INVALID_BP_ID n = Inr n'" "static_node n'" "single_chars n'" "node_key n' = node_key n"
    "\<forall>v. walk n' v = (if v = u then i else walk n v)"
    using add_static [of n u u i 0 0] n r w by (auto simp: slash_head_def static_route_def Trie_add_def)
  have "rule_index n' = 0"
    using n'(5) n u by (metis list.distinct(1) slash_head_def walk_eq)
  moreover have "key_head ` set (children n') \<subseteq> {CHR ''/''}"
  proof -
    obtain x where x: "add_from u i 0 INVALID_BP_ID (char_child n (CHR ''/'')) v 1 = Inr x"
      "n' = set_child n (find_index (\<lambda>x. key_head x = CHR ''/'') (children n)) x"
      using n'(1) add_char [of "CHR ''/''" u i 0 n v 0] u by (auto simp: Trie_add_def split: sum.splits)
    have "node_key x = node_key (char_child n (CHR ''/''))" using x(1) by (auto simp: add_from_def intro: add_keeps_key split: option.splits)
    then have "key_head x = CHR ''/''" using char_child_head [of n "CHR ''/''"] by (simp add: key_head_def)
    moreover have "set (children n') \<subseteq> insert x (set (children n))"
      unfolding x(2) set_child_def by (auto split: option.splits dest: set_update_subset_insert [THEN subsetD])
    ultimately show ?thesis using n by (auto simp: slash_head_def)
  qed
  ultimately show ?thesis using n' n by (auto simp: slash_head_def)
qed

lemma add_routes_walk:
  assumes "slash_head n" and "list_all static_route us" and "distinct (map fst us)" and "\<forall>u \<in> fst ` set us. walk n u = 0"
  shows "\<exists>n'. add_routes us n = Inr n' \<and> slash_head n' \<and>
    (\<forall>v. walk n' v = (case map_of us v of Some i \<Rightarrow> i | None \<Rightarrow> walk n v))"
  using assms
proof (induction us arbitrary: n)
  case (Cons r us)
  obtain u i where r: "r = (u, i)" by fastforce
  obtain n1 where n1: "Trie_add u i 0 INVALID_BP_ID n = Inr n1" "slash_head n1"
    "\<forall>v. walk n1 v = (if v = u then i else walk n v)"
    using add_slash_head [of n u i] Cons.prems by (auto simp: r)
  have "\<forall>v \<in> fst ` set us. walk n1 v = 0" using Cons.prems(3,4) n1(3) by (auto simp: r)
  from Cons.IH [OF n1(2) _ _ this] Cons.prems(2,3) obtain n' where n': "add_routes us n1 = Inr n'" "slash_head n'"
    "\<forall>v. walk n' v = (case map_of us v of Some i \<Rightarrow> i | None \<Rightarrow> walk n1 v)" by auto
  have "map_of us u = None" using Cons.prems(3) by (simp add: r map_of_eq_None_iff)
  with n1 n' show ?case by (auto simp: r split: option.splits)
qed simp

text \<open>
  C23. The search tree of static routes is the finite map of its rules: adding routes with
  distinct URLs, each starting with a slash and without parameters, always succeeds, the tree
  passes its validation, and after the compression of its paths a URL finds the index of its rule, or
  none when it has none. Adding a URL that is already there is refused with an exception.
\<close>

theorem static_routes_exact:
  assumes "list_all static_route us" and "distinct (map fst us)"
  shows "\<exists>n t. add_routes us Node_default = Inr n \<and> Trie_validate n = Inr t \<and>
    (\<forall>u. fst (find_rule strtod t u) = (case map_of us u of Some i \<Rightarrow> i | None \<Rightarrow> 0)) \<and>
    (\<forall>u \<in> fst ` set us. \<forall>i. Trie_add u i 0 INVALID_BP_ID n =
       Inl (Throw (Runtime_error (''handler already exists for '' @ u))))"
proof -
  have "slash_head Node_default" using static_default by (simp add: slash_head_def Node_default_def)
  from add_routes_walk [OF this assms] static_default(3) obtain n where
    n: "add_routes us Node_default = Inr n" "slash_head n"
      "\<forall>v. walk n v = (case map_of us v of Some i \<Rightarrow> i | None \<Rightarrow> 0)"
    unfolding static_default(3) by blast
  have v: "Trie_validate n = Inr (optimize n)" using slash_head_simple [OF n(2)] by (simp add: Trie_validate_def)
  have f: "fst (find_rule strtod (optimize n) u) = walk n u" for u
    using optimize_walk [of n] n(2) find_rule_static [of "optimize n"] by (simp add: slash_head_def)
  have d: "Trie_add u i 0 INVALID_BP_ID n = Inl (Throw (Runtime_error (''handler already exists for '' @ u)))"
    if u: "u \<in> fst ` set us" for u i
  proof -
    obtain x where x: "x \<in> set us" "u = fst x" using u by blast
    define j where "j = snd x"
    have "(u, j) \<in> set us" using x by (simp add: j_def)
    then have j: "map_of us u = Some j" "(u, j) \<in> set us" using assms(2) by simp_all
    then have "walk n u \<noteq> 0" "CHR ''<'' \<notin> set u" using n(3) assms(1) by (auto simp: list_all_iff static_route_def)
    then show ?thesis using add_duplicate [of n u u i 0 0] n(2) by (simp add: slash_head_def Trie_add_def)
  qed
  show ?thesis
    by (intro exI conjI ballI allI, rule n(1), rule v) (simp_all add: f n(3) d)
qed

theorem static_routes_exact_witness:
  "\<exists>n t. add_routes [(''/'', 2), (''/api'', 3), (''/api/x'', 4)] Node_default = Inr n \<and> Trie_validate n = Inr t \<and>
     fst (find_rule (\<lambda>_. None) t ''/api'') = 3 \<and> fst (find_rule (\<lambda>_. None) t ''/ap'') = 0"
  using static_routes_exact [of "[(''/'', 2), (''/api'', 3), (''/api/x'', 4)]" "\<lambda>_. None"]
  by (auto simp: static_route_def)

text \<open>
  The tag of a route that the compiler computes and the one computed at run time agree, errors included, for
  every URL without a NUL.
\<close>

theorem parameter_tags_equal:
  assumes "nul \<notin> set s"
  shows "get_parameter_tag s = get_parameter_tag_runtime s"
  using assms by (rule parameter_tags_agree)

theorem parameter_tags_equal_witness:
  "get_parameter_tag ''/a/<int>/<path>'' = Inr 31 \<and> get_parameter_tag_runtime ''/a/<int>/<path>'' = Inr 31"
proof -
  have "get_parameter_tag ''/a/<int>/<path>'' = Inr 31" by code_simp
  with parameter_tags_equal [of "''/a/<int>/<path>''"] show ?thesis by simp
qed

text \<open>
  The check of a handler's parameters against its rule compares their number only: two tags are
  compatible exactly when they have equally many parameters, whatever their types.
\<close>

theorem compatible_tags_count_only:
  "is_parameter_tag_compatible a b \<longleftrightarrow> tag_length a = tag_length b"
  by (rule compatible_tag_length)


end
