(* ===== verification/Crow_Router.thy ===== *)
theory Crow_Router
  imports Crow_Routing Crow_Message
begin

text \<open>
  \<^verbatim>\<open>crow::Router\<close> (lib/crowapi/crow_all.h): rules and their methods, one search tree per
  method, and the dispatch of a request. Handlers are values of an arbitrary type: dispatching
  gives either a finished response or the handler to call, with the parameters of the URL and
  the response it starts from. Blueprints and upgraded rules are not modelled; without
  them a rule is added as the code adds it with an invalid blueprint index.
\<close>

section \<open>Rules\<close>

record 'h rule =
  rule_url :: string
  rule_name :: string
  methods_mask :: "32 word"
  handler :: "'h option"

definition mk_rule :: "string \<Rightarrow> 'h rule" where
  "mk_rule u = \<lparr>rule_url = u, rule_name = [], methods_mask = push_bit (method_value Get) 1, handler = None\<rparr>"

definition set_handler :: "'h \<Rightarrow> 'h rule \<Rightarrow> 'h rule" where
  "set_handler h r = r\<lparr>handler := Some h\<rparr>"

definition rule_validate :: "'h rule \<Rightarrow> unit result" where
  "rule_validate r =
     (if Option.is_none (handler r)
      then Inl (Throw (Runtime_error (rule_name r @ (if rule_name r \<noteq> [] then '': '' else []) @
             ''no handler for url '' @ rule_url r)))
      else Inr ())"

text \<open>
  \<open>methods(m)\<close> and \<open>methods(m, ...)\<close>: the mask is \<^verbatim>\<open>1 << m\<close> on an \<^verbatim>\<open>int\<close>, which is undefined when \<open>m\<close> is 32
  or more.
\<close>

fun set_methods :: "HTTPMethod list \<Rightarrow> 'h rule \<Rightarrow> 'h rule result" where
  "set_methods [] r = Inr r"
| "set_methods [m] r =
     (if method_value m < 32 then Inr (r\<lparr>methods_mask := push_bit (method_value m) 1\<rparr>) else Inl Signed_overflow)"
| "set_methods (m # ms) r =
     (case set_methods ms r of Inl e \<Rightarrow> Inl e | Inr r' \<Rightarrow>
        if method_value m < 32
        then Inr (r'\<lparr>methods_mask := methods_mask r' OR push_bit (method_value m) 1\<rparr>) else Inl Signed_overflow)"

text \<open>The methods of a rule, in order; \<open>method_bit\<close> is shifted out to 0 after method 31.\<close>

definition foreach_method :: "32 word \<Rightarrow> nat list" where
  "foreach_method ms = filter (\<lambda>m. ms AND push_bit m 1 \<noteq> 0) [0..<method_value InternalMethodCount]"

section \<open>The router\<close>

record 'h PerMethod =
  rules :: "'h rule option list"
  trie :: Node

record 'h Router =
  per_methods :: "'h PerMethod list"
  all_rules :: "'h rule list"
  catchall_rule :: "'h option"

definition PerMethod_default :: "'h PerMethod" where
  "PerMethod_default = \<lparr>rules = [None, None], trie = Node_default\<rparr>"

definition Router_default :: "'h Router" where
  "Router_default = \<lparr>per_methods = replicate (method_value InternalMethodCount) PerMethod_default,
     all_rules = [], catchall_rule = None\<rparr>"

definition new_rule :: "'h rule \<Rightarrow> 'h Router \<Rightarrow> 'h Router" where
  "new_rule r R = R\<lparr>all_rules := all_rules R @ [r]\<rparr>"

definition RULE_SPECIAL_REDIRECT_SLASH :: "16 word" where
  "RULE_SPECIAL_REDIRECT_SLASH = 1"

definition add_to_method :: "'h rule \<Rightarrow> 'h PerMethod \<Rightarrow> 'h PerMethod result" where
  "add_to_method r pm =
     (let rs = rules pm @ [Some r]; u = rule_url r in
      case Trie_add u (of_nat (length rs - 1)) 0 INVALID_BP_ID (trie pm) of
        Inl e \<Rightarrow> Inl e
      | Inr t \<Rightarrow>
          if 1 < length u \<and> last u = CHR ''/''
          then (case Trie_add (butlast u) RULE_SPECIAL_REDIRECT_SLASH 0 INVALID_BP_ID t of
                  Inl e \<Rightarrow> Inl e | Inr t' \<Rightarrow> Inr (pm\<lparr>rules := rs, trie := t'\<rparr>))
          else Inr (pm\<lparr>rules := rs, trie := t\<rparr>))"

fun add_to_methods :: "'h rule \<Rightarrow> nat list \<Rightarrow> 'h PerMethod list \<Rightarrow> 'h PerMethod list result" where
  "add_to_methods r [] pms = Inr pms"
| "add_to_methods r (m # ms) pms =
     (case add_to_method r (pms ! m) of
        Inl e \<Rightarrow> Inl e
      | Inr pm \<Rightarrow> add_to_methods r ms (pms[m := pm]))"

definition internal_add_rule_object :: "'h rule \<Rightarrow> 'h PerMethod list \<Rightarrow> 'h PerMethod list result" where
  "internal_add_rule_object r pms = add_to_methods r (foreach_method (methods_mask r)) pms"

fun add_rules :: "'h rule list \<Rightarrow> 'h PerMethod list \<Rightarrow> 'h PerMethod list result" where
  "add_rules [] pms = Inr pms"
| "add_rules (r # rs) pms =
     (case rule_validate r of Inl e \<Rightarrow> Inl e | Inr _ \<Rightarrow>
        (case internal_add_rule_object r pms of Inl e \<Rightarrow> Inl e | Inr pms' \<Rightarrow> add_rules rs pms'))"

fun validate_tries :: "'h PerMethod list \<Rightarrow> 'h PerMethod list result" where
  "validate_tries [] = Inr []"
| "validate_tries (pm # pms) =
     (case Trie_validate (trie pm) of Inl e \<Rightarrow> Inl e | Inr t \<Rightarrow>
        (case validate_tries pms of Inl e \<Rightarrow> Inl e | Inr pms' \<Rightarrow> Inr (pm\<lparr>trie := t\<rparr> # pms')))"

definition Router_validate :: "'h Router \<Rightarrow> 'h Router result" where
  "Router_validate R =
     (case add_rules (all_rules R) (per_methods R) of Inl e \<Rightarrow> Inl e | Inr pms \<Rightarrow>
        (case validate_tries pms of Inl e \<Rightarrow> Inl e | Inr pms' \<Rightarrow> Inr (R\<lparr>per_methods := pms'\<rparr>)))"

section \<open>Dispatch\<close>

text \<open>
  What dispatching a request gives: a finished response, or a handler to call with the
  parameters of the URL and the response so far. The catch-all handler gets no parameters
  and is followed by \<open>end()\<close>.
\<close>

datatype 'h routed =
    Respond response
  | Call 'h routing_params response
  | Call_catchall 'h response

definition finish :: "response \<Rightarrow> response" where
  "finish res = fst (response_end res)"

definition get_error :: "'h Router \<Rightarrow> int \<Rightarrow> response \<Rightarrow> 'h routed" where
  "get_error R c res =
     (case catchall_rule R of
        None \<Rightarrow> Respond (res\<lparr>code := c\<rparr>)
      | Some h \<Rightarrow> Call_catchall h (res\<lparr>code := c\<rparr>))"

text \<open>\<open>res.end()\<close> after \<open>get_error\<close>; a catch-all handler has yet to run before it.\<close>

fun end_routed :: "'h routed \<Rightarrow> 'h routed" where
  "end_routed (Respond res) = Respond (finish res)"
| "end_routed (Call h ps res) = Call h ps res"
| "end_routed (Call_catchall h res) = Call_catchall h res"

definition method_finds :: "(string \<Rightarrow> nat option) \<Rightarrow> 'h Router \<Rightarrow> string \<Rightarrow> nat \<Rightarrow> bool" where
  "method_finds strtod R u m \<longleftrightarrow> fst (find_rule strtod (trie (per_methods R ! m)) u) \<noteq> 0"

definition redirect_slash :: "request \<Rightarrow> response \<Rightarrow> response" where
  "redirect_slash req res =
     (let res1 = response_assign res (response_code 301); host = request_get_header_value req ''Host'' in
      finish (add_header ''Location''
        (if host = [] then req_url req @ ''/'' else ''http://'' @ host @ req_url req @ ''/'') res1))"

text \<open>The methods listed in the answer to OPTIONS, each followed by a comma and a space.\<close>

definition allow_list :: "(nat \<Rightarrow> bool) \<Rightarrow> string" where
  "allow_list P = ''OPTIONS, HEAD, '' @
     concat (map (\<lambda>m. method_name m @ '', '') (filter (\<lambda>m. P (method_value m)) methods))"

definition handle_options :: "(string \<Rightarrow> nat option) \<Rightarrow> 'h Router \<Rightarrow> request \<Rightarrow> response \<Rightarrow> response" where
  "handle_options strtod R req res =
     (let answer = (\<lambda>allow. finish (set_header ''Allow'' (take (length allow - 2) allow)
                              (response_assign res (response_code 204))))
      in if req_url req = ''/*''
         then answer (allow_list (\<lambda>m. \<not> Trie_is_empty (trie (per_methods R ! m))))
         else let allow = allow_list (method_finds strtod R (req_url req)) in
              if allow \<noteq> ''OPTIONS, HEAD, '' then answer allow
              else finish (response_assign res (response_code 404)))"

text \<open>The \<^verbatim>\<open>catch\<close> clauses around a handler; calling an empty \<^verbatim>\<open>std::function\<close> throws.\<close>

definition uncaught_exception :: "response \<Rightarrow> response" where
  "uncaught_exception res = finish (response_assign res (response_code 500))"

definition Router_handle ::
  "(string \<Rightarrow> nat option) \<Rightarrow> 'h Router \<Rightarrow> request \<Rightarrow> response \<Rightarrow> 'h routed result" where
  "Router_handle strtod R req res0 =
     (let m = req_method req in
      if method_value m \<ge> method_value InternalMethodCount then Inr (Respond res0)
      else if m = Options then Inr (Respond (handle_options strtod R req res0))
      else
        let method_actual = (if m = Head then Get else m);
            res = (if m = Head then res0\<lparr>skip_body := True\<rparr> else res0);
            pm = per_methods R ! method_value method_actual;
            (rule_index, _, params) = find_rule strtod (trie pm) (req_url req)
        in if rule_index = 0
           then if list_ex (method_finds strtod R (req_url req)) [0..<method_value InternalMethodCount]
                then Inr (end_routed (get_error R 405 res)) else Inr (end_routed (get_error R 404 res))
           else if unat rule_index \<ge> length (rules pm)
           then Inl (Throw (Runtime_error ''Trie internal structure corrupted!''))
           else if rule_index = RULE_SPECIAL_REDIRECT_SLASH then Inr (Respond (redirect_slash req res))
           else case rules pm ! unat rule_index of
                  None \<Rightarrow> Inl Out_of_bounds_read
                | Some r \<Rightarrow> (case handler r of None \<Rightarrow> Inr (Respond (uncaught_exception res)) | Some h \<Rightarrow> Inr (Call h params res)))"

text \<open>
  \<open>handle_upgrade\<close>: the same search, but the errors are plain responses and there is no
  catch-all; a rule that is not a websocket rule answers 404.
\<close>

definition rule_handle_upgrade :: "response \<Rightarrow> response" where
  "rule_handle_upgrade res = finish (response_assign res (response_code 404))"

definition Router_handle_upgrade ::
  "(string \<Rightarrow> nat option) \<Rightarrow> 'h Router \<Rightarrow> request \<Rightarrow> response \<Rightarrow> 'h routed result" where
  "Router_handle_upgrade strtod R req res =
     (if method_value (req_method req) \<ge> method_value InternalMethodCount then Inr (Respond res)
      else let pm = per_methods R ! method_value (req_method req);
               (rule_index, _, params) = find_rule strtod (trie pm) (req_url req)
           in if rule_index = 0
              then if list_ex (method_finds strtod R (req_url req)) [0..<method_value InternalMethodCount]
                   then Inr (Respond (finish (response_assign res (response_code 405))))
                   else Inr (Respond (finish (response_assign res (response_code 404))))
              else if unat rule_index \<ge> length (rules pm)
              then Inl (Throw (Runtime_error ''Trie internal structure corrupted!''))
              else if rule_index = RULE_SPECIAL_REDIRECT_SLASH then Inr (Respond (redirect_slash req res))
              else case rules pm ! unat rule_index of
                     None \<Rightarrow> Inl Out_of_bounds_read
                   | Some r \<Rightarrow> Inr (Respond (rule_handle_upgrade res)))"

text \<open>\<open>wrapped_handler_call\<close>: the response of the handler is assigned and ended.\<close>

definition wrapped_handler_call :: "response \<Rightarrow> response \<Rightarrow> response" where
  "wrapped_handler_call res r = finish (response_assign res r)"

end
