(* ===== verification/Wallet_App.thy ===== *)
theory Wallet_App
  imports Handlers_Exact Crow_Router Crow_Utility
begin

text \<open>
  The wallet as a Crow application: the four rules of src/main.cpp, the rule for static files that
  \<^verbatim>\<open>Crow::validate\<close> adds, and what happens to a request from the router to the
  finished response. The handlers of the router are names here; \<open>run_handler\<close> is what they
  do. The middlewares of \<^verbatim>\<open>SimpleApp\<close> are none.
\<close>

datatype app_handler = Endpoint endpoint | Static_files

definition wallet_rules :: "(string \<times> endpoint) list" where
  "wallet_rules =
     [(''/api/1.0/wallet/create_account'', Create_account),
      (''/api/1.0/wallet/balance_transfer'', Balance_transfer),
      (''/api/1.0/wallet/get_balance'', Get_balance),
      (''/api/1.0/wallet/events'', Events)]"

definition CROW_STATIC_DIRECTORY :: string where
  "CROW_STATIC_DIRECTORY = ''static/''"

definition CROW_STATIC_ENDPOINT :: string where
  "CROW_STATIC_ENDPOINT = ''/static/<path>''"

text \<open>\<^verbatim>\<open>CROW_ROUTE(app, url)(f)\<close>: a new rule with a handler.\<close>

definition route :: "string \<Rightarrow> 'h \<Rightarrow> 'h Router \<Rightarrow> 'h Router" where
  "route u h R = new_rule (set_handler h (mk_rule u)) R"

definition wallet_routes :: "app_handler Router \<Rightarrow> app_handler Router" where
  "wallet_routes R = fold (\<lambda>(u, e). route u (Endpoint e)) wallet_rules R"

definition Crow_validate :: "app_handler Router \<Rightarrow> app_handler Router result" where
  "Crow_validate R = Router_validate (route CROW_STATIC_ENDPOINT Static_files R)"

definition wallet_router :: "app_handler Router result" where
  "wallet_router = Crow_validate (wallet_routes Router_default)"

text \<open>The handler of static files; its parameter is the part of the URL behind the prefix.\<close>

definition serve_static :: "(string \<Rightarrow> int option) \<Rightarrow> string \<Rightarrow> response \<Rightarrow> response" where
  "serve_static stat file_path_partial res =
     finish (fst (set_static_file_info_unsafe stat
       (CROW_STATIC_DIRECTORY @ sanitize_filename (CHR ''_'') file_path_partial) res))"

text \<open>
  Calling a handler inside the \<^verbatim>\<open>try\<close> block of the router: an exception becomes a response with
  code 500, any other fault stays one.
\<close>

definition run_handler ::
  "'db Extern \<Rightarrow> Config \<Rightarrow> (string \<Rightarrow> int option) \<Rightarrow> string \<Rightarrow> app_handler \<Rightarrow> routing_params \<Rightarrow> request \<Rightarrow>
   response \<Rightarrow> 'db World \<Rightarrow> response result \<times> 'db World" where
  "run_handler ext config stat uuid h ps req res s =
     (case h of
        Endpoint e \<Rightarrow>
          (case serve ext config e uuid req s of
             (Inl (Throw x), s1) \<Rightarrow> (Inr (uncaught_exception res), s1)
           | (Inl f, s1) \<Rightarrow> (Inl f, s1)
           | (Inr r, s1) \<Rightarrow> (Inr (wrapped_handler_call res r), s1))
      | Static_files \<Rightarrow>
          (case string_params ps of
             [] \<Rightarrow> (Inl Out_of_bounds_read, s)
           | p # _ \<Rightarrow> (Inr (serve_static stat p res), s)))"

text \<open>\<open>Crow::handle\<close> of the wallet, for a response as the connection hands it over.\<close>

definition app_handle ::
  "'db Extern \<Rightarrow> Config \<Rightarrow> (string \<Rightarrow> int option) \<Rightarrow> (string \<Rightarrow> nat option) \<Rightarrow> app_handler Router \<Rightarrow> string \<Rightarrow>
   request \<Rightarrow> response \<Rightarrow> 'db World \<Rightarrow> response result \<times> 'db World" where
  "app_handle ext config stat strtod R uuid req res s =
     (case Router_handle strtod R req res of
        Inl e \<Rightarrow> (Inl e, s)
      | Inr (Respond r) \<Rightarrow> (Inr r, s)
      | Inr (Call h ps r) \<Rightarrow> run_handler ext config stat uuid h ps req r s
      | Inr (Call_catchall h r) \<Rightarrow>
          (case run_handler ext config stat uuid h routing_params_empty req r s of
             (Inl e, s1) \<Rightarrow> (Inl e, s1) | (Inr r1, s1) \<Rightarrow> (Inr (finish r1), s1)))"

end
