(* ===== verification/Wallet_App_Proofs.thy ===== *)
theory Wallet_App_Proofs
  imports Wallet_App Crow_Routing_Proofs
begin

text \<open>
  The router of the wallet, computed and analysed: the search tree it has after validation, what a search
  in it finds for an arbitrary URL, and so what becomes of an arbitrary request. The locale
  \<open>wallet_routed\<close> is what the application relies on, a router built by its own routes.
\<close>

section \<open>The search tree of the wallet\<close>

definition wallet_api :: Node where
  "wallet_api = Node 0 INVALID_BP_ID ''api/1.0/wallet/'' MAX_PARAM
     [Node 2 INVALID_BP_ID ''create_account'' MAX_PARAM [],
      Node 3 INVALID_BP_ID ''balance_transfer'' MAX_PARAM [],
      Node 4 INVALID_BP_ID ''get_balance'' MAX_PARAM [],
      Node 5 INVALID_BP_ID ''events'' MAX_PARAM []]"

definition wallet_static :: Node where
  "wallet_static = Node 0 INVALID_BP_ID ''static/'' MAX_PARAM [Node 6 INVALID_BP_ID [] PATH_PARAM []]"

definition wallet_trie :: Node where
  "wallet_trie = Node 0 INVALID_BP_ID [] MAX_PARAM
     [Node 0 INVALID_BP_ID ''/'' MAX_PARAM
        [wallet_api, wallet_static]]"

definition wallet_rule_table :: "app_handler rule option list" where
  "wallet_rule_table = [None, None] @ map (\<lambda>(u, h). Some (set_handler h (mk_rule u)))
     (map (apsnd Endpoint) wallet_rules @ [(CROW_STATIC_ENDPOINT, Static_files)])"

lemma wallet_router_built:
  "\<exists>R. wallet_router = Inr R \<and> catchall_rule R = None \<and>
     per_methods R = (replicate 34 PerMethod_default)[1 := \<lparr>rules = wallet_rule_table, trie = wallet_trie\<rparr>]"
proof -
  have "case wallet_router of Inl _ \<Rightarrow> False | Inr R \<Rightarrow> catchall_rule R = None \<and>
     per_methods R = (replicate 34 PerMethod_default)[1 := \<lparr>rules = wallet_rule_table, trie = wallet_trie\<rparr>]"
    by code_simp
  then show ?thesis by (auto split: sum.splits)
qed

text \<open>What a URL stands for: an endpoint by its exact path, or a static file with the rest of the path.\<close>

definition target :: "string \<Rightarrow> (app_handler \<times> string list) option" where
  "target u =
     (case map_of wallet_rules u of
        Some e \<Rightarrow> Some (Endpoint e, [])
      | None \<Rightarrow> if take 8 u = ''/static/'' \<and> 8 < length u then Some (Static_files, [drop 8 u]) else None)"

definition target_index :: "string \<Rightarrow> 16 word" where
  "target_index u =
     (case target u of
        None \<Rightarrow> 0
      | Some (Endpoint Create_account, _) \<Rightarrow> 2
      | Some (Endpoint Balance_transfer, _) \<Rightarrow> 3
      | Some (Endpoint Get_balance, _) \<Rightarrow> 4
      | Some (Endpoint Events, _) \<Rightarrow> 5
      | Some (Static_files, _) \<Rightarrow> 6)"

text \<open>Steps of the search into the nodes of this tree.\<close>

lemma step_into_leaf: "step_into (Node i bi k p []) s = (if s = k then i else 0)"
  by (auto simp: step_into_def)

lemma walk_wallet_api:
  "walk wallet_api w = (if w = ''create_account'' then 2 else if w = ''balance_transfer'' then 3
     else if w = ''get_balance'' then 4 else if w = ''events'' then 5 else 0)"
proof -
  have "static_children (children wallet_api)" by code_simp
  then show ?thesis
    by (cases w) (simp_all add: walk_eq walk_list_find, simp_all add: wallet_api_def key_head_def step_into_leaf)
qed

lemma find_wallet_api:
  "\<exists>mp. Trie_find strtod wallet_api w ps [] = ((walk wallet_api w, [], mp), []) \<and> (walk wallet_api w \<noteq> 0 \<longrightarrow> mp = ps)"
proof -
  have "static_node wallet_api" by code_simp
  from find_static [OF this, of w ps strtod] show ?thesis
    by (cases "Trie_find strtod wallet_api w ps []") (auto simp: lookup_found_def)
qed

lemma find_wallet_static:
  "Trie_find strtod wallet_static w ps [] =
     (if w = [] then (0, [], ps) else (6, [], ps\<lparr>string_params := string_params ps @ [w]\<rparr>), [])"
  by (simp add: wallet_static_def match_child_def update_found_def pop_back_def)

lemma match_key:
  "node_param c = MAX_PARAM \<Longrightarrow> match_child strtod c (node_key c @ s) ps = Some (ps, s)"
  by (simp add: match_static)

lemma match_other:
  "node_param c = MAX_PARAM \<Longrightarrow> node_key c \<noteq> [] \<Longrightarrow> key_head c \<noteq> hd s \<Longrightarrow> match_child strtod c s ps = None"
  using prefix_head [of c s] by (auto simp: match_static)

lemma wallet_nodes [simp]:
  "node_param wallet_api = MAX_PARAM" "node_param wallet_static = MAX_PARAM"
  "node_key wallet_api = ''api/1.0/wallet/''" "node_key wallet_static = ''static/''"
  "blueprint_index wallet_api = INVALID_BP_ID" "blueprint_index wallet_static = INVALID_BP_ID"
  "key_head wallet_api = CHR ''a''" "key_head wallet_static = CHR ''s''"
  by (simp_all add: wallet_api_def wallet_static_def key_head_def)

definition target_params :: "string \<Rightarrow> routing_params" where
  "target_params u = routing_params_empty\<lparr>string_params := (case target u of None \<Rightarrow> [] | Some (_, ps) \<Rightarrow> ps)\<rparr>"

definition wallet_found :: "string \<Rightarrow> found \<Rightarrow> bool" where
  "wallet_found u r = lookup_found (target_index u) (target_params u) r"

lemma routing_params_id: "routing_params_empty\<lparr>string_params := []\<rparr> = routing_params_empty"
  by (simp add: routing_params_empty_def)

lemma target_api:
  "target_index (''/api/1.0/wallet/'' @ w) = walk wallet_api w"
  "target_params (''/api/1.0/wallet/'' @ w) = routing_params_empty"
  unfolding walk_wallet_api
  by (auto simp: target_index_def target_params_def target_def wallet_rules_def routing_params_id)

lemma target_static:
  "target_index (''/static/'' @ w) = (if w = [] then 0 else 6)"
  "target_params (''/static/'' @ w) = routing_params_empty\<lparr>string_params := (if w = [] then [] else [w])\<rparr>"
  by (auto simp: target_index_def target_params_def target_def wallet_rules_def routing_params_id)

lemma target_none:
  "take 15 v \<noteq> ''api/1.0/wallet/'' \<Longrightarrow> take 7 v \<noteq> ''static/'' \<Longrightarrow> target (CHR ''/'' # v) = None"
  "target [] = None" "c \<noteq> CHR ''/'' \<Longrightarrow> target (c # v) = None"
proof -
  assume a: "take 15 v \<noteq> ''api/1.0/wallet/''" and b: "take 7 v \<noteq> ''static/''"
  have "v \<noteq> ''api/1.0/wallet/'' @ w" for w using a by auto
  from this [of "''create_account''"] this [of "''balance_transfer''"] this [of "''get_balance''"] this [of "''events''"]
  have "map_of wallet_rules (CHR ''/'' # v) = None" by (simp add: wallet_rules_def)
  with b show "target (CHR ''/'' # v) = None" by (simp add: target_def)
qed (simp_all add: target_def wallet_rules_def)

lemma find_wallet_children:
  "lookup_found (target_index (CHR ''/'' # v)) (target_params (CHR ''/'' # v))
     (fst (find_children strtod [wallet_api, wallet_static] v routing_params_empty [] (0, [], routing_params_empty) False)) \<and>
   snd (snd (find_children strtod [wallet_api, wallet_static] v routing_params_empty [] (0, [], routing_params_empty) False)) = []"
proof -
  consider w where "v = node_key wallet_api @ w" | w where "v = node_key wallet_static @ w"
    | "take 15 v \<noteq> ''api/1.0/wallet/''" "take 7 v \<noteq> ''static/''"
    using append_take_drop_id [of 15 v] append_take_drop_id [of 7 v] unfolding wallet_nodes by metis
  then show ?thesis
  proof cases
    case (1 w)
    obtain mp where t: "Trie_find strtod wallet_api w routing_params_empty [] = ((walk wallet_api w, [], mp), [])"
      and mp: "walk wallet_api w \<noteq> 0 \<longrightarrow> mp = routing_params_empty" using find_wallet_api by blast
    have other: "match_child strtod wallet_static v routing_params_empty = None"
      unfolding 1 by (rule match_other) simp_all
    have u: "CHR ''/'' # v = ''/api/1.0/wallet/'' @ w" using 1 by simp
    show ?thesis using match_key [of wallet_api strtod w] mp other unfolding 1 [symmetric] u target_api
      by (simp add: t update_first lookup_found_def pop_back_def)
  next
    case (2 w)
    have other: "match_child strtod wallet_api v routing_params_empty = None"
      unfolding 2 by (rule match_other) simp_all
    have u: "CHR ''/'' # v = ''/static/'' @ w" using 2 by simp
    show ?thesis using match_key [of wallet_static strtod w] other unfolding 2 [symmetric] u target_static
      by (simp add: find_wallet_static update_first lookup_found_def pop_back_def routing_params_empty_def)
  next
    case 3
    then show ?thesis using target_none(1) [OF 3]
      by (simp add: match_static lookup_found_def target_index_def eval_nat_numeral)
  qed
qed

lemma find_wallet:
  "lookup_found (target_index u) (target_params u) (find_rule strtod wallet_trie u)"
proof (cases u)
  case Nil
  then show ?thesis
    by (simp add: find_rule_def wallet_trie_def lookup_found_def target_index_def target_none)
next
  case (Cons c v)
  show ?thesis
  proof (cases "c = CHR ''/''")
    case False
    with Cons show ?thesis
      by (simp add: find_rule_def wallet_trie_def lookup_found_def target_index_def target_none match_child_def)
  next
    case True
    obtain f bp mp fr where "find_children strtod [wallet_api, wallet_static] v routing_params_empty [] (0, [], routing_params_empty) False = ((f, bp, mp), fr, [])"
      using find_wallet_children [of v strtod] by (metis prod.collapse snd_conv)
    with find_wallet_children [of v strtod] show ?thesis
      unfolding Cons True find_rule_def wallet_trie_def
      by (auto simp: match_child_def update_found_def pop_back_def lookup_found_def target_index_def target_none split: if_splits)
  qed
qed


section \<open>Dispatch\<close>

locale wallet_routed =
  fixes R :: "app_handler Router"
  assumes built: "wallet_router = Inr R"
begin

lemma no_catchall: "catchall_rule R = None"
  and tables: "per_methods R = (replicate 34 PerMethod_default)[1 := \<lparr>rules = wallet_rule_table, trie = wallet_trie\<rparr>]"
  using wallet_router_built unfolding built by auto

lemma trie_of: "m < 34 \<Longrightarrow> trie (per_methods R ! m) = (if m = 1 then wallet_trie else Node_default)"
  by (simp add: tables nth_list_update PerMethod_default_def)

lemma rules_of: "rules (per_methods R ! Suc 0) = wallet_rule_table"
  by (simp add: tables)

lemma find_wallet_rule: "fst (find_rule strtod wallet_trie u) = target_index u"
  using find_wallet [of u strtod] by (auto simp: lookup_found_def split: prod.splits)

lemma target_index_0: "target_index u = 0 \<longleftrightarrow> target u = None"
  by (auto simp: target_index_def split: option.splits app_handler.splits endpoint.splits)

lemma find_default: "find_rule strtod Node_default u = (0, [], routing_params_empty)"
  by (simp add: find_rule_def Node_default_def)

lemma method_finds_iff: "m < 34 \<Longrightarrow> method_finds strtod R u m \<longleftrightarrow> m = 1 \<and> target u \<noteq> None"
  by (simp add: method_finds_def trie_of find_default find_wallet_rule target_index_0)

lemma some_method_finds: "list_ex (method_finds strtod R u) [0..<34] \<longleftrightarrow> target u \<noteq> None"
  by (auto simp: list_ex_iff method_finds_iff intro!: bexI [of _ 1])

lemma rule_found:
  "target u = Some (h, ps) \<Longrightarrow> 1 < unat (target_index u) \<and> unat (target_index u) < length wallet_rule_table \<and>
     map_option handler (wallet_rule_table ! unat (target_index u)) = Some (Some h)"
  by (auto simp: target_index_def target_def wallet_rule_table_def wallet_rules_def set_handler_def split: if_splits)

end

lemma method_value_eq: "method_value m = method_value n \<longleftrightarrow> m = n"
  by (cases m; cases n) simp_all

text \<open>The answer to OPTIONS, for a URL that is known or not.\<close>

definition known_url :: "string \<Rightarrow> bool" where
  "known_url u \<longleftrightarrow> u = ''/*'' \<or> target u \<noteq> None"

definition options_answer :: "bool \<Rightarrow> response \<Rightarrow> response" where
  "options_answer known res =
     (if known then finish (set_header ''Allow'' ''OPTIONS, HEAD, GET'' (response_assign res (response_code 204)))
      else finish (response_assign res (response_code 404)))"

context wallet_routed
begin

lemma allow_list_known:
  assumes "\<And>m. m < 34 \<Longrightarrow> P m \<longleftrightarrow> m = 1 \<and> known"
  shows "allow_list P = (if known then ''OPTIONS, HEAD, GET, '' else ''OPTIONS, HEAD, '')"
proof -
  have "filter (\<lambda>m. P (method_value m)) methods = filter (\<lambda>m. m = Get \<and> known) methods"
  proof (rule filter_cong [OF refl])
    fix m assume "m \<in> set methods"
    then have "method_value m < 34" by (auto simp: methods_def)
    then show "P (method_value m) \<longleftrightarrow> m = Get \<and> known"
      using assms method_value_eq [of m Get] by auto
  qed
  also have "\<dots> = (if known then [Get] else [])" by (simp add: methods_def)
  finally show ?thesis by (simp add: allow_list_def method_name_def method_strings_def)
qed

lemma options_handled:
  "handle_options strtod R req res = options_answer (known_url (req_url req)) res"
proof -
  have e: "allow_list (\<lambda>m. \<not> Trie_is_empty (trie (per_methods R ! m))) = ''OPTIONS, HEAD, GET, ''"
    by (subst allow_list_known [where known = True])
       (auto simp: trie_of Trie_is_empty_def wallet_trie_def Node_default_def)
  have f: "allow_list (method_finds strtod R u) = (if target u \<noteq> None then ''OPTIONS, HEAD, GET, '' else ''OPTIONS, HEAD, '')" for u
    by (rule allow_list_known) (rule method_finds_iff)
  show ?thesis unfolding handle_options_def Let_def e f options_answer_def known_url_def by simp
qed


lemma handled:
  "Router_handle strtod R req res =
     Inr (if req_method req = InternalMethodCount then Respond res
          else if req_method req = Options
          then Respond (options_answer (known_url (req_url req)) res)
          else let res' = (if req_method req = Head then res\<lparr>skip_body := True\<rparr> else res) in
            case target (req_url req) of
              None \<Rightarrow> Respond (finish (res'\<lparr>code := 404\<rparr>))
            | Some (h, ps) \<Rightarrow>
                if req_method req \<in> {Get, Head} then Call h (routing_params_empty\<lparr>string_params := ps\<rparr>) res'
                else Respond (finish (res'\<lparr>code := 405\<rparr>)))"
proof -
  let ?m = "req_method req" and ?u = "req_url req"
  let ?a = "if ?m = Head then Get else ?m"
  have lt: "\<not> 34 \<le> method_value ?m" if "?m \<noteq> InternalMethodCount" using that by (cases ?m) simp_all
  consider "?m = InternalMethodCount" | "?m = Options" | "?m \<in> {Get, Head}"
    | "?m \<notin> {InternalMethodCount, Options, Get, Head}" by blast
  then show ?thesis
  proof cases
    case 2
    then show ?thesis by (simp add: Router_handle_def options_handled)
  next
    case 3
    then have a: "?a = Get" "?m \<noteq> InternalMethodCount" "?m \<noteq> Options" by auto
    obtain bp mp where f: "find_rule strtod wallet_trie ?u = (target_index ?u, bp, mp)"
      "target_index ?u \<noteq> 0 \<longrightarrow> mp = target_params ?u"
      using find_wallet [of ?u strtod] by (auto simp: lookup_found_def split: prod.splits)
    have t: "trie (per_methods R ! 1) = wallet_trie" by (simp add: trie_of)
    show ?thesis
    proof (cases "target ?u")
      case None
      then have "target_index ?u = 0" by (simp add: target_index_0)
      with a f t lt None show ?thesis
        by (simp add: Router_handle_def Let_def some_method_finds get_error_def no_catchall)
    next
      case (Some t)
      then obtain h ps where T: "target ?u = Some (h, ps)" by (cases t) auto
      note r = rule_found [OF T]
      have nz: "target_index ?u \<noteq> 0" "target_index ?u \<noteq> RULE_SPECIAL_REDIRECT_SLASH"
        using r by (auto simp: RULE_SPECIAL_REDIRECT_SLASH_def)
      obtain q where q: "wallet_rule_table ! unat (target_index ?u) = Some q" "handler q = Some h" using r by auto
      have mp: "mp = routing_params_empty\<lparr>string_params := ps\<rparr>" using f(2) nz T by (simp add: target_params_def)
      from 3 a f(1) t lt T nz r q mp show ?thesis
        by (simp add: Router_handle_def Let_def rules_of)
    qed
  next
    case 4
    then have m: "method_value ?m < 34" "method_value ?m \<noteq> 1" using lt method_value_eq [of ?m Get] by auto
    with 4 lt show ?thesis
      by (auto simp: Router_handle_def Let_def trie_of find_default some_method_finds get_error_def no_catchall
          split: option.splits)
  qed (simp add: Router_handle_def)
qed

end

interpretation wr: wallet_routed "projr wallet_router"
  by unfold_locales (metis wallet_router_built sum.sel(2))


section \<open>From the router to the response\<close>

lemma serve_method: "serve ext config e uuid (req\<lparr>req_method := m\<rparr>) s = serve ext config e uuid req s"
proof -
  have p: "param (req\<lparr>req_method := m\<rparr>) = param req" by (rule ext) (simp add: param_def)
  have "start_amount (req\<lparr>req_method := m\<rparr>) = start_amount req" unfolding start_amount_def p ..
  moreover have "transfer_command uuid (req\<lparr>req_method := m\<rparr>) = transfer_command uuid req"
    unfolding transfer_command_def transfer_params_def p ..
  ultimately show ?thesis
    by (cases e) (simp_all add: create_account_def balance_transfer_def get_balance_def events_def p)
qed

lemma responses_fresh [simp]:
  "\<not> completed (response_body b)" "\<not> completed (response_code_body c b)" "\<not> completed (response_code c)"
  by (simp_all add: response_body_def response_code_body_def response_code_def response_default_def)

lemma serve_fresh: "serve ext config e uuid req s = (Inr r, s') \<Longrightarrow> \<not> completed r"
  by (cases e) (auto simp: create_account_def start_amount_def balance_transfer_def transfer_command_def
      transfer_process_def get_balance_def events_def Let_def
      split: sum.splits option.splits prod.splits if_splits)

text \<open>The response of an endpoint as the application finishes it.\<close>

definition finished :: "'db Extern \<Rightarrow> Config \<Rightarrow> endpoint \<Rightarrow> string \<Rightarrow> request \<Rightarrow> response \<Rightarrow> 'db World \<Rightarrow>
    response result \<times> 'db World" where
  "finished ext config e uuid req res s =
     apfst (\<lambda>r. case r of Inl (Throw x) \<Rightarrow> Inr (uncaught_exception res) | Inl f \<Rightarrow> Inl f
            | Inr r \<Rightarrow> Inr (wrapped_handler_call res r)) (serve ext config e uuid req s)"

lemma run_endpoint: "run_handler ext config stat uuid (Endpoint e) ps req res s = finished ext config e uuid req res s"
  by (simp add: run_handler_def finished_def split: prod.splits sum.splits fault.splits)

context wallet_routed
begin

lemma app_endpoint:
  assumes "target (req_url req) = Some (Endpoint e, ps)" and "req_method req \<in> {Get, Head}"
  shows "app_handle ext config stat strtod R uuid req res s =
    finished ext config e uuid req (if req_method req = Head then res\<lparr>skip_body := True\<rparr> else res) s"
  using assms by (auto simp: app_handle_def handled Let_def run_endpoint)

lemma app_cases:
  obtains x where "app_handle ext config stat strtod R uuid req res s = (Inr x, s)"
  | e res' where "app_handle ext config stat strtod R uuid req res s = finished ext config e uuid req res' s"
      "map_option fst (target (req_url req)) = Some (Endpoint e)" "req_method req \<in> {Get, Head}"
proof (cases "req_method req \<in> {Get, Head} \<and> target (req_url req) \<noteq> None")
  case False
  then have "\<exists>x. app_handle ext config stat strtod R uuid req res s = (Inr x, s)"
    by (auto simp: app_handle_def handled Let_def split: option.splits)
  then show thesis using that(1) by blast
next
  case True
  then obtain h ps where t: "target (req_url req) = Some (h, ps)" by auto
  show thesis
  proof (cases h)
    case (Endpoint e)
    show thesis
      by (rule that(2) [OF app_endpoint]) (use t True Endpoint in auto)
  next
    case Static_files
    then obtain p where "ps = [p]" using t by (auto simp: target_def split: option.splits if_splits)
    with t True Static_files have "\<exists>x. app_handle ext config stat strtod R uuid req res s = (Inr x, s)"
      by (auto simp: app_handle_def handled Let_def run_handler_def)
    then show thesis using that(1) by blast
  qed
qed

end

lemma finished_no_throw: "finished ext config e uuid req res s \<noteq> (Inl (Throw x), s')"
  by (auto simp: finished_def apfst_def map_prod_def split: sum.splits fault.splits prod.splits)

lemma app_keeps_inv:
  assumes "wallet_env ext contents" and "seed_file config \<noteq> event_log config"
    and "wallet_inv ext contents config s" and "wallet_router = Inr R"
    and "app_handle ext config stat strtod R uuid req res s = (r, s')" and "r \<noteq> Inl Signed_overflow"
  shows "wallet_inv ext contents config s' \<and> (\<forall>x. r \<noteq> Inl (Throw x))"
proof (rule wallet_routed.app_cases [OF wallet_routed.intro [OF assms(4)], of ext config stat strtod uuid req res s])
  fix x assume "app_handle ext config stat strtod R uuid req res s = (Inr x, s)"
  with assms(3,5) show ?thesis by auto
next
  fix e res'
  assume f: "app_handle ext config stat strtod R uuid req res s = finished ext config e uuid req res' s"
  then have eq: "finished ext config e uuid req res' s = (r, s')" using assms(5) by simp
  obtain q where q: "serve ext config e uuid req s = (q, s')"
    using eq by (cases "serve ext config e uuid req s") (simp add: finished_def)
  have "q \<noteq> Inl Signed_overflow" using eq q assms(6) by (auto simp: finished_def)
  then have "wallet_inv ext contents config s'"
    by (rule wallet_env.serve_inv [OF assms(1,3,2) q])
  then show ?thesis using finished_no_throw [of ext config e uuid req res' s] eq by auto
qed

end
