(* ===== verification/Wallet_App_Properties.thy ===== *)
theory Wallet_App_Properties
  imports Wallet_App_Proofs Crow_Utility_Properties Handlers_Properties
begin

text \<open>
  The application's contract: which handler a request reaches, what it can do to the service,
  and which files it can name.
\<close>

text \<open>A name below the directory of static files.\<close>

definition static_name :: "string \<Rightarrow> bool" where
  "static_name p \<longleftrightarrow> (\<exists>f. p = ''static/'' @ f \<and> no_specials True f \<and> list_all (\<lambda>c. \<not> bad_char c) f \<and> length f \<le> 255 \<and>
     (f \<noteq> [] \<longrightarrow> \<not> is_slash (hd f)))"

text \<open>A transfer of the example service, addressed to its path.\<close>

definition demo_head :: request where
  "demo_head = demo_transfer\<lparr>req_url := ''/api/1.0/wallet/balance_transfer''\<rparr>"

text \<open>
  C21. What the application does with any request, whatever its method and URL: an unknown URL
  is answered with 404; a known one with a method other than GET and HEAD with 405, except that
  OPTIONS lists the methods; GET and HEAD of one of the four paths call exactly its handler, and of a
  path below /static/ the handler of static files with the rest of the path. Validation of the routes succeeds.
\<close>

theorem wallet_dispatch:
  "case wallet_router of Inl _ \<Rightarrow> False | Inr R \<Rightarrow>
     Router_handle strtod R req res =
     Inr (if req_method req = InternalMethodCount then Respond res
          else if req_method req = Options
          then Respond (options_answer (known_url (req_url req)) res)
          else let res' = (if req_method req = Head then res\<lparr>skip_body := True\<rparr> else res) in
            case target (req_url req) of
              None \<Rightarrow> Respond (finish (res'\<lparr>code := 404\<rparr>))
            | Some (h, ps) \<Rightarrow>
                if req_method req \<in> {Get, Head} then Call h (routing_params_empty\<lparr>string_params := ps\<rparr>) res'
                else Respond (finish (res'\<lparr>code := 405\<rparr>)))"
proof -
  obtain R where R: "wallet_router = Inr R" using wallet_router_built by blast
  show ?thesis unfolding R sum.case by (rule wallet_routed.handled [OF wallet_routed.intro [OF R]])
qed

lemma sanitized_first: "f = sanitize_filename (CHR ''_'') p \<Longrightarrow> f \<noteq> [] \<Longrightarrow> \<not> is_slash (hd f)"
  by (auto simp: sanitize_filename_def sanitize_loop.simps [of _ True True] is_slash_def split: list.splits)

lemma static_name_sanitized: "static_name (CROW_STATIC_DIRECTORY @ sanitize_filename (CHR ''_'') p)"
  using sanitized_length [of True True "take 255 p"] sanitized_first [OF refl, of p]
  by (auto simp: static_name_def CROW_STATIC_DIRECTORY_def sanitize_filename_def sanitized_chars sanitized_no_specials)

lemma finish_simps [simp]: "file_path (finish r) = file_path r" "code (finish r) = code r"
  by (simp_all add: finish_def response_end_def set_header_def Let_def)

text \<open>
  C22. A request for a static file, whatever the URL and whatever files exist: the file the response names, if
  any, is below the directory of static files, no component of its name is the parent directory
  or a device, and the answer depends on such files only.
\<close>

theorem static_files_confined:
  "(file_path (serve_static stat p res) = [] \<or> static_name (file_path (serve_static stat p res))) \<and>
   serve_static stat p res = serve_static (\<lambda>q. if static_name q then stat q else None) p res"
proof -
  let ?q = "CROW_STATIC_DIRECTORY @ sanitize_filename (CHR ''_'') p"
  have n: "static_name ?q" by (rule static_name_sanitized)
  have "file_path (fst (set_static_file_info_unsafe stat ?q res)) \<in> {[], ?q}"
    by (auto simp: set_static_file_info_unsafe_def Let_def add_header_def response_end_def set_header_def split: option.splits)
  then show ?thesis using n by (auto simp: serve_static_def set_static_file_info_unsafe_def)
qed

lemma demo_head_served:
  "\<exists>r s'. serve map_ext demo_config Balance_transfer ''tx'' demo_head (demo_service demo_accounts) = (Inr r, s') \<and>
     map_of (accountDB s') ''700000001'' = Some ''970''"
proof -
  have "case serve map_ext demo_config Balance_transfer ''tx'' demo_head (demo_service demo_accounts) of
      (r, s') \<Rightarrow> \<not> isl r \<and> map_of (accountDB s') ''700000001'' = Some ''970''" by code_simp
  then show ?thesis by (auto simp: isl_def split: prod.splits) (metis sum.exhaust)
qed

lemma demo_head_target: "target (req_url demo_head) = Some (Endpoint Balance_transfer, [])"
  by code_simp

lemma demo_app:
  "wallet_router = Inr R \<Longrightarrow>
   \<exists>r s'. app_handle map_ext demo_config (\<lambda>_. None) (\<lambda>_. None) R ''tx'' (demo_head\<lparr>req_method := Get\<rparr>) response_default
     (demo_service demo_accounts) = (Inr r, s') \<and> map_of (accountDB s') ''700000001'' = Some ''970''"
  using demo_head_served demo_head_target
    wallet_routed.app_endpoint [OF wallet_routed.intro, of R "demo_head\<lparr>req_method := Get\<rparr>" Balance_transfer "[]"
      map_ext demo_config "\<lambda>_. None" "\<lambda>_. None" "''tx''" response_default "demo_service demo_accounts"]
  by (auto simp: finished_def serve_method simp del: serve.simps)

text \<open>
  The whole application, from the router to the finished response, for any method and URL and over a database that
  may fail at any call: unless the request runs into signed overflow, the invariant of the
  service still holds afterwards, and no exception leaves the application.
\<close>

theorem application_keeps_invariant:
  assumes "wallet_env ext contents" and "seed_file config \<noteq> event_log config"
    and "wallet_inv ext contents config s" and "wallet_router = Inr R"
    and "app_handle ext config stat strtod R uuid req res s = (r, s')" and "r \<noteq> Inl Signed_overflow"
  shows "wallet_inv ext contents config s' \<and> (\<forall>x. r \<noteq> Inl (Throw x))"
  using assms by (rule app_keeps_inv)

theorem application_keeps_invariant_witness:
  "\<exists>R r s'. wallet_router = Inr R \<and>
     app_handle map_ext demo_config (\<lambda>_. None) (\<lambda>_. None) R ''tx'' (demo_head\<lparr>req_method := Get\<rparr>) response_default
       (demo_service demo_accounts) = (Inr r, s') \<and>
     wallet_inv map_ext map_of demo_config s'"
proof -
  obtain R where R: "wallet_router = Inr R" using wallet_router_built by blast
  obtain r s' where h: "app_handle map_ext demo_config (\<lambda>_. None) (\<lambda>_. None) R ''tx'' (demo_head\<lparr>req_method := Get\<rparr>)
      response_default (demo_service demo_accounts) = (Inr r, s')" using demo_app [OF R] by blast
  have "wallet_inv map_ext map_of demo_config s'"
    using application_keeps_invariant [OF map_env.wallet_env_axioms _ demo_service_inv(1) R h] by simp
  with R h show ?thesis by blast
qed

text \<open>
  A HEAD request to one of the four paths does to the accounts, the queue and the files exactly what the GET request does,
  transfers included; its answer has the same code, no body, and the length of the body the GET request
  gets as its Content-Length.
\<close>

theorem head_acts_like_get:
  assumes "wallet_router = Inr R" and "map_option fst (target (req_url req)) = Some (Endpoint e)"
    and "\<not> completed res" and "\<not> skip_body res"
    and "app_handle ext config stat strtod R uuid (req\<lparr>req_method := Get\<rparr>) res s = (Inr r, s')"
  shows "\<exists>r'. app_handle ext config stat strtod R uuid (req\<lparr>req_method := Head\<rparr>) res s = (Inr r', s') \<and>
    code r' = code r \<and> body r' = [] \<and>
    response_get_header_value r' ''Content-Length'' = to_string (int (length (body r)))"
proof -
  obtain ps where t: "target (req_url req) = Some (Endpoint e, ps)" using assms(2) by auto
  note app = wallet_routed.app_endpoint [OF wallet_routed.intro [OF assms(1)], where e = e and ps = ps]
  have g: "finished ext config e uuid req res s = (Inr r, s')"
    using assms(5) app [of "req\<lparr>req_method := Get\<rparr>" ext config stat strtod uuid res s] t
    by (simp add: finished_def serve_method)
  have h: "app_handle ext config stat strtod R uuid (req\<lparr>req_method := Head\<rparr>) res s =
      finished ext config e uuid req (res\<lparr>skip_body := True\<rparr>) s"
    using app [of "req\<lparr>req_method := Head\<rparr>" ext config stat strtod uuid res s] t
    by (simp add: finished_def serve_method)
  obtain q where q: "serve ext config e uuid req s = (q, s')"
    using g by (cases "serve ext config e uuid req s") (simp add: finished_def)
  have ended: "\<exists>r'. finish (response_assign (res\<lparr>skip_body := True\<rparr>) x) = r' \<and> code r' = code y \<and> body r' = [] \<and>
      response_get_header_value r' ''Content-Length'' = to_string (int (length (body y)))"
    if "\<not> completed x" "y = finish (response_assign res x)" for x y
  proof -
    have ci: "ci_key_eq ''Content-Length'' ''Content-Length''" by code_simp
    show ?thesis using that assms(4) ci
      by (simp add: finish_def response_end_def response_assign_def Let_def get_set_header
          response_get_header_value_def [of "_ \<lparr>body := _, manual_length_header := _\<rparr>"])
         (simp add: response_get_header_value_def [symmetric] get_set_header, simp add: set_header_def)
  qed
  consider x where "q = Inl (Throw x)" "r = uncaught_exception res"
    | x where "q = Inr x" "r = wrapped_handler_call res x"
    using g q by (auto simp: finished_def split: sum.splits fault.splits)
  then show ?thesis
  proof cases
    case 1
    then show ?thesis using ended [of "response_code 500" r] q h
      by (auto simp: finished_def uncaught_exception_def)
  next
    case (2 x)
    then show ?thesis using ended [of x r] serve_fresh [of ext config e uuid req s x s'] q h
      by (auto simp: finished_def wrapped_handler_call_def)
  qed
qed

theorem head_acts_like_get_witness:
  "\<exists>R r' s'. wallet_router = Inr R \<and>
     app_handle map_ext demo_config (\<lambda>_. None) (\<lambda>_. None) R ''tx'' (demo_head\<lparr>req_method := Head\<rparr>) response_default
       (demo_service demo_accounts) = (Inr r', s') \<and> body r' = [] \<and> map_of (accountDB s') ''700000001'' = Some ''970''"
proof -
  obtain R where R: "wallet_router = Inr R" using wallet_router_built by blast
  obtain r s' where h: "app_handle map_ext demo_config (\<lambda>_. None) (\<lambda>_. None) R ''tx'' (demo_head\<lparr>req_method := Get\<rparr>)
      response_default (demo_service demo_accounts) = (Inr r, s')" "map_of (accountDB s') ''700000001'' = Some ''970''"
    using demo_app [OF R] by blast
  have "\<not> completed response_default" "\<not> skip_body response_default" by (simp_all add: response_default_def)
  with head_acts_like_get [OF R _ _ _ h(1), of Balance_transfer] demo_head_target R h(2) show ?thesis by auto
qed

end
