(* ===== verification/Http_Parser.thy ===== *)
theory Http_Parser
  imports Crow_Message
begin

text \<open>
  The HTTP parser of lib/crowapi/crow_all.h, first part: its enumerations and tables, the
  structures \<^verbatim>\<open>http_parser\<close> and \<^verbatim>\<open>HTTPParser\<close>, the classes of characters, the automaton of
  URLs, and the callbacks with which \<^verbatim>\<open>HTTPParser\<close> builds a request. Counters are
  words of their width; the five bits of the index are a number with the wrap-around written out. The type
  \<open>'h\<close> is the state of the handler a parser belongs to.
\<close>

section \<open>Enumerations\<close>

datatype parser_state =
    s_dead | s_start_req | s_req_method | s_req_spaces_before_url | s_req_schema |
    s_req_schema_slash | s_req_schema_slash_slash | s_req_server_start | s_req_server |
    s_req_server_with_at | s_req_path | s_req_query_string_start | s_req_query_string |
    s_req_http_start | s_req_http_H | s_req_http_HT | s_req_http_HTT | s_req_http_HTTP |
    s_req_http_I | s_req_http_IC | s_req_http_major | s_req_http_dot | s_req_http_minor |
    s_req_http_end | s_req_line_almost_done | s_header_field_start | s_header_field |
    s_header_value_discard_ws | s_header_value_discard_ws_almost_done |
    s_header_value_discard_lws | s_header_value_start | s_header_value | s_header_value_lws |
    s_header_almost_done | s_chunk_size_start | s_chunk_size | s_chunk_parameters |
    s_chunk_size_almost_done | s_headers_almost_done | s_headers_done | s_chunk_data |
    s_chunk_data_almost_done | s_chunk_data_done | s_body_identity | s_body_identity_eof |
    s_message_done

fun state_value :: "parser_state \<Rightarrow> nat" where
  "state_value s_dead = 1"
| "state_value s_start_req = 2"
| "state_value s_req_method = 3"
| "state_value s_req_spaces_before_url = 4"
| "state_value s_req_schema = 5"
| "state_value s_req_schema_slash = 6"
| "state_value s_req_schema_slash_slash = 7"
| "state_value s_req_server_start = 8"
| "state_value s_req_server = 9"
| "state_value s_req_server_with_at = 10"
| "state_value s_req_path = 11"
| "state_value s_req_query_string_start = 12"
| "state_value s_req_query_string = 13"
| "state_value s_req_http_start = 14"
| "state_value s_req_http_H = 15"
| "state_value s_req_http_HT = 16"
| "state_value s_req_http_HTT = 17"
| "state_value s_req_http_HTTP = 18"
| "state_value s_req_http_I = 19"
| "state_value s_req_http_IC = 20"
| "state_value s_req_http_major = 21"
| "state_value s_req_http_dot = 22"
| "state_value s_req_http_minor = 23"
| "state_value s_req_http_end = 24"
| "state_value s_req_line_almost_done = 25"
| "state_value s_header_field_start = 26"
| "state_value s_header_field = 27"
| "state_value s_header_value_discard_ws = 28"
| "state_value s_header_value_discard_ws_almost_done = 29"
| "state_value s_header_value_discard_lws = 30"
| "state_value s_header_value_start = 31"
| "state_value s_header_value = 32"
| "state_value s_header_value_lws = 33"
| "state_value s_header_almost_done = 34"
| "state_value s_chunk_size_start = 35"
| "state_value s_chunk_size = 36"
| "state_value s_chunk_parameters = 37"
| "state_value s_chunk_size_almost_done = 38"
| "state_value s_headers_almost_done = 39"
| "state_value s_headers_done = 40"
| "state_value s_chunk_data = 41"
| "state_value s_chunk_data_almost_done = 42"
| "state_value s_chunk_data_done = 43"
| "state_value s_body_identity = 44"
| "state_value s_body_identity_eof = 45"
| "state_value s_message_done = 46"

definition CROW_PARSING_HEADER :: "parser_state \<Rightarrow> bool" where
  "CROW_PARSING_HEADER s \<longleftrightarrow> state_value s \<le> state_value s_headers_done"

datatype header_states =
    h_general | h_C | h_CO | h_CON | h_matching_connection | h_matching_proxy_connection |
    h_matching_content_length | h_matching_transfer_encoding | h_matching_upgrade | h_connection |
    h_content_length | h_content_length_num | h_content_length_ws | h_transfer_encoding |
    h_upgrade | h_matching_transfer_encoding_token_start | h_matching_transfer_encoding_chunked |
    h_matching_transfer_encoding_token | h_matching_connection_keep_alive |
    h_matching_connection_close | h_transfer_encoding_chunked | h_connection_keep_alive |
    h_connection_close

datatype http_errno =
    CHPE_OK | CHPE_CB_message_begin | CHPE_CB_url | CHPE_CB_header_field | CHPE_CB_header_value |
    CHPE_CB_headers_complete | CHPE_CB_body | CHPE_CB_message_complete | CHPE_CB_status |
    CHPE_INVALID_EOF_STATE | CHPE_HEADER_OVERFLOW | CHPE_CLOSED_CONNECTION | CHPE_INVALID_VERSION |
    CHPE_INVALID_STATUS | CHPE_INVALID_METHOD | CHPE_INVALID_URL | CHPE_INVALID_HOST |
    CHPE_INVALID_PORT | CHPE_INVALID_PATH | CHPE_INVALID_QUERY_STRING | CHPE_INVALID_FRAGMENT |
    CHPE_LF_EXPECTED | CHPE_INVALID_HEADER_TOKEN | CHPE_INVALID_CONTENT_LENGTH |
    CHPE_UNEXPECTED_CONTENT_LENGTH | CHPE_INVALID_CHUNK_SIZE | CHPE_INVALID_CONSTANT |
    CHPE_INVALID_INTERNAL_STATE | CHPE_STRICT | CHPE_UNKNOWN | CHPE_INVALID_TRANSFER_ENCODING

fun http_errno_name :: "http_errno \<Rightarrow> string" where
  "http_errno_name CHPE_OK = ''CHPE_OK''"
| "http_errno_name CHPE_CB_message_begin = ''CHPE_CB_message_begin''"
| "http_errno_name CHPE_CB_url = ''CHPE_CB_url''"
| "http_errno_name CHPE_CB_header_field = ''CHPE_CB_header_field''"
| "http_errno_name CHPE_CB_header_value = ''CHPE_CB_header_value''"
| "http_errno_name CHPE_CB_headers_complete = ''CHPE_CB_headers_complete''"
| "http_errno_name CHPE_CB_body = ''CHPE_CB_body''"
| "http_errno_name CHPE_CB_message_complete = ''CHPE_CB_message_complete''"
| "http_errno_name CHPE_CB_status = ''CHPE_CB_status''"
| "http_errno_name CHPE_INVALID_EOF_STATE = ''CHPE_INVALID_EOF_STATE''"
| "http_errno_name CHPE_HEADER_OVERFLOW = ''CHPE_HEADER_OVERFLOW''"
| "http_errno_name CHPE_CLOSED_CONNECTION = ''CHPE_CLOSED_CONNECTION''"
| "http_errno_name CHPE_INVALID_VERSION = ''CHPE_INVALID_VERSION''"
| "http_errno_name CHPE_INVALID_STATUS = ''CHPE_INVALID_STATUS''"
| "http_errno_name CHPE_INVALID_METHOD = ''CHPE_INVALID_METHOD''"
| "http_errno_name CHPE_INVALID_URL = ''CHPE_INVALID_URL''"
| "http_errno_name CHPE_INVALID_HOST = ''CHPE_INVALID_HOST''"
| "http_errno_name CHPE_INVALID_PORT = ''CHPE_INVALID_PORT''"
| "http_errno_name CHPE_INVALID_PATH = ''CHPE_INVALID_PATH''"
| "http_errno_name CHPE_INVALID_QUERY_STRING = ''CHPE_INVALID_QUERY_STRING''"
| "http_errno_name CHPE_INVALID_FRAGMENT = ''CHPE_INVALID_FRAGMENT''"
| "http_errno_name CHPE_LF_EXPECTED = ''CHPE_LF_EXPECTED''"
| "http_errno_name CHPE_INVALID_HEADER_TOKEN = ''CHPE_INVALID_HEADER_TOKEN''"
| "http_errno_name CHPE_INVALID_CONTENT_LENGTH = ''CHPE_INVALID_CONTENT_LENGTH''"
| "http_errno_name CHPE_UNEXPECTED_CONTENT_LENGTH = ''CHPE_UNEXPECTED_CONTENT_LENGTH''"
| "http_errno_name CHPE_INVALID_CHUNK_SIZE = ''CHPE_INVALID_CHUNK_SIZE''"
| "http_errno_name CHPE_INVALID_CONSTANT = ''CHPE_INVALID_CONSTANT''"
| "http_errno_name CHPE_INVALID_INTERNAL_STATE = ''CHPE_INVALID_INTERNAL_STATE''"
| "http_errno_name CHPE_STRICT = ''CHPE_STRICT''"
| "http_errno_name CHPE_UNKNOWN = ''CHPE_UNKNOWN''"
| "http_errno_name CHPE_INVALID_TRANSFER_ENCODING = ''CHPE_INVALID_TRANSFER_ENCODING''"

abbreviation dquote :: "string \<Rightarrow> string" where
  "dquote s \<equiv> [CHR 0x22] @ s @ [CHR 0x22]"

fun http_errno_description :: "http_errno \<Rightarrow> string" where
  "http_errno_description CHPE_OK = ''success''"
| "http_errno_description CHPE_CB_message_begin = ''the on_message_begin callback failed''"
| "http_errno_description CHPE_CB_url = ''the '' @ dquote ''on_url'' @ '' callback failed''"
| "http_errno_description CHPE_CB_header_field = ''the '' @ dquote ''on_header_field'' @ '' callback failed''"
| "http_errno_description CHPE_CB_header_value = ''the '' @ dquote ''on_header_value'' @ '' callback failed''"
| "http_errno_description CHPE_CB_headers_complete = ''the '' @ dquote ''on_headers_complete'' @ '' callback failed''"
| "http_errno_description CHPE_CB_body = ''the '' @ dquote ''on_body'' @ '' callback failed''"
| "http_errno_description CHPE_CB_message_complete = ''the '' @ dquote ''on_message_complete'' @ '' callback failed''"
| "http_errno_description CHPE_CB_status = ''the '' @ dquote ''on_status'' @ '' callback failed''"
| "http_errno_description CHPE_INVALID_EOF_STATE = ''stream ended at an unexpected time''"
| "http_errno_description CHPE_HEADER_OVERFLOW = ''too many header bytes seen; overflow detected''"
| "http_errno_description CHPE_CLOSED_CONNECTION = ''data received after completed connection: close message''"
| "http_errno_description CHPE_INVALID_VERSION = ''invalid HTTP version''"
| "http_errno_description CHPE_INVALID_STATUS = ''invalid HTTP status code''"
| "http_errno_description CHPE_INVALID_METHOD = ''invalid HTTP method''"
| "http_errno_description CHPE_INVALID_URL = ''invalid URL''"
| "http_errno_description CHPE_INVALID_HOST = ''invalid host''"
| "http_errno_description CHPE_INVALID_PORT = ''invalid port''"
| "http_errno_description CHPE_INVALID_PATH = ''invalid path''"
| "http_errno_description CHPE_INVALID_QUERY_STRING = ''invalid query string''"
| "http_errno_description CHPE_INVALID_FRAGMENT = ''invalid fragment''"
| "http_errno_description CHPE_LF_EXPECTED = ''LF character expected''"
| "http_errno_description CHPE_INVALID_HEADER_TOKEN = ''invalid character in header''"
| "http_errno_description CHPE_INVALID_CONTENT_LENGTH = ''invalid character in content-length header''"
| "http_errno_description CHPE_UNEXPECTED_CONTENT_LENGTH = ''unexpected content-length header''"
| "http_errno_description CHPE_INVALID_CHUNK_SIZE = ''invalid character in chunk size header''"
| "http_errno_description CHPE_INVALID_CONSTANT = ''invalid constant string''"
| "http_errno_description CHPE_INVALID_INTERNAL_STATE = ''encountered unexpected internal state''"
| "http_errno_description CHPE_STRICT = ''strict mode assertion failed''"
| "http_errno_description CHPE_UNKNOWN = ''an unknown error occurred''"
| "http_errno_description CHPE_INVALID_TRANSFER_ENCODING = ''request has invalid transfer-encoding''"

section \<open>Characters\<close>

text \<open>The tables as far as they are written down; the rest of an array is zero.\<close>

definition table :: "'a \<Rightarrow> 'a list \<Rightarrow> nat \<Rightarrow> 'a" where
  "table z t i = (if i < length t then t ! i else z)"

definition normal_url_char :: "nat list" where
  "normal_url_char =
     [0, 0, 0, 0, 246, 255, 255, 127, 255, 255, 255, 255, 255, 255, 255, 127]"

text \<open>The characters allowed in a header name, in lower case, eight to a row as in the source; the codes 30 to 39 are
  the digits and 61 to 7A the letters.\<close>

definition tokens :: "char list" where
  "tokens =
     [
      nul, nul, nul, nul, nul, nul, nul, nul,
      nul, nul, nul, nul, nul, nul, nul, nul,
      nul, nul, nul, nul, nul, nul, nul, nul,
      nul, nul, nul, nul, nul, nul, nul, nul,
      nul, CHR ''!'', nul, CHR ''#'', CHR ''$'', CHR ''%'', CHR ''&'', CHR 0x27,
      nul, nul, CHR ''*'', CHR ''+'', nul, CHR ''-'', CHR ''.'', nul,
      CHR 0x30, CHR 0x31, CHR 0x32, CHR 0x33, CHR 0x34, CHR 0x35, CHR 0x36, CHR 0x37,
      CHR 0x38, CHR 0x39, nul, nul, nul, nul, nul, nul,
      nul, CHR 0x61, CHR 0x62, CHR 0x63, CHR 0x64, CHR 0x65, CHR 0x66, CHR 0x67,
      CHR 0x68, CHR 0x69, CHR 0x6A, CHR 0x6B, CHR 0x6C, CHR 0x6D, CHR 0x6E, CHR 0x6F,
      CHR 0x70, CHR 0x71, CHR 0x72, CHR 0x73, CHR 0x74, CHR 0x75, CHR 0x76, CHR 0x77,
      CHR 0x78, CHR 0x79, CHR 0x7A, nul, nul, nul, CHR ''^'', CHR ''_'',
      CHR 0x60, CHR 0x61, CHR 0x62, CHR 0x63, CHR 0x64, CHR 0x65, CHR 0x66, CHR 0x67,
      CHR 0x68, CHR 0x69, CHR 0x6A, CHR 0x6B, CHR 0x6C, CHR 0x6D, CHR 0x6E, CHR 0x6F,
      CHR 0x70, CHR 0x71, CHR 0x72, CHR 0x73, CHR 0x74, CHR 0x75, CHR 0x76, CHR 0x77,
      CHR 0x78, CHR 0x79, CHR 0x7A, nul, CHR ''|'', nul, CHR ''~'', nul]"

definition unhex :: "int list" where
  "unhex =
     [- 1, - 1, - 1, - 1, - 1, - 1, - 1, - 1, - 1, - 1, - 1, - 1, - 1, - 1, - 1, - 1, - 1, - 1, - 1,
     - 1, - 1, - 1, - 1, - 1, - 1, - 1, - 1, - 1, - 1, - 1, - 1, - 1, - 1, - 1, - 1, - 1, - 1, - 1,
     - 1, - 1, - 1, - 1, - 1, - 1, - 1, - 1, - 1, - 1, 0, 1, 2, 3, 4, 5, 6, 7, 8, 9, - 1, - 1, - 1,
     - 1, - 1, - 1, - 1, 10, 11, 12, 13, 14, 15, - 1, - 1, - 1, - 1, - 1, - 1, - 1, - 1, - 1, - 1,
     - 1, - 1, - 1, - 1, - 1, - 1, - 1, - 1, - 1, - 1, - 1, - 1, - 1, - 1, - 1, - 1, 10, 11, 12,
     13, 14, 15, - 1, - 1, - 1, - 1, - 1, - 1, - 1, - 1, - 1, - 1, - 1, - 1, - 1, - 1, - 1, - 1,
     - 1, - 1, - 1, - 1, - 1, - 1, - 1, - 1, - 1]"

definition CROW_BIT_AT :: "nat list \<Rightarrow> nat \<Rightarrow> bool" where
  "CROW_BIT_AT a i \<longleftrightarrow> bit (table 0 a (i div 8)) (i mod 8)"

definition CROW_IS_URL_CHAR :: "char \<Rightarrow> bool" where
  "CROW_IS_URL_CHAR c = CROW_BIT_AT normal_url_char (byte c)"

definition CROW_TOKEN :: "char \<Rightarrow> char" where
  "CROW_TOKEN c = table nul tokens (byte c)"

definition unhex_val :: "char \<Rightarrow> int" where
  "unhex_val c = table 0 unhex (byte c)"

definition CROW_LOWER :: "char \<Rightarrow> char" where
  "CROW_LOWER c = char_of (byte c OR 0x20)"

definition CROW_IS_ALPHA :: "char \<Rightarrow> bool" where
  "CROW_IS_ALPHA c \<longleftrightarrow> 97 \<le> byte (CROW_LOWER c) \<and> byte (CROW_LOWER c) \<le> 122"

definition CROW_IS_NUM :: "char \<Rightarrow> bool" where
  "CROW_IS_NUM c \<longleftrightarrow> 48 \<le> byte c \<and> byte c \<le> 57"

definition CROW_IS_ALPHANUM :: "char \<Rightarrow> bool" where
  "CROW_IS_ALPHANUM c \<longleftrightarrow> CROW_IS_ALPHA c \<or> CROW_IS_NUM c"

definition CROW_IS_MARK :: "char \<Rightarrow> bool" where
  "CROW_IS_MARK c \<longleftrightarrow> c \<in> set ''-_.!~*()'' \<or> c = CHR 0x27"

definition CROW_IS_USERINFO_CHAR :: "char \<Rightarrow> bool" where
  "CROW_IS_USERINFO_CHAR c \<longleftrightarrow> CROW_IS_ALPHANUM c \<or> CROW_IS_MARK c \<or> c \<in> set ''%;:&=+$,''"

definition CROW_IS_HEADER_CHAR :: "char \<Rightarrow> bool" where
  "CROW_IS_HEADER_CHAR c \<longleftrightarrow> c = cr \<or> c = lf \<or> byte c = 9 \<or> (31 < byte c \<and> byte c \<noteq> 127)"

section \<open>The parser\<close>

text \<open>The flags are seven bits of one integer.\<close>

type_synonym flag_bits = "7 word"

definition F_CHUNKED :: flag_bits where "F_CHUNKED = push_bit 0 1"
definition F_CONNECTION_KEEP_ALIVE :: flag_bits where "F_CONNECTION_KEEP_ALIVE = push_bit 1 1"
definition F_CONNECTION_CLOSE :: flag_bits where "F_CONNECTION_CLOSE = push_bit 2 1"
definition F_TRAILING :: flag_bits where "F_TRAILING = push_bit 3 1"
definition F_UPGRADE :: flag_bits where "F_UPGRADE = push_bit 4 1"
definition F_SKIPBODY :: flag_bits where "F_SKIPBODY = push_bit 5 1"
definition F_CONTENTLENGTH :: flag_bits where "F_CONTENTLENGTH = push_bit 6 1"

record http_parser =
  flags :: flag_bits
  state :: parser_state
  header_state :: header_states
  index :: nat
  uses_transfer_encoding :: bool
  allow_chunked_length :: bool
  lenient_http_headers :: bool
  nread :: "32 word"
  content_length :: "64 word"
  qs_point :: "64 word"
  http_major :: "8 word"
  http_minor :: "8 word"
  parser_method :: HTTPMethod
  parser_errno :: http_errno
  parser_upgrade :: bool

record 'h HTTPParser = http_parser +
  p_raw_url :: string
  p_url :: string
  header_building_state :: nat
  message_complete :: bool
  header_field :: string
  header_value :: string
  p_headers :: ci_map
  p_url_params :: query_string
  p_body :: string
  p_keep_alive :: bool
  p_close_connection :: bool
  p_handler :: 'h

definition CROW_ULLONG_MAX :: "64 word" where
  "CROW_ULLONG_MAX = - 1"

definition max_header_size :: "32 word" where
  "max_header_size = 80 * 1024"

text \<open>\<open>CROW_MIN(left, max_header_size)\<close> and \<open>CROW_MIN(content_length, left)\<close>.\<close>

definition min_header :: "nat \<Rightarrow> nat" where
  "min_header left = (if int left \<le> uint max_header_size then left else unat max_header_size)"

definition min_content :: "64 word \<Rightarrow> nat \<Rightarrow> nat" where
  "min_content n left = (if uint n < int left then unat n else left)"

definition has_flag :: "flag_bits \<Rightarrow> ('a http_parser_scheme) \<Rightarrow> bool" where
  "has_flag f P \<longleftrightarrow> flags P AND f \<noteq> 0"

definition set_flag :: "flag_bits \<Rightarrow> ('a http_parser_scheme) \<Rightarrow> ('a http_parser_scheme)" where
  "set_flag f P = P\<lparr>flags := flags P OR f\<rparr>"

text \<open>\<open>parser->index\<close> has five bits.\<close>

definition next_index :: "('a http_parser_scheme) \<Rightarrow> ('a http_parser_scheme)" where
  "next_index P = P\<lparr>index := (index P + 1) mod 2 ^ 5\<rparr>"

text \<open>
  \<open>http_parser_init\<close> sets every byte of the structure it is given to zero; the members of \<open>HTTPParser\<close>
  have the values of their declarations. Uninitialised members are set by the argument-free constructor
  here to \<open>False\<close>; they are written before they are read.
\<close>

definition mk_HTTPParser :: "'h \<Rightarrow> 'h HTTPParser" where
  "mk_HTTPParser h =
     \<lparr>flags = 0, state = s_start_req, header_state = h_general, index = 0, uses_transfer_encoding = False,
      allow_chunked_length = False, lenient_http_headers = False, nread = 0, content_length = 0, qs_point = 0,
      http_major = 0, http_minor = 0, parser_method = Delete, parser_errno = CHPE_OK, parser_upgrade = False,
      p_raw_url = [], p_url = [], header_building_state = 0, message_complete = False, header_field = [],
      header_value = [], p_headers = [], p_url_params = qs_empty, p_body = [], p_keep_alive = False,
      p_close_connection = False, p_handler = h\<rparr>"

definition HTTPParser_clear :: "'h HTTPParser \<Rightarrow> 'h HTTPParser" where
  "HTTPParser_clear P =
     P\<lparr>p_url := [], p_raw_url := [], header_field := [], header_value := [], p_headers := [],
       p_url_params := qs_empty, p_body := [], header_building_state := 0, qs_point := 0,
       http_major := 0, http_minor := 0, message_complete := False, state := s_start_req,
       p_keep_alive := False, p_close_connection := False\<rparr>"

definition http_body_is_final :: "('a http_parser_scheme) \<Rightarrow> bool" where
  "http_body_is_final P \<longleftrightarrow> state P = s_message_done"

section \<open>URLs\<close>

text \<open>
  The next state of the URL automaton, and whether the character is the question mark at which
  \<open>qs_point\<close> is set.
\<close>

definition parse_server_char :: "char \<Rightarrow> parser_state \<times> bool" where
  "parse_server_char ch =
     (if ch = CHR ''/'' then (s_req_path, False)
      else if ch = CHR ''?'' then (s_req_query_string_start, True)
      else if ch = CHR ''@'' then (s_req_server_with_at, False)
      else if CROW_IS_USERINFO_CHAR ch \<or> ch = CHR ''['' \<or> ch = CHR '']'' then (s_req_server, False)
      else (s_dead, False))"

definition parse_url_char :: "parser_state \<Rightarrow> char \<Rightarrow> parser_state \<times> bool" where
  "parse_url_char s ch =
     (if ch = CHR '' '' \<or> ch = cr \<or> ch = lf then (s_dead, False)
      else if ch = tab \<or> ch = CHR 0x0C then (s_dead, False)
      else case s of
        s_req_spaces_before_url \<Rightarrow>
          if ch = CHR ''/'' \<or> ch = CHR ''*'' then (s_req_path, False)
          else if CROW_IS_ALPHA ch then (s_req_schema, False) else (s_dead, False)
      | s_req_schema \<Rightarrow>
          if CROW_IS_ALPHA ch then (s, False)
          else if ch = CHR '':'' then (s_req_schema_slash, False) else (s_dead, False)
      | s_req_schema_slash \<Rightarrow>
          if ch = CHR ''/'' then (s_req_schema_slash_slash, False) else (s_dead, False)
      | s_req_schema_slash_slash \<Rightarrow>
          if ch = CHR ''/'' then (s_req_server_start, False) else (s_dead, False)
      | s_req_server_with_at \<Rightarrow>
          if ch = CHR ''@'' then (s_dead, False) else parse_server_char ch
      | s_req_server_start \<Rightarrow> parse_server_char ch
      | s_req_server \<Rightarrow> parse_server_char ch
      | s_req_path \<Rightarrow>
          if CROW_IS_URL_CHAR ch then (s, False)
          else if ch = CHR ''?'' then (s_req_query_string_start, True) else (s_dead, False)
      | s_req_query_string_start \<Rightarrow>
          if CROW_IS_URL_CHAR ch \<or> ch = CHR ''?'' then (s_req_query_string, False) else (s_dead, False)
      | s_req_query_string \<Rightarrow>
          if CROW_IS_URL_CHAR ch \<or> ch = CHR ''?'' then (s_req_query_string, False) else (s_dead, False)
      | _ \<Rightarrow> (s_dead, False))"

section \<open>The callbacks of HTTPParser\<close>

definition on_message_begin :: "'h HTTPParser \<Rightarrow> 'h HTTPParser" where
  "on_message_begin P = P"

definition on_url :: "string \<Rightarrow> 'h HTTPParser \<Rightarrow> 'h HTTPParser" where
  "on_url at P = P\<lparr>p_raw_url := p_raw_url P @ at\<rparr>"

text \<open>A string that was moved from is empty.\<close>

definition on_header_field :: "string \<Rightarrow> 'h HTTPParser \<Rightarrow> 'h HTTPParser" where
  "on_header_field at P =
     (if header_building_state P = 0 then
        (let P1 = (if header_value P \<noteq> []
                   then P\<lparr>p_headers := ci_emplace (header_field P) (header_value P) (p_headers P),
                          header_field := [], header_value := []\<rparr>
                   else P)
         in P1\<lparr>header_field := at, header_building_state := 1\<rparr>)
      else if header_building_state P = 1 then P\<lparr>header_field := header_field P @ at\<rparr>
      else P)"

definition on_header_value :: "string \<Rightarrow> 'h HTTPParser \<Rightarrow> 'h HTTPParser" where
  "on_header_value at P =
     (if header_building_state P = 0 then P\<lparr>header_value := header_value P @ at\<rparr>
      else if header_building_state P = 1 then P\<lparr>header_building_state := 0, header_value := at\<rparr>
      else P)"

definition on_body :: "string \<Rightarrow> 'h HTTPParser \<Rightarrow> 'h HTTPParser" where
  "on_body at P = P\<lparr>p_body := p_body P @ at\<rparr>"

definition set_connection_parameters :: "'h HTTPParser \<Rightarrow> 'h HTTPParser" where
  "set_connection_parameters P =
     P\<lparr>p_keep_alive :=
         (if http_major P = 1 \<and> http_minor P = 0 then has_flag F_CONNECTION_KEEP_ALIVE P
          else http_major P = 1 \<and> http_minor P = 1),
       p_close_connection :=
         (if http_major P = 1 \<and> http_minor P = 0 then \<not> has_flag F_CONNECTION_KEEP_ALIVE P
          else if http_major P = 1 \<and> http_minor P = 1 then has_flag F_CONNECTION_CLOSE P else False)\<rparr>"

text \<open>
  The handler is told about the headers and about the message. It reads the parser; with the message it may
  also clear it, as a connection does that has written its answer before it returns. The result says whether it has.
\<close>

record 'h Handler =
  handle_header :: "'h HTTPParser \<Rightarrow> 'h"
  handle_message :: "'h HTTPParser \<Rightarrow> 'h \<times> bool"

definition on_headers_complete :: "'h Handler \<Rightarrow> 'h HTTPParser \<Rightarrow> 'h HTTPParser" where
  "on_headers_complete H P =
     (let P1 = (if header_field P \<noteq> []
                then P\<lparr>p_headers := ci_emplace (header_field P) (header_value P) (p_headers P),
                       header_field := [], header_value := []\<rparr>
                else P);
          P2 = set_connection_parameters P1
      in P2\<lparr>p_handler := handle_header H P2\<rparr>)"

definition process_message :: "'h Handler \<Rightarrow> 'h HTTPParser \<Rightarrow> 'h HTTPParser" where
  "process_message H P =
     (let (h, cleared) = handle_message H P; P1 = P\<lparr>p_handler := h\<rparr> in if cleared then HTTPParser_clear P1 else P1)"

definition on_message_complete :: "'h Handler \<Rightarrow> 'h HTTPParser \<Rightarrow> 'h HTTPParser result" where
  "on_message_complete H P =
     (case mk_query_string (p_raw_url P) of
        None \<Rightarrow> Inl Out_of_bounds_read
      | Some q \<Rightarrow>
          Inr (process_message H
            (P\<lparr>message_complete := True,
               p_url := (if qs_point P \<noteq> 0 then take (min_content (qs_point P) (length (p_raw_url P))) (p_raw_url P)
                         else p_raw_url P),
               p_url_params := q\<rparr>)))"

definition to_request :: "'h HTTPParser \<Rightarrow> request" where
  "to_request P =
     mk_request (parser_method P) (p_raw_url P) (p_url P) (p_url_params P) (p_headers P) (p_body P)
       (http_major P) (http_minor P) (p_keep_alive P) (p_close_connection P) (parser_upgrade P)"

end
