(* ===== verification/Http_Execute.thy ===== *)
theory Http_Execute
  imports Http_Parser
begin

text \<open>
  \<open>http_parser_execute\<close> (lib/crowapi/crow_all.h). Each case of the switch over the state is a definition
  that takes the current character and position and says how the loop goes on. A jump to
  \<open>reexecute\<close> is a call of the definition for the new state, which reads the same
  character. Marks are positions in the buffer; \<open>base\<close> is the address of the buffer, which the code uses
  when it subtracts a mark that is null. A failed \<^verbatim>\<open>assert\<close> is a fault.
\<close>

section \<open>Control\<close>

record locals =
  header_field_mark :: "nat option"
  header_value_mark :: "nat option"
  url_mark :: "nat option"
  url_start_mark :: "nat option"
  body_mark :: "nat option"
  l_nread :: "32 word"

text \<open>
  How a case ends: the loop goes on behind the position given, the function returns a number of bytes,
  or there is a fault.
\<close>

datatype 'h outcome =
    Next "'h HTTPParser" locals nat
  | Return "'h HTTPParser" nat
  | Fault fault

text \<open>\<open>CROW_SET_ERRNO\<close> followed by \<open>goto error\<close> or by a return.\<close>

definition error :: "http_errno \<Rightarrow> 'h HTTPParser \<Rightarrow> locals \<Rightarrow> nat \<Rightarrow> 'h outcome" where
  "error e P L p = Return (P\<lparr>nread := l_nread L, parser_errno := e\<rparr>) p"

definition CROW_STRICT_CHECK :: "bool \<Rightarrow> 'h HTTPParser \<Rightarrow> locals \<Rightarrow> nat \<Rightarrow> 'h outcome \<Rightarrow> 'h outcome" where
  "CROW_STRICT_CHECK cond P L p k = (if cond then error CHPE_STRICT P L p else k)"

definition check_assert :: "bool \<Rightarrow> 'h outcome \<Rightarrow> 'h outcome" where
  "check_assert cond k = (if cond then k else Fault Assert_failed)"

definition CROW_COUNT_HEADER_SIZE ::
  "nat \<Rightarrow> 'h HTTPParser \<Rightarrow> locals \<Rightarrow> nat \<Rightarrow> (locals \<Rightarrow> 'h outcome) \<Rightarrow> 'h outcome" where
  "CROW_COUNT_HEADER_SIZE v P L p k =
     (let L' = L\<lparr>l_nread := l_nread L + of_nat v\<rparr>
      in if l_nread L' > max_header_size then error CHPE_HEADER_OVERFLOW P L' p else k L')"

text \<open>The callbacks return 0; what may stop the parser after one is an error number it has set.\<close>

definition CROW_CALLBACK_NOTIFY ::
  "('h HTTPParser \<Rightarrow> 'h HTTPParser result) \<Rightarrow> nat \<Rightarrow> 'h HTTPParser \<Rightarrow> ('h HTTPParser \<Rightarrow> 'h outcome) \<Rightarrow> 'h outcome" where
  "CROW_CALLBACK_NOTIFY on er P k =
     check_assert (parser_errno P = CHPE_OK)
       (case on P of Inl f \<Rightarrow> Fault f | Inr P' \<Rightarrow> if parser_errno P' \<noteq> CHPE_OK then Return P' er else k P')"

definition substring :: "string \<Rightarrow> nat \<Rightarrow> nat \<Rightarrow> string" where
  "substring data m n = take n (drop m data)"

text \<open>The bytes from a mark to a position. Outside the buffer, they are read from memory that is not its own.\<close>

definition CROW_CALLBACK_DATA ::
  "(string \<Rightarrow> 'h HTTPParser \<Rightarrow> 'h HTTPParser) \<Rightarrow> string \<Rightarrow> nat option \<Rightarrow> nat \<Rightarrow> nat \<Rightarrow> 'h HTTPParser \<Rightarrow>
   ('h HTTPParser \<Rightarrow> 'h outcome) \<Rightarrow> 'h outcome" where
  "CROW_CALLBACK_DATA on data mark fin er P k =
     check_assert (parser_errno P = CHPE_OK)
       (case mark of
          None \<Rightarrow> k P
        | Some m \<Rightarrow>
            if m \<le> fin \<and> fin \<le> length data then
              (let P' = on (substring data m (fin - m)) P
               in if parser_errno P' \<noteq> CHPE_OK then Return P' er else k P')
            else Fault Out_of_bounds_read)"

definition CROW_MARK :: "nat option \<Rightarrow> nat \<Rightarrow> nat option" where
  "CROW_MARK mark p = (case mark of None \<Rightarrow> Some p | Some m \<Rightarrow> Some m)"

definition callback_url :: "string \<Rightarrow> nat \<Rightarrow> nat \<Rightarrow> 'h HTTPParser \<Rightarrow> locals \<Rightarrow> ('h HTTPParser \<Rightarrow> locals \<Rightarrow> 'h outcome) \<Rightarrow> 'h outcome" where
  "callback_url data fin er P L k =
     CROW_CALLBACK_DATA on_url data (url_mark L) fin er P (\<lambda>P'. k P' (L\<lparr>url_mark := None\<rparr>))"

definition callback_header_field :: "string \<Rightarrow> nat \<Rightarrow> nat \<Rightarrow> 'h HTTPParser \<Rightarrow> locals \<Rightarrow> ('h HTTPParser \<Rightarrow> locals \<Rightarrow> 'h outcome) \<Rightarrow> 'h outcome" where
  "callback_header_field data fin er P L k =
     CROW_CALLBACK_DATA on_header_field data (header_field_mark L) fin er P (\<lambda>P'. k P' (L\<lparr>header_field_mark := None\<rparr>))"

definition callback_header_value :: "string \<Rightarrow> nat \<Rightarrow> nat \<Rightarrow> 'h HTTPParser \<Rightarrow> locals \<Rightarrow> ('h HTTPParser \<Rightarrow> locals \<Rightarrow> 'h outcome) \<Rightarrow> 'h outcome" where
  "callback_header_value data fin er P L k =
     CROW_CALLBACK_DATA on_header_value data (header_value_mark L) fin er P (\<lambda>P'. k P' (L\<lparr>header_value_mark := None\<rparr>))"

definition callback_body :: "string \<Rightarrow> nat \<Rightarrow> nat \<Rightarrow> 'h HTTPParser \<Rightarrow> locals \<Rightarrow> ('h HTTPParser \<Rightarrow> locals \<Rightarrow> 'h outcome) \<Rightarrow> 'h outcome" where
  "callback_body data fin er P L k =
     CROW_CALLBACK_DATA on_body data (body_mark L) fin er P (\<lambda>P'. k P' (L\<lparr>body_mark := None\<rparr>))"

abbreviation notify_complete :: "'h Handler \<Rightarrow> nat \<Rightarrow> 'h HTTPParser \<Rightarrow> locals \<Rightarrow> ('h HTTPParser \<Rightarrow> 'h outcome) \<Rightarrow> 'h outcome" where
  "notify_complete H p P L k \<equiv> CROW_CALLBACK_NOTIFY (on_message_complete H) (p + 1) P k"

section \<open>The request line\<close>

definition st_dead :: "char \<Rightarrow> nat \<Rightarrow> 'h HTTPParser \<Rightarrow> locals \<Rightarrow> 'h outcome" where
  "st_dead ch p P L = (if ch = cr \<or> ch = lf then Next P L p else error CHPE_CLOSED_CONNECTION P L p)"

definition first_method :: "char \<Rightarrow> HTTPMethod option" where
  "first_method ch = map_of
     [(CHR ''A'', Acl), (CHR ''B'', Bind), (CHR ''C'', Connect), (CHR ''D'', Delete), (CHR ''G'', Get),
      (CHR ''H'', Head), (CHR ''L'', Lock), (CHR ''M'', MkCol), (CHR ''N'', Notify), (CHR ''O'', Options),
      (CHR ''P'', Post), (CHR ''R'', Report), (CHR ''S'', Subscribe), (CHR ''T'', Trace), (CHR ''U'', Unlock)] ch"

definition st_start_req :: "char \<Rightarrow> nat \<Rightarrow> 'h HTTPParser \<Rightarrow> locals \<Rightarrow> 'h outcome" where
  "st_start_req ch p P L =
     (if ch = cr \<or> ch = lf then Next P L p
      else let P1 = P\<lparr>flags := 0, uses_transfer_encoding := False, content_length := CROW_ULLONG_MAX\<rparr>
           in if \<not> CROW_IS_ALPHA ch then error CHPE_INVALID_METHOD P1 L p
              else let P2 = P1\<lparr>parser_method := Delete, index := 1\<rparr>
                   in case first_method ch of
                        None \<Rightarrow> error CHPE_INVALID_METHOD P2 L p
                      | Some m \<Rightarrow>
                          CROW_CALLBACK_NOTIFY (\<lambda>P. Inr (on_message_begin P)) (p + 1)
                            (P2\<lparr>parser_method := m, state := s_req_method\<rparr>) (\<lambda>P'. Next P' L p))"

definition method_branches :: "((HTTPMethod \<times> nat \<times> char) \<times> HTTPMethod) list" where
  "method_branches =
     [((Post, 1, CHR ''U''), Put), ((Post, 1, CHR ''A''), Patch), ((Post, 1, CHR ''R''), Propfind),
      ((Put, 2, CHR ''R''), Purge), ((Connect, 1, CHR ''H''), Checkout), ((Connect, 2, CHR ''P''), Copy),
      ((MkCol, 1, CHR ''O''), Move), ((MkCol, 1, CHR ''E''), Merge), ((MkCol, 1, CHR ''-''), MSearch),
      ((MkCol, 2, CHR ''A''), MkActivity), ((MkCol, 3, CHR ''A''), MkCalendar),
      ((Subscribe, 1, CHR ''E''), Search), ((Subscribe, 1, CHR ''O''), Source),
      ((Report, 2, CHR ''B''), Rebind), ((Propfind, 4, CHR ''P''), Proppatch), ((Lock, 1, CHR ''I''), Link),
      ((Unlock, 2, CHR ''S''), Unsubscribe), ((Unlock, 2, CHR ''B''), Unbind), ((Unlock, 3, CHR ''I''), Unlink)]"

text \<open>A character of a C string: the terminator at its length, nothing beyond.\<close>

definition c_char :: "string \<Rightarrow> nat \<Rightarrow> char option" where
  "c_char s i = (if i < length s then Some (s ! i) else if i = length s then Some nul else None)"

definition st_req_method :: "char \<Rightarrow> nat \<Rightarrow> 'h HTTPParser \<Rightarrow> locals \<Rightarrow> 'h outcome" where
  "st_req_method ch p P L =
     (if ch = nul then error CHPE_INVALID_METHOD P L p
      else case c_char (method_name (parser_method P)) (index P) of
             None \<Rightarrow> Fault Out_of_bounds_read
           | Some m \<Rightarrow>
               if ch = CHR '' '' \<and> m = nul
               then Next (next_index (P\<lparr>state := s_req_spaces_before_url\<rparr>)) L p
               else if ch = m then Next (next_index P) L p
               else if 65 \<le> byte ch \<and> byte ch \<le> 90 \<or> ch = CHR ''-''
               then (case map_of method_branches (parser_method P, index P, ch) of
                       None \<Rightarrow> error CHPE_INVALID_METHOD P L p
                     | Some new_meth \<Rightarrow> Next (next_index (P\<lparr>parser_method := new_meth\<rparr>)) L p)
               else error CHPE_INVALID_METHOD P L p)"

text \<open>
  \<open>parse_url_char\<close> inside the parser: at the question mark \<open>qs_point\<close> becomes the distance from the mark of the
  start, or from address 0 when that mark is null.
\<close>

definition url_char :: "64 word \<Rightarrow> char \<Rightarrow> nat \<Rightarrow> 'h HTTPParser \<Rightarrow> locals \<Rightarrow> 'h outcome" where
  "url_char base ch p P L =
     (let (s', at_query) = parse_url_char (state P) ch;
          P1 = (if at_query
                then P\<lparr>qs_point := (case url_start_mark L of Some m \<Rightarrow> of_nat (p - m) | None \<Rightarrow> base + of_nat p)\<rparr>
                else P);
          P2 = P1\<lparr>state := s'\<rparr>
      in if s' = s_dead then error CHPE_INVALID_URL P2 L p else Next P2 L p)"

definition st_req_spaces_before_url :: "64 word \<Rightarrow> char \<Rightarrow> nat \<Rightarrow> 'h HTTPParser \<Rightarrow> locals \<Rightarrow> 'h outcome" where
  "st_req_spaces_before_url base ch p P L =
     (if ch = CHR '' '' then Next P L p
      else let L1 = L\<lparr>url_mark := CROW_MARK (url_mark L) p, url_start_mark := CROW_MARK (url_start_mark L) p\<rparr>;
               P1 = (if parser_method P = Connect then P\<lparr>state := s_req_server_start\<rparr> else P)
           in url_char base ch p P1 L1)"

definition st_req_schema :: "64 word \<Rightarrow> char \<Rightarrow> nat \<Rightarrow> 'h HTTPParser \<Rightarrow> locals \<Rightarrow> 'h outcome" where
  "st_req_schema base ch p P L =
     (if ch = CHR '' '' \<or> ch = cr \<or> ch = lf then error CHPE_INVALID_URL P L p else url_char base ch p P L)"

definition st_req_url :: "64 word \<Rightarrow> string \<Rightarrow> char \<Rightarrow> nat \<Rightarrow> 'h HTTPParser \<Rightarrow> locals \<Rightarrow> 'h outcome" where
  "st_req_url base data ch p P L =
     (if ch = CHR '' '' then
        callback_url data p (p + 1) (P\<lparr>state := s_req_http_start\<rparr>) L (\<lambda>P' L'. Next P' L' p)
      else if ch = cr \<or> ch = lf then
        (if parser_method P \<noteq> Get then error CHPE_INVALID_VERSION (P\<lparr>state := s_dead\<rparr>) L p
         else callback_url data p (p + 1)
                (P\<lparr>http_major := 0, http_minor := 9,
                   state := (if ch = cr then s_req_line_almost_done else s_header_field_start)\<rparr>) L
                (\<lambda>P' L'. Next P' L' p))
      else url_char base ch p P L)"

definition st_req_http_start :: "char \<Rightarrow> nat \<Rightarrow> 'h HTTPParser \<Rightarrow> locals \<Rightarrow> 'h outcome" where
  "st_req_http_start ch p P L =
     (if ch = CHR '' '' then Next P L p
      else if ch = CHR ''H'' then Next (P\<lparr>state := s_req_http_H\<rparr>) L p
      else if ch = CHR ''I'' \<and> parser_method P = Source then Next (P\<lparr>state := s_req_http_I\<rparr>) L p
      else error CHPE_INVALID_CONSTANT P L p)"

text \<open>The letters of HTTP and ICE: the one expected, and the state after it.\<close>

definition st_letter :: "char \<Rightarrow> parser_state \<Rightarrow> char \<Rightarrow> nat \<Rightarrow> 'h HTTPParser \<Rightarrow> locals \<Rightarrow> 'h outcome" where
  "st_letter expected s' ch p P L =
     CROW_STRICT_CHECK (ch \<noteq> expected) P L p (Next (P\<lparr>state := s'\<rparr>) L p)"

definition st_req_http_major :: "char \<Rightarrow> nat \<Rightarrow> 'h HTTPParser \<Rightarrow> locals \<Rightarrow> 'h outcome" where
  "st_req_http_major ch p P L =
     (if \<not> CROW_IS_NUM ch then error CHPE_INVALID_VERSION P L p
      else Next (P\<lparr>http_major := of_nat (byte ch - 48), state := s_req_http_dot\<rparr>) L p)"

definition st_req_http_dot :: "char \<Rightarrow> nat \<Rightarrow> 'h HTTPParser \<Rightarrow> locals \<Rightarrow> 'h outcome" where
  "st_req_http_dot ch p P L =
     (if ch \<noteq> CHR ''.'' then error CHPE_INVALID_VERSION P L p else Next (P\<lparr>state := s_req_http_minor\<rparr>) L p)"

definition st_req_http_minor :: "char \<Rightarrow> nat \<Rightarrow> 'h HTTPParser \<Rightarrow> locals \<Rightarrow> 'h outcome" where
  "st_req_http_minor ch p P L =
     (if \<not> CROW_IS_NUM ch then error CHPE_INVALID_VERSION P L p
      else Next (P\<lparr>http_minor := of_nat (byte ch - 48), state := s_req_http_end\<rparr>) L p)"

definition st_req_http_end :: "char \<Rightarrow> nat \<Rightarrow> 'h HTTPParser \<Rightarrow> locals \<Rightarrow> 'h outcome" where
  "st_req_http_end ch p P L =
     (if ch = cr then Next (P\<lparr>state := s_req_line_almost_done\<rparr>) L p
      else if ch = lf then Next (P\<lparr>state := s_header_field_start\<rparr>) L p
      else error CHPE_INVALID_VERSION P L p)"

definition st_req_line_almost_done :: "char \<Rightarrow> nat \<Rightarrow> 'h HTTPParser \<Rightarrow> locals \<Rightarrow> 'h outcome" where
  "st_req_line_almost_done ch p P L =
     (if ch \<noteq> lf then error CHPE_LF_EXPECTED P L p else Next (P\<lparr>state := s_header_field_start\<rparr>) L p)"

section \<open>The end of the headers\<close>

definition st_message_done :: "'h Handler \<Rightarrow> nat \<Rightarrow> 'h HTTPParser \<Rightarrow> locals \<Rightarrow> 'h outcome" where
  "st_message_done H p P L = notify_complete H p P L (\<lambda>P'. Next P' L p)"

definition st_headers_done :: "'h Handler \<Rightarrow> char \<Rightarrow> nat \<Rightarrow> 'h HTTPParser \<Rightarrow> locals \<Rightarrow> 'h outcome" where
  "st_headers_done H ch p P L =
     CROW_STRICT_CHECK (ch \<noteq> lf) P L p
       (let P1 = P\<lparr>nread := 0\<rparr>; L1 = L\<lparr>l_nread := 0\<rparr> in
        if parser_upgrade P1 then
          notify_complete H p P1 L1 (\<lambda>P'. Return (P'\<lparr>nread := 0\<rparr>) (p + 1))
        else if has_flag F_SKIPBODY P1 then notify_complete H p P1 L1 (\<lambda>P'. Next P' L1 p)
        else if has_flag F_CHUNKED P1 then Next (P1\<lparr>state := s_chunk_size_start\<rparr>) L1 p
        else if uses_transfer_encoding P1 then
          (if \<not> lenient_http_headers P1 then error CHPE_INVALID_TRANSFER_ENCODING P1 L1 p
           else Next (P1\<lparr>state := s_body_identity_eof\<rparr>) L1 p)
        else if content_length P1 = 0 then notify_complete H p P1 L1 (\<lambda>P'. Next P' L1 p)
        else if content_length P1 \<noteq> CROW_ULLONG_MAX then Next (P1\<lparr>state := s_body_identity\<rparr>) L1 p
        else notify_complete H p P1 L1 (\<lambda>P'. Next P' L1 p))"

definition st_headers_almost_done :: "'h Handler \<Rightarrow> char \<Rightarrow> nat \<Rightarrow> 'h HTTPParser \<Rightarrow> locals \<Rightarrow> 'h outcome" where
  "st_headers_almost_done H ch p P L =
     CROW_STRICT_CHECK (ch \<noteq> lf) P L p
       (if has_flag F_TRAILING P then notify_complete H p P L (\<lambda>P'. Next P' L p)
        else if uses_transfer_encoding P \<and> has_flag F_CONTENTLENGTH P \<and>
                (if has_flag F_CHUNKED P then \<not> allow_chunked_length P else \<not> lenient_http_headers P)
        then error CHPE_UNEXPECTED_CONTENT_LENGTH P L p
        else
          let P1 = P\<lparr>state := s_headers_done,
                      parser_upgrade := (has_flag F_UPGRADE P \<or> parser_method P = Connect)\<rparr>;
              P2 = on_headers_complete H P1
          in if parser_errno P2 \<noteq> CHPE_OK then Return (P2\<lparr>nread := l_nread L\<rparr>) p
             else st_headers_done H ch p P2 L)"

section \<open>Header fields\<close>

definition first_header_state :: "char \<Rightarrow> header_states" where
  "first_header_state c =
     (if c = CHR ''c'' then h_C
      else if c = CHR ''p'' then h_matching_proxy_connection
      else if c = CHR ''t'' then h_matching_transfer_encoding
      else if c = CHR ''u'' then h_matching_upgrade
      else h_general)"

definition st_header_field_start :: "'h Handler \<Rightarrow> char \<Rightarrow> nat \<Rightarrow> 'h HTTPParser \<Rightarrow> locals \<Rightarrow> 'h outcome" where
  "st_header_field_start H ch p P L =
     (if ch = cr then Next (P\<lparr>state := s_headers_almost_done\<rparr>) L p
      else if ch = lf then st_headers_almost_done H ch p (P\<lparr>state := s_headers_almost_done\<rparr>) L
      else let c = CROW_TOKEN ch in
           if c = nul then error CHPE_INVALID_HEADER_TOKEN P L p
           else Next (P\<lparr>index := 0, state := s_header_field, header_state := first_header_state c\<rparr>)
                  (L\<lparr>header_field_mark := CROW_MARK (header_field_mark L) p\<rparr>) p)"

text \<open>\<open>while (p + 1 < pe && CROW_TOKEN(p[1])) p++;\<close>\<close>

definition skip_tokens :: "string \<Rightarrow> nat \<Rightarrow> nat \<Rightarrow> nat" where
  "skip_tokens data p pe =
     p + length (takeWhile (\<lambda>c. CROW_TOKEN c \<noteq> nul) (take (pe - (p + 1)) (drop (p + 1) data)))"

text \<open>
  One of the names the parser looks for: with the next index, no match any more, the last character
  of the name, or on the way. The array of a C string has its length and one.
\<close>

definition match_name ::
  "string \<Rightarrow> header_states \<Rightarrow> header_states \<Rightarrow> char \<Rightarrow> nat \<Rightarrow> header_states \<Rightarrow> header_states option" where
  "match_name name miss found c i on_the_way =
     (if i > length name then Some miss
      else case c_char name i of
             None \<Rightarrow> None
           | Some n \<Rightarrow> if c \<noteq> n then Some miss
                       else if i + 1 = length name then Some found else Some on_the_way)"

definition to_header_state ::
  "'h HTTPParser \<Rightarrow> header_states option \<Rightarrow> 'h HTTPParser result" where
  "to_header_state P h = (case h of None \<Rightarrow> Inl Out_of_bounds_read | Some h' \<Rightarrow> Inr (P\<lparr>header_state := h'\<rparr>))"

definition header_field_char :: "string \<Rightarrow> nat \<Rightarrow> char \<Rightarrow> char \<Rightarrow> 'h HTTPParser \<Rightarrow> (nat \<times> 'h HTTPParser) result" where
  "header_field_char data p ch c P =
     (let Q = next_index P; i = index Q; keep = map_sum id (Pair p) in
      case header_state P of
        h_general \<Rightarrow> Inr (skip_tokens data p (p + min_header (length data - p)), P)
      | h_C \<Rightarrow> Inr (p, Q\<lparr>header_state := (if c = CHR ''o'' then h_CO else h_general)\<rparr>)
      | h_CO \<Rightarrow> Inr (p, Q\<lparr>header_state := (if c = CHR ''n'' then h_CON else h_general)\<rparr>)
      | h_CON \<Rightarrow> Inr (p, Q\<lparr>header_state := (if c = CHR ''n'' then h_matching_connection
            else if c = CHR ''t'' then h_matching_content_length else h_general)\<rparr>)
      | h_matching_connection \<Rightarrow>
          keep (to_header_state Q (match_name ''connection'' h_general h_connection c i h_matching_connection))
      | h_matching_proxy_connection \<Rightarrow>
          keep (to_header_state Q (match_name ''proxy-connection'' h_general h_connection c i h_matching_proxy_connection))
      | h_matching_content_length \<Rightarrow>
          keep (to_header_state Q (match_name ''content-length'' h_general h_content_length c i h_matching_content_length))
      | h_matching_transfer_encoding \<Rightarrow>
          keep (map_sum id (\<lambda>Q. if header_state Q = h_transfer_encoding then Q\<lparr>uses_transfer_encoding := True\<rparr> else Q)
            (to_header_state Q (match_name ''transfer-encoding'' h_general h_transfer_encoding c i h_matching_transfer_encoding)))
      | h_matching_upgrade \<Rightarrow>
          keep (to_header_state Q (match_name ''upgrade'' h_general h_upgrade c i h_matching_upgrade))
      | h_connection \<Rightarrow> Inr (p, if ch \<noteq> CHR '' '' then P\<lparr>header_state := h_general\<rparr> else P)
      | h_content_length \<Rightarrow> Inr (p, if ch \<noteq> CHR '' '' then P\<lparr>header_state := h_general\<rparr> else P)
      | h_transfer_encoding \<Rightarrow> Inr (p, if ch \<noteq> CHR '' '' then P\<lparr>header_state := h_general\<rparr> else P)
      | h_upgrade \<Rightarrow> Inr (p, if ch \<noteq> CHR '' '' then P\<lparr>header_state := h_general\<rparr> else P)
      | _ \<Rightarrow> Inl Assert_failed)"

lemma header_field_char_ge: "header_field_char data p ch c P = Inr (p', P') \<Longrightarrow> p \<le> p'"
  by (auto simp: header_field_char_def skip_tokens_def to_header_state_def Let_def map_sum_def
      split: header_states.splits option.splits sum.splits)

text \<open>The loop over a header field: where it stops, with the last character it read.\<close>

function header_field_loop :: "string \<Rightarrow> nat \<Rightarrow> char \<Rightarrow> 'h HTTPParser \<Rightarrow> (nat \<times> char \<times> 'h HTTPParser) result" where
  "header_field_loop data p ch0 P =
     (if p \<ge> length data then Inr (p, ch0, P)
      else let ch = data ! p; c = CROW_TOKEN ch in
           if c = nul then Inr (p, ch, P)
           else case header_field_char data p ch c P of
                  Inl f \<Rightarrow> Inl f
                | Inr (p', P') \<Rightarrow> header_field_loop data (p' + 1) ch P')"
  by pat_completeness auto
termination
  by (relation "measure (\<lambda>(data, p, ch, P). length data - p)") (auto dest!: header_field_char_ge)

declare header_field_loop.simps [simp del]

definition st_header_field :: "string \<Rightarrow> char \<Rightarrow> nat \<Rightarrow> 'h HTTPParser \<Rightarrow> locals \<Rightarrow> 'h outcome" where
  "st_header_field data ch start P L =
     (case header_field_loop data start ch P of
        Inl f \<Rightarrow> Fault f
      | Inr (p, ch', P1) \<Rightarrow>
          if p = length data
          then CROW_COUNT_HEADER_SIZE (p - 1 - start) P1 L (p - 1) (\<lambda>L1. Next P1 L1 (p - 1))
          else CROW_COUNT_HEADER_SIZE (p - start) P1 L p (\<lambda>L1.
                 if ch' = CHR '':''
                 then callback_header_field data p (p + 1) (P1\<lparr>state := s_header_value_discard_ws\<rparr>) L1
                        (\<lambda>P' L'. Next P' L' p)
                 else error CHPE_INVALID_HEADER_TOKEN P1 L1 p))"

section \<open>Header values\<close>

text \<open>The first character of a value: the new state of the header, or an error.\<close>

definition value_start :: "char \<Rightarrow> 'h HTTPParser \<Rightarrow> http_errno + 'h HTTPParser" where
  "value_start ch P =
     (let c = CROW_LOWER ch in
      case header_state P of
        h_upgrade \<Rightarrow> Inr ((set_flag F_UPGRADE P)\<lparr>header_state := h_general\<rparr>)
      | h_transfer_encoding \<Rightarrow>
          Inr (P\<lparr>header_state := (if c = CHR ''c'' then h_matching_transfer_encoding_chunked
                                 else h_matching_transfer_encoding_token)\<rparr>)
      | h_matching_transfer_encoding_token_start \<Rightarrow> Inr P
      | h_content_length \<Rightarrow>
          if \<not> CROW_IS_NUM ch then Inl CHPE_INVALID_CONTENT_LENGTH
          else if has_flag F_CONTENTLENGTH P then Inl CHPE_UNEXPECTED_CONTENT_LENGTH
          else Inr ((set_flag F_CONTENTLENGTH P)\<lparr>content_length := of_nat (byte ch - 48), header_state := h_content_length_num\<rparr>)
      | h_content_length_ws \<Rightarrow> Inr P
      | h_connection \<Rightarrow>
          Inr (if c = CHR ''k'' then P\<lparr>header_state := h_matching_connection_keep_alive\<rparr>
               else if c = CHR ''c'' then P\<lparr>header_state := h_matching_connection_close\<rparr>
               else if c = CHR '' '' \<or> c = tab then P
               else P\<lparr>header_state := h_general\<rparr>)
      | _ \<Rightarrow> Inr (P\<lparr>header_state := h_general\<rparr>))"

definition st_header_value_start :: "char \<Rightarrow> nat \<Rightarrow> 'h HTTPParser \<Rightarrow> locals \<Rightarrow> 'h outcome" where
  "st_header_value_start ch p P L =
     (let L1 = L\<lparr>header_value_mark := CROW_MARK (header_value_mark L) p\<rparr>;
          P1 = P\<lparr>state := s_header_value, index := 0\<rparr>
      in case value_start ch P1 of
           Inl e \<Rightarrow> error e P1 L1 p
         | Inr P2 \<Rightarrow> Next P2 L1 p)"

definition st_header_value_discard_ws :: "char \<Rightarrow> nat \<Rightarrow> 'h HTTPParser \<Rightarrow> locals \<Rightarrow> 'h outcome" where
  "st_header_value_discard_ws ch p P L =
     (if ch = CHR '' '' \<or> ch = tab then Next P L p
      else if ch = cr then Next (P\<lparr>state := s_header_value_discard_ws_almost_done\<rparr>) L p
      else if ch = lf then Next (P\<lparr>state := s_header_value_discard_lws\<rparr>) L p
      else st_header_value_start ch p P L)"

definition st_header_almost_done :: "char \<Rightarrow> nat \<Rightarrow> 'h HTTPParser \<Rightarrow> locals \<Rightarrow> 'h outcome" where
  "st_header_almost_done ch p P L =
     (if ch \<noteq> lf then error CHPE_LF_EXPECTED P L p else Next (P\<lparr>state := s_header_value_lws\<rparr>) L p)"

text \<open>
  The value of a header the parser does not look at is skipped up to the end of the line or a limit:
  the position to go on from, or where a character is not allowed.
\<close>

definition skip_value :: "bool \<Rightarrow> string \<Rightarrow> nat \<Rightarrow> nat + nat" where
  "skip_value lenient data p =
     (let pe = p + min_header (length data - p);
          q = p + length (takeWhile (\<lambda>c. c \<noteq> cr \<and> c \<noteq> lf \<and> (lenient \<or> CROW_IS_HEADER_CHAR c))
                             (take (pe - p) (drop p data)))
      in if q = pe then Inr (if q = length data then q - 1 else q)
         else if data ! q = cr \<or> data ! q = lf then Inr (q - 1)
         else Inl q)"

text \<open>A further digit of the length of the content, with the test for overflow.\<close>

definition content_length_digit :: "char \<Rightarrow> 64 word \<Rightarrow> 64 word option" where
  "content_length_digit ch n =
     (if \<not> CROW_IS_NUM ch then None
      else if (CROW_ULLONG_MAX - 10) div 10 < n then None
      else Some (n * 10 + of_nat (byte ch - 48)))"

text \<open>
  One character of a value: an error with the position, a fault, or the position, the state of
  the header and the parser to go on with.
\<close>

datatype 'h value_step =
    Value_error http_errno nat
  | Value_fault fault
  | Value_next nat header_states "'h HTTPParser"

definition value_content_length :: "nat \<Rightarrow> char \<Rightarrow> 'h HTTPParser \<Rightarrow> 'h value_step" where
  "value_content_length p ch P =
     (if ch = CHR '' '' then Value_next p h_content_length_ws P
      else case content_length_digit ch (content_length P) of
             None \<Rightarrow> Value_error CHPE_INVALID_CONTENT_LENGTH p
           | Some n \<Rightarrow> Value_next p h_content_length_num (P\<lparr>content_length := n\<rparr>))"

definition value_match ::
  "string \<Rightarrow> header_states \<Rightarrow> header_states \<Rightarrow> header_states \<Rightarrow> nat \<Rightarrow> char \<Rightarrow> 'h HTTPParser \<Rightarrow> 'h value_step" where
  "value_match name miss found on_the_way p c P =
     (let Q = next_index P in
      case match_name name miss found c (index Q) on_the_way of
        None \<Rightarrow> Value_fault Out_of_bounds_read
      | Some h \<Rightarrow> Value_next p h Q)"

definition header_value_char :: "string \<Rightarrow> nat \<Rightarrow> char \<Rightarrow> header_states \<Rightarrow> 'h HTTPParser \<Rightarrow> 'h value_step" where
  "header_value_char data p ch h P =
     (let c = CROW_LOWER ch in
      case h of
        h_general \<Rightarrow> (case skip_value (lenient_http_headers P) data p of
            Inl q \<Rightarrow> Value_error CHPE_INVALID_HEADER_TOKEN q | Inr p' \<Rightarrow> Value_next p' h P)
      | h_connection \<Rightarrow> Value_fault Assert_failed
      | h_transfer_encoding \<Rightarrow> Value_fault Assert_failed
      | h_content_length \<Rightarrow> if ch = CHR '' '' then Value_next p h P else value_content_length p ch P
      | h_content_length_num \<Rightarrow> value_content_length p ch P
      | h_content_length_ws \<Rightarrow>
          if ch = CHR '' '' then Value_next p h P else Value_error CHPE_INVALID_CONTENT_LENGTH p
      | h_matching_transfer_encoding_token_start \<Rightarrow>
          Value_next p
            (if c = CHR ''c'' then h_matching_transfer_encoding_chunked
             else if CROW_TOKEN c \<noteq> nul then h_matching_transfer_encoding_token
             else if c = CHR '' '' \<or> c = tab then h else h_general) P
      | h_matching_transfer_encoding_chunked \<Rightarrow>
          value_match ''chunked'' h_matching_transfer_encoding_token h_transfer_encoding_chunked h p c P
      | h_matching_transfer_encoding_token \<Rightarrow>
          if ch = CHR '','' then Value_next p h_matching_transfer_encoding_token_start (P\<lparr>index := 0\<rparr>)
          else Value_next p h P
      | h_matching_connection_keep_alive \<Rightarrow> value_match ''keep-alive'' h_general h_connection_keep_alive h p c P
      | h_matching_connection_close \<Rightarrow> value_match ''close'' h_general h_connection_close h p c P
      | h_transfer_encoding_chunked \<Rightarrow>
          Value_next p (if ch \<noteq> CHR '' '' then h_matching_transfer_encoding_token else h) P
      | h_connection_keep_alive \<Rightarrow> Value_next p (if ch \<noteq> CHR '' '' then h_general else h) P
      | h_connection_close \<Rightarrow> Value_next p (if ch \<noteq> CHR '' '' then h_general else h) P
      | _ \<Rightarrow> Value_next p h_general (P\<lparr>state := s_header_value\<rparr>))"

lemma skip_value_ge:
  assumes "skip_value lenient data p = Inr p'" and "p < length data" and "data ! p \<noteq> cr" "data ! p \<noteq> lf"
  shows "p \<le> p'"
proof -
  define pe where "pe = p + min_header (length data - p)"
  define ok where "ok = (\<lambda>c. c \<noteq> cr \<and> c \<noteq> lf \<and> (lenient \<or> CROW_IS_HEADER_CHAR c))"
  define n where "n = length (takeWhile ok (take (pe - p) (drop p data)))"
  have pe: "p < pe" "pe \<le> length data" using assms(2) by (auto simp: pe_def min_header_def max_header_size_def)
  have s: "skip_value lenient data p =
      (if p + n = pe then Inr (if p + n = length data then p + n - 1 else p + n)
       else if data ! (p + n) = cr \<or> data ! (p + n) = lf then Inr (p + n - 1) else Inl (p + n))"
    by (simp add: skip_value_def pe_def [symmetric] n_def ok_def Let_def)
  have "data ! (p + n) = data ! p" if "n = 0" using that by simp
  then show ?thesis using assms pe unfolding s by (cases n) (auto split: if_splits)
qed

lemma header_value_char_ge:
  assumes "header_value_char data p ch h P = Value_next p' h' P'" and "p < length data"
    and "data ! p \<noteq> cr" "data ! p \<noteq> lf"
  shows "p \<le> p'"
  using assms skip_value_ge [of "lenient_http_headers P" data p p']
  by (auto simp: header_value_char_def value_content_length_def value_match_def Let_def
      split: header_states.splits if_splits sum.splits option.splits)

text \<open>The loop over a header value, up to the end of the line or of the buffer.\<close>

function header_value_loop ::
  "string \<Rightarrow> nat \<Rightarrow> nat \<Rightarrow> header_states \<Rightarrow> 'h HTTPParser \<Rightarrow> locals \<Rightarrow> 'h outcome" where
  "header_value_loop data start p h P L =
     (if p \<ge> length data then
        (let p' = (if p = length data then p - 1 else p) in
         CROW_COUNT_HEADER_SIZE (p' - start) (P\<lparr>header_state := h\<rparr>) L p' (\<lambda>L1. Next (P\<lparr>header_state := h\<rparr>) L1 p'))
      else let ch = data ! p in
        if ch = cr then
          callback_header_value data p (p + 1) (P\<lparr>state := s_header_almost_done, header_state := h\<rparr>) L
            (\<lambda>P' L'. CROW_COUNT_HEADER_SIZE (p - start) (P'\<lparr>header_state := h\<rparr>) L' p
               (\<lambda>L1. Next (P'\<lparr>header_state := h\<rparr>) L1 p))
        else if ch = lf then
          CROW_COUNT_HEADER_SIZE (p - start) (P\<lparr>state := s_header_almost_done\<rparr>) L p (\<lambda>L1.
            callback_header_value data p p (P\<lparr>state := s_header_almost_done, header_state := h\<rparr>) L1
              (\<lambda>P' L'. st_header_almost_done ch p P' L'))
        else if \<not> lenient_http_headers P \<and> \<not> CROW_IS_HEADER_CHAR ch then error CHPE_INVALID_HEADER_TOKEN P L p
        else case header_value_char data p ch h P of
               Value_error e q \<Rightarrow> error e (if e = CHPE_INVALID_CONTENT_LENGTH then P\<lparr>header_state := (if h = h_content_length then h_content_length_num else h)\<rparr> else P) L q
             | Value_fault f \<Rightarrow> Fault f
             | Value_next p' h' P' \<Rightarrow> header_value_loop data start (p' + 1) h' P' L)"
  by pat_completeness auto
termination
proof (relation "measure (\<lambda>(data, start, p, h, P, L). length data - p)", goal_cases)
  case (2 data start p h P L ch p' h' P')
  then show ?case using header_value_char_ge [of data p ch h P p' h' P'] by simp
qed simp

declare header_value_loop.simps [simp del]

definition st_header_value :: "string \<Rightarrow> nat \<Rightarrow> 'h HTTPParser \<Rightarrow> locals \<Rightarrow> 'h outcome" where
  "st_header_value data start P L = header_value_loop data start start (header_state P) P L"

definition st_header_value_lws :: "'h Handler \<Rightarrow> char \<Rightarrow> nat \<Rightarrow> 'h HTTPParser \<Rightarrow> locals \<Rightarrow> 'h outcome" where
  "st_header_value_lws H ch p P L =
     (if ch = CHR '' '' \<or> ch = tab then
        (let P1 = (if header_state P = h_content_length_num then P\<lparr>header_state := h_content_length_ws\<rparr> else P)
         in st_header_value_start ch p (P1\<lparr>state := s_header_value_start\<rparr>) L)
      else
        let P1 = (case header_state P of
              h_connection_keep_alive \<Rightarrow> set_flag F_CONNECTION_KEEP_ALIVE P
            | h_connection_close \<Rightarrow> set_flag F_CONNECTION_CLOSE P
            | h_transfer_encoding_chunked \<Rightarrow> set_flag F_CHUNKED P
            | _ \<Rightarrow> P)
        in st_header_field_start H ch p (P1\<lparr>state := s_header_field_start\<rparr>) L)"

definition st_header_value_discard_lws :: "'h Handler \<Rightarrow> string \<Rightarrow> char \<Rightarrow> nat \<Rightarrow> 'h HTTPParser \<Rightarrow> locals \<Rightarrow> 'h outcome" where
  "st_header_value_discard_lws H data ch p P L =
     (if ch = CHR '' '' \<or> ch = tab then Next (P\<lparr>state := s_header_value_discard_ws\<rparr>) L p
      else callback_header_value data p p (P\<lparr>state := s_header_field_start\<rparr>)
             (L\<lparr>header_value_mark := CROW_MARK (header_value_mark L) p\<rparr>)
             (\<lambda>P' L'. st_header_field_start H ch p P' L'))"

section \<open>Bodies\<close>

text \<open>\<open>content_length\<close> or what is left of the buffer, whichever is less.\<close>

definition to_read :: "string \<Rightarrow> nat \<Rightarrow> 'h HTTPParser \<Rightarrow> nat" where
  "to_read data p P = min_content (content_length P) (length data - p)"

definition st_body_identity :: "'h Handler \<Rightarrow> string \<Rightarrow> nat \<Rightarrow> 'h HTTPParser \<Rightarrow> locals \<Rightarrow> 'h outcome" where
  "st_body_identity H data p P L =
     check_assert (content_length P \<noteq> 0 \<and> content_length P \<noteq> CROW_ULLONG_MAX)
       (let n = to_read data p P;
            L1 = L\<lparr>body_mark := CROW_MARK (body_mark L) p\<rparr>;
            P1 = P\<lparr>content_length := content_length P - of_nat n\<rparr>;
            p1 = p + n - 1
        in if content_length P1 = 0
           then callback_body data (p1 + 1) p1 (P1\<lparr>state := s_message_done\<rparr>) L1 (\<lambda>P' L'. st_message_done H p1 P' L')
           else Next P1 L1 p1)"

definition st_body_identity_eof :: "string \<Rightarrow> nat \<Rightarrow> 'h HTTPParser \<Rightarrow> locals \<Rightarrow> 'h outcome" where
  "st_body_identity_eof data p P L =
     Next P (L\<lparr>body_mark := CROW_MARK (body_mark L) p\<rparr>) (length data - 1)"

definition st_chunk_size_start :: "char \<Rightarrow> nat \<Rightarrow> 'h HTTPParser \<Rightarrow> locals \<Rightarrow> 'h outcome" where
  "st_chunk_size_start ch p P L =
     check_assert (l_nread L = 1) (check_assert (has_flag F_CHUNKED P)
       (if unhex_val ch = - 1 then error CHPE_INVALID_CHUNK_SIZE P L p
        else Next (P\<lparr>content_length := of_int (unhex_val ch), state := s_chunk_size\<rparr>) L p))"

definition st_chunk_size :: "char \<Rightarrow> nat \<Rightarrow> 'h HTTPParser \<Rightarrow> locals \<Rightarrow> 'h outcome" where
  "st_chunk_size ch p P L =
     check_assert (has_flag F_CHUNKED P)
       (if ch = cr then Next (P\<lparr>state := s_chunk_size_almost_done\<rparr>) L p
        else if unhex_val ch = - 1 then
          (if ch = CHR '';'' \<or> ch = CHR '' '' then Next (P\<lparr>state := s_chunk_parameters\<rparr>) L p
           else error CHPE_INVALID_CHUNK_SIZE P L p)
        else if (CROW_ULLONG_MAX - 16) div 16 < content_length P then error CHPE_INVALID_CONTENT_LENGTH P L p
        else Next (P\<lparr>content_length := content_length P * 16 + of_int (unhex_val ch)\<rparr>) L p)"

definition st_chunk_parameters :: "char \<Rightarrow> nat \<Rightarrow> 'h HTTPParser \<Rightarrow> locals \<Rightarrow> 'h outcome" where
  "st_chunk_parameters ch p P L =
     check_assert (has_flag F_CHUNKED P)
       (if ch = cr then Next (P\<lparr>state := s_chunk_size_almost_done\<rparr>) L p else Next P L p)"

definition st_chunk_size_almost_done :: "char \<Rightarrow> nat \<Rightarrow> 'h HTTPParser \<Rightarrow> locals \<Rightarrow> 'h outcome" where
  "st_chunk_size_almost_done ch p P L =
     check_assert (has_flag F_CHUNKED P) (CROW_STRICT_CHECK (ch \<noteq> lf) P L p
       (let P1 = P\<lparr>nread := 0\<rparr>; L1 = L\<lparr>l_nread := 0\<rparr> in
        if content_length P1 = 0
        then Next ((set_flag F_TRAILING P1)\<lparr>state := s_header_field_start\<rparr>) L1 p
        else Next (P1\<lparr>state := s_chunk_data\<rparr>) L1 p))"

definition st_chunk_data :: "string \<Rightarrow> nat \<Rightarrow> 'h HTTPParser \<Rightarrow> locals \<Rightarrow> 'h outcome" where
  "st_chunk_data data p P L =
     check_assert (has_flag F_CHUNKED P)
       (check_assert (content_length P \<noteq> 0 \<and> content_length P \<noteq> CROW_ULLONG_MAX)
         (let n = to_read data p P;
              P1 = P\<lparr>content_length := content_length P - of_nat n\<rparr>
          in Next (if content_length P1 = 0 then P1\<lparr>state := s_chunk_data_almost_done\<rparr> else P1)
               (L\<lparr>body_mark := CROW_MARK (body_mark L) p\<rparr>) (p + n - 1)))"

definition st_chunk_data_almost_done :: "string \<Rightarrow> char \<Rightarrow> nat \<Rightarrow> 'h HTTPParser \<Rightarrow> locals \<Rightarrow> 'h outcome" where
  "st_chunk_data_almost_done data ch p P L =
     check_assert (has_flag F_CHUNKED P) (check_assert (content_length P = 0)
       (CROW_STRICT_CHECK (ch \<noteq> cr) P L p
         (callback_body data p (p + 1) (P\<lparr>state := s_chunk_data_done\<rparr>) L (\<lambda>P' L'. Next P' L' p))))"

definition st_chunk_data_done :: "char \<Rightarrow> nat \<Rightarrow> 'h HTTPParser \<Rightarrow> locals \<Rightarrow> 'h outcome" where
  "st_chunk_data_done ch p P L =
     check_assert (has_flag F_CHUNKED P) (CROW_STRICT_CHECK (ch \<noteq> lf) P L p
       (Next (P\<lparr>nread := 0, state := s_chunk_size_start\<rparr>) (L\<lparr>l_nread := 0\<rparr>) p))"

section \<open>The loop\<close>

definition execute_state :: "'h Handler \<Rightarrow> 64 word \<Rightarrow> string \<Rightarrow> char \<Rightarrow> nat \<Rightarrow> 'h HTTPParser \<Rightarrow> locals \<Rightarrow> 'h outcome" where
  "execute_state H base data ch p P L =
     (case state P of
        s_dead \<Rightarrow> st_dead ch p P L
      | s_start_req \<Rightarrow> st_start_req ch p P L
      | s_req_method \<Rightarrow> st_req_method ch p P L
      | s_req_spaces_before_url \<Rightarrow> st_req_spaces_before_url base ch p P L
      | s_req_schema \<Rightarrow> st_req_schema base ch p P L
      | s_req_schema_slash \<Rightarrow> st_req_schema base ch p P L
      | s_req_schema_slash_slash \<Rightarrow> st_req_schema base ch p P L
      | s_req_server_start \<Rightarrow> st_req_schema base ch p P L
      | s_req_server \<Rightarrow> st_req_url base data ch p P L
      | s_req_server_with_at \<Rightarrow> st_req_url base data ch p P L
      | s_req_path \<Rightarrow> st_req_url base data ch p P L
      | s_req_query_string_start \<Rightarrow> st_req_url base data ch p P L
      | s_req_query_string \<Rightarrow> st_req_url base data ch p P L
      | s_req_http_start \<Rightarrow> st_req_http_start ch p P L
      | s_req_http_H \<Rightarrow> st_letter (CHR ''T'') s_req_http_HT ch p P L
      | s_req_http_HT \<Rightarrow> st_letter (CHR ''T'') s_req_http_HTT ch p P L
      | s_req_http_HTT \<Rightarrow> st_letter (CHR ''P'') s_req_http_HTTP ch p P L
      | s_req_http_I \<Rightarrow> st_letter (CHR ''C'') s_req_http_IC ch p P L
      | s_req_http_IC \<Rightarrow> st_letter (CHR ''E'') s_req_http_HTTP ch p P L
      | s_req_http_HTTP \<Rightarrow> st_letter (CHR ''/'') s_req_http_major ch p P L
      | s_req_http_major \<Rightarrow> st_req_http_major ch p P L
      | s_req_http_dot \<Rightarrow> st_req_http_dot ch p P L
      | s_req_http_minor \<Rightarrow> st_req_http_minor ch p P L
      | s_req_http_end \<Rightarrow> st_req_http_end ch p P L
      | s_req_line_almost_done \<Rightarrow> st_req_line_almost_done ch p P L
      | s_header_field_start \<Rightarrow> st_header_field_start H ch p P L
      | s_header_field \<Rightarrow> st_header_field data ch p P L
      | s_header_value_discard_ws \<Rightarrow> st_header_value_discard_ws ch p P L
      | s_header_value_discard_ws_almost_done \<Rightarrow>
          CROW_STRICT_CHECK (ch \<noteq> lf) P L p (Next (P\<lparr>state := s_header_value_discard_lws\<rparr>) L p)
      | s_header_value_discard_lws \<Rightarrow> st_header_value_discard_lws H data ch p P L
      | s_header_value_start \<Rightarrow> st_header_value_start ch p P L
      | s_header_value \<Rightarrow> st_header_value data p P L
      | s_header_value_lws \<Rightarrow> st_header_value_lws H ch p P L
      | s_header_almost_done \<Rightarrow> st_header_almost_done ch p P L
      | s_chunk_size_start \<Rightarrow> st_chunk_size_start ch p P L
      | s_chunk_size \<Rightarrow> st_chunk_size ch p P L
      | s_chunk_parameters \<Rightarrow> st_chunk_parameters ch p P L
      | s_chunk_size_almost_done \<Rightarrow> st_chunk_size_almost_done ch p P L
      | s_headers_almost_done \<Rightarrow> st_headers_almost_done H ch p P L
      | s_headers_done \<Rightarrow> st_headers_done H ch p P L
      | s_chunk_data \<Rightarrow> st_chunk_data data p P L
      | s_chunk_data_almost_done \<Rightarrow> st_chunk_data_almost_done data ch p P L
      | s_chunk_data_done \<Rightarrow> st_chunk_data_done ch p P L
      | s_body_identity \<Rightarrow> st_body_identity H data p P L
      | s_body_identity_eof \<Rightarrow> st_body_identity_eof data p P L
      | s_message_done \<Rightarrow> st_message_done H p P L)"

definition execute_byte :: "'h Handler \<Rightarrow> 64 word \<Rightarrow> string \<Rightarrow> nat \<Rightarrow> 'h HTTPParser \<Rightarrow> locals \<Rightarrow> 'h outcome" where
  "execute_byte H base data p P L =
     (if CROW_PARSING_HEADER (state P)
      then CROW_COUNT_HEADER_SIZE 1 P L p (\<lambda>L1. execute_state H base data (data ! p) p P L1)
      else execute_state H base data (data ! p) p P L)"

section \<open>What holds after a step\<close>

text \<open>
  \<open>after N R F r\<close> says that \<open>N\<close> holds of the parser, the local variables and the position with which the loop
  goes on, \<open>R\<close> of what is returned, and \<open>F\<close> of a fault. The rules compute it through the control operators.
\<close>

named_theorems after_rules \<open>rules that compute what holds after a step\<close>

definition after ::
  "('h HTTPParser \<Rightarrow> locals \<Rightarrow> nat \<Rightarrow> bool) \<Rightarrow> ('h HTTPParser \<Rightarrow> nat \<Rightarrow> bool) \<Rightarrow> (fault \<Rightarrow> bool) \<Rightarrow> 'h outcome \<Rightarrow> bool" where
  "after N R F r = (case r of Next P L p \<Rightarrow> N P L p | Return P n \<Rightarrow> R P n | Fault f \<Rightarrow> F f)"

lemma after_outcome [simp]:
  "after N R F (Next P L p) = N P L p" "after N R F (Return P n) = R P n" "after N R F (Fault f) = F f"
  by (simp_all add: after_def)

lemma after_error [after_rules]:
  "after N R F (error e P L p) = R (P\<lparr>nread := l_nread L, parser_errno := e\<rparr>) p"
  by (simp add: error_def)

lemma after_strict [after_rules]:
  "after N R F (CROW_STRICT_CHECK c P L p k) =
     (if c then R (P\<lparr>nread := l_nread L, parser_errno := CHPE_STRICT\<rparr>) p else after N R F k)"
  by (simp add: CROW_STRICT_CHECK_def after_error)

lemma after_assert [after_rules]: "after N R F (check_assert c k) = (if c then after N R F k else F Assert_failed)"
  by (simp add: check_assert_def)

lemma after_count [after_rules]:
  "after N R F (CROW_COUNT_HEADER_SIZE v P L p k) =
     (let n = l_nread L + of_nat v in
      if n > max_header_size then R (P\<lparr>nread := n, parser_errno := CHPE_HEADER_OVERFLOW\<rparr>) p
      else after N R F (k (L\<lparr>l_nread := n\<rparr>)))"
  by (simp add: CROW_COUNT_HEADER_SIZE_def after_error Let_def)

lemma after_notify [after_rules]:
  "after N R F (CROW_CALLBACK_NOTIFY on er P k) =
     (if parser_errno P = CHPE_OK
      then (case on P of Inl f \<Rightarrow> F f | Inr P' \<Rightarrow> if parser_errno P' \<noteq> CHPE_OK then R P' er else after N R F (k P'))
      else F Assert_failed)"
  by (simp add: CROW_CALLBACK_NOTIFY_def after_assert split: sum.splits)

lemma on_errno [simp]:
  "parser_errno (on_url at P) = parser_errno P" "parser_errno (on_header_field at P) = parser_errno P"
  "parser_errno (on_header_value at P) = parser_errno P" "parser_errno (on_body at P) = parser_errno P"
  "parser_errno (on_headers_complete H P) = parser_errno P"
  by (simp_all add: on_url_def on_header_field_def on_header_value_def on_body_def on_headers_complete_def
      set_connection_parameters_def Let_def)

text \<open>The callbacks with data set no error, so they only change the parser and clear the mark.\<close>

definition run_mark ::
  "(string \<Rightarrow> 'h HTTPParser \<Rightarrow> 'h HTTPParser) \<Rightarrow> string \<Rightarrow> nat option \<Rightarrow> nat \<Rightarrow> 'h HTTPParser \<Rightarrow> 'h HTTPParser" where
  "run_mark on data mark fin P = (case mark of None \<Rightarrow> P | Some m \<Rightarrow> on (substring data m (fin - m)) P)"

definition mark_ok :: "string \<Rightarrow> nat option \<Rightarrow> nat \<Rightarrow> bool" where
  "mark_ok data mark fin \<longleftrightarrow> (case mark of None \<Rightarrow> True | Some m \<Rightarrow> m \<le> fin \<and> fin \<le> length data)"

lemma after_data:
  "(\<And>at P. parser_errno (on at P) = parser_errno P) \<Longrightarrow>
   after N R F (CROW_CALLBACK_DATA on data mark fin er P k) =
     (if parser_errno P \<noteq> CHPE_OK then F Assert_failed
      else if mark_ok data mark fin then after N R F (k (run_mark on data mark fin P)) else F Out_of_bounds_read)"
  by (auto simp: CROW_CALLBACK_DATA_def after_assert run_mark_def mark_ok_def Let_def split: option.splits)

lemma after_callbacks [after_rules]:
  "after N R F (callback_url data fin er P L k) =
     (if parser_errno P \<noteq> CHPE_OK then F Assert_failed
      else if mark_ok data (url_mark L) fin
      then after N R F (k (run_mark on_url data (url_mark L) fin P) (L\<lparr>url_mark := None\<rparr>)) else F Out_of_bounds_read)"
  "after N R F (callback_header_field data fin er P L k) =
     (if parser_errno P \<noteq> CHPE_OK then F Assert_failed
      else if mark_ok data (header_field_mark L) fin
      then after N R F (k (run_mark on_header_field data (header_field_mark L) fin P) (L\<lparr>header_field_mark := None\<rparr>))
      else F Out_of_bounds_read)"
  "after N R F (callback_header_value data fin er P L k) =
     (if parser_errno P \<noteq> CHPE_OK then F Assert_failed
      else if mark_ok data (header_value_mark L) fin
      then after N R F (k (run_mark on_header_value data (header_value_mark L) fin P) (L\<lparr>header_value_mark := None\<rparr>))
      else F Out_of_bounds_read)"
  "after N R F (callback_body data fin er P L k) =
     (if parser_errno P \<noteq> CHPE_OK then F Assert_failed
      else if mark_ok data (body_mark L) fin
      then after N R F (k (run_mark on_body data (body_mark L) fin P) (L\<lparr>body_mark := None\<rparr>)) else F Out_of_bounds_read)"
  by (simp_all add: callback_url_def callback_header_field_def callback_header_value_def callback_body_def after_data)

lemma after_if [after_rules]: "after N R F (if c then x else y) = (if c then after N R F x else after N R F y)"
  by simp

section \<open>Every step moves on\<close>

abbreviation moves :: "nat \<Rightarrow> nat \<Rightarrow> 'h outcome \<Rightarrow> bool" where
  "moves p n \<equiv> after (\<lambda>P L p'. p \<le> p' \<and> p' < n) (\<lambda>_ _. True) (\<lambda>_. True)"

lemmas request_line_defs = st_dead_def st_start_req_def st_req_method_def url_char_def st_req_spaces_before_url_def
  st_req_schema_def st_req_url_def st_req_http_start_def st_letter_def st_req_http_major_def st_req_http_dot_def
  st_req_http_minor_def st_req_http_end_def st_req_line_almost_done_def

lemmas header_defs = st_message_done_def st_headers_done_def st_headers_almost_done_def st_header_field_start_def
  st_header_value_start_def st_header_value_discard_ws_def st_header_almost_done_def st_header_value_lws_def
  st_header_value_discard_lws_def

lemmas body_defs = st_body_identity_def st_body_identity_eof_def st_chunk_size_start_def st_chunk_size_def
  st_chunk_parameters_def st_chunk_size_almost_done_def st_chunk_data_def st_chunk_data_almost_done_def
  st_chunk_data_done_def

lemma header_field_char_le:
  assumes "header_field_char data p ch c P = Inr (p', P')" and "p < length data"
  shows "p' < length data"
proof -
  have "skip_tokens data p (p + min_header (length data - p)) < length data"
  proof -
    have "length (takeWhile (\<lambda>c. CROW_TOKEN c \<noteq> nul)
        (take (p + min_header (length data - p) - (p + 1)) (drop (p + 1) data))) \<le> length data - (p + 1)"
      by (rule order_trans [OF length_takeWhile_le]) simp
    then show ?thesis using assms(2) by (simp add: skip_tokens_def)
  qed
  then show ?thesis using assms
    by (auto simp: header_field_char_def to_header_state_def Let_def map_sum_def
        split: header_states.splits option.splits sum.splits)
qed

lemma header_field_loop_range:
  "header_field_loop data p ch P = Inr (p', ch', P') \<Longrightarrow> p \<le> length data \<Longrightarrow> p \<le> p' \<and> p' \<le> length data"
proof (induction data p ch P arbitrary: p' rule: header_field_loop.induct)
  case (1 data p ch0 P)
  show ?case
  proof (cases "p \<ge> length data \<or> CROW_TOKEN (data ! p) = nul")
    case True
    with "1.prems" show ?thesis by (auto simp: header_field_loop.simps [of data p] Let_def split: if_splits)
  next
    case False
    then obtain q Q where q: "header_field_char data p (data ! p) (CROW_TOKEN (data ! p)) P = Inr (q, Q)"
      "header_field_loop data (q + 1) (data ! p) Q = Inr (p', ch', P')"
      using "1.prems"(1) by (auto simp: header_field_loop.simps [of data p] Let_def split: sum.splits)
    have "p \<le> q" "q < length data"
      using header_field_char_ge [OF q(1)] header_field_char_le [OF q(1)] False by auto
    with "1.IH" [OF _ refl refl _ q(1) refl q(2)] False show ?thesis by auto
  qed
qed

lemma skip_value_le:
  assumes "skip_value lenient data p = Inr p'" and "p < length data"
  shows "p' < length data"
proof -
  define pe where "pe = p + min_header (length data - p)"
  define n where "n = length (takeWhile (\<lambda>c. c \<noteq> cr \<and> c \<noteq> lf \<and> (lenient \<or> CROW_IS_HEADER_CHAR c)) (take (pe - p) (drop p data)))"
  have pe: "pe \<le> length data" using assms(2) by (auto simp: pe_def min_header_def max_header_size_def)
  have "n \<le> pe - p" unfolding n_def by (rule order_trans [OF length_takeWhile_le]) simp
  moreover have "skip_value lenient data p =
      (if p + n = pe then Inr (if p + n = length data then p + n - 1 else p + n)
       else if data ! (p + n) = cr \<or> data ! (p + n) = lf then Inr (p + n - 1) else Inl (p + n))"
    by (simp add: skip_value_def pe_def [symmetric] n_def Let_def)
  ultimately show ?thesis using assms pe by (auto split: if_splits)
qed

lemma header_value_char_le:
  assumes "header_value_char data p ch h P = Value_next p' h' P'" and "p < length data"
  shows "p' < length data"
  using assms skip_value_le [of "lenient_http_headers P" data p p']
  by (auto simp: header_value_char_def value_content_length_def value_match_def Let_def
      split: header_states.splits if_splits sum.splits option.splits)

lemma header_value_loop_moves:
  "start \<le> p \<Longrightarrow> p \<le> length data \<Longrightarrow> start < length data \<Longrightarrow> moves start (length data) (header_value_loop data start p h P L)"
proof (induction data start p h P L rule: header_value_loop.induct)
  case (1 data start p h P L)
  consider "p = length data" | "p < length data" "data ! p = cr \<or> data ! p = lf \<or> \<not> lenient_http_headers P \<and> \<not> CROW_IS_HEADER_CHAR (data ! p)"
    | "p < length data" "data ! p \<noteq> cr" "data ! p \<noteq> lf" "lenient_http_headers P \<or> CROW_IS_HEADER_CHAR (data ! p)"
    using "1.prems" by fastforce
  then show ?case
  proof cases
    case 1
    with "1.prems" show ?thesis by (subst header_value_loop.simps) (auto simp: after_rules Let_def)
  next
    case 2
    with "1.prems" show ?thesis
      by (auto simp: header_value_loop.simps [of data start p] after_rules st_header_almost_done_def Let_def)
  next
    case 3
    show ?thesis
    proof (cases "header_value_char data p (data ! p) h P")
      case (Value_next q h' P')
      have "p \<le> q" "q < length data"
        using header_value_char_ge [OF Value_next 3(1-3)] header_value_char_le [OF Value_next 3(1)] by simp_all
      then have "moves start (length data) (header_value_loop data start (q + 1) h' P' L)"
        using "1.IH" [OF _ refl _ _ _ Value_next] 3 "1.prems" by auto
      with Value_next 3 show ?thesis by (auto simp: header_value_loop.simps [of data start p] Let_def)
    qed (use 3 in \<open>simp_all add: header_value_loop.simps [of data start p] after_rules Let_def\<close>)
  qed
qed

lemma header_field_moves: "p < length data \<Longrightarrow> moves p (length data) (st_header_field data ch p P L)"
proof (cases "header_field_loop data p ch P")
  case (Inr r)
  moreover assume p: "p < length data"
  ultimately show ?thesis using header_field_loop_range [of data p ch P "fst r"]
    by (cases r) (auto simp: st_header_field_def after_rules Let_def)
qed (simp add: st_header_field_def)

lemma request_line_moves:
  assumes "p < n"
  shows "moves p n (st_dead ch p P L)" "moves p n (st_start_req ch p P L)" "moves p n (st_req_method ch p P L)"
    "moves p n (st_req_spaces_before_url base ch p P L)" "moves p n (st_req_schema base ch p P L)"
    "moves p n (st_req_url base data ch p P L)" "moves p n (st_req_http_start ch p P L)"
    "moves p n (st_letter e s' ch p P L)" "moves p n (st_req_http_major ch p P L)" "moves p n (st_req_http_dot ch p P L)"
    "moves p n (st_req_http_minor ch p P L)" "moves p n (st_req_http_end ch p P L)" "moves p n (st_req_line_almost_done ch p P L)"
  using assms by (simp_all add: request_line_defs after_rules Let_def split: option.splits prod.splits sum.splits)

lemma header_moves:
  assumes "p < n"
  shows "moves p n (st_message_done H p P L)" "moves p n (st_headers_done H ch p P L)"
    "moves p n (st_headers_almost_done H ch p P L)" "moves p n (st_header_field_start H ch p P L)"
    "moves p n (st_header_value_start ch p P L)" "moves p n (st_header_value_discard_ws ch p P L)"
    "moves p n (st_header_almost_done ch p P L)" "moves p n (st_header_value_lws H ch p P L)"
    "moves p n (st_header_value_discard_lws H data ch p P L)"
proof -
  show m: "moves p n (st_message_done H p P L)" for P L
    using assms by (simp add: st_message_done_def after_rules split: sum.splits)
  show d: "moves p n (st_headers_done H ch p P L)" for ch P L
    using assms by (simp add: st_headers_done_def after_rules Let_def split: sum.splits)
  show a: "moves p n (st_headers_almost_done H ch p P L)" for ch P L
    using assms by (simp add: st_headers_almost_done_def after_rules Let_def d split: sum.splits)
  show f: "moves p n (st_header_field_start H ch p P L)" for ch P L
    using assms by (simp add: st_header_field_start_def after_rules Let_def a)
  show v: "moves p n (st_header_value_start ch p P L)" for ch P L
    using assms by (simp add: st_header_value_start_def after_rules Let_def split: sum.splits)
  show "moves p n (st_header_value_discard_ws ch p P L)"
    using assms by (simp add: st_header_value_discard_ws_def after_rules v)
  show "moves p n (st_header_almost_done ch p P L)"
    using assms by (simp add: st_header_almost_done_def after_rules)
  show "moves p n (st_header_value_lws H ch p P L)"
    using assms by (simp add: st_header_value_lws_def after_rules Let_def v f)
  show "moves p n (st_header_value_discard_lws H data ch p P L)"
    using assms by (simp add: st_header_value_discard_lws_def after_rules f)
qed

lemma min_content_bounds: "n \<noteq> 0 \<Longrightarrow> 0 < left \<Longrightarrow> 0 < min_content n left \<and> min_content n left \<le> left"
proof -
  assume n: "n \<noteq> 0" "0 < left"
  have "int (unat n) = uint n" by simp
  then have "unat n \<le> left" if "uint n < int left" using that by linarith
  then show ?thesis using n by (simp add: min_content_def unat_gt_0)
qed

lemma to_read_range:
  assumes "p < length data" and "content_length P \<noteq> 0"
  shows "p \<le> p + to_read data p P - Suc 0" "p + to_read data p P - Suc 0 < length data"
  using min_content_bounds [OF assms(2), of "length data - p"] assms(1) by (auto simp: to_read_def)

lemma body_moves:
  assumes "p < length data"
  shows "moves p (length data) (st_body_identity H data p P L)" "moves p (length data) (st_body_identity_eof data p P L)"
    "moves p (length data) (st_chunk_size_start ch p P L)" "moves p (length data) (st_chunk_size ch p P L)"
    "moves p (length data) (st_chunk_parameters ch p P L)" "moves p (length data) (st_chunk_size_almost_done ch p P L)"
    "moves p (length data) (st_chunk_data data p P L)" "moves p (length data) (st_chunk_data_almost_done data ch p P L)"
    "moves p (length data) (st_chunk_data_done ch p P L)"
  using assms
  by (auto simp: body_defs st_message_done_def after_rules Let_def to_read_range split: sum.splits)

lemma execute_state_moves: "p < length data \<Longrightarrow> moves p (length data) (execute_state H base data ch p P L)"
  by (cases "state P")
     (simp_all add: execute_state_def request_line_moves header_moves body_moves header_field_moves
        st_header_value_def header_value_loop_moves after_strict)

lemma execute_byte_moves: "p < length data \<Longrightarrow> moves p (length data) (execute_byte H base data p P L)"
  by (simp add: execute_byte_def after_count execute_state_moves Let_def)

section \<open>Running the parser\<close>

function execute_loop :: "'h Handler \<Rightarrow> 64 word \<Rightarrow> string \<Rightarrow> nat \<Rightarrow> 'h HTTPParser \<Rightarrow> locals \<Rightarrow> 'h outcome" where
  "execute_loop H base data p P L =
     (if p \<ge> length data then Next P L p
      else case execute_byte H base data p P L of
             Next P' L' p' \<Rightarrow> execute_loop H base data (p' + 1) P' L'
           | Return P' n \<Rightarrow> Return P' n
           | Fault f \<Rightarrow> Fault f)"
  by pat_completeness auto
termination
proof (relation "measure (\<lambda>(H, base, data, p, P, L). length data - p)", goal_cases)
  case (2 H base data p P L P' L' p')
  then show ?case using execute_byte_moves [of p data H base P L] by simp arith
qed simp

declare execute_loop.simps [simp del]

text \<open>The marks that a state carries over from the buffer before.\<close>

definition in_url :: "parser_state \<Rightarrow> bool" where
  "in_url s \<longleftrightarrow> s \<in> {s_req_path, s_req_schema, s_req_schema_slash, s_req_schema_slash_slash, s_req_server_start,
     s_req_server, s_req_server_with_at, s_req_query_string_start, s_req_query_string}"

definition initial_locals :: "'h HTTPParser \<Rightarrow> locals" where
  "initial_locals P =
     \<lparr>header_field_mark = (if state P = s_header_field then Some 0 else None),
      header_value_mark = (if state P = s_header_value then Some 0 else None),
      url_mark = (if in_url (state P) then Some 0 else None),
      url_start_mark = None, body_mark = None, l_nread = nread P\<rparr>"

definition marks_set :: "locals \<Rightarrow> nat" where
  "marks_set L = (if header_field_mark L \<noteq> None then 1 else 0) + (if header_value_mark L \<noteq> None then 1 else 0) +
     (if url_mark L \<noteq> None then 1 else 0) + (if body_mark L \<noteq> None then 1 else 0)"

text \<open>The end of the buffer: what is marked goes to the callbacks.\<close>

definition execute_end :: "string \<Rightarrow> nat \<Rightarrow> 'h HTTPParser \<Rightarrow> locals \<Rightarrow> 'h outcome" where
  "execute_end data p P L =
     check_assert (marks_set L \<le> 1)
       (callback_header_field data p p P L (\<lambda>P L.
        callback_header_value data p p P L (\<lambda>P L.
        callback_url data p p P L (\<lambda>P L.
        callback_body data p p P L (\<lambda>P L.
          Return (P\<lparr>nread := l_nread L\<rparr>) (length data))))))"

definition http_parser_execute ::
  "'h Handler \<Rightarrow> 64 word \<Rightarrow> string \<Rightarrow> 'h HTTPParser \<Rightarrow> ('h HTTPParser \<times> nat) result" where
  "http_parser_execute H base data P =
     (let finish = (\<lambda>r. case r of Next P' L' p \<Rightarrow> Inr (P', p) | Return P' n \<Rightarrow> Inr (P', n) | Fault f \<Rightarrow> Inl f) in
      if parser_errno P \<noteq> CHPE_OK then Inr (P, 0)
      else if data = [] then
        (case state P of
           s_body_identity_eof \<Rightarrow> finish (CROW_CALLBACK_NOTIFY (on_message_complete H) 0 P (\<lambda>P'. Return P' 0))
         | s_dead \<Rightarrow> Inr (P, 0)
         | s_start_req \<Rightarrow> Inr (P, 0)
         | _ \<Rightarrow> Inr (P\<lparr>parser_errno := CHPE_INVALID_EOF_STATE\<rparr>, 1))
      else finish (case execute_loop H base data 0 P (initial_locals P) of
                     Next P' L' p \<Rightarrow> execute_end data p P' L'
                   | r \<Rightarrow> r))"

definition feed :: "'h Handler \<Rightarrow> 64 word \<Rightarrow> string \<Rightarrow> 'h HTTPParser \<Rightarrow> (bool \<times> 'h HTTPParser) result" where
  "feed H base buffer P =
     (if message_complete P then Inr (True, P)
      else case http_parser_execute H base buffer P of
             Inl f \<Rightarrow> Inl f
           | Inr (P', nparsed) \<Rightarrow>
               Inr (if parser_errno P' \<noteq> CHPE_OK then False else nparsed = length buffer, P'))"

definition parser_done :: "'h Handler \<Rightarrow> 'h HTTPParser \<Rightarrow> (bool \<times> 'h HTTPParser) result" where
  "parser_done H P = feed H 0 [] P"

end
