(* ===== verification/Http_Safety.thy ===== *)
theory Http_Safety
  imports Http_Execute Query_String_Proofs
begin

text \<open>
  The parser never fails an assertion and never reads outside a buffer, as long as no buffer contains a NUL.
  The invariant has two parts: what each state of the automaton says about the other
  fields of the parser, and which marks may be set in it. Each case of the switch keeps both.
\<close>

section \<open>The invariant\<close>

definition in_field :: "header_states \<Rightarrow> bool" where
  "in_field h \<longleftrightarrow> h \<in> {h_general, h_C, h_CO, h_CON, h_matching_connection, h_matching_proxy_connection,
     h_matching_content_length, h_matching_transfer_encoding, h_matching_upgrade, h_connection, h_content_length,
     h_transfer_encoding, h_upgrade}"

definition in_value :: "header_states \<Rightarrow> bool" where
  "in_value h \<longleftrightarrow> h \<noteq> h_connection \<and> h \<noteq> h_transfer_encoding"

definition in_body :: "parser_state \<Rightarrow> bool" where
  "in_body s \<longleftrightarrow> s \<in> {s_body_identity, s_body_identity_eof, s_chunk_data, s_chunk_data_almost_done}"

definition state_inv :: "'h HTTPParser \<Rightarrow> 32 word \<Rightarrow> bool" where
  "state_inv P n =
     (case state P of
        s_req_method \<Rightarrow> index P \<le> length (method_name (parser_method P))
      | s_header_field \<Rightarrow> in_field (header_state P)
      | s_header_value \<Rightarrow> in_value (header_state P)
      | s_header_almost_done \<Rightarrow> in_value (header_state P)
      | s_header_value_lws \<Rightarrow> in_value (header_state P)
      | s_header_value_start \<Rightarrow> False
      | s_chunk_size_start \<Rightarrow> has_flag F_CHUNKED P \<and> n = 0
      | s_chunk_size \<Rightarrow> has_flag F_CHUNKED P \<and> content_length P \<noteq> CROW_ULLONG_MAX
      | s_chunk_parameters \<Rightarrow> has_flag F_CHUNKED P \<and> content_length P \<noteq> CROW_ULLONG_MAX
      | s_chunk_size_almost_done \<Rightarrow> has_flag F_CHUNKED P \<and> content_length P \<noteq> CROW_ULLONG_MAX
      | s_chunk_data \<Rightarrow> has_flag F_CHUNKED P \<and> content_length P \<noteq> 0 \<and> content_length P \<noteq> CROW_ULLONG_MAX
      | s_chunk_data_almost_done \<Rightarrow> has_flag F_CHUNKED P \<and> content_length P = 0
      | s_chunk_data_done \<Rightarrow> has_flag F_CHUNKED P
      | s_body_identity \<Rightarrow> content_length P \<noteq> 0 \<and> content_length P \<noteq> CROW_ULLONG_MAX
      | _ \<Rightarrow> True)"

definition marked :: "nat option \<Rightarrow> bool \<Rightarrow> nat \<Rightarrow> bool" where
  "marked mark c p \<longleftrightarrow> (case mark of None \<Rightarrow> True | Some m \<Rightarrow> c \<and> m \<le> p)"

definition marks_inv :: "parser_state \<Rightarrow> locals \<Rightarrow> nat \<Rightarrow> bool" where
  "marks_inv s L p \<longleftrightarrow> marked (header_field_mark L) (s = s_header_field) p \<and>
     marked (header_value_mark L) (s = s_header_value) p \<and> marked (url_mark L) (in_url s) p \<and>
     marked (body_mark L) (in_body s) p"

definition parser_ok :: "'h HTTPParser \<Rightarrow> bool" where
  "parser_ok P \<longleftrightarrow> parser_errno P \<noteq> CHPE_OK \<or> state_inv P (nread P)"

definition good :: "'h HTTPParser \<Rightarrow> locals \<Rightarrow> nat \<Rightarrow> bool" where
  "good P L p \<longleftrightarrow> parser_errno P = CHPE_OK \<and> state_inv P (l_nread L) \<and> marks_inv (state P) L (p + 1)"

definition returned :: "'h HTTPParser \<Rightarrow> nat \<Rightarrow> bool" where
  "returned P n = parser_ok P"

abbreviation safe :: "'h outcome \<Rightarrow> bool" where
  "safe \<equiv> after good returned (\<lambda>_. False)"

lemma marked_simps [simp]:
  "marked None c p" "marked (Some m) c p \<longleftrightarrow> c \<and> m \<le> p" "marked mark False p \<longleftrightarrow> mark = None"
  by (auto simp: marked_def split: option.splits)

lemma marked_mono [elim]: "marked mark True p \<Longrightarrow> p \<le> q \<Longrightarrow> marked mark True q"
  by (auto simp: marked_def split: option.splits)

lemma marked_weaken: "marked mark c p \<Longrightarrow> p \<le> q \<Longrightarrow> (c \<Longrightarrow> c') \<Longrightarrow> marked mark c' q"
  by (auto simp: marked_def split: option.splits)

lemma marked_mark [simp]: "marked (CROW_MARK mark p) c q \<longleftrightarrow> c \<and> (if mark = None then p \<le> q else marked mark True q)"
  by (auto simp: marked_def CROW_MARK_def split: option.splits)

lemma mark_ok_marked: "marked mark c p \<Longrightarrow> p \<le> fin \<Longrightarrow> fin \<le> length data \<Longrightarrow> mark_ok data mark fin"
  by (auto simp: marked_def mark_ok_def split: option.splits)

lemma mark_ok_None [simp]: "mark_ok data None fin"
  by (simp add: mark_ok_def)

text \<open>The callbacks change no field of the automaton.\<close>

lemma run_mark_fields [simp]:
  assumes "on \<in> {on_url, on_header_field, on_header_value, on_body}"
  shows "state (run_mark on data m fin P) = state P" "index (run_mark on data m fin P) = index P"
    "header_state (run_mark on data m fin P) = header_state P" "flags (run_mark on data m fin P) = flags P"
    "content_length (run_mark on data m fin P) = content_length P"
    "parser_method (run_mark on data m fin P) = parser_method P"
    "parser_errno (run_mark on data m fin P) = parser_errno P"
    "parser_upgrade (run_mark on data m fin P) = parser_upgrade P"
  using assms
  by (auto simp: run_mark_def on_url_def on_header_field_def on_header_value_def on_body_def Let_def
      split: option.splits if_splits)

lemma on_headers_complete_fields [simp]:
  "state (on_headers_complete H P) = state P" "flags (on_headers_complete H P) = flags P"
  "content_length (on_headers_complete H P) = content_length P"
  by (simp_all add: on_headers_complete_def set_connection_parameters_def Let_def)

text \<open>States in which a message can be complete.\<close>

definition final_state :: "parser_state \<Rightarrow> bool" where
  "final_state s \<longleftrightarrow> s \<in> {s_start_req, s_headers_almost_done, s_headers_done, s_message_done, s_body_identity_eof}"

lemma final_state_inv: "final_state (state P) \<Longrightarrow> state_inv P n"
  by (auto simp: final_state_def state_inv_def)

lemma safe_complete:
  assumes "parser_errno P = CHPE_OK" and "final_state (state P)"
    and "\<And>P'. parser_errno P' = CHPE_OK \<Longrightarrow> final_state (state P') \<Longrightarrow> state P' = state P \<or> state P' = s_start_req \<Longrightarrow> after N R F (k P')"
  shows "after N R F (CROW_CALLBACK_NOTIFY (on_message_complete H) er P k)"
proof -
  obtain q where q: "mk_query_string (p_raw_url P) = Some q" using mk_query_string_safe [of "p_raw_url P"] by blast
  define P1 where "P1 = P\<lparr>message_complete := True,
      p_url := (if qs_point P \<noteq> 0 then take (min_content (qs_point P) (length (p_raw_url P))) (p_raw_url P)
                else p_raw_url P), p_url_params := q\<rparr>"
  have on: "on_message_complete H P = Inr (process_message H P1)"
    by (simp add: on_message_complete_def q P1_def)
  have P1: "parser_errno P1 = CHPE_OK" "state P1 = state P" using assms(1) by (simp_all add: P1_def)
  then have "parser_errno (process_message H P1) = CHPE_OK"
    "state (process_message H P1) = state P \<or> state (process_message H P1) = s_start_req"
    by (auto simp: process_message_def HTTPParser_clear_def Let_def split: prod.splits)
  with assms show ?thesis by (auto simp: after_notify on final_state_def)
qed

lemma marks_inv_final: "final_state s \<Longrightarrow> s \<noteq> s_body_identity_eof \<Longrightarrow>
   marks_inv s L p \<longleftrightarrow> header_field_mark L = None \<and> header_value_mark L = None \<and> url_mark L = None \<and> body_mark L = None"
  by (auto simp: final_state_def marks_inv_def in_url_def in_body_def)

section \<open>The request line\<close>

lemmas safe_defs = good_def returned_def state_inv_def parser_ok_def marks_inv_def in_url_def in_body_def after_rules Let_def

definition branch_ok :: "(HTTPMethod \<times> nat \<times> char) \<times> HTTPMethod \<Rightarrow> bool" where
  "branch_ok b = (fst (snd (fst b)) < length (method_name (snd b)))"

lemma branches_ok: "list_all branch_ok method_branches"
  by code_simp

lemma method_branches_index: "map_of method_branches (m, i, c) = Some m' \<Longrightarrow> i < length (method_name m')"
  using branches_ok by (force dest!: map_of_SomeD simp: list_all_iff branch_ok_def)

lemma method_names_short: "list_all (\<lambda>m. 0 < length (method_name m) \<and> length (method_name m) < 31) (methods @ [InternalMethodCount])"
  by code_simp

lemma method_name_short: "0 < length (method_name m)" "length (method_name m) < 31"
  using method_names_short methods_all [of m] unfolding list_all_iff by blast+

lemma safe_request_line:
  assumes "parser_errno P = CHPE_OK" and "marks_inv (state P) L p"
  shows "state P = s_dead \<Longrightarrow> safe (st_dead ch p P L)"
    "state P = s_req_http_start \<Longrightarrow> safe (st_req_http_start ch p P L)"
    "state P = s_req_http_major \<Longrightarrow> safe (st_req_http_major ch p P L)"
    "state P = s_req_http_dot \<Longrightarrow> safe (st_req_http_dot ch p P L)"
    "state P = s_req_http_minor \<Longrightarrow> safe (st_req_http_minor ch p P L)"
    "state P = s_req_http_end \<Longrightarrow> safe (st_req_http_end ch p P L)"
    "state P = s_req_line_almost_done \<Longrightarrow> safe (st_req_line_almost_done ch p P L)"
  using assms by (simp_all add: request_line_defs safe_defs)

lemma safe_start_req:
  assumes "parser_errno P = CHPE_OK" and "marks_inv (state P) L p" and "state P = s_start_req"
  shows "safe (st_start_req ch p P L)"
  using assms method_name_short(1)
  by (simp add: st_start_req_def safe_defs on_message_begin_def Suc_le_eq split: option.splits)

lemma safe_letter:
  assumes "parser_errno P = CHPE_OK" and "state P \<in> {s_req_http_H, s_req_http_HT, s_req_http_HTT, s_req_http_I, s_req_http_IC, s_req_http_HTTP}"
    and "marks_inv (state P) L p" and "s' \<in> {s_req_http_HT, s_req_http_HTT, s_req_http_HTTP, s_req_http_IC, s_req_http_major}"
  shows "safe (st_letter e s' ch p P L)"
  using assms by (auto simp: st_letter_def safe_defs)

lemma safe_req_method:
  assumes "parser_errno P = CHPE_OK" and "state_inv P n" and "marks_inv (state P) L p" and "state P = s_req_method"
  shows "safe (st_req_method ch p P L)"
proof -
  have i: "index P \<le> length (method_name (parser_method P))" using assms by (simp add: state_inv_def)
  then obtain m where m: "c_char (method_name (parser_method P)) (index P) = Some m"
    by (cases "index P < length (method_name (parser_method P))") (auto simp: c_char_def)
  have "index P < length (method_name (parser_method P))" if "ch = m" "ch \<noteq> nul"
    using m that by (auto simp: c_char_def split: if_splits)
  then show ?thesis using assms m method_name_short(2) [of "parser_method P"] method_name_short(2)
    by (auto simp: st_req_method_def safe_defs next_index_def dest!: method_branches_index split: option.splits)
qed

lemma parse_url_char_states:
  "fst (parse_url_char s ch) = s_dead \<or> in_url (fst (parse_url_char s ch))"
  by (simp add: parse_url_char_def parse_server_char_def in_url_def split: parser_state.splits)

lemma safe_url_char:
  assumes "parser_errno P = CHPE_OK" and "marked (url_mark L) True p"
    and "header_field_mark L = None" "header_value_mark L = None" "body_mark L = None"
  shows "safe (url_char base ch p P L)"
proof -
  obtain s' q where s': "parse_url_char (state P) ch = (s', q)" by fastforce
  then have "s' = s_dead \<or> in_url s'" using parse_url_char_states [of "state P" ch] by simp
  then show ?thesis using assms
    by (auto simp: url_char_def s' safe_defs elim!: marked_mono)
qed

lemma safe_url:
  assumes "parser_errno P = CHPE_OK" and "marks_inv (state P) L p" and "p < length data"
  shows "state P = s_req_spaces_before_url \<Longrightarrow> safe (st_req_spaces_before_url base ch p P L)"
    "state P \<in> {s_req_schema, s_req_schema_slash, s_req_schema_slash_slash, s_req_server_start} \<Longrightarrow> safe (st_req_schema base ch p P L)"
    "state P \<in> {s_req_server, s_req_server_with_at, s_req_path, s_req_query_string_start, s_req_query_string} \<Longrightarrow>
       safe (st_req_url base data ch p P L)"
proof -
  show "state P = s_req_spaces_before_url \<Longrightarrow> safe (st_req_spaces_before_url base ch p P L)"
    using assms by (auto simp: st_req_spaces_before_url_def safe_defs intro!: safe_url_char)
  show "state P \<in> {s_req_schema, s_req_schema_slash, s_req_schema_slash_slash, s_req_server_start} \<Longrightarrow> safe (st_req_schema base ch p P L)"
    using assms by (auto simp: st_req_schema_def safe_defs intro!: safe_url_char)
  assume s: "state P \<in> {s_req_server, s_req_server_with_at, s_req_path, s_req_query_string_start, s_req_query_string}"
  then have m: "marked (url_mark L) True p" "header_field_mark L = None" "header_value_mark L = None" "body_mark L = None"
    using assms(2) by (auto simp: marks_inv_def in_url_def in_body_def)
  have ok: "mark_ok data (url_mark L) p" using assms(3) by (intro mark_ok_marked [OF m(1)]) auto
  show "safe (st_req_url base data ch p P L)" using assms(1) m ok
    by (auto simp: st_req_url_def safe_defs intro!: safe_url_char)
qed

section \<open>The end of the headers\<close>

abbreviation unmarked :: "locals \<Rightarrow> bool" where
  "unmarked L \<equiv> header_field_mark L = None \<and> header_value_mark L = None \<and> url_mark L = None \<and> body_mark L = None"

lemma good_final:
  "parser_errno P = CHPE_OK \<Longrightarrow> final_state (state P) \<Longrightarrow> unmarked L \<Longrightarrow> good P L p"
  by (simp add: good_def final_state_inv marks_inv_def)

lemma safe_message_done:
  assumes "parser_errno P = CHPE_OK" and "final_state (state P)" and "unmarked L"
  shows "safe (notify_complete H p P L (\<lambda>P'. Next P' L p))"
  using assms by (intro safe_complete) (auto intro: good_final)

lemma safe_headers_done:
  assumes "parser_errno P = CHPE_OK" and "state P = s_headers_done" and "unmarked L"
  shows "safe (st_headers_done H ch p P L)"
proof -
  have f: "final_state (state P)" using assms(2) by (simp add: final_state_def)
  have "safe (CROW_CALLBACK_NOTIFY (on_message_complete H) (p + 1) (P\<lparr>nread := 0\<rparr>) (\<lambda>P'. Return (P'\<lparr>nread := 0\<rparr>) (p + 1)))"
    using assms f by (intro safe_complete) (auto simp: returned_def parser_ok_def intro: final_state_inv)
  moreover have "safe (CROW_CALLBACK_NOTIFY (on_message_complete H) (p + 1) (P\<lparr>nread := 0\<rparr>) (\<lambda>P'. Next P' (L\<lparr>l_nread := 0\<rparr>) p))"
    using assms f by (intro safe_message_done) auto
  ultimately show ?thesis using assms
    by (simp add: st_headers_done_def after_strict after_error after_if Let_def good_def returned_def parser_ok_def
        state_inv_def marks_inv_def has_flag_def)
qed

lemma safe_headers_almost_done:
  assumes "parser_errno P = CHPE_OK" and "state P = s_headers_almost_done" and "unmarked L"
  shows "safe (st_headers_almost_done H ch p P L)"
proof -
  have "safe (notify_complete H p P L (\<lambda>P'. Next P' L p))"
    using assms by (intro safe_message_done) (auto simp: final_state_def)
  moreover have "safe (st_headers_done H ch p (on_headers_complete H (P\<lparr>state := s_headers_done, parser_upgrade := b\<rparr>)) L)" for ch b
    using assms by (intro safe_headers_done) auto
  ultimately show ?thesis using assms
    by (simp add: st_headers_almost_done_def after_strict after_error after_if Let_def returned_def parser_ok_def)
qed

section \<open>Headers\<close>

lemma safe_header_field_start:
  assumes "parser_errno P = CHPE_OK" and "unmarked L"
  shows "safe (st_header_field_start H ch p P L)"
proof -
  have "safe (st_headers_almost_done H ch p (P\<lparr>state := s_headers_almost_done\<rparr>) L)" for ch
    using assms by (intro safe_headers_almost_done) auto
  then show ?thesis using assms
    by (simp add: st_header_field_start_def after_if after_error Let_def good_def returned_def parser_ok_def state_inv_def
        marks_inv_def first_header_state_def in_field_def in_url_def in_body_def)
qed

lemma match_name_Some: "\<exists>h. match_name name miss found c i way = Some h \<and> h \<in> {miss, found, way}"
  by (auto simp: match_name_def c_char_def)

lemma header_field_char_safe:
  assumes "in_field (header_state P)"
  shows "\<exists>p' P'. header_field_char data p ch c P = Inr (p', P') \<and> in_field (header_state P') \<and>
    state P' = state P \<and> parser_errno P' = parser_errno P"
proof -
  have m: "\<exists>P'. to_header_state (next_index P) (match_name name miss found c i way) = Inr P' \<and>
      header_state P' \<in> {miss, found, way} \<and> state P' = state P \<and> parser_errno P' = parser_errno P"
    for name miss found i way
    using match_name_Some [of name miss found c i way] by (auto simp: to_header_state_def next_index_def)
  show ?thesis
  proof (cases "header_state P")
    case h_matching_connection
    then show ?thesis using m [of "''connection''" h_general h_connection "index (next_index P)" h_matching_connection]
      by (auto simp: header_field_char_def in_field_def Let_def)
  next
    case h_matching_proxy_connection
    then show ?thesis using m [of "''proxy-connection''" h_general h_connection "index (next_index P)" h_matching_proxy_connection]
      by (auto simp: header_field_char_def in_field_def Let_def)
  next
    case h_matching_content_length
    then show ?thesis using m [of "''content-length''" h_general h_content_length "index (next_index P)" h_matching_content_length]
      by (auto simp: header_field_char_def in_field_def Let_def)
  next
    case h_matching_transfer_encoding
    then show ?thesis using m [of "''transfer-encoding''" h_general h_transfer_encoding "index (next_index P)" h_matching_transfer_encoding]
      by (auto simp: header_field_char_def in_field_def Let_def)
  next
    case h_matching_upgrade
    then show ?thesis using m [of "''upgrade''" h_general h_upgrade "index (next_index P)" h_matching_upgrade]
      by (auto simp: header_field_char_def in_field_def Let_def)
  qed (use assms in \<open>simp_all add: header_field_char_def in_field_def Let_def next_index_def\<close>)
qed

lemma header_field_loop_safe:
  "in_field (header_state P) \<Longrightarrow>
   \<exists>p' ch' P'. header_field_loop data p ch P = Inr (p', ch', P') \<and> in_field (header_state P') \<and>
     state P' = state P \<and> parser_errno P' = parser_errno P"
proof (induction data p ch P rule: header_field_loop.induct)
  case (1 data p ch0 P)
  show ?case
  proof (cases "p \<ge> length data \<or> CROW_TOKEN (data ! p) = nul")
    case True
    with "1.prems" show ?thesis by (auto simp: header_field_loop.simps [of data p] Let_def)
  next
    case False
    obtain q Q where q: "header_field_char data p (data ! p) (CROW_TOKEN (data ! p)) P = Inr (q, Q)"
      "in_field (header_state Q)" "state Q = state P" "parser_errno Q = parser_errno P"
      using header_field_char_safe [OF "1.prems"] by blast
    with "1.IH" [OF _ refl refl _ q(1) refl] False show ?thesis
      by (auto simp: header_field_loop.simps [of data p] Let_def)
  qed
qed

lemma safe_header_field:
  assumes "parser_errno P = CHPE_OK" and "state P = s_header_field" and "in_field (header_state P)"
    and "marks_inv (state P) L p" and "p < length data"
  shows "safe (st_header_field data ch p P L)"
proof -
  obtain p' ch' P' where l: "header_field_loop data p ch P = Inr (p', ch', P')" "in_field (header_state P')"
    "state P' = state P" "parser_errno P' = parser_errno P"
    using header_field_loop_safe [OF assms(3)] by blast
  have p': "p \<le> p'" "p' \<le> length data" using header_field_loop_range [OF l(1)] assms(5) by auto
  have m: "marked (header_field_mark L) True p" "header_value_mark L = None" "url_mark L = None" "body_mark L = None"
    using assms(2,4) by (auto simp: marks_inv_def in_url_def in_body_def)
  have "mark_ok data (header_field_mark L) p'" using p' by (intro mark_ok_marked [OF m(1)]) auto
  moreover have "marked (header_field_mark L) True p'" using m(1) p'(1) by (rule marked_mono)
  moreover have "Suc (length data - Suc 0) = length data" using assms(5) by simp
  ultimately show ?thesis using assms(1,2) m l
    by (auto simp: st_header_field_def after_if after_count after_error after_callbacks Let_def good_def returned_def
        parser_ok_def state_inv_def marks_inv_def in_url_def in_body_def)
qed

text \<open>A value never starts, and never goes on, in the two states that the assertion excludes.\<close>

lemma char_of_or_32:
  "char_of n = Char b0 b1 b2 b3 b4 b5 b6 b7 \<Longrightarrow> char_of (n OR 32) = Char b0 b1 b2 b3 b4 True b6 b7" for n :: nat
  by (simp add: char_of_def bit_or_iff bit_0 even_or_iff)

lemma CROW_LOWER_Char: "CROW_LOWER (Char b0 b1 b2 b3 b4 b5 b6 b7) = Char b0 b1 b2 b3 b4 True b6 b7"
  unfolding CROW_LOWER_def by (rule char_of_or_32) (rule char_of_char)

lemma CROW_LOWER_space: "CROW_LOWER ch = CHR '' '' \<Longrightarrow> ch = nul \<or> ch = CHR '' ''"
  by (cases ch) (auto simp: CROW_LOWER_Char)

lemma CROW_LOWER_tab: "CROW_LOWER ch \<noteq> tab"
  by (cases ch) (auto simp: CROW_LOWER_Char)

lemma value_start_safe:
  assumes "ch = CHR '' '' \<or> ch = nul \<Longrightarrow> header_state P \<noteq> h_connection"
    and "value_start ch P = Inr P'"
  shows "in_value (header_state P')" "state P' = state P" "parser_errno P' = parser_errno P"
  using assms CROW_LOWER_space [of ch] CROW_LOWER_tab [of ch]
  by (auto simp: value_start_def in_value_def Let_def set_flag_def split: header_states.splits if_splits)

lemma safe_header_value_start:
  assumes "parser_errno P = CHPE_OK" and "unmarked L" and "ch = CHR '' '' \<or> ch = nul \<Longrightarrow> header_state P \<noteq> h_connection"
  shows "safe (st_header_value_start ch p P L)"
proof (cases "value_start ch (P\<lparr>state := s_header_value, index := 0\<rparr>)")
  case (Inl e)
  then have "e \<noteq> CHPE_OK" by (auto simp: value_start_def Let_def split: header_states.splits if_splits)
  with Inl show ?thesis by (simp add: st_header_value_start_def after_error returned_def parser_ok_def Let_def)
next
  case (Inr P')
  with value_start_safe [of ch "P\<lparr>state := s_header_value, index := 0\<rparr>" P'] assms show ?thesis
    by (simp add: st_header_value_start_def good_def state_inv_def marks_inv_def in_url_def in_body_def Let_def)
qed

fun value_ok :: "'h value_step \<Rightarrow> bool" where
  "value_ok (Value_error e q) \<longleftrightarrow> e \<noteq> CHPE_OK"
| "value_ok (Value_fault f) \<longleftrightarrow> False"
| "value_ok (Value_next p h P) \<longleftrightarrow> in_value h \<and> state P = s_header_value \<and> parser_errno P = CHPE_OK"

lemma value_match_ok:
  assumes "state P = s_header_value" "parser_errno P = CHPE_OK" and "in_value miss" "in_value found" "in_value way"
  shows "value_ok (value_match name miss found way p c P)"
  using match_name_Some [of name miss found c "index (next_index P)" way] assms
  by (auto simp: value_match_def next_index_def Let_def)

lemma header_value_char_safe:
  assumes "in_value h" and "state P = s_header_value" "parser_errno P = CHPE_OK"
  shows "value_ok (header_value_char data p ch h P)"
proof -
  have "value_ok (value_content_length p ch P)"
    using assms by (simp add: value_content_length_def in_value_def split: option.splits)
  then show ?thesis using assms
    by (cases h) (simp_all add: header_value_char_def Let_def value_match_ok in_value_def split: sum.splits)
qed

lemma header_value_loop_safe:
  assumes "in_value h" and "state P = s_header_value" "parser_errno P = CHPE_OK" and "marks_inv s_header_value L p"
    and "p \<le> length data" and "data \<noteq> []"
  shows "safe (header_value_loop data start p h P L)"
  using assms
proof (induction data start p h P L rule: header_value_loop.induct)
  case (1 data start p h P L)
  then have m: "marked (header_value_mark L) True p" "header_field_mark L = None" "url_mark L = None" "body_mark L = None"
    by (auto simp: marks_inv_def in_url_def in_body_def)
  have ok: "mark_ok data (header_value_mark L) p" using "1.prems"(5) by (intro mark_ok_marked [OF m(1)]) auto
  note defs = after_rules Let_def good_def returned_def parser_ok_def state_inv_def marks_inv_def in_url_def in_body_def
  consider "p = length data" | "p < length data" "data ! p = cr \<or> data ! p = lf \<or> \<not> lenient_http_headers P \<and> \<not> CROW_IS_HEADER_CHAR (data ! p)"
    | "p < length data" "data ! p \<noteq> cr" "data ! p \<noteq> lf" "lenient_http_headers P \<or> CROW_IS_HEADER_CHAR (data ! p)"
    using "1.prems"(5) by fastforce
  then show ?case
  proof cases
    case 1
    with "1.prems" m show ?thesis by (subst header_value_loop.simps) (simp add: defs)
  next
    case 2
    with "1.prems" m ok show ?thesis by (subst header_value_loop.simps) (auto simp: defs st_header_almost_done_def)
  next
    case 3
    have v: "value_ok (header_value_char data p (data ! p) h P)" using "1.prems" by (intro header_value_char_safe) auto
    show ?thesis
    proof (cases "header_value_char data p (data ! p) h P")
      case (Value_next p' h' P')
      then have p': "p \<le> p'" "p' < length data"
        using header_value_char_ge [OF Value_next] header_value_char_le [OF Value_next] 3 by auto
      have "marks_inv s_header_value L (p' + 1)" using m p' by (auto simp: marks_inv_def elim!: marked_mono)
      then have "safe (header_value_loop data start (p' + 1) h' P' L)"
        using "1.IH" [OF _ refl _ _ _ Value_next] "1.prems"(6) 3 v Value_next p' by auto
      with Value_next 3 show ?thesis by (auto simp: header_value_loop.simps [of data start p] Let_def)
    qed (use 3 v in \<open>auto simp: header_value_loop.simps [of data start p] defs\<close>)
  qed
qed

lemma header_value_step_safe:
  assumes "in_value (header_state P)" and "state P = s_header_value" "parser_errno P = CHPE_OK"
    and "marks_inv (state P) L p" and "p < length data"
  shows "safe (st_header_value data p P L)"
proof -
  have "data \<noteq> []" using assms(5) by auto
  then show ?thesis using assms unfolding st_header_value_def by (intro header_value_loop_safe) auto
qed

lemma safe_header_value_lws:
  assumes "parser_errno P = CHPE_OK" and "unmarked L" and "in_value (header_state P)"
  shows "safe (st_header_value_lws H ch p P L)"
proof -
  have "safe (st_header_value_start ch p (Q\<lparr>state := s_header_value_start\<rparr>) L)"
    if "Q = (if header_state P = h_content_length_num then P\<lparr>header_state := h_content_length_ws\<rparr> else P)" for Q
    using assms that by (intro safe_header_value_start) (auto simp: in_value_def)
  moreover have "safe (st_header_field_start H ch p (Q\<lparr>state := s_header_field_start\<rparr>) L)" if "parser_errno Q = CHPE_OK" for Q
    using assms that by (intro safe_header_field_start) auto
  ultimately show ?thesis using assms(1)
    by (auto simp: st_header_value_lws_def set_flag_def Let_def after_if split: header_states.splits)
qed

lemma safe_header_value_discard_lws:
  assumes "parser_errno P = CHPE_OK" and "unmarked L" and "p < length data"
  shows "safe (st_header_value_discard_lws H data ch p P L)"
proof -
  have "safe (st_header_field_start H ch p Q L')" if "parser_errno Q = CHPE_OK" "unmarked L'" for Q L'
    using that by (rule safe_header_field_start)
  then show ?thesis using assms
    by (simp add: st_header_value_discard_lws_def after_if after_callbacks good_def state_inv_def marks_inv_def
        in_url_def in_body_def CROW_MARK_def mark_ok_def)
qed

section \<open>Bodies\<close>

lemma unhex_range: "- 1 \<le> unhex_val c \<and> unhex_val c \<le> 15"
proof -
  have "list_all (\<lambda>v. - 1 \<le> v \<and> v \<le> 15) unhex" by code_simp
  then show ?thesis by (auto simp: unhex_val_def table_def list_all_length)
qed

lemma word_64_not_max: "0 \<le> k \<Longrightarrow> k < 18446744073709551615 \<Longrightarrow> word_of_int k \<noteq> CROW_ULLONG_MAX"
proof
  assume k: "0 \<le> k" "k < 18446744073709551615" and "word_of_int k = CROW_ULLONG_MAX"
  then have "uint (word_of_int k :: 64 word) = uint (- 1 :: 64 word)" by (simp add: CROW_ULLONG_MAX_def)
  moreover have "uint (word_of_int k :: 64 word) = k" using k by (simp add: uint_word_of_int)
  moreover have "uint (- 1 :: 64 word) = 18446744073709551615" by (simp add: unsigned_minus_1_eq_mask mask_eq_exp_minus_1)
  ultimately show False using k by simp
qed

lemma chunk_size_below:
  assumes "\<not> (CROW_ULLONG_MAX - 16) div 16 < n" and "0 \<le> v" "v \<le> 15"
  shows "n * 16 + of_int v \<noteq> CROW_ULLONG_MAX"
proof -
  have "uint ((CROW_ULLONG_MAX - 16) div 16) = 1152921504606846974" by (simp add: CROW_ULLONG_MAX_def)
  then have "uint n \<le> 1152921504606846974" using assms(1) by (simp add: not_less word_le_def)
  then have "word_of_int (uint n * 16 + v) \<noteq> CROW_ULLONG_MAX" using assms(2,3) by (intro word_64_not_max) simp_all
  then show ?thesis by simp
qed

lemma content_length_left: "0 < left \<Longrightarrow> n - of_nat (min_content n left) \<noteq> CROW_ULLONG_MAX"
proof (cases "uint n < int left")
  case False
  moreover assume "0 < left"
  moreover have "uint n < 18446744073709551616" using uint_lt2p [of n] by simp
  ultimately have "word_of_int (uint n - int left) \<noteq> CROW_ULLONG_MAX" by (intro word_64_not_max) simp_all
  with False show ?thesis by (simp add: min_content_def)
qed (simp add: min_content_def CROW_ULLONG_MAX_def)

lemmas body_safe_defs = body_defs after_if after_strict after_assert after_error after_callbacks Let_def good_def returned_def
  parser_ok_def state_inv_def marks_inv_def in_url_def in_body_def

lemma safe_body_identity:
  assumes "parser_errno P = CHPE_OK" and "state P = s_body_identity" and "state_inv P n" and "marks_inv (state P) L p"
    and "p < length data"
  shows "safe (st_body_identity H data p P L)"
proof -
  have c: "content_length P \<noteq> 0" "content_length P \<noteq> CROW_ULLONG_MAX" using assms(2,3) by (auto simp: state_inv_def)
  have m: "marked (body_mark L) True p" "header_field_mark L = None" "header_value_mark L = None" "url_mark L = None"
    using assms(2,4) by (auto simp: marks_inv_def in_url_def in_body_def)
  define q where "q = p + to_read data p P - Suc 0"
  have q: "p \<le> q" "q < length data" using to_read_range [OF assms(5) c(1)] by (simp_all add: q_def)
  have "mark_ok data (CROW_MARK (body_mark L) p) (Suc q)"
    using q m(1) by (intro mark_ok_marked [of _ True p]) auto
  moreover have "safe (st_message_done H q Q L')"
    if "parser_errno Q = CHPE_OK" "state Q = s_message_done" "unmarked L'" for Q L'
    using that unfolding st_message_done_def by (intro safe_message_done) (auto simp: final_state_def)
  moreover have "content_length P - of_nat (to_read data p P) \<noteq> CROW_ULLONG_MAX"
    unfolding to_read_def using assms(5) by (intro content_length_left) simp
  moreover have "marked (body_mark L) True (Suc q)" using m(1) q(1) by (auto elim: marked_mono)
  ultimately show ?thesis using assms(1,2) c m q
    by (simp add: st_body_identity_def q_def [symmetric] after_if after_assert after_callbacks Let_def good_def state_inv_def
        marks_inv_def in_url_def in_body_def)
qed

lemma safe_chunk_data:
  assumes "parser_errno P = CHPE_OK" and "state P = s_chunk_data" and "state_inv P n" and "marks_inv (state P) L p"
    and "p < length data"
  shows "safe (st_chunk_data data p P L)"
proof -
  have c: "content_length P \<noteq> 0" "content_length P \<noteq> CROW_ULLONG_MAX" "has_flag F_CHUNKED P"
    using assms(2,3) by (auto simp: state_inv_def)
  have m: "marked (body_mark L) True p" "header_field_mark L = None" "header_value_mark L = None" "url_mark L = None"
    using assms(2,4) by (auto simp: marks_inv_def in_url_def in_body_def)
  define q where "q = p + to_read data p P - Suc 0"
  have q: "p \<le> q" using to_read_range(1) [OF assms(5) c(1)] by (simp add: q_def)
  have "content_length P - of_nat (to_read data p P) \<noteq> CROW_ULLONG_MAX"
    unfolding to_read_def using assms(5) by (intro content_length_left) simp
  moreover have "marked (body_mark L) True (Suc q)" using m(1) q by (auto elim: marked_mono)
  ultimately show ?thesis using assms(1,2) c m q
    by (simp add: st_chunk_data_def q_def [symmetric] after_assert Let_def good_def state_inv_def has_flag_def
        marks_inv_def in_url_def in_body_def)
qed

lemma safe_body:
  assumes "parser_errno P = CHPE_OK" and "state_inv P n" and "marks_inv (state P) L p" and "p < length data"
  shows "state P = s_body_identity_eof \<Longrightarrow> safe (st_body_identity_eof data p P L)"
    "state P = s_chunk_size_start \<Longrightarrow> l_nread L = 1 \<Longrightarrow> safe (st_chunk_size_start ch p P L)"
    "state P = s_chunk_size \<Longrightarrow> safe (st_chunk_size ch p P L)"
    "state P = s_chunk_parameters \<Longrightarrow> safe (st_chunk_parameters ch p P L)"
    "state P = s_chunk_size_almost_done \<Longrightarrow> safe (st_chunk_size_almost_done ch p P L)"
    "state P = s_chunk_data_almost_done \<Longrightarrow> safe (st_chunk_data_almost_done data ch p P L)"
    "state P = s_chunk_data_done \<Longrightarrow> safe (st_chunk_data_done ch p P L)"
proof -
  have small: "word_of_int v \<noteq> CROW_ULLONG_MAX" if "- 1 \<le> v" "v \<le> 15" "v \<noteq> - 1" for v
    using that by (intro word_64_not_max) auto
  show "safe (st_body_identity_eof data p P L)" if "state P = s_body_identity_eof"
    using assms that by (auto simp: body_safe_defs elim!: marked_mono)
  show "safe (st_chunk_size_start ch p P L)" if "state P = s_chunk_size_start" "l_nread L = 1"
    using assms that unhex_range [of ch] small by (simp add: body_safe_defs has_flag_def)
  show "safe (st_chunk_size ch p P L)" if "state P = s_chunk_size"
    using assms that unhex_range [of ch] chunk_size_below [of "content_length P" "unhex_val ch"]
    by (simp add: body_safe_defs has_flag_def)
  show "safe (st_chunk_parameters ch p P L)" if "state P = s_chunk_parameters"
    using assms that by (simp add: body_safe_defs has_flag_def)
  show "safe (st_chunk_size_almost_done ch p P L)" if "state P = s_chunk_size_almost_done"
    using assms that by (simp add: body_safe_defs has_flag_def set_flag_def)
  show "safe (st_chunk_data_done ch p P L)" if "state P = s_chunk_data_done"
    using assms that by (simp add: body_safe_defs has_flag_def)
  assume s: "state P = s_chunk_data_almost_done"
  then have "mark_ok data (body_mark L) p" using assms(3,4)
    by (intro mark_ok_marked [of _ True p]) (auto simp: marks_inv_def in_body_def)
  then show "safe (st_chunk_data_almost_done data ch p P L)" using assms s by (simp add: body_safe_defs has_flag_def)
qed

section \<open>The whole parser\<close>

lemma safe_header_value_discard_ws:
  assumes "parser_errno P = CHPE_OK" and "state P = s_header_value_discard_ws" and "unmarked L" and "ch \<noteq> nul"
  shows "safe (st_header_value_discard_ws ch p P L)"
proof -
  have "safe (st_header_value_start ch p P L)" if "ch \<noteq> CHR '' ''" using assms that by (intro safe_header_value_start) auto
  then show ?thesis using assms
    by (simp add: st_header_value_discard_ws_def after_if good_def state_inv_def marks_inv_def)
qed

lemma safe_header_states:
  assumes "parser_errno P = CHPE_OK" and "state_inv P n" and "marks_inv (state P) L p" and "p < length data" and "ch \<noteq> nul"
    and "state P \<in> {s_header_field_start, s_header_value_discard_ws, s_header_value_discard_ws_almost_done,
      s_header_value_discard_lws, s_header_value_lws, s_header_almost_done, s_headers_almost_done, s_headers_done, s_message_done}"
  shows "safe (execute_state H base data ch p P L)"
proof -
  have u: "unmarked L" using assms(3,6) by (auto simp: marks_inv_def in_url_def in_body_def)
  have "safe (CROW_STRICT_CHECK (ch \<noteq> lf) P L p (Next (P\<lparr>state := s_header_value_discard_lws\<rparr>) L p))"
    using assms(1) u by (simp add: after_strict good_def returned_def parser_ok_def state_inv_def marks_inv_def)
  moreover have "safe (st_header_almost_done ch p P L)" if "in_value (header_state P)"
    using assms(1) u that
    by (simp add: st_header_almost_done_def after_if after_error good_def returned_def parser_ok_def state_inv_def marks_inv_def)
  moreover have "safe (st_message_done H p P L)" if "state P = s_message_done"
    using assms(1) u that unfolding st_message_done_def by (intro safe_message_done) (auto simp: final_state_def)
  ultimately show ?thesis
    using assms(1,2,4,5,6) u safe_header_field_start [OF assms(1) u] safe_header_value_discard_ws [OF assms(1) _ u]
      safe_header_value_discard_lws [OF assms(1) u assms(4)] safe_header_value_lws [OF assms(1) u]
      safe_headers_almost_done [OF assms(1) _ u] safe_headers_done [OF assms(1) _ u]
    by (auto simp: execute_state_def state_inv_def)
qed

lemma safe_execute_state:
  assumes "parser_errno P = CHPE_OK" and "state_inv P n" and "marks_inv (state P) L p" and "p < length data"
    and "ch \<noteq> nul" and "state P = s_chunk_size_start \<Longrightarrow> l_nread L = 1"
  shows "safe (execute_state H base data ch p P L)"
proof -
  note request_line = safe_request_line [OF assms(1,3)] safe_start_req [OF assms(1,3)] safe_req_method [OF assms(1,2,3)]
    safe_letter [OF assms(1) _ assms(3)] safe_url [OF assms(1,3,4)]
  note header = safe_header_field [OF assms(1) _ _ assms(3,4)] header_value_step_safe [OF _ _ assms(1,3,4)]
  note body = safe_body_identity [OF assms(1) _ assms(2,3,4)] safe_chunk_data [OF assms(1) _ assms(2,3,4)] safe_body [OF assms(1-4)]
  have "state P = s_header_value_start \<Longrightarrow> False" "state P = s_header_field \<Longrightarrow> in_field (header_state P)"
    "state P = s_header_value \<Longrightarrow> in_value (header_state P)"
    using assms(2) by (simp_all add: state_inv_def)
  then show ?thesis
    using safe_header_states [OF assms(1-5), of H base] assms(6)
    by (cases "state P") (simp_all add: execute_state_def request_line header body)
qed

lemma safe_execute_byte:
  assumes "parser_errno P = CHPE_OK" and "state_inv P (l_nread L)" and "marks_inv (state P) L p" and "p < length data"
    and "nul \<notin> set data"
  shows "safe (execute_byte H base data p P L)"
proof -
  have "data ! p \<noteq> nul" using assms(4,5) by (metis nth_mem)
  moreover have "marks_inv (state P) (L\<lparr>l_nread := l_nread L + 1\<rparr>) p" using assms(3) by (simp add: marks_inv_def)
  ultimately have "safe (execute_state H base data (data ! p) p P (L\<lparr>l_nread := l_nread L + 1\<rparr>))"
    using assms(1,2,4) by (intro safe_execute_state) (auto simp: state_inv_def)
  moreover have "safe (execute_state H base data (data ! p) p P L)" if "\<not> CROW_PARSING_HEADER (state P)"
    using assms(1-4) that \<open>data ! p \<noteq> nul\<close> by (intro safe_execute_state) (auto simp: CROW_PARSING_HEADER_def)
  ultimately show ?thesis
    by (simp add: execute_byte_def after_if after_count returned_def parser_ok_def Let_def)
qed

lemma safe_execute_loop:
  assumes "parser_errno P = CHPE_OK" and "state_inv P (l_nread L)" and "marks_inv (state P) L p" and "p \<le> length data"
    and "nul \<notin> set data"
  shows "after (\<lambda>P L p. parser_errno P = CHPE_OK \<and> state_inv P (l_nread L) \<and> marks_inv (state P) L p \<and> p = length data)
    returned (\<lambda>_. False) (execute_loop H base data p P L)"
  using assms
proof (induction H base data p P L rule: execute_loop.induct)
  case (1 H base data p P L)
  show ?case
  proof (cases "p < length data")
    case True
    have s: "safe (execute_byte H base data p P L)" using "1.prems" True by (intro safe_execute_byte) auto
    show ?thesis
    proof (cases "execute_byte H base data p P L")
      case (Next P' L' p')
      have "p' < length data" using execute_byte_moves [OF True, of H base P L] Next by simp
      with "1.IH" [OF _ Next] True s Next "1.prems"(5) show ?thesis
        by (simp add: execute_loop.simps [of H base data p] good_def)
    qed (use True s in \<open>simp_all add: execute_loop.simps [of H base data p]\<close>)
  next
    case False
    with "1.prems" have "execute_loop H base data p P L = Next P L p" by (subst execute_loop.simps) simp
    with False "1.prems" show ?thesis by simp
  qed
qed

lemma state_inv_cong:
  "state P' = state P \<Longrightarrow> index P' = index P \<Longrightarrow> parser_method P' = parser_method P \<Longrightarrow> header_state P' = header_state P \<Longrightarrow>
   flags P' = flags P \<Longrightarrow> content_length P' = content_length P \<Longrightarrow> state_inv P' n = state_inv P n"
  by (cases "state P") (simp_all add: state_inv_def has_flag_def)

lemma marks_set_le: "marks_inv s L p \<Longrightarrow> marks_set L \<le> 1"
  by (cases "in_url s"; cases "in_body s") (auto simp: marks_inv_def marks_set_def marked_def in_url_def in_body_def split: option.splits)

lemma safe_execute_end:
  assumes "parser_errno P = CHPE_OK" and "state_inv P (l_nread L)" and "marks_inv (state P) L (length data)"
  shows "after (\<lambda>_ _ _. False) returned (\<lambda>_. False) (execute_end data (length data) P L)"
proof -
  have "mark_ok data m (length data)" if "marked m c (length data)" for m c
    using that by (rule mark_ok_marked) auto
  then have "mark_ok data (header_field_mark L) (length data)" "mark_ok data (header_value_mark L) (length data)"
    "mark_ok data (url_mark L) (length data)" "mark_ok data (body_mark L) (length data)"
    using assms(3) unfolding marks_inv_def by blast+
  moreover have "state_inv P' n = state_inv P n"
    if "P' = (run_mark on_body data b e (run_mark on_url data u e (run_mark on_header_value data v e (run_mark on_header_field data f e P))))\<lparr>nread := r\<rparr>"
    for P' n b u v f e r using that by (intro state_inv_cong) simp_all
  ultimately show ?thesis using assms marks_set_le [OF assms(3)]
    by (simp add: execute_end_def after_assert after_callbacks returned_def parser_ok_def)
qed

lemma safe_http_parser_execute:
  assumes "parser_ok P" and "nul \<notin> set data"
  shows "\<exists>P' n. http_parser_execute H base data P = Inr (P', n) \<and> parser_ok P'"
proof -
  consider "parser_errno P \<noteq> CHPE_OK" | "parser_errno P = CHPE_OK" "data = []" | "parser_errno P = CHPE_OK" "data \<noteq> []" by blast
  then show ?thesis
  proof cases
    case 1
    with assms show ?thesis by (simp add: http_parser_execute_def)
  next
    case 2
    have "after (\<lambda>_ _ _. False) returned (\<lambda>_. False) (CROW_CALLBACK_NOTIFY (on_message_complete H) 0 P (\<lambda>P'. Return P' 0))" if "state P = s_body_identity_eof"
      using 2 that by (intro safe_complete) (auto simp: final_state_def returned_def parser_ok_def intro: final_state_inv)
    with 2 assms(1) show ?thesis
      by (auto simp: http_parser_execute_def Let_def parser_ok_def returned_def after_def good_def
          split: parser_state.splits outcome.splits)
  next
    case 3
    have i: "state_inv P (l_nread (initial_locals P))" "marks_inv (state P) (initial_locals P) 0"
      using assms(1) 3 by (auto simp: parser_ok_def initial_locals_def marks_inv_def)
    have "after (\<lambda>P L p. parser_errno P = CHPE_OK \<and> state_inv P (l_nread L) \<and> marks_inv (state P) L p \<and> p = length data)
        returned (\<lambda>_. False) (execute_loop H base data 0 P (initial_locals P))"
      using safe_execute_loop [OF 3(1) i _ assms(2)] by simp
    then show ?thesis
    proof (cases "execute_loop H base data 0 P (initial_locals P)")
      case (Next P' L' p)
      with \<open>after _ _ _ _\<close> safe_execute_end [of P' L' data] 3 show ?thesis
        by (cases "execute_end data (length data) P' L'") (auto simp: http_parser_execute_def Let_def returned_def)
    qed (use 3 in \<open>auto simp: http_parser_execute_def Let_def returned_def\<close>)
  qed
qed

section \<open>Sequences of calls\<close>

text \<open>What a connection calls on its parser, in any order.\<close>

datatype parser_call = Feed "64 word" string | Done | Clear

fun call_parser :: "'h Handler \<Rightarrow> parser_call \<Rightarrow> 'h HTTPParser \<Rightarrow> 'h HTTPParser result" where
  "call_parser H (Feed base buffer) P = map_sum id snd (feed H base buffer P)"
| "call_parser H Done P = map_sum id snd (parser_done H P)"
| "call_parser H Clear P = Inr (HTTPParser_clear P)"

fun run_parser :: "'h Handler \<Rightarrow> parser_call list \<Rightarrow> 'h HTTPParser \<Rightarrow> 'h HTTPParser result" where
  "run_parser H [] P = Inr P"
| "run_parser H (c # cs) P = (case call_parser H c P of Inl f \<Rightarrow> Inl f | Inr P' \<Rightarrow> run_parser H cs P')"

fun without_nul :: "parser_call \<Rightarrow> bool" where
  "without_nul (Feed base buffer) \<longleftrightarrow> nul \<notin> set buffer"
| "without_nul Done \<longleftrightarrow> True"
| "without_nul Clear \<longleftrightarrow> True"

lemma feed_safe: "parser_ok P \<Longrightarrow> nul \<notin> set buffer \<Longrightarrow> \<exists>b P'. feed H base buffer P = Inr (b, P') \<and> parser_ok P'"
  using safe_http_parser_execute [of P buffer H base] by (auto simp: feed_def)

lemma parser_call_safe: "parser_ok P \<Longrightarrow> without_nul c \<Longrightarrow> \<exists>P'. call_parser H c P = Inr P' \<and> parser_ok P'"
proof (cases c)
  case Clear
  assume "parser_ok P"
  with Clear show ?thesis by (simp add: HTTPParser_clear_def parser_ok_def state_inv_def)
next
  case Done
  assume "parser_ok P"
  with Done feed_safe [of P "[]" H 0] show ?thesis by (auto simp: parser_done_def)
next
  case (Feed base buffer)
  assume "parser_ok P" "without_nul c"
  with Feed feed_safe [of P buffer H base] show ?thesis by auto
qed

lemma run_parser_safe: "parser_ok P \<Longrightarrow> list_all without_nul cs \<Longrightarrow> \<exists>P'. run_parser H cs P = Inr P' \<and> parser_ok P'"
proof (induction cs arbitrary: P)
  case (Cons c cs)
  then obtain P' where "call_parser H c P = Inr P'" "parser_ok P'" using parser_call_safe [of P c H] by auto
  with Cons show ?case by simp
qed simp

lemma mk_HTTPParser_ok: "parser_ok (mk_HTTPParser h)"
  by (simp add: mk_HTTPParser_def parser_ok_def state_inv_def)

end
