(* ===== verification/Http_Request.thy ===== *)
theory Http_Request
  imports Http_Safety
begin

text \<open>
  What the parser makes of a request as a client writes it: a method, a URL, HTTP/1.1, lines of headers.
  A run of the loop is put together from the runs over the parts of the text.
\<close>

section \<open>Runs of the loop\<close>

definition runs :: "'h Handler \<Rightarrow> 64 word \<Rightarrow> string \<Rightarrow> nat \<Rightarrow> 'h HTTPParser \<Rightarrow> locals \<Rightarrow> nat \<Rightarrow> 'h HTTPParser \<Rightarrow> locals \<Rightarrow> bool" where
  "runs H base data p P L p' P' L' \<longleftrightarrow> execute_loop H base data p P L = execute_loop H base data p' P' L'"

lemma runs_refl: "runs H base data p P L p P L"
  by (simp add: runs_def)

lemma runs_trans [trans]:
  "runs H base data p P L p' P' L' \<Longrightarrow> runs H base data p' P' L' p'' P'' L'' \<Longrightarrow> runs H base data p P L p'' P'' L''"
  by (simp add: runs_def)

text \<open>In the headers the number of bytes read is the position, for a buffer that starts the message.\<close>

definition plain_locals :: "nat option \<Rightarrow> nat option \<Rightarrow> nat \<Rightarrow> locals" where
  "plain_locals u s p = \<lparr>header_field_mark = None, header_value_mark = None, url_mark = u, url_start_mark = s,
     body_mark = None, l_nread = of_nat p\<rparr>"

lemma header_size_ok: "p \<le> 81920 \<Longrightarrow> \<not> max_header_size < of_nat p"
proof -
  assume "p \<le> 81920"
  then have "unat (of_nat p :: 32 word) = p" by (simp add: unat_of_nat)
  moreover have "unat max_header_size = 81920" by (simp add: max_header_size_def)
  ultimately show ?thesis using \<open>p \<le> 81920\<close> by (simp add: word_less_nat_alt)
qed

lemma drop_Cons_nth:
  assumes "drop p data = c # rest"
  shows "p < length data" "data ! p = c" "drop (Suc p) data = rest"
  using assms by (metis drop_eq_Nil leI list.distinct(1), metis assms hd_drop_conv_nth drop_eq_Nil leI list.distinct(1) list.sel(1),
      metis assms drop_Suc list.sel(3) tl_drop)

lemma run_header_byte:
  assumes "drop p data = c # rest" and "CROW_PARSING_HEADER (state P)" and "l_nread L = of_nat p" and "p < 81920"
    and "execute_state H base data c p P (L\<lparr>l_nread := of_nat (Suc p)\<rparr>) = Next P' L' p'"
  shows "runs H base data p P L (Suc p') P' L'"
proof -
  have "\<not> max_header_size < of_nat (Suc p)" using assms(4) by (intro header_size_ok) simp
  then have "execute_byte H base data p P L = Next P' L' p'"
    using assms drop_Cons_nth [OF assms(1)] by (simp add: execute_byte_def CROW_COUNT_HEADER_SIZE_def add.commute Let_def)
  then show ?thesis using drop_Cons_nth(1) [OF assms(1)]
    by (simp add: runs_def execute_loop.simps [of H base data p])
qed

lemma run_line_byte:
  assumes "drop p data = c # rest" and "CROW_PARSING_HEADER (state P)" and "p < 81920"
    and "execute_state H base data c p P (plain_locals u s (Suc p)) = Next P' (plain_locals u' s' (Suc p)) p"
  shows "runs H base data p P (plain_locals u s p) (Suc p) P' (plain_locals u' s' (Suc p))"
  using assms by (intro run_header_byte) (auto simp: plain_locals_def)

section \<open>The request line\<close>

definition method_step :: "HTTPMethod \<times> nat \<Rightarrow> char \<Rightarrow> (HTTPMethod \<times> nat) option" where
  "method_step mi ch =
     (case mi of (m, i) \<Rightarrow>
        case c_char (method_name m) i of
          None \<Rightarrow> None
        | Some e \<Rightarrow>
            if ch = nul \<or> ch = CHR '' '' then None
            else if ch = e then Some (m, (i + 1) mod 32)
            else if 65 \<le> byte ch \<and> byte ch \<le> 90 \<or> ch = CHR ''-'' then
              map_option (\<lambda>m'. (m', (i + 1) mod 32)) (map_of method_branches (m, i, ch))
            else None)"

fun method_steps :: "HTTPMethod \<times> nat \<Rightarrow> string \<Rightarrow> (HTTPMethod \<times> nat) option" where
  "method_steps mi [] = Some mi"
| "method_steps mi (c # w) = (case method_step mi c of None \<Rightarrow> None | Some mi' \<Rightarrow> method_steps mi' w)"

definition method_read :: "HTTPMethod \<Rightarrow> bool" where
  "method_read m =
     (case method_name m of
        [] \<Rightarrow> False
      | c # w \<Rightarrow> CROW_IS_ALPHA c \<and> c \<noteq> cr \<and> c \<noteq> lf \<and>
          (case first_method c of
             None \<Rightarrow> False
           | Some m0 \<Rightarrow> method_steps (m0, 1) w = Some (m, length (c # w))))"

lemma methods_read: "list_all method_read methods"
  by code_simp

lemma st_req_method_step:
  "method_step (parser_method P, index P) ch = Some (m', i') \<Longrightarrow>
   st_req_method ch p P L = Next (P\<lparr>parser_method := m', index := i'\<rparr>) L p"
  by (auto simp: method_step_def st_req_method_def next_index_def split: option.splits if_splits)

lemma run_method_steps:
  assumes "drop p data = w @ rest" and "state P = s_req_method" and "p + length w \<le> 81920"
    and "method_steps (parser_method P, index P) w = Some (m', i')"
  shows "runs H base data p P (plain_locals u s p) (p + length w) (P\<lparr>parser_method := m', index := i'\<rparr>)
    (plain_locals u s (p + length w))"
  using assms
proof (induction w arbitrary: p P)
  case (Cons c w)
  then obtain m1 i1 where s: "method_step (parser_method P, index P) c = Some (m1, i1)" "method_steps (m1, i1) w = Some (m', i')"
    by (auto split: option.splits)
  have "runs H base data p P (plain_locals u s p) (Suc p) (P\<lparr>parser_method := m1, index := i1\<rparr>) (plain_locals u s (Suc p))"
    using Cons.prems s(1) by (intro run_line_byte) (auto simp: CROW_PARSING_HEADER_def execute_state_def st_req_method_step)
  also have "runs H base data (Suc p) (P\<lparr>parser_method := m1, index := i1\<rparr>) (plain_locals u s (Suc p)) (Suc p + length w)
      ((P\<lparr>parser_method := m1, index := i1\<rparr>)\<lparr>parser_method := m', index := i'\<rparr>) (plain_locals u s (Suc p + length w))"
    using Cons.prems s(2) drop_Cons_nth(3) [of p data c "w @ rest"] by (intro Cons.IH) auto
  finally show ?case by simp
next
  case Nil
  then have "m' = parser_method P" "i' = index P" by simp_all
  then show ?case by (simp add: runs_refl)
qed

lemma run_method:
  assumes "drop p data = method_name m @ '' '' @ rest" and "state P = s_start_req" and "parser_errno P = CHPE_OK"
    and "p + length (method_name m) < 81920" and "m \<in> set methods"
  shows "\<exists>i. runs H base data p P (plain_locals u s p) (p + length (method_name m) + 1)
    (P\<lparr>flags := 0, uses_transfer_encoding := False, content_length := CROW_ULLONG_MAX, parser_method := m, index := i,
       state := s_req_spaces_before_url\<rparr>) (plain_locals u s (p + length (method_name m) + 1))"
proof -
  have "method_read m" using methods_read assms(5) by (auto simp: list_all_iff)
  then obtain c w m0 where c: "method_name m = c # w" "CROW_IS_ALPHA c" "c \<noteq> cr" "c \<noteq> lf" "first_method c = Some m0"
    "method_steps (m0, 1) w = Some (m, length (c # w))"
    by (auto simp: method_read_def split: list.splits option.splits)
  define P1 where "P1 = P\<lparr>flags := 0, uses_transfer_encoding := False, content_length := CROW_ULLONG_MAX,
    parser_method := m0, index := 1, state := s_req_method\<rparr>"
  have d: "drop (Suc p) data = w @ '' '' @ rest" using assms(1) c(1) drop_Cons_nth(3) by simp
  have "runs H base data p P (plain_locals u s p) (Suc p) P1 (plain_locals u s (Suc p))"
    using assms c by (intro run_line_byte)
      (auto simp: CROW_PARSING_HEADER_def execute_state_def st_start_req_def CROW_CALLBACK_NOTIFY_def check_assert_def
        on_message_begin_def P1_def Let_def)
  also have "runs H base data (Suc p) P1 (plain_locals u s (Suc p)) (Suc p + length w)
      (P1\<lparr>parser_method := m, index := length (c # w)\<rparr>) (plain_locals u s (Suc p + length w))"
    using assms(4) c d by (intro run_method_steps) (auto simp: P1_def)
  also have "runs H base data (Suc p + length w) (P1\<lparr>parser_method := m, index := length (c # w)\<rparr>)
      (plain_locals u s (Suc p + length w)) (Suc (Suc p + length w))
      (P1\<lparr>parser_method := m, index := (length (c # w) + 1) mod 32, state := s_req_spaces_before_url\<rparr>)
      (plain_locals u s (Suc (Suc p + length w)))"
  proof (intro run_line_byte)
    show "drop (Suc p + length w) data = CHR '' '' # rest"
      using d by (metis add.commute append_Cons append_Nil append_eq_conv_conj drop_drop)
  qed (use assms(4) c in \<open>auto simp: CROW_PARSING_HEADER_def execute_state_def st_req_method_def c_char_def
      next_index_def P1_def\<close>)
  finally show ?thesis unfolding c(1) by (auto simp: P1_def)
qed

text \<open>A URL: a slash, then characters of a path, and after a question mark any of them with further question marks.\<close>

definition url_text :: "string \<Rightarrow> bool" where
  "url_text adr \<longleftrightarrow> adr \<noteq> [] \<and> hd adr = CHR ''/'' \<and> list_all (\<lambda>c. CROW_IS_URL_CHAR c \<or> c = CHR ''?'') adr"

definition url_path :: "string \<Rightarrow> string" where
  "url_path adr = takeWhile (\<lambda>c. c \<noteq> CHR ''?'') adr"

lemma url_char_not: "\<not> CROW_IS_URL_CHAR (CHR '' '')" "\<not> CROW_IS_URL_CHAR cr" "\<not> CROW_IS_URL_CHAR lf"
  "\<not> CROW_IS_URL_CHAR tab" "\<not> CROW_IS_URL_CHAR (CHR 0x0C)" "\<not> CROW_IS_URL_CHAR (CHR ''?'')"
  by code_simp+

lemma run_path:
  assumes "drop p data = w @ rest" and "state P = s_req_path" and "list_all CROW_IS_URL_CHAR w" and "p + length w \<le> 81920"
  shows "runs H base data p P (plain_locals u s p) (p + length w) P (plain_locals u s (p + length w))"
  using assms
proof (induction w arbitrary: p)
  case (Cons c w)
  have c: "c \<noteq> CHR '' ''" "c \<noteq> cr" "c \<noteq> lf" "c \<noteq> tab" "c \<noteq> CHR 0x0C" using Cons.prems(3) url_char_not by auto
  have "url_char base c p P (plain_locals u s (Suc p)) = Next (P\<lparr>state := state P\<rparr>) (plain_locals u s (Suc p)) p"
    using Cons.prems c by (simp add: url_char_def parse_url_char_def)
  then have "runs H base data p P (plain_locals u s p) (Suc p) P (plain_locals u s (Suc p))"
    using Cons.prems c by (intro run_line_byte) (auto simp: CROW_PARSING_HEADER_def execute_state_def st_req_url_def)
  also have "runs H base data (Suc p) P (plain_locals u s (Suc p)) (Suc p + length w) P (plain_locals u s (Suc p + length w))"
    using Cons.prems drop_Cons_nth(3) [of p data c "w @ rest"] by (intro Cons.IH) auto
  finally show ?case by simp
qed (simp add: runs_refl)

lemma run_query:
  assumes "drop p data = w @ rest" and "state P \<in> {s_req_query_string_start, s_req_query_string}"
    and "list_all (\<lambda>c. CROW_IS_URL_CHAR c \<or> c = CHR ''?'') w" and "p + length w \<le> 81920"
  shows "\<exists>s'. s' \<in> {s_req_query_string_start, s_req_query_string} \<and>
    runs H base data p P (plain_locals u s p) (p + length w) (P\<lparr>state := s'\<rparr>) (plain_locals u s (p + length w))"
  using assms
proof (induction w arbitrary: p P)
  case (Cons c w)
  have c: "c \<noteq> CHR '' ''" "c \<noteq> cr" "c \<noteq> lf" "c \<noteq> tab" "c \<noteq> CHR 0x0C" "CROW_IS_URL_CHAR c \<or> c = CHR ''?''"
    using Cons.prems(3) url_char_not by auto
  have "url_char base c p P (plain_locals u s (Suc p)) = Next (P\<lparr>state := s_req_query_string\<rparr>) (plain_locals u s (Suc p)) p"
    using Cons.prems(2) c by (elim insertE) (simp_all add: url_char_def parse_url_char_def)
  then have e: "execute_state H base data c p P (plain_locals u s (Suc p)) =
      Next (P\<lparr>state := s_req_query_string\<rparr>) (plain_locals u s (Suc p)) p"
    using Cons.prems(2) c by (elim insertE) (simp_all add: execute_state_def st_req_url_def)
  have h: "CROW_PARSING_HEADER (state P)" using Cons.prems(2) by (elim insertE) (simp_all add: CROW_PARSING_HEADER_def)
  have r: "runs H base data p P (plain_locals u s p) (Suc p) (P\<lparr>state := s_req_query_string\<rparr>) (plain_locals u s (Suc p))"
    using Cons.prems(1,4) by (intro run_line_byte [OF _ h _ e]) auto
  obtain s' where s': "s' \<in> {s_req_query_string_start, s_req_query_string}"
    "runs H base data (Suc p) (P\<lparr>state := s_req_query_string\<rparr>) (plain_locals u s (Suc p)) (Suc p + length w)
       ((P\<lparr>state := s_req_query_string\<rparr>)\<lparr>state := s'\<rparr>) (plain_locals u s (Suc p + length w))"
    using Cons.IH [of "Suc p" "P\<lparr>state := s_req_query_string\<rparr>"] Cons.prems drop_Cons_nth(3) [of p data c "w @ rest"] by auto
  with runs_trans [OF r s'(2)] show ?case by (intro exI [of _ s']) simp
next
  case Nil
  then show ?case by (intro exI [of _ "state P"]) (simp add: runs_refl)
qed

lemma run_url_chars:
  assumes "drop p data = adr @ rest" and "url_text adr" and "state P = s_req_spaces_before_url" and "parser_method P \<noteq> Connect"
    and "p + length adr \<le> 81920"
  shows "\<exists>s'. s' \<in> {s_req_path, s_req_query_string_start, s_req_query_string} \<and>
    runs H base data p P (plain_locals None None p) (p + length adr)
      (P\<lparr>qs_point := (if CHR ''?'' \<in> set adr then of_nat (length (url_path adr)) else qs_point P), state := s'\<rparr>)
      (plain_locals (Some p) (Some p) (p + length adr))"
proof -
  define w where "w = tl (url_path adr)"
  obtain v where v: "adr = CHR ''/'' # v" using assms(2) by (cases adr) (auto simp: url_text_def)
  have path: "url_path adr = CHR ''/'' # w" by (simp add: w_def url_path_def v)
  define q where "q = dropWhile (\<lambda>c. c \<noteq> CHR ''?'') adr"
  have adr: "adr = CHR ''/'' # w @ q" using path takeWhile_dropWhile_id [of _ adr] unfolding q_def url_path_def by (metis append_Cons)
  have w: "list_all CROW_IS_URL_CHAR w"
  proof -
    have "\<forall>c \<in> set w. c \<noteq> CHR ''?''" using path set_takeWhileD [of _ "\<lambda>c. c \<noteq> CHR ''?''" adr] by (fastforce simp: url_path_def)
    moreover have "\<forall>c \<in> set w. CROW_IS_URL_CHAR c \<or> c = CHR ''?''" using assms(2) adr by (auto simp: url_text_def list_all_iff)
    ultimately show ?thesis by (auto simp: list_all_iff)
  qed
  let ?L = "plain_locals (Some p) (Some p)"
  have "runs H base data p P (plain_locals None None p) (Suc p) (P\<lparr>state := s_req_path\<rparr>) (?L (Suc p))"
    using assms v by (intro run_line_byte)
      (auto simp: CROW_PARSING_HEADER_def execute_state_def st_req_spaces_before_url_def url_char_def parse_url_char_def
        CROW_MARK_def plain_locals_def)
  also have "runs H base data (Suc p) (P\<lparr>state := s_req_path\<rparr>) (?L (Suc p)) (Suc p + length w) (P\<lparr>state := s_req_path\<rparr>) (?L (Suc p + length w))"
    using assms(1,5) w adr drop_Cons_nth(3) [of p data "CHR ''/''" "w @ q @ rest"] by (intro run_path) auto
  finally have r: "runs H base data p P (plain_locals None None p) (Suc p + length w) (P\<lparr>state := s_req_path\<rparr>) (?L (Suc p + length w))" .
  show ?thesis
  proof (cases q)
    case Nil
    then have "CHR ''?'' \<notin> set adr" by (auto simp: q_def dropWhile_eq_Nil_conv)
    with r Nil adr show ?thesis by (intro exI [of _ s_req_path]) simp
  next
    case (Cons c q')
    have "c = CHR ''?''" using Cons hd_dropWhile [of "\<lambda>c. c \<noteq> CHR ''?''" adr] by (auto simp: q_def)
    then have mem: "CHR ''?'' \<in> set adr" and Cq: "q = CHR ''?'' # q'" using adr Cons by auto
    let ?P = "P\<lparr>qs_point := of_nat (length (url_path adr)), state := s_req_query_string_start\<rparr>"
    have d: "drop (Suc p + length w) data = CHR ''?'' # q' @ rest"
    proof -
      have "data = take p data @ CHR ''/'' # w @ CHR ''?'' # q' @ rest"
        using assms(1) adr Cq by (metis append_Cons append_assoc append_take_drop_id)
      moreover have "length (take p data) = p" using drop_Cons_nth(1) [of p data] assms(1) v by simp
      ultimately show ?thesis by (metis append.assoc append_Cons append_Nil append_eq_conv_conj length_append length_Cons add_Suc_right add_Suc list.size(3) add.right_neutral)
    qed
    note r
    also have "runs H base data (Suc p + length w) (P\<lparr>state := s_req_path\<rparr>) (?L (Suc p + length w))
        (Suc (Suc p + length w)) ?P (?L (Suc (Suc p + length w)))"
      using assms(5) d adr Cq path by (intro run_line_byte [OF d])
        (auto simp: CROW_PARSING_HEADER_def execute_state_def st_req_url_def url_char_def parse_url_char_def plain_locals_def
          url_char_not)
    finally have "runs H base data p P (plain_locals None None p) (Suc (Suc p + length w)) ?P (?L (Suc (Suc p + length w)))" .
    moreover obtain s' where s': "s' \<in> {s_req_query_string_start, s_req_query_string}"
      "runs H base data (Suc (Suc p + length w)) ?P (?L (Suc (Suc p + length w))) (Suc (Suc p + length w) + length q')
         (?P\<lparr>state := s'\<rparr>) (?L (Suc (Suc p + length w) + length q'))"
      using run_query [of "Suc (Suc p + length w)" data q' rest ?P H base "Some p" "Some p"] drop_Cons_nth(3) [OF d]
        assms(2,5) adr Cq by (auto simp: url_text_def)
    moreover have "Suc (Suc p + length w) + length q' = p + length adr" by (simp add: adr Cq)
    ultimately have "runs H base data p P (plain_locals None None p) (p + length adr) (?P\<lparr>state := s'\<rparr>) (?L (p + length adr))"
      using runs_trans by metis
    with s'(1) mem show ?thesis by (intro exI [of _ s']) auto
  qed
qed

lemma substring_drop: "drop p data = w @ rest \<Longrightarrow> substring data p (length w) = w"
  by (simp add: substring_def)

lemma run_url:
  assumes "drop p data = adr @ '' '' @ rest" and "url_text adr" and "state P = s_req_spaces_before_url"
    and "parser_method P \<noteq> Connect" and "parser_errno P = CHPE_OK" and "p + length adr < 81920"
  shows "runs H base data p P (plain_locals None None p) (p + length adr + 1)
    (P\<lparr>qs_point := (if CHR ''?'' \<in> set adr then of_nat (length (url_path adr)) else qs_point P), state := s_req_http_start,
       p_raw_url := p_raw_url P @ adr\<rparr>) (plain_locals None (Some p) (p + length adr + 1))"
proof -
  let ?q = "p + length adr"
  obtain s' where s': "s' \<in> {s_req_path, s_req_query_string_start, s_req_query_string}"
    "runs H base data p P (plain_locals None None p) ?q
      (P\<lparr>qs_point := (if CHR ''?'' \<in> set adr then of_nat (length (url_path adr)) else qs_point P), state := s'\<rparr>)
      (plain_locals (Some p) (Some p) ?q)"
    using run_url_chars [of p data adr "'' '' @ rest" P H base] assms by auto
  let ?P = "P\<lparr>qs_point := (if CHR ''?'' \<in> set adr then of_nat (length (url_path adr)) else qs_point P), state := s'\<rparr>"
  have d: "drop ?q data = CHR '' '' # rest" using assms(1) by (metis add.commute append_Cons append_Nil append_eq_conv_conj drop_drop)
  have b: "?q \<le> length data" using drop_Cons_nth(1) [OF d] by simp
  have e: "execute_state H base data (CHR '' '') ?q ?P (plain_locals (Some p) (Some p) (Suc ?q)) =
      st_req_url base data (CHR '' '') ?q ?P (plain_locals (Some p) (Some p) (Suc ?q))"
    using s'(1) by (elim insertE) (simp_all add: execute_state_def)
  have h: "CROW_PARSING_HEADER (state ?P)" using s'(1) by (elim insertE) (simp_all add: CROW_PARSING_HEADER_def)
  have "runs H base data ?q ?P (plain_locals (Some p) (Some p) ?q) (Suc ?q)
      (?P\<lparr>state := s_req_http_start, p_raw_url := p_raw_url P @ adr\<rparr>) (plain_locals None (Some p) (Suc ?q))"
    using assms(5,6) substring_drop [OF assms(1)] b
    by (intro run_line_byte [OF d h], simp, unfold e)
      (simp add: st_req_url_def callback_url_def CROW_CALLBACK_DATA_def check_assert_def plain_locals_def on_url_def Let_def)
  with s'(2) have "runs H base data p P (plain_locals None None p) (Suc ?q)
      (?P\<lparr>state := s_req_http_start, p_raw_url := p_raw_url P @ adr\<rparr>) (plain_locals None (Some p) (Suc ?q))"
    by (rule runs_trans)
  then show ?thesis by simp
qed

text \<open>The version.\<close>

lemma run_version:
  assumes "drop p data = ''HTTP/1.1'' @ [cr, lf] @ rest" and "state P = s_req_http_start" and "p + 10 \<le> 81920"
  shows "runs H base data p P (plain_locals u s p) (p + 10)
    (P\<lparr>http_major := 1, http_minor := 1, state := s_header_field_start\<rparr>) (plain_locals u s (p + 10))"
proof -
  let ?runs = "\<lambda>i P1 j P2. runs H base data (p + i) P1 (plain_locals u s (p + i)) (p + j) P2 (plain_locals u s (p + j))"
  have step: "?runs i P1 j P2"
    if "j = Suc i" "drop i (''HTTP/1.1'' @ [cr, lf] @ rest) = c # r" "i < 10" "CROW_PARSING_HEADER (state P1)"
      "\<And>L q. execute_state H base data c q P1 L = Next P2 L q" for i j c r P1 P2
  proof -
    have "drop (p + i) data = c # r" using assms(1) that(2) by (metis add.commute drop_drop)
    then show ?thesis using run_line_byte [of "p + i" data c r P1 H base u s P2] that assms(3) by simp
  qed
  note defs = CROW_PARSING_HEADER_def execute_state_def request_line_defs CROW_STRICT_CHECK_def CROW_IS_NUM_def
  have "?runs 0 P 1 (P\<lparr>state := s_req_http_H\<rparr>)" by (rule step [where i = 0 and c = "CHR ''H''"]) (simp_all add: assms(2) defs)
  also have "?runs 1 (P\<lparr>state := s_req_http_H\<rparr>) 2 (P\<lparr>state := s_req_http_HT\<rparr>)" by (rule step [where i = 1 and c = "CHR ''T''"]) (simp_all add: assms(2) defs)
  also have "?runs 2 (P\<lparr>state := s_req_http_HT\<rparr>) 3 (P\<lparr>state := s_req_http_HTT\<rparr>)" by (rule step [where i = 2 and c = "CHR ''T''"]) (simp_all add: assms(2) defs)
  also have "?runs 3 (P\<lparr>state := s_req_http_HTT\<rparr>) 4 (P\<lparr>state := s_req_http_HTTP\<rparr>)" by (rule step [where i = 3 and c = "CHR ''P''"]) (simp_all add: assms(2) defs)
  also have "?runs 4 (P\<lparr>state := s_req_http_HTTP\<rparr>) 5 (P\<lparr>state := s_req_http_major\<rparr>)" by (rule step [where i = 4 and c = "CHR ''/''"]) (simp_all add: assms(2) defs)
  also have "?runs 5 (P\<lparr>state := s_req_http_major\<rparr>) 6 (P\<lparr>http_major := 1, state := s_req_http_dot\<rparr>)" by (rule step [where i = 5 and c = "CHR ''1''"]) (simp_all add: assms(2) defs)
  also have "?runs 6 (P\<lparr>http_major := 1, state := s_req_http_dot\<rparr>) 7 (P\<lparr>http_major := 1, state := s_req_http_minor\<rparr>)" by (rule step [where i = 6 and c = "CHR ''.''"]) (simp_all add: assms(2) defs)
  also have "?runs 7 (P\<lparr>http_major := 1, state := s_req_http_minor\<rparr>) 8 (P\<lparr>http_major := 1, http_minor := 1, state := s_req_http_end\<rparr>)" by (rule step [where i = 7 and c = "CHR ''1''"]) (simp_all add: assms(2) defs)
  also have "?runs 8 (P\<lparr>http_major := 1, http_minor := 1, state := s_req_http_end\<rparr>) 9 (P\<lparr>http_major := 1, http_minor := 1, state := s_req_line_almost_done\<rparr>)" by (rule step [where i = 8 and c = "cr"]) (simp_all add: assms(2) defs)
  also have "?runs 9 (P\<lparr>http_major := 1, http_minor := 1, state := s_req_line_almost_done\<rparr>) 10 (P\<lparr>http_major := 1, http_minor := 1, state := s_header_field_start\<rparr>)" by (rule step [where i = 9 and c = "lf"]) (simp_all add: assms(2) defs)
  finally show ?thesis by simp
qed

end
