(* ===== verification/Http_Headers.thy ===== *)
theory Http_Headers
  imports Http_Request "HOL-Library.Sublist"
begin

text \<open>
  What the parser makes of lines of headers, and of a whole request without a body. While it reads the name
  of a header it follows five names it knows. For other names none of that has an effect.
\<close>

section \<open>Names\<close>

definition known_names :: "string list" where
  "known_names = [''connection'', ''proxy-connection'', ''content-length'', ''transfer-encoding'', ''upgrade'']"

definition token_text :: "string \<Rightarrow> bool" where
  "token_text k \<longleftrightarrow> list_all (\<lambda>c. CROW_TOKEN c \<noteq> nul) k"

definition unknown_name :: "string \<Rightarrow> bool" where
  "unknown_name w \<longleftrightarrow> list_all (\<lambda>n. \<not> prefix n w) known_names"

definition on_way :: "string \<Rightarrow> string \<Rightarrow> nat \<Rightarrow> bool" where
  "on_way name w i \<longleftrightarrow> i + 1 < length name \<and> w = take (i + 1) name"

text \<open>What the parser knows after the beginning \<open>w\<close> of a name.\<close>

definition tracks :: "string \<Rightarrow> header_states \<Rightarrow> nat \<Rightarrow> bool" where
  "tracks w h i =
     (case h of
        h_general \<Rightarrow> True
      | h_C \<Rightarrow> w = ''c'' \<and> i = 0
      | h_CO \<Rightarrow> w = ''co'' \<and> i = 1
      | h_CON \<Rightarrow> w = ''con'' \<and> i = 2
      | h_matching_connection \<Rightarrow> on_way ''connection'' w i
      | h_matching_proxy_connection \<Rightarrow> on_way ''proxy-connection'' w i
      | h_matching_content_length \<Rightarrow> on_way ''content-length'' w i
      | h_matching_transfer_encoding \<Rightarrow> on_way ''transfer-encoding'' w i
      | h_matching_upgrade \<Rightarrow> on_way ''upgrade'' w i
      | _ \<Rightarrow> False)"

lemma tracks_simps [simp]:
  "tracks w h_general i" "tracks w h_C i \<longleftrightarrow> w = ''c'' \<and> i = 0" "tracks w h_CO i \<longleftrightarrow> w = ''co'' \<and> i = 1"
  "tracks w h_CON i \<longleftrightarrow> w = ''con'' \<and> i = 2"
  "tracks w h_matching_connection i \<longleftrightarrow> on_way ''connection'' w i"
  "tracks w h_matching_proxy_connection i \<longleftrightarrow> on_way ''proxy-connection'' w i"
  "tracks w h_matching_content_length i \<longleftrightarrow> on_way ''content-length'' w i"
  "tracks w h_matching_transfer_encoding i \<longleftrightarrow> on_way ''transfer-encoding'' w i"
  "tracks w h_matching_upgrade i \<longleftrightarrow> on_way ''upgrade'' w i" "\<not> tracks w h_transfer_encoding i"
  by (simp_all add: tracks_def)

text \<open>The parser after a character of a name.\<close>

abbreviation field_step :: "'h HTTPParser \<Rightarrow> header_states \<Rightarrow> 'h HTTPParser" where
  "field_step P h \<equiv> P\<lparr>index := (index P + 1) mod 2 ^ 5, header_state := h\<rparr>"

lemma tracks_first: "tracks [c] (first_header_state c) 0"
  by (simp add: first_header_state_def tracks_def on_way_def)

lemma match_name_tracks:
  assumes "on_way name w i" and "\<not> prefix name (w @ [c])" and "length name < 30" and "c \<noteq> nul"
  shows "match_name name h_general found c ((i + 1) mod 2 ^ 5) way = Some h_general \<or>
    match_name name h_general found c ((i + 1) mod 2 ^ 5) way = Some way \<and> on_way name (w @ [c]) ((i + 1) mod 2 ^ 5)"
proof -
  have i: "(i + 1) mod 2 ^ 5 = i + 1" "i + 1 < length name" "w = take (i + 1) name" using assms(1,3) by (auto simp: on_way_def)
  show ?thesis
  proof (cases "c = name ! (i + 1)")
    case True
    then have "w @ [c] = take (i + 2) name" using i take_Suc_conv_app_nth [of "i + 1" name] by simp
    then have "i + 2 < length name" using assms(2) i(2) by (cases "i + 2 = length name") auto
    with True i \<open>w @ [c] = _\<close> show ?thesis by (auto simp: match_name_def c_char_def on_way_def)
  next
    case False
    with i show ?thesis by (simp add: match_name_def c_char_def)
  qed
qed

lemma known_names_short: "list_all (\<lambda>n. length n < 30) known_names"
  by (simp add: known_names_def)

lemma header_field_char_tracks:
  assumes "tracks w (header_state P) (index P)" and "header_state P \<noteq> h_general" and "unknown_name (w @ [c])" and "c \<noteq> nul"
  shows "\<exists>h. header_field_char data p ch c P = Inr (p, field_step P h) \<and> tracks (w @ [c]) h ((index P + 1) mod 2 ^ 5)"
proof -
  have m: "\<exists>h. to_header_state (next_index P) (match_name name h_general found c ((index P + 1) mod 2 ^ 5) way) = Inr (field_step P h) \<and>
      tracks (w @ [c]) h ((index P + 1) mod 2 ^ 5)"
    if "on_way name w (index P)" "name \<in> set known_names" "\<And>w i. on_way name w i \<Longrightarrow> tracks w way i" for name found way
  proof -
    have "length name < 30" "\<not> prefix name (w @ [c])"
      using that(2) assms(3) known_names_short by (auto simp: list_all_iff unknown_name_def)
    from match_name_tracks [OF that(1) this(2,1) assms(4), of found way] show ?thesis
      using that(3) by (elim disjE) (auto simp: to_header_state_def next_index_def)
  qed
  show ?thesis
  proof (cases "header_state P")
    case h_matching_connection
    with assms(1) m [where name = "''connection''" and found = h_connection and way = h_matching_connection] obtain h where
      "to_header_state (next_index P) (match_name ''connection'' h_general h_connection c ((index P + 1) mod 2 ^ 5) h_matching_connection) = Inr (field_step P h)"
      "tracks (w @ [c]) h ((index P + 1) mod 2 ^ 5)" by (auto simp: known_names_def)
    then show ?thesis using h_matching_connection by (intro exI [of _ h]) (auto simp: header_field_char_def next_index_def Let_def)
  next
    case h_matching_proxy_connection
    with assms(1) m [where name = "''proxy-connection''" and found = h_connection and way = h_matching_proxy_connection] obtain h where
      "to_header_state (next_index P) (match_name ''proxy-connection'' h_general h_connection c ((index P + 1) mod 2 ^ 5) h_matching_proxy_connection) = Inr (field_step P h)"
      "tracks (w @ [c]) h ((index P + 1) mod 2 ^ 5)" by (auto simp: known_names_def)
    then show ?thesis using h_matching_proxy_connection by (intro exI [of _ h]) (auto simp: header_field_char_def next_index_def Let_def)
  next
    case h_matching_content_length
    with assms(1) m [where name = "''content-length''" and found = h_content_length and way = h_matching_content_length] obtain h where
      "to_header_state (next_index P) (match_name ''content-length'' h_general h_content_length c ((index P + 1) mod 2 ^ 5) h_matching_content_length) = Inr (field_step P h)"
      "tracks (w @ [c]) h ((index P + 1) mod 2 ^ 5)" by (auto simp: known_names_def)
    then show ?thesis using h_matching_content_length by (intro exI [of _ h]) (auto simp: header_field_char_def next_index_def Let_def)
  next
    case h_matching_transfer_encoding
    with assms(1) m [where name = "''transfer-encoding''" and found = h_transfer_encoding and way = h_matching_transfer_encoding] obtain h where
      "to_header_state (next_index P) (match_name ''transfer-encoding'' h_general h_transfer_encoding c ((index P + 1) mod 2 ^ 5) h_matching_transfer_encoding) = Inr (field_step P h)"
      "tracks (w @ [c]) h ((index P + 1) mod 2 ^ 5)" by (auto simp: known_names_def)
    then show ?thesis using h_matching_transfer_encoding by (intro exI [of _ h]) (auto simp: header_field_char_def next_index_def Let_def)
  next
    case h_matching_upgrade
    with assms(1) m [where name = "''upgrade''" and found = h_upgrade and way = h_matching_upgrade] obtain h where
      "to_header_state (next_index P) (match_name ''upgrade'' h_general h_upgrade c ((index P + 1) mod 2 ^ 5) h_matching_upgrade) = Inr (field_step P h)"
      "tracks (w @ [c]) h ((index P + 1) mod 2 ^ 5)" by (auto simp: known_names_def)
    then show ?thesis using h_matching_upgrade by (intro exI [of _ h]) (auto simp: header_field_char_def next_index_def Let_def)
  next
    case h_C
    with assms(1) show ?thesis by (auto simp: header_field_char_def next_index_def Let_def)
  next
    case h_CO
    with assms(1) show ?thesis by (auto simp: header_field_char_def next_index_def Let_def)
  next
    case h_CON
    with assms(1) show ?thesis by (auto simp: header_field_char_def next_index_def Let_def on_way_def)
  qed (use assms in \<open>auto simp: tracks_def\<close>)
qed

lemma skip_tokens_word:
  assumes "drop p data = c # w @ CHR '':'' # rest" and "token_text w" and "length data \<le> 81920"
  shows "skip_tokens data p (p + min_header (length data - p)) = p + length w"
proof -
  have p: "p < length data" "drop (p + 1) data = w @ CHR '':'' # rest" using drop_Cons_nth [OF assms(1)] by auto
  have "uint max_header_size = 81920" by (simp add: max_header_size_def)
  then have pe: "p + min_header (length data - p) = length data" using p(1) assms(3)
    by (simp add: min_header_def)
  have t: "CROW_TOKEN (CHR '':'') = nul" by code_simp
  have W: "takeWhile (\<lambda>c. CROW_TOKEN c \<noteq> nul) (w @ CHR '':'' # rest) = w"
    using assms(2) t by (simp add: token_text_def list_all_iff takeWhile_append)
  have T: "take (length data - (p + 1)) (drop (p + 1) data) = w @ CHR '':'' # rest"
    unfolding p(2) [symmetric] by (rule take_all) simp
  show ?thesis unfolding skip_tokens_def pe T W ..
qed

lemma header_field_loop_colon:
  "drop p data = CHR '':'' # rest \<Longrightarrow> header_field_loop data p ch P = Inr (p, CHR '':'', P)"
proof -
  assume "drop p data = CHR '':'' # rest"
  note d = drop_Cons_nth [OF this]
  have t: "CROW_TOKEN (CHR '':'') = nul" by code_simp
  show ?thesis using d t by (simp add: header_field_loop.simps [of data p] Let_def)
qed

lemma drop_append: "drop p data = v @ rest \<Longrightarrow> drop (p + length v) data = rest"
  by (metis add.commute append_eq_conv_conj drop_drop)

lemma header_field_loop_name:
  assumes "drop p data = v @ CHR '':'' # rest" and "token_text v" and "length data \<le> 81920"
    and "tracks w (header_state P) (index P)" and "unknown_name (w @ map CROW_TOKEN v)"
  shows "\<exists>h i. header_field_loop data p ch P = Inr (p + length v, CHR '':'', P\<lparr>index := i, header_state := h\<rparr>) \<and>
    tracks (w @ map CROW_TOKEN v) h i"
  using assms
proof (induction v arbitrary: p w P ch)
  case Nil
  then show ?case by (intro exI [of _ "header_state P"] exI [of _ "index P"]) (simp add: header_field_loop_colon)
next
  case (Cons c v)
  have d: "p < length data" "data ! p = c" "drop (Suc p) data = v @ CHR '':'' # rest" "CROW_TOKEN c \<noteq> nul"
    using drop_Cons_nth [of p data c "v @ CHR '':'' # rest"] Cons.prems(1,2) by (auto simp: token_text_def)
  show ?case
  proof (cases "header_state P = h_general")
    case True
    have "drop (Suc (p + length v)) data = CHR '':'' # rest" using drop_append [OF d(3)] by simp
    then have "header_field_loop data p ch P = Inr (Suc (p + length v), CHR '':'', P)"
      using d True skip_tokens_word [of p data c v rest] Cons.prems(1,2,3)
      by (simp add: header_field_loop.simps [of data p] header_field_char_def header_field_loop_colon token_text_def Let_def)
    then show ?thesis using True
      by (intro exI [of _ h_general] exI [of _ "index P"]) (simp add: tracks_def)
  next
    case False
    have u: "unknown_name (w @ [CROW_TOKEN c])"
      using Cons.prems(5) by (auto simp: unknown_name_def list_all_iff dest: prefix_prefix [of _ "w @ [CROW_TOKEN c]" "map CROW_TOKEN v"])
    obtain h i where h: "header_field_char data p c (CROW_TOKEN c) P = Inr (p, P\<lparr>index := i, header_state := h\<rparr>)"
      "tracks (w @ [CROW_TOKEN c]) h i"
      using header_field_char_tracks [OF Cons.prems(4) False u d(4)] by blast
    obtain h' i' where "header_field_loop data (Suc p) c (P\<lparr>index := i, header_state := h\<rparr>) =
        Inr (Suc p + length v, CHR '':'', P\<lparr>index := i', header_state := h'\<rparr>)"
      "tracks ((w @ [CROW_TOKEN c]) @ map CROW_TOKEN v) h' i'"
      using Cons.IH [of "Suc p" "w @ [CROW_TOKEN c]" "P\<lparr>index := i, header_state := h\<rparr>" c] Cons.prems d h(2)
      by (auto simp: token_text_def)
    with d h(1) show ?thesis by (intro exI [of _ h'] exI [of _ i']) (simp add: header_field_loop.simps [of data p] Let_def)
  qed
qed

section \<open>A line\<close>

definition header_text :: "string \<Rightarrow> string \<Rightarrow> bool" where
  "header_text k v \<longleftrightarrow> k \<noteq> [] \<and> token_text k \<and> unknown_name (map CROW_TOKEN k) \<and>
     v \<noteq> [] \<and> list_all (\<lambda>c. CROW_IS_HEADER_CHAR c \<and> c \<noteq> cr \<and> c \<noteq> lf) v \<and> hd v \<noteq> CHR '' '' \<and> hd v \<noteq> tab"

text \<open>Where a line can start: after the request line, or after the line of a header without effect.\<close>

definition line_start :: "'h HTTPParser \<Rightarrow> bool" where
  "line_start P \<longleftrightarrow> parser_errno P = CHPE_OK \<and> header_building_state P = 0 \<and>
     (state P = s_header_field_start \<or> state P = s_header_value_lws \<and> header_state P = h_general)"

lemma line_start_char:
  assumes "line_start P" and "c \<noteq> CHR '' ''" "c \<noteq> tab"
  shows "execute_state H base data c p P L = st_header_field_start H c p (P\<lparr>state := s_header_field_start\<rparr>) L"
    "CROW_PARSING_HEADER (state P)"
proof -
  show "execute_state H base data c p P L = st_header_field_start H c p (P\<lparr>state := s_header_field_start\<rparr>) L"
  proof (cases "state P = s_header_field_start")
    case True
    then have P: "P\<lparr>state := s_header_field_start\<rparr> = P" by simp
    show ?thesis unfolding P using True by (simp add: execute_state_def)
  next
    case False
    with assms show ?thesis by (simp add: line_start_def execute_state_def st_header_value_lws_def Let_def)
  qed
  show "CROW_PARSING_HEADER (state P)" using assms by (auto simp: line_start_def CROW_PARSING_HEADER_def)
qed

lemma token_not: "CROW_TOKEN (CHR '' '') = nul" "CROW_TOKEN tab = nul" "CROW_TOKEN cr = nul" "CROW_TOKEN lf = nul"
  by code_simp+

lemma run_field:
  assumes "drop p data = k @ CHR '':'' # rest" and "k \<noteq> []" "token_text k" "unknown_name (map CROW_TOKEN k)"
    and "line_start P" and "length data \<le> 81920"
  shows "\<exists>h i. runs H base data p P (plain_locals None s p) (p + length k + 1)
      (on_header_field k (P\<lparr>index := i, header_state := h, state := s_header_value_discard_ws\<rparr>))
      (plain_locals None s (p + length k + 1)) \<and> tracks (map CROW_TOKEN k) h i"
proof -
  obtain c w where k: "k = c # w" using assms(2) by (cases k) auto
  have c: "CROW_TOKEN c \<noteq> nul" "c \<noteq> CHR '' ''" "c \<noteq> tab" "c \<noteq> cr" "c \<noteq> lf" "token_text w"
    using assms(3) token_not by (auto simp: k token_text_def)
  have d: "p < length data" "drop (Suc p) data = w @ CHR '':'' # rest"
    using drop_Cons_nth [of p data c "w @ CHR '':'' # rest"] assms(1) k by auto
  have e: "drop (Suc p + length w) data = CHR '':'' # rest" using drop_append [OF d(2)] .
  then have q: "Suc p + length w < length data" by (rule drop_Cons_nth)
  define P1 where "P1 = P\<lparr>index := 0, state := s_header_field, header_state := first_header_state (CROW_TOKEN c)\<rparr>"
  define L1 where "L1 n = (plain_locals None s n)\<lparr>header_field_mark := Some p\<rparr>" for n
  have "runs H base data p P (plain_locals None s p) (Suc p) P1 (L1 (Suc p))"
    using assms(1,6) d(1) c k
    by (intro run_header_byte [of p data c "w @ CHR '':'' # rest"])
      (auto simp: line_start_char [OF assms(5)] st_header_field_start_def P1_def L1_def plain_locals_def CROW_MARK_def Let_def)
  moreover obtain ch0 r where d0: "drop (Suc p) data = ch0 # r" using d(2) by (cases w) auto
  moreover obtain h i where h: "tracks (map CROW_TOKEN k) h i"
    "header_field_loop data (Suc p) ch0 P1 = Inr (Suc p + length w, CHR '':'', P1\<lparr>index := i, header_state := h\<rparr>)"
    using header_field_loop_name [OF d(2) c(6) assms(6), of "[CROW_TOKEN c]" P1 ch0] assms(4) tracks_first [of "CROW_TOKEN c"]
    by (auto simp: P1_def k)
  define P2 where "P2 = P\<lparr>index := i, header_state := h, state := s_header_value_discard_ws\<rparr>"
  have n: "of_nat (Suc (Suc p)) + of_nat (length w) = (of_nat (Suc (Suc p) + length w) :: 32 word)"
    by (simp only: of_nat_add)
  have n': "\<not> max_header_size < of_nat (Suc (Suc p) + length w)" using q assms(6) by (intro header_size_ok) simp
  have "st_header_field data ch0 (Suc p) P1 (L1 (Suc (Suc p))) =
      Next (on_header_field k P2) (plain_locals None s (Suc (Suc p) + length w)) (Suc p + length w)"
    using q n' substring_drop [of p data k "CHR '':'' # rest"] assms(1,5) k
    unfolding st_header_field_def h(2)
    by (simp add: CROW_COUNT_HEADER_SIZE_def L1_def plain_locals_def n callback_header_field_def
        CROW_CALLBACK_DATA_def check_assert_def line_start_def P1_def P2_def Let_def del: of_nat_Suc of_nat_add)
  with d0 q assms(6) have "runs H base data (Suc p) P1 (L1 (Suc p)) (Suc (Suc p + length w)) (on_header_field k P2)
      (plain_locals None s (Suc (Suc p) + length w))"
    by (intro run_header_byte [OF d0]) (simp_all add: P1_def L1_def plain_locals_def CROW_PARSING_HEADER_def execute_state_def)
  ultimately have "runs H base data p P (plain_locals None s p) (p + length k + 1) (on_header_field k P2) (plain_locals None s (p + length k + 1))"
    using runs_trans by (fastforce simp: k)
  with h(1) show ?thesis by (auto simp: P2_def)
qed

definition value_text :: "string \<Rightarrow> bool" where
  "value_text w \<longleftrightarrow> list_all (\<lambda>c. CROW_IS_HEADER_CHAR c \<and> c \<noteq> cr \<and> c \<noteq> lf) w"

lemma skip_value_word:
  assumes "drop p data = w @ cr # rest" and "value_text w" and "length data \<le> 81920"
  shows "skip_value lenient data p = Inr (p + length w - 1)"
proof -
  have q: "p + length w < length data" "data ! (p + length w) = cr" using drop_Cons_nth [OF drop_append [OF assms(1)]] by auto
  have "uint max_header_size = 81920" by (simp add: max_header_size_def)
  then have pe: "p + min_header (length data - p) = length data" using q(1) assms(3) by (simp add: min_header_def)
  have T: "take (length data - p) (drop p data) = w @ cr # rest"
    unfolding assms(1) [symmetric] by (rule take_all) simp
  have W: "takeWhile (\<lambda>c. c \<noteq> cr \<and> c \<noteq> lf \<and> (lenient \<or> CROW_IS_HEADER_CHAR c)) (w @ cr # rest) = w"
    using assms(2) by (simp add: value_text_def list_all_iff takeWhile_append)
  show ?thesis unfolding skip_value_def pe T W Let_def using q by simp
qed

text \<open>The rest of a value without effect, up to the end of its line.\<close>

definition value_end :: "string \<Rightarrow> nat \<Rightarrow> nat \<Rightarrow> 'h HTTPParser \<Rightarrow> locals \<Rightarrow> 'h outcome" where
  "value_end data start p P L =
     callback_header_value data p (p + 1) (P\<lparr>state := s_header_almost_done, header_state := h_general\<rparr>) L
       (\<lambda>P' L'. CROW_COUNT_HEADER_SIZE (p - start) (P'\<lparr>header_state := h_general\<rparr>) L' p
          (\<lambda>L1. Next (P'\<lparr>header_state := h_general\<rparr>) L1 p))"

lemma header_value_loop_cr:
  assumes "drop p data = cr # rest"
  shows "header_value_loop data start p h_general P L = value_end data start p P L"
  using drop_Cons_nth [OF assms] by (simp add: header_value_loop.simps [of data start p] value_end_def Let_def)

lemma header_value_loop_word:
  assumes "drop p data = w @ cr # rest" and "value_text w" and "length data \<le> 81920"
  shows "header_value_loop data start p h_general P L = value_end data start (p + length w) P L"
proof (cases w)
  case Nil
  with assms show ?thesis by (simp add: header_value_loop_cr)
next
  case (Cons c w')
  have c: "p < length data" "data ! p = c" "c \<noteq> cr" "c \<noteq> lf" "CROW_IS_HEADER_CHAR c"
    using drop_Cons_nth [of p data c "w' @ cr # rest"] assms(1,2) Cons by (auto simp: value_text_def)
  have "header_value_char data p c h_general P = Value_next (p + length w - 1) h_general P"
    using skip_value_word [OF assms] by (simp add: header_value_char_def)
  then have "header_value_loop data start p h_general P L = header_value_loop data start (p + length w) h_general P L"
    using c Cons by (simp add: header_value_loop.simps [of data start p] Let_def)
  then show ?thesis using header_value_loop_cr [OF drop_append [OF assms(1)]] by simp
qed

lemma value_start_unknown:
  "tracks w (header_state P) i \<Longrightarrow> value_start c P = Inr (P\<lparr>header_state := h_general\<rparr>)"
  by (cases "header_state P") (simp_all add: value_start_def tracks_def)

lemma run_value:
  assumes "drop p data = v @ cr # lf # rest" and "v \<noteq> []" "value_text v" "hd v \<noteq> CHR '' ''" "hd v \<noteq> tab"
    and "state P = s_header_value_discard_ws" and "parser_errno P = CHPE_OK" and "tracks w (header_state P) i"
    and "length data \<le> 81920"
  shows "runs H base data p P (plain_locals None s p) (p + length v + 2)
    (on_header_value v (P\<lparr>index := 0, header_state := h_general, state := s_header_value_lws\<rparr>))
    (plain_locals None s (p + length v + 2))"
proof -
  obtain c v' where v: "v = c # v'" using assms(2) by (cases v) auto
  have c: "c \<noteq> CHR '' ''" "c \<noteq> tab" "c \<noteq> cr" "c \<noteq> lf" "value_text v'"
    using assms(3,4,5) by (auto simp: v value_text_def)
  have d: "drop (Suc p) data = v' @ cr # lf # rest"
    using drop_Cons_nth(3) [of p data c] assms(1) v by simp
  define q where "q = Suc p + length v'"
  have dq: "drop q data = cr # lf # rest" unfolding q_def using drop_append [OF d] .
  have dl: "drop (Suc q) data = lf # rest" using drop_Cons_nth(3) [OF dq] .
  have q: "Suc q < length data" using drop_Cons_nth(1) [OF dl] .
  define P1 where "P1 = P\<lparr>index := 0, header_state := h_general, state := s_header_value\<rparr>"
  define P2 where "P2 = on_header_value v (P1\<lparr>state := s_header_almost_done\<rparr>)"
  define L1 where "L1 n = (plain_locals None s n)\<lparr>header_value_mark := Some p\<rparr>" for n
  have r1: "runs H base data p P (plain_locals None s p) (Suc p) P1 (L1 (Suc p))"
    using assms(1,6,8,9) c v q
    by (intro run_header_byte [of p data c "v' @ cr # lf # rest"])
      (auto simp: CROW_PARSING_HEADER_def execute_state_def st_header_value_discard_ws_def st_header_value_start_def q_def
        value_start_unknown P1_def L1_def plain_locals_def CROW_MARK_def Let_def)
  obtain ch r where d0: "drop (Suc p) data = ch # r" using d by (cases v') auto
  have n: "of_nat (Suc (Suc p)) + of_nat (length v') = (of_nat (Suc q) :: 32 word)" by (simp add: q_def)
  have n': "\<not> max_header_size < of_nat (Suc q)" using q assms(9) by (intro header_size_ok) simp
  have "st_header_value data (Suc p) P1 (L1 (Suc (Suc p))) = value_end data (Suc p) q P1 (L1 (Suc (Suc p)))"
    unfolding st_header_value_def q_def using header_value_loop_word [OF d c(5) assms(9)] by (simp add: P1_def)
  also have "\<dots> = Next P2 (plain_locals None s (Suc q)) q"
    using q n n' substring_drop [OF assms(1)] assms(7) v
    by (simp add: value_end_def callback_header_value_def CROW_CALLBACK_DATA_def check_assert_def CROW_COUNT_HEADER_SIZE_def
        L1_def plain_locals_def P1_def P2_def q_def on_header_value_def Let_def del: of_nat_Suc of_nat_add)
  finally have "runs H base data (Suc p) P1 (L1 (Suc p)) (Suc q) P2 (plain_locals None s (Suc q))"
    using q assms(9) by (intro run_header_byte [OF d0])
      (simp_all add: P1_def L1_def plain_locals_def CROW_PARSING_HEADER_def execute_state_def q_def)
  note runs_trans [OF r1 this]
  also have "runs H base data (Suc q) P2 (plain_locals None s (Suc q)) (Suc (Suc q)) (P2\<lparr>state := s_header_value_lws\<rparr>)
      (plain_locals None s (Suc (Suc q)))"
    using q assms(9) by (intro run_line_byte [OF dl])
      (simp_all add: P2_def P1_def on_header_value_def CROW_PARSING_HEADER_def execute_state_def st_header_almost_done_def)
  also have "P2\<lparr>state := s_header_value_lws\<rparr> =
      on_header_value v (P\<lparr>index := 0, header_state := h_general, state := s_header_value_lws\<rparr>)"
    by (simp add: P2_def P1_def on_header_value_def)
  finally show ?thesis by (simp add: q_def v)
qed

text \<open>The parser after a line.\<close>

definition read_header :: "string \<times> string \<Rightarrow> 'h HTTPParser \<Rightarrow> 'h HTTPParser" where
  "read_header kv P =
     P\<lparr>index := 0, header_state := h_general, state := s_header_value_lws, header_building_state := 0,
       p_headers := (if header_value P \<noteq> [] then p_headers P @ [(header_field P, header_value P)] else p_headers P),
       header_field := fst kv, header_value := snd kv\<rparr>"

definition header_line :: "string \<times> string \<Rightarrow> string" where
  "header_line kv = fst kv @ '': '' @ snd kv @ [cr, lf]"

lemma run_header:
  assumes "drop p data = header_line kv @ rest" and "header_text (fst kv) (snd kv)" and "line_start P" and "length data \<le> 81920"
  shows "runs H base data p P (plain_locals None s p) (p + length (header_line kv)) (read_header kv P)
    (plain_locals None s (p + length (header_line kv)))" "line_start (read_header kv P)"
proof -
  obtain k v where kv: "kv = (k, v)" by fastforce
  have t: "k \<noteq> []" "token_text k" "unknown_name (map CROW_TOKEN k)" "v \<noteq> []" "value_text v" "hd v \<noteq> CHR '' ''" "hd v \<noteq> tab"
    using assms(2) by (auto simp: kv header_text_def value_text_def)
  have d: "drop p data = k @ CHR '':'' # CHR '' '' # v @ cr # lf # rest" using assms(1) by (simp add: kv header_line_def)
  define q where "q = p + length k + 1"
  have d1: "drop q data = CHR '' '' # v @ cr # lf # rest"
    using drop_Cons_nth(3) [OF drop_append [OF d]] by (simp add: q_def)
  have d2: "drop (Suc q) data = v @ cr # lf # rest" using drop_Cons_nth(3) [OF d1] .
  obtain h i where h: "tracks (map CROW_TOKEN k) h i"
    "runs H base data p P (plain_locals None s p) q
       (on_header_field k (P\<lparr>index := i, header_state := h, state := s_header_value_discard_ws\<rparr>)) (plain_locals None s q)"
    using run_field [OF d t(1-3) assms(3,4)] unfolding q_def by blast
  define P1 where "P1 = on_header_field k (P\<lparr>index := i, header_state := h, state := s_header_value_discard_ws\<rparr>)"
  have P1: "state P1 = s_header_value_discard_ws" "parser_errno P1 = CHPE_OK" "header_state P1 = h"
    using assms(3) by (simp_all add: P1_def on_header_field_def line_start_def)
  note h(2) [folded P1_def]
  also have "runs H base data q P1 (plain_locals None s q) (Suc q) P1 (plain_locals None s (Suc q))"
    using drop_Cons_nth(1) [OF d1] assms(4) P1 by (intro run_line_byte [OF d1])
      (simp_all add: CROW_PARSING_HEADER_def execute_state_def st_header_value_discard_ws_def)
  also have "runs H base data (Suc q) P1 (plain_locals None s (Suc q)) (Suc q + length v + 2)
      (on_header_value v (P1\<lparr>index := 0, header_state := h_general, state := s_header_value_lws\<rparr>))
      (plain_locals None s (Suc q + length v + 2))"
    using h(1) P1 assms(4) by (intro run_value [OF d2 t(4-7)]) simp_all
  also have "on_header_value v (P1\<lparr>index := 0, header_state := h_general, state := s_header_value_lws\<rparr>) = read_header kv P"
    using assms(3) by (simp add: P1_def on_header_field_def on_header_value_def read_header_def kv line_start_def ci_emplace_def Let_def)
  finally show "runs H base data p P (plain_locals None s p) (p + length (header_line kv)) (read_header kv P)
      (plain_locals None s (p + length (header_line kv)))"
    by (simp add: q_def kv header_line_def add.assoc)
  show "line_start (read_header kv P)" using assms(3) by (simp add: line_start_def read_header_def)
qed

lemma run_headers:
  assumes "drop p data = concat (map header_line kvs) @ rest" and "\<forall>(k, v) \<in> set kvs. header_text k v"
    and "line_start P" and "length data \<le> 81920"
  shows "runs H base data p P (plain_locals None s p) (p + length (concat (map header_line kvs))) (fold read_header kvs P)
    (plain_locals None s (p + length (concat (map header_line kvs)))) \<and> line_start (fold read_header kvs P)"
  using assms
proof (induction kvs arbitrary: p P)
  case (Cons kv kvs)
  have d: "drop p data = header_line kv @ concat (map header_line kvs) @ rest" using Cons.prems(1) by simp
  have t: "header_text (fst kv) (snd kv)" using Cons.prems(2) by auto
  note r = run_header [OF d t Cons.prems(3,4)]
  have "runs H base data (p + length (header_line kv)) (read_header kv P) (plain_locals None s (p + length (header_line kv)))
      (p + length (header_line kv) + length (concat (map header_line kvs))) (fold read_header kvs (read_header kv P))
      (plain_locals None s (p + length (header_line kv) + length (concat (map header_line kvs)))) \<and>
      line_start (fold read_header kvs (read_header kv P))"
    using Cons.prems(2,4) r(2) by (intro Cons.IH drop_append [OF d]) auto
  with runs_trans [OF r(1)] show ?case by (simp add: add.assoc)
qed (simp add: runs_refl)

section \<open>A request\<close>

definition request_text :: "HTTPMethod \<Rightarrow> string \<Rightarrow> (string \<times> string) list \<Rightarrow> string" where
  "request_text m adr kvs =
     method_name m @ '' '' @ adr @ '' HTTP/1.1'' @ [cr, lf] @ concat (map header_line kvs) @ [cr, lf]"

text \<open>A parser that waits for a message: a new one, or one that was cleared.\<close>

definition fresh :: "'h HTTPParser \<Rightarrow> bool" where
  "fresh P \<longleftrightarrow> state P = s_start_req \<and> parser_errno P = CHPE_OK \<and> nread P = 0 \<and> qs_point P = 0 \<and> \<not> message_complete P \<and>
     p_raw_url P = [] \<and> header_building_state P = 0 \<and> header_field P = [] \<and> header_value P = [] \<and> p_headers P = [] \<and> p_body P = []"

text \<open>The parser at the end of the headers.\<close>

lemma read_headers_fields:
  "parser_errno (fold read_header kvs P) = parser_errno P" "flags (fold read_header kvs P) = flags P"
  "uses_transfer_encoding (fold read_header kvs P) = uses_transfer_encoding P"
  "content_length (fold read_header kvs P) = content_length P" "qs_point (fold read_header kvs P) = qs_point P"
  "http_major (fold read_header kvs P) = http_major P" "http_minor (fold read_header kvs P) = http_minor P"
  "parser_method (fold read_header kvs P) = parser_method P" "p_raw_url (fold read_header kvs P) = p_raw_url P"
  "p_body (fold read_header kvs P) = p_body P" "p_handler (fold read_header kvs P) = p_handler P"
  "message_complete (fold read_header kvs P) = message_complete P" "nread (fold read_header kvs P) = nread P"
  by (induction kvs arbitrary: P) (simp_all add: read_header_def)

text \<open>The headers the parser has, with the one it is still building.\<close>

definition headers_read :: "'h HTTPParser \<Rightarrow> ci_map" where
  "headers_read P = p_headers P @ (if header_field P \<noteq> [] then [(header_field P, header_value P)] else [])"

lemma headers_read_fold:
  "\<forall>(k, v) \<in> set kvs. header_text k v \<Longrightarrow> header_field P = [] \<longleftrightarrow> header_value P = [] \<Longrightarrow>
   headers_read (fold read_header kvs P) = headers_read P @ kvs"
proof (induction kvs arbitrary: P)
  case (Cons kv kvs)
  obtain k v where "kv = (k, v)" "k \<noteq> []" "v \<noteq> []" using Cons.prems(1) by (cases kv) (auto simp: header_text_def)
  then have "(header_field (read_header kv P) = []) = (header_value (read_header kv P) = [])"
    "headers_read (read_header kv P) = headers_read P @ [kv]"
    using Cons.prems(2) by (auto simp: read_header_def headers_read_def)
  with Cons.IH [of "read_header kv P"] Cons.prems(1) show ?case by simp
qed simp

definition with_message :: "query_string \<Rightarrow> 'h HTTPParser \<Rightarrow> 'h HTTPParser" where
  "with_message q P = P\<lparr>nread := 0, message_complete := True,
    p_url := (if qs_point P \<noteq> 0 then take (min_content (qs_point P) (length (p_raw_url P))) (p_raw_url P) else p_raw_url P),
    p_url_params := q\<rparr>"

definition with_headers :: "'h Handler \<Rightarrow> 'h HTTPParser \<Rightarrow> 'h HTTPParser" where
  "with_headers H P = on_headers_complete H (P\<lparr>state := s_headers_done, parser_upgrade := False\<rparr>)"

lemma with_headers_fields [simp]:
  "state (with_headers H P) = s_headers_done" "parser_errno (with_headers H P) = parser_errno P" "flags (with_headers H P) = flags P"
  "uses_transfer_encoding (with_headers H P) = uses_transfer_encoding P" "content_length (with_headers H P) = content_length P"
  "parser_upgrade (with_headers H P) = False" "p_raw_url (with_headers H P) = p_raw_url P" "qs_point (with_headers H P) = qs_point P"
  "parser_method (with_headers H P) = parser_method P" "http_major (with_headers H P) = http_major P"
  "http_minor (with_headers H P) = http_minor P" "p_body (with_headers H P) = p_body P"
  by (simp_all add: with_headers_def on_headers_complete_def set_connection_parameters_def Let_def)

lemma last_byte:
  assumes "parser_errno P = CHPE_OK" "flags P = 0" "\<not> uses_transfer_encoding P" "content_length P = CROW_ULLONG_MAX"
    "parser_method P \<noteq> Connect" and "mk_query_string (p_raw_url P) = Some q"
    and "parser_errno (process_message H (with_message q (with_headers H P))) = CHPE_OK"
  shows "st_headers_almost_done H lf p P L = Next (process_message H (with_message q (with_headers H P))) (L\<lparr>l_nread := 0\<rparr>) p"
proof -
  have "on_message_complete H ((with_headers H P)\<lparr>nread := 0\<rparr>) = Inr (process_message H (with_message q (with_headers H P)))"
    using assms(6) by (simp add: on_message_complete_def with_message_def)
  moreover have "CROW_ULLONG_MAX \<noteq> 0" by (simp add: CROW_ULLONG_MAX_def)
  ultimately have "st_headers_done H lf p (with_headers H P) L =
      Next (process_message H (with_message q (with_headers H P))) (L\<lparr>l_nread := 0\<rparr>) p"
    using assms by (simp add: st_headers_done_def CROW_STRICT_CHECK_def has_flag_def CROW_CALLBACK_NOTIFY_def check_assert_def Let_def)
  then show ?thesis using assms(1-5)
    by (simp add: st_headers_almost_done_def CROW_STRICT_CHECK_def has_flag_def with_headers_def Let_def)
qed

lemma process_message_errno [simp]: "parser_errno (process_message H P) = parser_errno P"
  by (simp add: process_message_def HTTPParser_clear_def Let_def split: prod.split)

lemma run_last_line:
  assumes "drop p data = [cr, lf] @ rest" and "line_start P" and "length data \<le> 81920"
    and "flags P = 0" "\<not> uses_transfer_encoding P" "content_length P = CROW_ULLONG_MAX" "parser_method P \<noteq> Connect"
    and "mk_query_string (p_raw_url P) = Some q"
  shows "runs H base data p P (plain_locals None s p) (p + 2)
    (process_message H (with_message q (with_headers H (P\<lparr>state := s_headers_almost_done\<rparr>)))) (plain_locals None s 0)"
proof -
  have d0: "drop p data = cr # lf # rest" using assms(1) by simp
  have d: "drop (Suc p) data = lf # rest" using drop_Cons_nth(3) [OF d0] .
  have q: "Suc p < length data" using drop_Cons_nth(1) [OF d] .
  let ?P = "P\<lparr>state := s_headers_almost_done\<rparr>"
  have l: "st_headers_almost_done H lf p ?P L = Next (process_message H (with_message q (with_headers H ?P))) (L\<lparr>l_nread := 0\<rparr>) p" for p L
    using assms(2,4-8) by (intro last_byte) (simp_all add: line_start_def with_message_def)
  have "runs H base data p P (plain_locals None s p) (Suc p) ?P (plain_locals None s (Suc p))"
    using q assms(2,3) by (intro run_line_byte [OF d0])
      (simp_all add: line_start_char [OF assms(2)] line_start_char(2) [OF assms(2), of cr] st_header_field_start_def)
  also have "runs H base data (Suc p) ?P (plain_locals None s (Suc p)) (Suc (Suc p))
      (process_message H (with_message q (with_headers H ?P))) (plain_locals None s 0)"
    using q assms(3) by (intro run_header_byte [OF d]) (simp_all add: CROW_PARSING_HEADER_def execute_state_def l plain_locals_def)
  finally show ?thesis by simp
qed

lemma feed_runs:
  assumes "runs H base data 0 P (plain_locals None None 0) (length data) P' (plain_locals None s 0)" and "data \<noteq> []"
    and "fresh P" and "parser_errno P' = CHPE_OK"
  shows "feed H base data P = Inr (True, P'\<lparr>nread := 0\<rparr>)"
proof -
  have i: "initial_locals P = plain_locals None None 0"
    using assms(3) by (simp add: fresh_def initial_locals_def in_url_def plain_locals_def)
  have "execute_loop H base data 0 P (initial_locals P) = Next P' (plain_locals None s 0) (length data)"
    using assms(1) unfolding runs_def i by (simp add: execute_loop.simps [of H base data "length data"])
  moreover have "execute_end data (length data) P' (plain_locals None s 0) = Return (P'\<lparr>nread := 0\<rparr>) (length data)"
    using assms(4) by (simp add: execute_end_def check_assert_def marks_set_def plain_locals_def callback_url_def callback_body_def
        callback_header_field_def callback_header_value_def CROW_CALLBACK_DATA_def)
  ultimately have "http_parser_execute H base data P = Inr (P'\<lparr>nread := 0\<rparr>, length data)"
    using assms(2,3) by (simp add: http_parser_execute_def fresh_def)
  then show ?thesis using assms(3,4) by (simp add: feed_def fresh_def)
qed

text \<open>The request as the handler gets it.\<close>

definition plain_request :: "HTTPMethod \<Rightarrow> string \<Rightarrow> query_string \<Rightarrow> (string \<times> string) list \<Rightarrow> request" where
  "plain_request m adr q kvs = mk_request m adr (url_path adr) q kvs [] 1 1 True False False"

lemma url_of_point:
  fixes n :: "64 word"
  assumes "url_text adr" and "length adr \<le> 81920" and n: "n = (if CHR ''?'' \<in> set adr then of_nat (length (url_path adr)) else 0)"
  shows "(if n \<noteq> 0 then take (min_content n (length adr)) adr else adr) = url_path adr"
proof (cases "CHR ''?'' \<in> set adr")
  case True
  have l: "length (url_path adr) \<le> length adr" by (simp add: url_path_def length_takeWhile_le)
  have "url_path adr \<noteq> []" using assms(1) by (cases adr) (auto simp: url_text_def url_path_def)
  moreover have u: "uint (of_nat (length (url_path adr)) :: 64 word) = int (length (url_path adr))"
    using l assms(2) by (simp add: uint_nat unat_of_nat)
  moreover have "unat (of_nat (length (url_path adr)) :: 64 word) = length (url_path adr)"
    using l assms(2) by (simp add: unat_of_nat)
  ultimately have "min_content (of_nat (length (url_path adr))) (length adr) = length (url_path adr)"
    "(of_nat (length (url_path adr)) :: 64 word) \<noteq> 0"
    using l by (auto simp: min_content_def)
  then show ?thesis using True takeWhile_eq_take [of "\<lambda>c. c \<noteq> CHR ''?''" adr] by (simp add: n url_path_def)
next
  case False
  then have e: "takeWhile (\<lambda>c. c \<noteq> CHR ''?'') adr = adr" by (auto simp: takeWhile_eq_all_conv)
  show ?thesis unfolding url_path_def e using False by (simp add: n)
qed

lemma run_request:
  assumes "fresh P" and "m \<in> set methods" "m \<noteq> Connect" and "url_text adr" and "\<forall>(k, v) \<in> set kvs. header_text k v"
    and "length (request_text m adr kvs @ rest) \<le> 81920" and "mk_query_string adr = Some q"
  defines "data \<equiv> request_text m adr kvs @ rest"
  shows "\<exists>P' s. runs H base data 0 P (plain_locals None None 0) (length (request_text m adr kvs)) (process_message H (with_message q (with_headers H P')))
      (plain_locals None s 0) \<and> headers_read P' = kvs \<and> parser_errno P' = CHPE_OK \<and> flags P' = 0 \<and> http_major P' = 1 \<and>
      http_minor P' = 1 \<and> parser_method P' = m \<and> p_raw_url P' = adr \<and> p_body P' = [] \<and> p_handler P' = p_handler P \<and>
      qs_point P' = (if CHR ''?'' \<in> set adr then of_nat (length (url_path adr)) else 0) \<and>
      \<not> uses_transfer_encoding P' \<and> content_length P' = CROW_ULLONG_MAX"
proof -
  note len = assms(6)
  define d1 where "d1 = adr @ '' '' @ ''HTTP/1.1'' @ [cr, lf] @ concat (map header_line kvs) @ [cr, lf] @ rest"
  define p1 where "p1 = 0 + length (method_name m) + 1"
  define p2 where "p2 = p1 + length adr + 1"
  define p3 where "p3 = p2 + 10"
  define p4 where "p4 = p3 + length (concat (map header_line kvs))"
  have l: "length (request_text m adr kvs) = p4 + 2" "length data \<le> 81920" "p4 + 2 \<le> length data"
    using len by (simp_all add: data_def request_text_def p1_def p2_def p3_def p4_def)
  have dr: "drop 0 data = method_name m @ '' '' @ d1" by (simp add: data_def request_text_def d1_def)
  have dr1: "drop p1 data = adr @ '' '' @ ''HTTP/1.1'' @ [cr, lf] @ concat (map header_line kvs) @ [cr, lf] @ rest"
    using drop_append [of 0 data "method_name m @ '' ''" d1] dr by (simp add: p1_def d1_def)
  have dr2: "drop p2 data = ''HTTP/1.1'' @ [cr, lf] @ concat (map header_line kvs) @ [cr, lf] @ rest"
    using drop_append [of p1 data "adr @ '' ''"] dr1 by (simp add: p2_def)
  have dr3: "drop p3 data = concat (map header_line kvs) @ [cr, lf] @ rest"
    using drop_append [of p2 data "''HTTP/1.1'' @ [cr, lf]"] dr2 by (simp add: p3_def eval_nat_numeral)
  have dr4: "drop p4 data = [cr, lf] @ rest" using drop_append [OF dr3] by (simp add: p4_def)
  obtain i where r1: "runs H base data 0 P (plain_locals None None 0) p1 (P\<lparr>flags := 0, uses_transfer_encoding := False,
      content_length := CROW_ULLONG_MAX, parser_method := m, index := i, state := s_req_spaces_before_url\<rparr>) (plain_locals None None p1)"
    using run_method [OF dr, of P H base None None] assms(1,2) l by (auto simp: fresh_def p1_def p2_def p3_def p4_def)
  define P1 where "P1 = P\<lparr>flags := 0, uses_transfer_encoding := False,
      content_length := CROW_ULLONG_MAX, parser_method := m, index := i, state := s_req_spaces_before_url\<rparr>"
  define P2 where "P2 = P1\<lparr>qs_point := (if CHR ''?'' \<in> set adr then of_nat (length (url_path adr)) else qs_point P1),
      state := s_req_http_start, p_raw_url := p_raw_url P1 @ adr\<rparr>"
  define P3 where "P3 = P2\<lparr>http_major := 1, http_minor := 1, state := s_header_field_start\<rparr>"
  define P4 where "P4 = fold read_header kvs P3"
  note r1 [folded P1_def]
  also have "runs H base data p1 P1 (plain_locals None None p1) p2 P2 (plain_locals None (Some p1) p2)"
    unfolding P2_def p2_def using assms(1,3,4) l
    by (intro run_url [OF dr1]) (auto simp: P1_def fresh_def p2_def p3_def p4_def)
  also have "runs H base data p2 P2 (plain_locals None (Some p1) p2) p3 P3 (plain_locals None (Some p1) p3)"
    unfolding P3_def p3_def using l by (intro run_version [OF dr2]) (auto simp: P2_def p3_def p4_def)
  finally have r3: "runs H base data 0 P (plain_locals None None 0) p3 P3 (plain_locals None (Some p1) p3)" .
  have ls: "line_start P3" using assms(1) by (simp add: line_start_def P3_def P2_def P1_def fresh_def)
  have r4: "runs H base data p3 P3 (plain_locals None (Some p1) p3) p4 P4 (plain_locals None (Some p1) p4)" and ls4: "line_start P4"
    using run_headers [OF dr3 assms(5) ls l(2)] unfolding P4_def p4_def by blast+
  have P4: "flags P4 = 0" "\<not> uses_transfer_encoding P4" "content_length P4 = CROW_ULLONG_MAX" "parser_method P4 = m" "p_raw_url P4 = adr"
    "http_major P4 = 1" "http_minor P4 = 1" "p_body P4 = []" "p_handler P4 = p_handler P" "parser_errno P4 = CHPE_OK"
    "qs_point P4 = (if CHR ''?'' \<in> set adr then of_nat (length (url_path adr)) else 0)"
    using assms(1) by (simp_all add: P4_def read_headers_fields P3_def P2_def P1_def fresh_def)
  have "headers_read P4 = kvs"
  proof -
    have "(header_field P3 = []) = (header_value P3 = [])" "headers_read P3 = []"
      using assms(1) by (simp_all add: headers_read_def P3_def P2_def P1_def fresh_def)
    then show ?thesis unfolding P4_def using headers_read_fold [OF assms(5), of P3] by simp
  qed
  then have "headers_read (P4\<lparr>state := s_headers_almost_done\<rparr>) = kvs" by (auto simp: headers_read_def)
  moreover have "runs H base data 0 P (plain_locals None None 0) (length (request_text m adr kvs))
      (process_message H (with_message q (with_headers H (P4\<lparr>state := s_headers_almost_done\<rparr>)))) (plain_locals None (Some p1) 0)"
    unfolding l(1) using assms(3,7) P4
    by (intro runs_trans [OF runs_trans [OF r3 r4] run_last_line [OF dr4 ls4 l(2)]]) simp_all
  ultimately show ?thesis using P4 by (intro exI [of _ "P4\<lparr>state := s_headers_almost_done\<rparr>"] exI [of _ "Some p1"]) simp
qed

lemma with_headers_request:
  assumes "headers_read P = kvs" "flags P = 0" "http_major P = 1" "http_minor P = 1" "parser_method P = m" "p_raw_url P = adr"
    "p_body P = []" "qs_point P = (if CHR ''?'' \<in> set adr then of_nat (length (url_path adr)) else 0)"
    and "url_text adr" and "length adr \<le> 81920"
  shows "to_request (with_message q (with_headers H P)) = plain_request m adr q kvs"
    "\<exists>P0. p_handler (with_headers H P) = handle_header H P0 \<and> p_headers P0 = kvs \<and> p_handler P0 = p_handler P"
proof -
  have "p_headers (with_headers H P) = kvs" "p_keep_alive (with_headers H P) = True" "p_close_connection (with_headers H P) = False"
    using assms(1-4) by (auto simp: with_headers_def on_headers_complete_def set_connection_parameters_def headers_read_def
        ci_emplace_def has_flag_def Let_def)
  then show "to_request (with_message q (with_headers H P)) = plain_request m adr q kvs"
    using assms(2-7) url_of_point [OF assms(9,10,8)] by (auto simp: to_request_def plain_request_def with_message_def split: if_splits)
  define P2 where "P2 = set_connection_parameters (if header_field P \<noteq> []
    then P\<lparr>state := s_headers_done, parser_upgrade := False, p_headers := ci_emplace (header_field P) (header_value P) (p_headers P),
       header_field := [], header_value := []\<rparr> else P\<lparr>state := s_headers_done, parser_upgrade := False\<rparr>)"
  have "p_handler (with_headers H P) = handle_header H P2"
    by (simp add: with_headers_def on_headers_complete_def P2_def Let_def)
  moreover have "p_headers P2 = kvs" "p_handler P2 = p_handler P"
    using assms(1) by (auto simp: P2_def set_connection_parameters_def headers_read_def ci_emplace_def)
  ultimately show "\<exists>P0. p_handler (with_headers H P) = handle_header H P0 \<and> p_headers P0 = kvs \<and> p_handler P0 = p_handler P" by blast
qed

lemma fresh_again: "parser_errno P = CHPE_OK \<Longrightarrow> fresh (HTTPParser_clear ((process_message H P)\<lparr>nread := 0\<rparr>))"
  by (simp add: fresh_def HTTPParser_clear_def)

lemma feed_request_complete:
  assumes "fresh P" and "m \<in> set methods" "m \<noteq> Connect" and "url_text adr" and "\<forall>(k, v) \<in> set kvs. header_text k v"
    and "length (request_text m adr kvs) \<le> 81920"
  shows "\<exists>q P0 P1. mk_query_string adr = Some q \<and>
    feed H base (request_text m adr kvs) P = Inr (True, (process_message H P1)\<lparr>nread := 0\<rparr>) \<and>
    to_request P1 = plain_request m adr q kvs \<and> p_handler P1 = handle_header H P0 \<and> p_headers P0 = kvs \<and>
    p_handler P0 = p_handler P \<and> fresh (HTTPParser_clear ((process_message H P1)\<lparr>nread := 0\<rparr>)) \<and> message_complete P1"
proof -
  obtain q where q: "mk_query_string adr = Some q" using mk_query_string_safe [of adr] by blast
  obtain P' s where r: "runs H base (request_text m adr kvs) 0 P (plain_locals None None 0) (length (request_text m adr kvs))
      (process_message H (with_message q (with_headers H P'))) (plain_locals None s 0)"
    and P': "headers_read P' = kvs" "flags P' = 0" "http_major P' = 1" "http_minor P' = 1" "parser_method P' = m" "p_raw_url P' = adr"
    "p_body P' = []" "qs_point P' = (if CHR ''?'' \<in> set adr then of_nat (length (url_path adr)) else 0)"
    and e: "parser_errno P' = CHPE_OK" "p_handler P' = p_handler P"
    using run_request [OF assms(1-5) _ q, of "[]" H base] assms(6) by auto
  have len: "length adr \<le> 81920" using assms(6) by (simp add: request_text_def)
  let ?P = "with_message q (with_headers H P')"
  have ok: "parser_errno ?P = CHPE_OK" using e(1) by (simp add: with_message_def)
  then have "feed H base (request_text m adr kvs) P = Inr (True, (process_message H ?P)\<lparr>nread := 0\<rparr>)"
    using feed_runs [OF r _ assms(1)] by (simp add: request_text_def)
  moreover obtain P0 where "p_handler (with_headers H P') = handle_header H P0" "p_headers P0 = kvs" "p_handler P0 = p_handler P'"
    using with_headers_request(2) [OF P' assms(4) len] by blast
  moreover have "p_handler ?P = p_handler (with_headers H P')" "message_complete ?P" by (simp_all add: with_message_def)
  ultimately show ?thesis using q e with_headers_request(1) [OF P' assms(4) len] fresh_again [OF ok] by metis
qed

lemma feed_request:
  assumes "fresh P" and "m \<in> set methods" "m \<noteq> Connect" and "url_text adr" and "\<forall>(k, v) \<in> set kvs. header_text k v"
    and "length (request_text m adr kvs) \<le> 81920"
  shows "\<exists>q P0 P1. mk_query_string adr = Some q \<and>
    feed H base (request_text m adr kvs) P = Inr (True, (process_message H P1)\<lparr>nread := 0\<rparr>) \<and>
    to_request P1 = plain_request m adr q kvs \<and> p_handler P1 = handle_header H P0 \<and> p_headers P0 = kvs \<and>
    p_handler P0 = p_handler P \<and> fresh (HTTPParser_clear ((process_message H P1)\<lparr>nread := 0\<rparr>))"
  using feed_request_complete [OF assms, of H base] by blast

end
