(* ===== verification/Http_Properties.thy ===== *)
theory Http_Properties
  imports Http_Headers "HOL-Library.Multiset"
begin

text \<open>
  The properties of the HTTP parser: what it makes of a request, that it does not fault, and where it goes wrong.
\<close>

section \<open>Safety\<close>

text \<open>
  C26. Whatever a connection does with its parser, in any order and with any handler: as long as no buffer it feeds
  contains a NUL, every call returns. No assertion of the parser fails, and no callback gets bytes from outside the buffer.
\<close>

theorem parser_never_faults:
  assumes "list_all without_nul calls"
  shows "\<exists>P. run_parser H calls (mk_HTTPParser h) = Inr P"
  using run_parser_safe [OF mk_HTTPParser_ok assms, of H h] by blast

definition log_handler :: "request list Handler" where
  "log_handler = \<lparr>handle_header = p_handler, handle_message = (\<lambda>P. (p_handler P @ [to_request P], False))\<rparr>"

definition chunked_text :: string where
  "chunked_text = ''POST /x HTTP/1.1'' @ [cr, lf] @ ''Transfer-Encoding: chunked'' @ [cr, lf, cr, lf] @
     ''2'' @ [cr, lf] @ ''ab'' @ [cr, lf] @ ''0'' @ [cr, lf, cr, lf]"

theorem parser_never_faults_witness:
  "\<exists>P. run_parser log_handler [Feed 4096 (take 30 chunked_text), Feed 4096 (drop 30 chunked_text), Done, Clear, Done] (mk_HTTPParser []) = Inr P"
proof -
  have "list_all without_nul [Feed 4096 (take 30 chunked_text), Feed 4096 (drop 30 chunked_text), Done, Clear, Done]"
    by code_simp
  then show ?thesis by (rule parser_never_faults)
qed

section \<open>Requests\<close>

lemma get_header_value_unique:
  assumes "(k, v) \<in> set h" and "ci_count k h = 1"
  shows "get_header_value h k = v"
proof -
  let ?P = "\<lambda>(k', _). ci_key_eq k' k"
  have "(k, v) \<in> set (filter ?P h)" using assms(1) by simp
  moreover obtain x where x: "filter ?P h = [x]" using assms(2) by (auto simp: ci_count_def length_Suc_conv)
  ultimately have "filter ?P h = [(k, v)]" by simp
  then have "find ?P h = Some (k, v)" by (induction h) (auto split: if_splits)
  then show ?thesis by (simp add: get_header_value_find ci_find_def)
qed

text \<open>
  C27. Requests without a body, fed as one buffer. A request of any method but CONNECT that a client writes with a URL of URL
  characters and lines of headers with non-empty values, no name of which begins with that of a header the parser interprets (Connection,
  Proxy-Connection, Content-Length, Transfer-Encoding, Upgrade), and of at most 80 KiB, is read as that request: fed to a parser
  that waits for a message, the handler is told the headers and then the message, once each; the message has the method, the
  URL with its path and parameters, no body, version 1.1, and exactly the headers sent, as a multiset, and a name that was sent
  once is looked up with its value. After \<open>clear\<close> the parser waits for the next one.
\<close>

theorem request_roundtrip:
  assumes "fresh P" and "m \<in> set methods" "m \<noteq> Connect" and "url_text adr" and "\<forall>(k, v) \<in> set kvs. header_text k v"
    and "length (request_text m adr kvs) \<le> 81920"
  shows "\<exists>q P0 P1 hs. mk_query_string adr = Some q \<and>
    feed H base (request_text m adr kvs) P = Inr (True, (process_message H P1)\<lparr>nread := 0\<rparr>) \<and>
    to_request P1 = plain_request m adr q hs \<and> mset hs = mset kvs \<and>
    (\<forall>k v. (k, v) \<in> set kvs \<and> ci_count k kvs = 1 \<longrightarrow> get_header_value hs k = v) \<and>
    p_handler P1 = handle_header H P0 \<and> p_headers P0 = hs \<and> p_handler P0 = p_handler P \<and>
    fresh (HTTPParser_clear ((process_message H P1)\<lparr>nread := 0\<rparr>))"
proof -
  obtain q P0 P1 where "mk_query_string adr = Some q"
    "feed H base (request_text m adr kvs) P = Inr (True, (process_message H P1)\<lparr>nread := 0\<rparr>)"
    "to_request P1 = plain_request m adr q kvs" "p_handler P1 = handle_header H P0" "p_headers P0 = kvs"
    "p_handler P0 = p_handler P" "fresh (HTTPParser_clear ((process_message H P1)\<lparr>nread := 0\<rparr>))"
    using feed_request [OF assms, of H base] by blast
  moreover have "get_header_value kvs k = v" if "(k, v) \<in> set kvs" "ci_count k kvs = 1" for k v
    using that by (rule get_header_value_unique)
  ultimately show ?thesis by blast
qed

theorem request_roundtrip_witness:
  "\<exists>q P0 P1 hs. mk_query_string ''/api/1.0/wallet/get_balance?accountID=7'' = Some q \<and>
    feed log_handler 4096 (request_text Get ''/api/1.0/wallet/get_balance?accountID=7'' [(''Host'', ''wallet''), (''Cookie'', ''a=1'')])
      (mk_HTTPParser []) = Inr (True, (process_message log_handler P1)\<lparr>nread := 0\<rparr>) \<and>
    to_request P1 = plain_request Get ''/api/1.0/wallet/get_balance?accountID=7'' q hs \<and>
    mset hs = {#(''Host'', ''wallet''), (''Cookie'', ''a=1'')#} \<and> get_header_value hs ''Host'' = ''wallet'' \<and>
    p_handler P1 = handle_header log_handler P0 \<and> p_headers P0 = hs \<and> p_handler P0 = [] \<and>
    fresh (HTTPParser_clear ((process_message log_handler P1)\<lparr>nread := 0\<rparr>))"
proof -
  let ?kvs = "[(''Host'', ''wallet''), (''Cookie'', ''a=1'')]"
  have P: "fresh (mk_HTTPParser ([] :: request list))" "p_handler (mk_HTTPParser ([] :: request list)) = []"
    by (simp_all add: fresh_def mk_HTTPParser_def)
  have m: "Get \<in> set methods" "Get \<noteq> Connect" by (simp_all add: methods_def)
  have u: "url_text ''/api/1.0/wallet/get_balance?accountID=7''" by code_simp
  have h: "\<forall>(k, v) \<in> set ?kvs. header_text k v" by code_simp
  have l: "length (request_text Get ''/api/1.0/wallet/get_balance?accountID=7'' ?kvs) \<le> 81920"
    by (simp add: request_text_def header_line_def method_name_def method_strings_def)
  have c: "(''Host'', ''wallet'') \<in> set ?kvs \<and> ci_count ''Host'' ?kvs = 1" by code_simp
  have s: "mset ?kvs = {#(''Host'', ''wallet''), (''Cookie'', ''a=1'')#}" by simp
  show ?thesis using request_roundtrip [OF P(1) m u h l, of log_handler 4096] c unfolding P(2) s by (elim exE conjE) (intro exI conjI, assumption+, blast, assumption+)
qed

section \<open>Where the parser goes wrong\<close>

text \<open>
  A NUL as the first character of a Connection header is folded to a space, so the value is read in
  a state that the parser excludes with an assertion: a request of a client stops a server that is built with assertions.
\<close>

theorem nul_fails_assertion:
  "feed H base (''GET / HTTP/1.1'' @ [cr, lf] @ ''Connection: '' @ [nul] @ ''x'') (mk_HTTPParser h) = Inl Assert_failed"
proof -
  have "case_sum Some (\<lambda>_. None) (feed H base (''GET / HTTP/1.1'' @ [cr, lf] @ ''Connection: '' @ [nul] @ ''x'') (mk_HTTPParser h)) =
      Some Assert_failed"
    by code_simp
  then show ?thesis by (auto split: sum.splits)
qed

definition urls_read :: "parser_call list \<Rightarrow> string list option" where
  "urls_read calls =
     (case run_parser log_handler calls (mk_HTTPParser []) of Inl _ \<Rightarrow> None | Inr P \<Rightarrow> Some (map req_url (p_handler P)))"

text \<open>
  The position of the question mark is measured from a mark that is null when the buffer with the start of the URL
  ended before it. The URL of such a request keeps its query, so that no route matches it; in one
  buffer the same text gives the path.
\<close>

theorem split_url_keeps_query:
  "urls_read [Feed 4096 ''GET /api/x'', Feed 4096 (''?a=1 HTTP/1.1'' @ [cr, lf, cr, lf])] = Some [''/api/x?a=1''] \<and>
   urls_read [Feed 4096 (''GET /api/x?a=1 HTTP/1.1'' @ [cr, lf, cr, lf])] = Some [''/api/x'']"
  by (rule conjI) code_simp+

section \<open>Line feeds after a message\<close>

lemma repeat_line_feed:
  assumes "drop p data = lf # rest" and "state P = s_headers_done" and "parser_errno P = CHPE_OK" and "\<not> parser_upgrade P"
    and "flags P = 0" "\<not> uses_transfer_encoding P" "content_length P = CROW_ULLONG_MAX" and "mk_query_string (p_raw_url P) = Some q"
  shows "runs H base data p P (plain_locals None s 0) (Suc p) (process_message H (with_message q P)) (plain_locals None s 0)"
proof -
  have "on_message_complete H (P\<lparr>nread := 0\<rparr>) = Inr (process_message H (with_message q P))"
    using assms(8) by (simp add: on_message_complete_def with_message_def)
  moreover have "CROW_ULLONG_MAX \<noteq> 0" by (simp add: CROW_ULLONG_MAX_def)
  ultimately have "st_headers_done H lf p P L = Next (process_message H (with_message q P)) (L\<lparr>l_nread := 0\<rparr>) p" for L
    using assms(3-7)
    by (simp add: st_headers_done_def CROW_STRICT_CHECK_def has_flag_def CROW_CALLBACK_NOTIFY_def check_assert_def with_message_def Let_def)
  moreover have "\<not> max_header_size < 1" using header_size_ok [of 1] by simp
  ultimately have "execute_byte H base data p P (plain_locals None s 0) = Next (process_message H (with_message q P)) (plain_locals None s 0) p"
    using assms(2) drop_Cons_nth [OF assms(1)]
    by (simp add: execute_byte_def CROW_PARSING_HEADER_def CROW_COUNT_HEADER_SIZE_def execute_state_def plain_locals_def Let_def)
  then show ?thesis using drop_Cons_nth(1) [OF assms(1)] by (simp add: runs_def execute_loop.simps [of H base data p])
qed

text \<open>A parser after a message without a body, whose request is \<open>r\<close>.\<close>

definition after_message :: "request \<Rightarrow> query_string \<Rightarrow> request list HTTPParser \<Rightarrow> bool" where
  "after_message r q P \<longleftrightarrow> state P = s_headers_done \<and> parser_errno P = CHPE_OK \<and> \<not> parser_upgrade P \<and> flags P = 0 \<and>
     \<not> uses_transfer_encoding P \<and> content_length P = CROW_ULLONG_MAX \<and> mk_query_string (p_raw_url P) = Some q \<and>
     to_request (with_message q P) = r"

lemma after_message_logged:
  "after_message r q P \<Longrightarrow> after_message r q (process_message log_handler (with_message q P)) \<and>
     p_handler (process_message log_handler (with_message q P)) = p_handler P @ [r]"
  by (auto simp: after_message_def process_message_def log_handler_def with_message_def to_request_def Let_def)

lemma run_line_feeds:
  assumes "drop p data = replicate n lf" and "after_message r q P"
  shows "\<exists>P'. runs log_handler base data p P (plain_locals None s 0) (p + n) P' (plain_locals None s 0) \<and>
    after_message r q P' \<and> p_handler P' = p_handler P @ replicate n r"
  using assms
proof (induction n arbitrary: p P)
  case (Suc n)
  let ?P = "process_message log_handler (with_message q P)"
  have d: "drop p data = lf # replicate n lf" using Suc.prems(1) by simp
  have "runs log_handler base data p P (plain_locals None s 0) (Suc p) ?P (plain_locals None s 0)"
    using Suc.prems(2) by (intro repeat_line_feed [OF d]) (auto simp: after_message_def)
  moreover obtain P' where "runs log_handler base data (Suc p) ?P (plain_locals None s 0) (Suc p + n) P' (plain_locals None s 0)"
    "after_message r q P'" "p_handler P' = p_handler ?P @ replicate n r"
    using Suc.IH [of "Suc p" ?P] drop_Cons_nth(3) [OF d] after_message_logged [OF Suc.prems(2)] by blast
  ultimately show ?case using after_message_logged [OF Suc.prems(2)] runs_trans by fastforce
qed (auto intro: runs_refl)

lemma log_after_request:
  assumes "headers_read P = kvs" "parser_errno P = CHPE_OK" "flags P = 0" "http_major P = 1" "http_minor P = 1" "parser_method P = m"
    "p_raw_url P = adr" "p_body P = []" "qs_point P = (if CHR ''?'' \<in> set adr then of_nat (length (url_path adr)) else 0)"
    "\<not> uses_transfer_encoding P" "content_length P = CROW_ULLONG_MAX"
    and "url_text adr" and "length adr \<le> 81920" and "mk_query_string adr = Some q"
  defines "P1 \<equiv> process_message log_handler (with_message q (with_headers log_handler P))"
  shows "after_message (plain_request m adr q kvs) q P1" "p_handler P1 = p_handler P @ [plain_request m adr q kvs]"
proof -
  have r: "to_request (with_message q (with_headers log_handler P)) = plain_request m adr q kvs"
    using assms(1-13) by (intro with_headers_request) simp_all
  then have "after_message (plain_request m adr q kvs) q (with_headers log_handler P)"
    using assms(2,3,7,10,11,14) by (simp add: after_message_def)
  moreover have "p_handler (with_headers log_handler P) = p_handler P"
    by (simp add: with_headers_def on_headers_complete_def log_handler_def set_connection_parameters_def Let_def)
  ultimately show "after_message (plain_request m adr q kvs) q P1" "p_handler P1 = p_handler P @ [plain_request m adr q kvs]"
    unfolding P1_def using after_message_logged by auto
qed

text \<open>
  A message without a body leaves the parser in the state that has just read the end of the headers, until the
  connection clears it. Each further line feed in the same buffer is again the end of the headers: the handler gets
  the request once more for every one of them.
\<close>

theorem line_feeds_repeat_request:
  assumes "fresh P" and "m \<in> set methods" "m \<noteq> Connect" and "url_text adr" and "\<forall>(k, v) \<in> set kvs. header_text k v"
    and "length (request_text m adr kvs @ replicate n lf) \<le> 81920"
  shows "\<exists>q P'. mk_query_string adr = Some q \<and> feed log_handler base (request_text m adr kvs @ replicate n lf) P = Inr (True, P') \<and>
    p_handler P' = p_handler P @ replicate (Suc n) (plain_request m adr q kvs)"
proof -
  let ?data = "request_text m adr kvs @ replicate n lf" and ?r = "plain_request m adr"
  obtain q where q: "mk_query_string adr = Some q" using mk_query_string_safe [of adr] by blast
  obtain P' s where P': "headers_read P' = kvs" "parser_errno P' = CHPE_OK" "flags P' = 0" "http_major P' = 1" "http_minor P' = 1"
    "parser_method P' = m" "p_raw_url P' = adr" "p_body P' = []"
    "qs_point P' = (if CHR ''?'' \<in> set adr then of_nat (length (url_path adr)) else 0)"
    "\<not> uses_transfer_encoding P'" "content_length P' = CROW_ULLONG_MAX" and h: "p_handler P' = p_handler P"
    and r: "runs log_handler base ?data 0 P (plain_locals None None 0) (length (request_text m adr kvs))
      (process_message log_handler (with_message q (with_headers log_handler P'))) (plain_locals None s 0)"
    using run_request [OF assms q, of log_handler base] by blast
  have len: "length adr \<le> 81920" using assms(6) by (simp add: request_text_def)
  note a = log_after_request [OF P' assms(4) len q]
  obtain P'' where r': "runs log_handler base ?data (length (request_text m adr kvs))
      (process_message log_handler (with_message q (with_headers log_handler P'))) (plain_locals None s 0) (length ?data) P'' (plain_locals None s 0)"
    and a': "after_message (?r q kvs) q P''"
    "p_handler P'' = p_handler (process_message log_handler (with_message q (with_headers log_handler P'))) @ replicate n (?r q kvs)"
    using run_line_feeds [OF _ a(1), of "length (request_text m adr kvs)" ?data n base s] by auto
  have "feed log_handler base ?data P = Inr (True, P''\<lparr>nread := 0\<rparr>)"
    using a'(1) by (intro feed_runs [OF runs_trans [OF r r'] _ assms(1)]) (auto simp: after_message_def request_text_def)
  then show ?thesis using q a(2) a'(2) h by (intro exI [of _ q] exI [of _ "P''\<lparr>nread := 0\<rparr>"]) simp
qed

theorem line_feeds_repeat_request_witness:
  "\<exists>q P'. mk_query_string ''/api/1.0/wallet/balance_transfer?amount=5'' = Some q \<and>
    feed log_handler 4096 (request_text Get ''/api/1.0/wallet/balance_transfer?amount=5'' [(''Host'', ''w'')] @ replicate 1 lf)
      (mk_HTTPParser []) = Inr (True, P') \<and>
    p_handler P' = [] @ replicate (Suc 1) (plain_request Get ''/api/1.0/wallet/balance_transfer?amount=5'' q [(''Host'', ''w'')])"
proof -
  have P: "fresh (mk_HTTPParser ([] :: request list))" "p_handler (mk_HTTPParser ([] :: request list)) = []"
    by (simp_all add: fresh_def mk_HTTPParser_def)
  have m: "Get \<in> set methods" "Get \<noteq> Connect" by (simp_all add: methods_def)
  have u: "url_text ''/api/1.0/wallet/balance_transfer?amount=5''" by code_simp
  have h: "\<forall>(k, v) \<in> set [(''Host'', ''w'')]. header_text k v" by code_simp
  have l: "length (request_text Get ''/api/1.0/wallet/balance_transfer?amount=5'' [(''Host'', ''w'')] @ replicate 1 lf) \<le> 81920"
    by (simp add: request_text_def header_line_def method_name_def method_strings_def)
  show ?thesis using line_feeds_repeat_request [OF P(1) m u h l, of 4096] unfolding P(2) .
qed

end
