(* ===== verification/Crow_Connection.thy ===== *)
theory Crow_Connection
  imports Http_Execute Crow_Router "HOL-Library.Sublist"
begin

text \<open>
  The connection of lib/crowapi/crow_all.h: it reads from a socket, feeds the parser, hands requests to the
  application and writes the responses. The state of a connection is the handler of its parser; \<open>'w\<close> is the state of the
  application. Reads and writes are asynchronous: starting one adds to the operations that are pending, and its
  completion is an event of its own. The operations are those of an open socket that takes all it is given: an
  asynchronous write sends the bytes its buffers have when it starts. There are no middlewares, as in the wallet,
  and neither SSL nor compression, which the build does not enable.
\<close>

section \<open>Servers and connections\<close>

text \<open>
  What a connection is given: the application and its way with upgrades, the name of the server, the date, the
  address of the client, the size from which bodies are written in pieces, the files, and the order in which a
  \<^verbatim>\<open>std::unordered_multimap\<close> is traversed.
\<close>

record 'w Server =
  app :: "request \<Rightarrow> response \<Rightarrow> 'w \<Rightarrow> response result \<times> 'w"
  app_upgrade :: "request \<Rightarrow> response \<Rightarrow> response result"
  server_name :: string
  cached_date :: string
  remote_endpoint :: string
  stream_threshold :: int
  file_content :: "string \<Rightarrow> string"
  traverse :: "ci_map \<Rightarrow> ci_map"

text \<open>
  The fields of a connection, with the application's state, whether the socket is open and what was sent on it,
  whether the connection was deleted and its timer is set, the pending operations, and the exception that left a
  callback, if one did.
\<close>

record 'w Connection =
  c_world :: 'w
  c_open :: bool
  c_sent :: string
  c_req :: request
  c_res :: response
  c_close :: bool
  c_buffers :: string
  c_body_copy :: string
  is_reading :: bool
  is_writing :: bool
  need_after :: bool
  need_read :: bool
  add_keep_alive :: bool
  c_deleted :: bool
  c_deadline :: bool
  pending_reads :: nat
  pending_writes :: nat
  c_fault :: "fault option"

abbreviation crlf :: string where
  "crlf \<equiv> [cr, lf]"

definition check_destroy :: "'w Connection \<Rightarrow> 'w Connection" where
  "check_destroy c = (if \<not> is_reading c \<and> \<not> is_writing c then c\<lparr>c_deleted := True, c_deadline := False\<rparr> else c)"

definition cancel_deadline_timer :: "'w Connection \<Rightarrow> 'w Connection" where
  "cancel_deadline_timer c = c\<lparr>c_deadline := False\<rparr>"

definition start_deadline :: "'w Connection \<Rightarrow> 'w Connection" where
  "start_deadline c = (cancel_deadline_timer c)\<lparr>c_deadline := True\<rparr>"

section \<open>The head of a response\<close>

abbreviation status_line :: "string \<Rightarrow> string" where
  "status_line s \<equiv> s @ crlf"

definition statusCodes :: "(int \<times> string) list" where
  "statusCodes =
     [(100, status_line ''HTTP/1.1 100 Continue''),
      (101, status_line ''HTTP/1.1 101 Switching Protocols''),
      (200, status_line ''HTTP/1.1 200 OK''),
      (201, status_line ''HTTP/1.1 201 Created''),
      (202, status_line ''HTTP/1.1 202 Accepted''),
      (203, status_line ''HTTP/1.1 203 Non-Authoritative Information''),
      (204, status_line ''HTTP/1.1 204 No Content''),
      (205, status_line ''HTTP/1.1 205 Reset Content''),
      (206, status_line ''HTTP/1.1 206 Partial Content''),
      (300, status_line ''HTTP/1.1 300 Multiple Choices''),
      (301, status_line ''HTTP/1.1 301 Moved Permanently''),
      (302, status_line ''HTTP/1.1 302 Found''),
      (303, status_line ''HTTP/1.1 303 See Other''),
      (304, status_line ''HTTP/1.1 304 Not Modified''),
      (307, status_line ''HTTP/1.1 307 Temporary Redirect''),
      (308, status_line ''HTTP/1.1 308 Permanent Redirect''),
      (400, status_line ''HTTP/1.1 400 Bad Request''),
      (401, status_line ''HTTP/1.1 401 Unauthorized''),
      (403, status_line ''HTTP/1.1 403 Forbidden''),
      (404, status_line ''HTTP/1.1 404 Not Found''),
      (405, status_line ''HTTP/1.1 405 Method Not Allowed''),
      (407, status_line ''HTTP/1.1 407 Proxy Authentication Required''),
      (409, status_line ''HTTP/1.1 409 Conflict''),
      (410, status_line ''HTTP/1.1 410 Gone''),
      (413, status_line ''HTTP/1.1 413 Payload Too Large''),
      (415, status_line ''HTTP/1.1 415 Unsupported Media Type''),
      (416, status_line ''HTTP/1.1 416 Range Not Satisfiable''),
      (417, status_line ''HTTP/1.1 417 Expectation Failed''),
      (428, status_line ''HTTP/1.1 428 Precondition Required''),
      (429, status_line ''HTTP/1.1 429 Too Many Requests''),
      (451, status_line ''HTTP/1.1 451 Unavailable For Legal Reasons''),
      (500, status_line ''HTTP/1.1 500 Internal Server Error''),
      (501, status_line ''HTTP/1.1 501 Not Implemented''),
      (502, status_line ''HTTP/1.1 502 Bad Gateway''),
      (503, status_line ''HTTP/1.1 503 Service Unavailable''),
      (504, status_line ''HTTP/1.1 504 Gateway Timeout''),
      (506, status_line ''HTTP/1.1 506 Variant Also Negotiates'')]"

definition header_out :: "string \<Rightarrow> string \<Rightarrow> string" where
  "header_out k v = k @ '': '' @ v @ crlf"

definition known_response :: "response \<Rightarrow> response" where
  "known_response r =
     (let r1 = (if code r \<in> fst ` set statusCodes then r else r\<lparr>code := 500\<rparr>);
          line = (case map_of statusCodes (code r1) of Some l \<Rightarrow> l | None \<Rightarrow> [])
      in if code r1 \<ge> 400 \<and> body r1 = [] then r1\<lparr>body := drop 9 line\<rparr> else r1)"

definition response_head :: "'w Server \<Rightarrow> bool \<Rightarrow> response \<Rightarrow> string" where
  "response_head S keep r =
     (case map_of statusCodes (code r) of Some l \<Rightarrow> l | None \<Rightarrow> []) @
     concat (map (\<lambda>(k, v). header_out k v) (traverse S (headers r))) @
     (if \<not> manual_length_header r \<and> ci_count ''content-length'' (headers r) = 0
      then header_out ''Content-Length'' (to_string (int (length (body r)))) else []) @
     (if ci_count ''server'' (headers r) = 0 then header_out ''Server'' (server_name S) else []) @
     (if ci_count ''date'' (headers r) = 0 then header_out ''Date'' (cached_date S) else []) @
     (if keep then ''Connection: Keep-Alive'' @ crlf else []) @ crlf"

definition prepare_buffers :: "'w Server \<Rightarrow> 'w Connection \<Rightarrow> 'w Connection" where
  "prepare_buffers S c =
     (let c1 = c\<lparr>c_res := (c_res c)\<lparr>has_complete_request_handler := False\<rparr>\<rparr> in
      if \<not> c_open c1 then c1
      else let r = known_response (c_res c1)
           in c1\<lparr>c_res := r, c_buffers := response_head S (add_keep_alive c1) r\<rparr>)"

section \<open>Reading and writing\<close>

text \<open>\<open>do_read\<close> and \<open>do_write\<close> start an asynchronous operation.\<close>

definition do_read :: "'w Connection \<Rightarrow> 'w Connection" where
  "do_read c = c\<lparr>is_reading := True, pending_reads := pending_reads c + 1\<rparr>"

definition do_write :: "'w Connection \<Rightarrow> 'w Connection" where
  "do_write c = c\<lparr>is_writing := True, pending_writes := pending_writes c + 1,
     c_sent := (if c_open c then c_sent c @ c_buffers c else c_sent c)\<rparr>"

text \<open>
  Synchronous writes of the head and of a body, and what follows them; the second result tells whether the
  parser was cleared. Writing to a closed socket throws.
\<close>

definition written_sync :: "string \<Rightarrow> 'w Connection \<Rightarrow> 'w Connection \<times> bool" where
  "written_sync payload c =
     (if \<not> c_open c then (c\<lparr>is_writing := True, c_fault := Some (Throw (Runtime_error ''write''))\<rparr>, False)
      else let c1 = c\<lparr>is_writing := False, c_sent := c_sent c @ c_buffers c @ payload\<rparr>;
               c2 = (if c_close c1 then check_destroy (c1\<lparr>c_open := False\<rparr>) else c1)
           in (c2\<lparr>c_res := response_clear (fst (response_end (c_res c2))), c_buffers := []\<rparr>, True))"

text \<open>A response names a file only when \<^verbatim>\<open>stat\<close> found it.\<close>

definition do_write_static :: "'w Server \<Rightarrow> 'w Connection \<Rightarrow> 'w Connection \<times> bool" where
  "do_write_static S c = written_sync (file_content S (file_path (c_res c))) c"

text \<open>The pieces of a long body, of 16384 bytes each but for the last one.\<close>

function body_pieces :: "string \<Rightarrow> string list" where
  "body_pieces b = (if int (length b) > 16384 then take 16384 b # body_pieces (drop 16384 b) else [b])"
  by pat_completeness auto
termination
  by (relation "measure length") auto

declare body_pieces.simps [simp del]

definition do_write_general :: "'w Server \<Rightarrow> 'w Connection \<Rightarrow> 'w Connection \<times> bool" where
  "do_write_general S c =
     (if int (length (body (c_res c))) < stream_threshold S then
        (let c1 = do_write (c\<lparr>c_body_copy := body (c_res c), c_res := (c_res c)\<lparr>body := c_body_copy c\<rparr>,
                              c_buffers := c_buffers c @ body (c_res c)\<rparr>)
         in (if need_read c1 then do_read (start_deadline (c1\<lparr>need_read := False\<rparr>)) else c1, False))
      else
        let pieces = (if body (c_res c) = [] then [] else body_pieces (body (c_res c)))
        in written_sync (concat pieces) (c\<lparr>c_res := (c_res c)\<lparr>body := []\<rparr>\<rparr>))"

definition absolute_location :: "request \<Rightarrow> response \<Rightarrow> response" where
  "absolute_location req r =
     (let location = response_get_header_value r ''Location'' in
      if location \<noteq> [] \<and> \<not> sublist ''://'' location
      then set_header ''location'' (''http://'' @ request_get_header_value req ''Host'' @ location) r else r)"

definition complete_request :: "'w Server \<Rightarrow> 'w Connection \<Rightarrow> 'w Connection \<times> bool" where
  "complete_request S c =
     (let c1 = c\<lparr>need_after := False, c_res := absolute_location (c_req c) (c_res c)\<rparr>;
          c2 = prepare_buffers S c1
      in if is_static_type (c_res c2) then do_write_static S c2 else do_write_general S c2)"

section \<open>Handling\<close>

text \<open>
  The parser calls these from inside \<open>feed\<close>. An exception leaves \<open>feed\<close> at once: after one, no more of the buffer
  is handled.
\<close>

definition conn_handle_header :: "'w Server \<Rightarrow> 'w Connection HTTPParser \<Rightarrow> 'w Connection" where
  "conn_handle_header S P =
     (if c_fault (p_handler P) \<noteq> None then p_handler P
      else if http_major P = 1 \<and> http_minor P = 1 \<and> get_header_value (p_headers P) ''expect'' = ''100-continue''
      then do_write ((p_handler P)\<lparr>c_buffers := ''HTTP/1.1 100 Continue'' @ crlf @ crlf\<rparr>)
      else p_handler P)"

text \<open>
  A response that the application has completed was written by \<open>complete_request\<close> from inside the call,
  before the header is set.
\<close>

definition call_app :: "'w Server \<Rightarrow> 'w Connection \<Rightarrow> 'w Connection \<times> bool" where
  "call_app S c =
     (case app S (c_req c) (c_res c) (c_world c) of
        (Inl f, w) \<Rightarrow> (c\<lparr>c_world := w, c_fault := Some f\<rparr>, False)
      | (Inr r, w) \<Rightarrow>
          (let (c1, cleared) = (if completed r then complete_request S (c\<lparr>c_world := w, c_res := r\<rparr>)
                                else (c\<lparr>c_world := w, c_res := r\<rparr>, False))
           in (if add_keep_alive c1 \<and> c_fault c1 = None
               then c1\<lparr>c_res := set_header ''connection'' ''Keep-Alive'' (c_res c1)\<rparr> else c1, cleared)))"

text \<open>
  \<open>handle\<close>. Reading the address of the other end throws when the socket is closed. The rules of an application
  without websockets leave the socket alone on an upgrade, and end the response while it may have no completion handler.
\<close>

definition conn_handle :: "'w Server \<Rightarrow> 'w Connection HTTPParser \<Rightarrow> 'w Connection \<times> bool" where
  "conn_handle S P =
     (if c_fault (p_handler P) \<noteq> None then (p_handler P, False)
      else if \<not> c_open (p_handler P)
      then ((cancel_deadline_timer (p_handler P))\<lparr>add_keep_alive := False, c_req := to_request P,
              c_fault := Some (Throw (Runtime_error ''remote_endpoint''))\<rparr>, False)
      else
        let req = (to_request P)\<lparr>remote_ip_address := remote_endpoint S\<rparr>;
            c = (cancel_deadline_timer (p_handler P))
                  \<lparr>c_req := req, add_keep_alive := keep_alive req, c_close := close_connection req\<rparr>
        in if check_version req 1 1 \<and> ci_count ''host'' (req_headers req) = 0
           then complete_request S (c\<lparr>c_res := response_assign (c_res c) (response_code 400), need_after := False\<rparr>)
           else if check_version req 1 1 \<and> upgrade req \<and> take 2 (request_get_header_value req ''upgrade'') \<noteq> ''h2''
           then (case app_upgrade S req (c_res c) of
                   Inl f \<Rightarrow> (c\<lparr>c_close := True, c_fault := Some f\<rparr>, False)
                 | Inr r \<Rightarrow> if completed r \<and> \<not> completed (c_res c) \<and> has_complete_request_handler r
                            then complete_request S (c\<lparr>c_close := True, c_res := r\<rparr>)
                            else (c\<lparr>c_close := True, c_res := r\<rparr>, False))
           else if completed (c_res c)
           then complete_request S (c\<lparr>need_after := False, c_res := (c_res c)\<lparr>has_complete_request_handler := True\<rparr>\<rparr>)
           else call_app S (c\<lparr>need_after := True, c_res := (c_res c)\<lparr>has_complete_request_handler := True\<rparr>\<rparr>))"

definition connection_handler :: "'w Server \<Rightarrow> 'w Connection Handler" where
  "connection_handler S = \<lparr>handle_header = conn_handle_header S, handle_message = conn_handle S\<rparr>"

section \<open>Events\<close>

definition mk_request_default :: request where
  "mk_request_default = mk_request Get [] [] qs_empty [] [] 0 0 False False False"

definition mk_Connection :: "'w \<Rightarrow> 'w Connection" where
  "mk_Connection w =
     \<lparr>c_world = w, c_open = True, c_sent = [], c_req = mk_request_default, c_res = response_default, c_close = False,
      c_buffers = [], c_body_copy = [], is_reading = False, is_writing = False, need_after = False, need_read = False,
      add_keep_alive = False, c_deleted = False, c_deadline = False, pending_reads = 0, pending_writes = 0,
      c_fault = None\<rparr>"

abbreviation with_handler :: "('w Connection \<Rightarrow> 'w Connection) \<Rightarrow> 'w Connection HTTPParser \<Rightarrow> 'w Connection HTTPParser" where
  "with_handler f P \<equiv> P\<lparr>p_handler := f (p_handler P)\<rparr>"

text \<open>\<open>start\<close>, with whether the adaptor could be started.\<close>

definition connection_start :: "bool \<Rightarrow> 'w Connection HTTPParser \<Rightarrow> 'w Connection HTTPParser" where
  "connection_start started P =
     (if started then with_handler do_read (HTTPParser_clear (with_handler start_deadline P))
      else with_handler check_destroy P)"

text \<open>The end of the read callback: the parser is told that nothing follows.\<close>

definition read_ends ::
  "'w Server \<Rightarrow> ('w Connection \<Rightarrow> 'w Connection) \<Rightarrow> 'w Connection HTTPParser \<Rightarrow> 'w Connection HTTPParser result" where
  "read_ends S close P =
     (case parser_done (connection_handler S) (with_handler cancel_deadline_timer P) of
        Inl f \<Rightarrow> Inl f
      | Inr (_, P1) \<Rightarrow>
          if c_fault (p_handler P1) \<noteq> None then Inr P1
          else Inr (with_handler (\<lambda>c. check_destroy ((close c)\<lparr>is_reading := False\<rparr>)) P1))"

text \<open>The callback of a read, with the address of the buffer and the bytes, or none when the read failed.\<close>

definition read_some ::
  "'w Server \<Rightarrow> 64 word \<Rightarrow> string option \<Rightarrow> 'w Connection HTTPParser \<Rightarrow> 'w Connection HTTPParser result" where
  "read_some S base bytes P =
     (case (case bytes of None \<Rightarrow> Inr (False, P) | Some data \<Rightarrow> feed (connection_handler S) base data P) of
        Inl f \<Rightarrow> Inl f
      | Inr (ret, P1) \<Rightarrow>
          if c_fault (p_handler P1) \<noteq> None then Inr P1
          else if \<not> (ret \<and> c_open (p_handler P1)) then read_ends S (\<lambda>c. c\<lparr>c_open := False\<rparr>) P1
          else if c_close (p_handler P1) then read_ends S (\<lambda>c. c) P1
          else if \<not> need_after (p_handler P1) then Inr (with_handler (\<lambda>c. do_read (start_deadline c)) P1)
          else Inr (with_handler (\<lambda>c. c\<lparr>need_read := True\<rparr>) P1))"

text \<open>The callback of a write, with whether it succeeded.\<close>

definition written :: "bool \<Rightarrow> 'w Connection HTTPParser \<Rightarrow> 'w Connection HTTPParser" where
  "written success P =
     with_handler (\<lambda>c. let c1 = c\<lparr>is_writing := False, c_res := response_clear (c_res c), c_body_copy := []\<rparr>
                       in if \<not> success then check_destroy c1
                          else if c_close c1 then check_destroy (c1\<lparr>c_open := False\<rparr>) else c1)
       (HTTPParser_clear P)"

text \<open>The timer expires.\<close>

definition deadline_passed :: "'w Connection \<Rightarrow> 'w Connection" where
  "deadline_passed c = (if c_open c then c\<lparr>c_open := False, c_deadline := False\<rparr> else c\<lparr>c_deadline := False\<rparr>)"

text \<open>A handler that has kept the response changes it and ends it later.\<close>

definition end_later :: "'w Server \<Rightarrow> response \<Rightarrow> 'w Connection HTTPParser \<Rightarrow> 'w Connection HTTPParser" where
  "end_later S r P =
     (case response_end r of
        (r1, True) \<Rightarrow> (case complete_request S ((p_handler P)\<lparr>c_res := r1\<rparr>) of
                        (c, cleared) \<Rightarrow> (if cleared then HTTPParser_clear P else P)\<lparr>p_handler := c\<rparr>)
      | (r1, False) \<Rightarrow> with_handler (\<lambda>c. c\<lparr>c_res := r1\<rparr>) P)"

datatype event = Read "64 word" "string option" | Written bool | Deadline

text \<open>
  An event: the completion of a pending operation or the timer. A read fills a buffer of 4096 bytes, and a callback that
  runs after the connection was deleted uses freed memory. What is not pending does not happen.
\<close>

fun connection_step :: "'w Server \<Rightarrow> event \<Rightarrow> 'w Connection HTTPParser \<Rightarrow> 'w Connection HTTPParser result" where
  "connection_step S (Read base bytes) P =
     (if pending_reads (p_handler P) = 0 \<or> (\<exists>data\<in>set_option bytes. data = [] \<or> int (length data) > 4096) then Inr P
      else if c_deleted (p_handler P) then Inl Use_after_free
      else read_some S base bytes (with_handler (\<lambda>c. c\<lparr>pending_reads := pending_reads c - 1\<rparr>) P))"
| "connection_step S (Written success) P =
     (if pending_writes (p_handler P) = 0 then Inr P
      else if c_deleted (p_handler P) then Inl Use_after_free
      else Inr (written success (with_handler (\<lambda>c. c\<lparr>pending_writes := pending_writes c - 1\<rparr>) P)))"
| "connection_step S Deadline P =
     (if \<not> c_deadline (p_handler P) then Inr P
      else Inr (with_handler deadline_passed P))"

fun run_connection :: "'w Server \<Rightarrow> event list \<Rightarrow> 'w Connection HTTPParser \<Rightarrow> 'w Connection HTTPParser result" where
  "run_connection S [] P = Inr P"
| "run_connection S (e # es) P = (case connection_step S e P of Inl f \<Rightarrow> Inl f | Inr P1 \<Rightarrow> run_connection S es P1)"

text \<open>A connection that was accepted and whose adaptor has started.\<close>

definition accepted :: "'w \<Rightarrow> 'w Connection HTTPParser" where
  "accepted w = connection_start True (mk_HTTPParser (mk_Connection w))"

end
