(* ===== verification/Crow_Server.thy ===== *)
theory Crow_Server
  imports Crow_Connection
begin

text \<open>
  The server of lib/crowapi/crow_all.h: it accepts connections, gives each to the worker with the shortest
  queue, and the workers run the events of their connections. The state of the application is shared by all
  connections. Here one event runs at a time; that the handlers of two workers may interleave is the
  subject of the theory of concurrent requests. A worker goes on after an exception.
\<close>

section \<open>Workers\<close>

text \<open>\<open>concurrency\<close>: there are at least two threads, one of which accepts connections.\<close>

definition concurrency :: "16 word \<Rightarrow> 16 word" where
  "concurrency n = (if n < 2 then 2 else n)"

function pick_loop :: "32 word list \<Rightarrow> nat \<Rightarrow> nat \<Rightarrow> nat" where
  "pick_loop pool i min_queue_idx =
     (if i < length pool \<and> pool ! min_queue_idx > 0
      then pick_loop pool (i + 1) (if pool ! i < pool ! min_queue_idx then i else min_queue_idx)
      else min_queue_idx)"
  by pat_completeness auto
termination
  by (relation "measure (\<lambda>(pool, i, m). length pool - i)") auto

declare pick_loop.simps [simp del]

definition pick_io_service_idx :: "32 word list \<Rightarrow> nat" where
  "pick_io_service_idx pool = pick_loop pool 1 0"

section \<open>Accepting\<close>

text \<open>
  The connections with the index of their worker; \<open>service_idx\<close> is the one of the connection that waits to be accepted.
\<close>

record 'w Crow_Server =
  shared_world :: 'w
  task_queue_length_pool :: "32 word list"
  service_idx :: nat
  connections :: "(nat \<times> 'w Connection HTTPParser) list"

definition do_accept :: "'w Crow_Server \<Rightarrow> 'w Crow_Server" where
  "do_accept L =
     (let pool = task_queue_length_pool L; i = pick_io_service_idx pool
      in L\<lparr>service_idx := i, task_queue_length_pool := pool[i := pool ! i + 1]\<rparr>)"

text \<open>\<open>run\<close>, up to the first connection that can be accepted.\<close>

definition mk_Crow_Server :: "16 word \<Rightarrow> 'w \<Rightarrow> 'w Crow_Server" where
  "mk_Crow_Server n w =
     do_accept \<lparr>shared_world = w, task_queue_length_pool = replicate (unat (concurrency n - 1)) 0, service_idx = 0,
                connections = []\<rparr>"

text \<open>
  The callback of an accept. The worker starts a new connection as soon as it comes to it; nothing else happens to the
  connection before.
\<close>

definition accept_done :: "bool \<Rightarrow> 'w Crow_Server \<Rightarrow> 'w Crow_Server" where
  "accept_done success L =
     do_accept (if success then L\<lparr>connections := connections L @ [(service_idx L, accepted (shared_world L))]\<rparr>
                else L\<lparr>task_queue_length_pool := (task_queue_length_pool L)
                         [service_idx L := task_queue_length_pool L ! service_idx L - 1]\<rparr>)"

section \<open>Events\<close>

datatype server_event = Accept_done bool | At nat event

text \<open>An event of a connection. \<open>check_destroy\<close> takes a connection that it deletes out of the queue of its worker.\<close>

definition connection_event :: "'w Server \<Rightarrow> nat \<Rightarrow> event \<Rightarrow> 'w Crow_Server \<Rightarrow> 'w Crow_Server result" where
  "connection_event S k e L =
     (if k \<ge> length (connections L) then Inr L
      else let (i, P) = connections L ! k in
        case connection_step S e (with_handler (\<lambda>c. c\<lparr>c_world := shared_world L\<rparr>) P) of
          Inl f \<Rightarrow> Inl f
        | Inr P1 \<Rightarrow>
            Inr (L\<lparr>shared_world := c_world (p_handler P1), connections := (connections L)[k := (i, P1)],
                   task_queue_length_pool :=
                     (if c_deleted (p_handler P1) \<and> \<not> c_deleted (p_handler P)
                      then (task_queue_length_pool L)[i := task_queue_length_pool L ! i - 1]
                      else task_queue_length_pool L)\<rparr>))"

fun server_step :: "'w Server \<Rightarrow> server_event \<Rightarrow> 'w Crow_Server \<Rightarrow> 'w Crow_Server result" where
  "server_step S (Accept_done success) L = Inr (accept_done success L)"
| "server_step S (At k e) L = connection_event S k e L"

fun run_server :: "'w Server \<Rightarrow> server_event list \<Rightarrow> 'w Crow_Server \<Rightarrow> 'w Crow_Server result" where
  "run_server S [] L = Inr L"
| "run_server S (e # es) L = (case server_step S e L of Inl f \<Rightarrow> Inl f | Inr L1 \<Rightarrow> run_server S es L1)"

end
