(* ===== verification/Http_Handlers.thy ===== *)
theory Http_Handlers
  imports Http_Safety
begin

text \<open>
  What the parser can do to its handler: it only calls \<open>handle_header\<close> and \<open>handle_message\<close>, so a property of the
  handler's state that both keep holds after any bytes.
\<close>

named_theorems handler_kept \<open>operations of the parser that leave the handler's state alone\<close>

lemma on_handler [handler_kept]:
  "p_handler (on_url at P) = p_handler P" "p_handler (on_header_field at P) = p_handler P"
  "p_handler (on_header_value at P) = p_handler P" "p_handler (on_body at P) = p_handler P"
  by (simp_all add: on_url_def on_header_field_def on_header_value_def on_body_def Let_def)

lemma run_mark_handler [handler_kept]:
  "p_handler (run_mark on_url data m e P) = p_handler P" "p_handler (run_mark on_header_field data m e P) = p_handler P"
  "p_handler (run_mark on_header_value data m e P) = p_handler P" "p_handler (run_mark on_body data m e P) = p_handler P"
  by (simp_all add: run_mark_def on_handler split: option.splits)

lemma index_handler [handler_kept]:
  "p_handler (next_index P) = p_handler P" "p_handler (set_flag f P) = p_handler P"
  "p_handler (set_connection_parameters P) = p_handler P" "p_handler (HTTPParser_clear P) = p_handler P"
  by (simp_all add: next_index_def set_flag_def set_connection_parameters_def HTTPParser_clear_def)

lemma to_header_state_handler: "to_header_state P h = Inr P' \<Longrightarrow> p_handler P' = p_handler P"
  by (auto simp: to_header_state_def split: option.splits)

lemma header_field_char_handler: "header_field_char data p ch c P = Inr (p', P') \<Longrightarrow> p_handler P' = p_handler P"
  by (auto simp: header_field_char_def Let_def map_sum_def handler_kept dest!: to_header_state_handler
      split: header_states.splits sum.splits if_splits)

lemma header_field_loop_handler: "header_field_loop data p ch P = Inr (p', ch', P') \<Longrightarrow> p_handler P' = p_handler P"
proof (induction data p ch P rule: header_field_loop.induct)
  case (1 data p ch0 P)
  show ?case
  proof (cases "p \<ge> length data \<or> CROW_TOKEN (data ! p) = nul")
    case True
    with "1.prems" show ?thesis by (auto simp: header_field_loop.simps [of data p] Let_def split: if_splits)
  next
    case False
    then obtain q Q where q: "header_field_char data p (data ! p) (CROW_TOKEN (data ! p)) P = Inr (q, Q)"
      "header_field_loop data (q + 1) (data ! p) Q = Inr (p', ch', P')"
      using "1.prems" by (auto simp: header_field_loop.simps [of data p] Let_def split: sum.splits)
    with "1.IH" [OF _ refl refl _ q(1) refl q(2)] False header_field_char_handler [OF q(1)] show ?thesis by auto
  qed
qed

lemma value_start_handler: "value_start ch P = Inr P' \<Longrightarrow> p_handler P' = p_handler P"
  by (auto simp: value_start_def Let_def handler_kept split: header_states.splits if_splits)

lemma header_value_char_handler: "header_value_char data p ch h P = Value_next p' h' P' \<Longrightarrow> p_handler P' = p_handler P"
  by (auto simp: header_value_char_def value_content_length_def value_match_def Let_def handler_kept
      split: header_states.splits if_splits sum.splits option.splits)

locale handler_invariant =
  fixes H :: "'h Handler" and Q :: "'h \<Rightarrow> bool"
  assumes header: "Q (p_handler P) \<Longrightarrow> Q (handle_header H P)"
    and message: "Q (p_handler P) \<Longrightarrow> Q (fst (handle_message H P))"
begin

abbreviation kept :: "'h outcome \<Rightarrow> bool" where
  "kept \<equiv> after (\<lambda>P L p. Q (p_handler P)) (\<lambda>P n. Q (p_handler P)) (\<lambda>_. True)"

lemma headers_complete: "Q (p_handler P) \<Longrightarrow> Q (p_handler (on_headers_complete H P))"
  by (simp add: on_headers_complete_def Let_def header handler_kept)

lemma process_keeps: "Q (p_handler P) \<Longrightarrow> Q (p_handler (process_message H P))"
  using message [of P] by (auto simp: process_message_def Let_def handler_kept split: prod.splits)

lemma message_completed: "on_message_complete H P = Inr P' \<Longrightarrow> Q (p_handler P) \<Longrightarrow> Q (p_handler P')"
  by (auto simp: on_message_complete_def process_keeps split: option.splits)

lemma kept_complete:
  "Q (p_handler P) \<Longrightarrow> (\<And>P'. Q (p_handler P') \<Longrightarrow> kept (k P')) \<Longrightarrow> kept (CROW_CALLBACK_NOTIFY (on_message_complete H) er P k)"
  by (auto simp: after_notify split: sum.splits dest: message_completed)

lemma kept_request_line:
  assumes "Q (p_handler P)"
  shows "kept (st_dead ch p P L)" "kept (st_start_req ch p P L)" "kept (st_req_method ch p P L)"
    "kept (st_req_spaces_before_url base ch p P L)" "kept (st_req_schema base ch p P L)"
    "kept (st_req_url base data ch p P L)" "kept (st_req_http_start ch p P L)"
    "kept (st_letter e s' ch p P L)" "kept (st_req_http_major ch p P L)" "kept (st_req_http_dot ch p P L)"
    "kept (st_req_http_minor ch p P L)" "kept (st_req_http_end ch p P L)" "kept (st_req_line_almost_done ch p P L)"
  using assms
  by (simp_all add: request_line_defs after_rules Let_def handler_kept on_message_begin_def
      split: option.splits prod.splits sum.splits)

lemma kept_message_done: "Q (p_handler P) \<Longrightarrow> kept (st_message_done H p P L)"
  unfolding st_message_done_def by (intro kept_complete) simp_all

lemma kept_headers_done: "Q (p_handler P) \<Longrightarrow> kept (st_headers_done H ch p P L)"
  by (simp add: st_headers_done_def after_strict after_error after_if Let_def kept_complete)

lemma kept_headers_almost_done: "Q (p_handler P) \<Longrightarrow> kept (st_headers_almost_done H ch p P L)"
  using headers_complete
  by (simp add: st_headers_almost_done_def after_strict after_error after_if Let_def kept_complete kept_headers_done)

lemma kept_header_field_start: "Q (p_handler P) \<Longrightarrow> kept (st_header_field_start H ch p P L)"
  by (simp add: st_header_field_start_def after_rules Let_def kept_headers_almost_done)

lemma kept_header_value_start: "Q (p_handler P) \<Longrightarrow> kept (st_header_value_start ch p P L)"
  by (auto simp: st_header_value_start_def after_rules Let_def dest!: value_start_handler split: sum.splits)

lemma kept_header_field: "Q (p_handler P) \<Longrightarrow> kept (st_header_field data ch p P L)"
  using header_field_loop_handler [of data p ch P]
  by (auto simp: st_header_field_def after_rules Let_def handler_kept split: sum.splits)

lemma kept_header_lines:
  assumes "Q (p_handler P)"
  shows "kept (st_header_value_discard_ws ch p P L)" "kept (st_header_almost_done ch p P L)"
    "kept (st_header_value_lws H ch p P L)" "kept (st_header_value_discard_lws H data ch p P L)"
  using assms
  by (auto simp: st_header_value_discard_ws_def st_header_almost_done_def st_header_value_lws_def
      st_header_value_discard_lws_def after_rules Let_def handler_kept kept_header_value_start kept_header_field_start
      split: header_states.splits)

lemma kept_header_value_loop: "Q (p_handler P) \<Longrightarrow> kept (header_value_loop data start p h P L)"
proof (induction data start p h P L rule: header_value_loop.induct)
  case (1 data start p h P L)
  show ?case
  proof (cases "p < length data \<and> data ! p \<noteq> cr \<and> data ! p \<noteq> lf \<and> (lenient_http_headers P \<or> CROW_IS_HEADER_CHAR (data ! p))")
    case True
    show ?thesis
    proof (cases "header_value_char data p (data ! p) h P")
      case (Value_next q h' P')
      then have "kept (header_value_loop data start (q + 1) h' P' L)"
        using "1.IH" [OF _ refl _ _ _ Value_next] True header_value_char_handler [OF Value_next] "1.prems" by auto
      with Value_next True show ?thesis by (auto simp: header_value_loop.simps [of data start p] Let_def)
    qed (use True "1.prems" in \<open>simp_all add: header_value_loop.simps [of data start p] after_rules Let_def\<close>)
  next
    case False
    with "1.prems" show ?thesis
      by (auto simp: header_value_loop.simps [of data start p] after_rules st_header_almost_done_def Let_def handler_kept)
  qed
qed

lemma kept_body:
  assumes "Q (p_handler P)"
  shows "kept (st_body_identity H data p P L)" "kept (st_body_identity_eof data p P L)"
    "kept (st_chunk_size_start ch p P L)" "kept (st_chunk_size ch p P L)"
    "kept (st_chunk_parameters ch p P L)" "kept (st_chunk_size_almost_done ch p P L)"
    "kept (st_chunk_data data p P L)" "kept (st_chunk_data_almost_done data ch p P L)"
    "kept (st_chunk_data_done ch p P L)"
  using assms
  by (auto simp: body_defs after_error after_strict after_assert after_callbacks after_if Let_def handler_kept kept_message_done)

lemma kept_execute_state: "Q (p_handler P) \<Longrightarrow> kept (execute_state H base data ch p P L)"
  by (cases "state P")
     (simp_all add: execute_state_def kept_request_line kept_message_done kept_headers_done kept_headers_almost_done
        kept_header_field_start kept_header_value_start kept_header_field kept_header_lines kept_body st_header_value_def
        kept_header_value_loop after_strict)

lemma kept_execute_byte: "Q (p_handler P) \<Longrightarrow> kept (execute_byte H base data p P L)"
  by (simp add: execute_byte_def after_count Let_def kept_execute_state)

lemma kept_execute_loop: "Q (p_handler P) \<Longrightarrow> kept (execute_loop H base data p P L)"
proof (induction "length data - p" arbitrary: p P L rule: less_induct)
  case less
  show ?case
  proof (cases "p < length data")
    case True
    show ?thesis
    proof (cases "execute_byte H base data p P L")
      case (Next P' L' p')
      then have "p \<le> p'" "p' < length data" "Q (p_handler P')"
        using execute_byte_moves [OF True, of H base P L] kept_execute_byte [OF less.prems, of base data p L] by simp_all
      then have "kept (execute_loop H base data (p' + 1) P' L')" using True by (intro less.hyps) auto
      with Next True show ?thesis by (simp add: execute_loop.simps [of H base data p])
    qed (use True kept_execute_byte [OF less.prems, of base data p L] in \<open>simp_all add: execute_loop.simps [of H base data p]\<close>)
  next
    case False
    with less.prems show ?thesis by (simp add: execute_loop.simps [of H base data p])
  qed
qed

lemma kept_execute_end: "Q (p_handler P) \<Longrightarrow> kept (execute_end data p P L)"
  by (simp add: execute_end_def after_assert after_callbacks handler_kept)

lemma execute_keeps:
  assumes "http_parser_execute H base data P = Inr (P', n)" and "Q (p_handler P)"
  shows "Q (p_handler P')"
proof -
  have e: "kept (CROW_CALLBACK_NOTIFY (on_message_complete H) 0 P (\<lambda>P'. Return P' 0))"
    using assms(2) by (intro kept_complete) simp_all
  have l: "kept (execute_loop H base data 0 P (initial_locals P))" using assms(2) by (rule kept_execute_loop)
  have "kept (case execute_loop H base data 0 P (initial_locals P) of Next P' L' p \<Rightarrow> execute_end data p P' L' | r \<Rightarrow> r)"
    using l kept_execute_end by (cases "execute_loop H base data 0 P (initial_locals P)") auto
  moreover obtain r where r: "r = (case execute_loop H base data 0 P (initial_locals P) of
      Next P' L' p \<Rightarrow> execute_end data p P' L' | r \<Rightarrow> r)" by blast
  ultimately have k: "kept r" by simp
  show ?thesis
  proof (cases "parser_errno P \<noteq> CHPE_OK \<or> data = []")
    case True
    with assms e show ?thesis
      by (cases "state P = s_body_identity_eof")
         (auto simp: http_parser_execute_def Let_def after_def split: if_splits parser_state.splits outcome.splits)
  next
    case False
    with assms(1) k show ?thesis by (cases r) (auto simp: http_parser_execute_def r [symmetric])
  qed
qed

lemma feed_keeps: "feed H base data P = Inr (b, P') \<Longrightarrow> Q (p_handler P) \<Longrightarrow> Q (p_handler P')"
  by (auto simp: feed_def split: if_splits sum.splits intro: execute_keeps)

lemma done_keeps: "parser_done H P = Inr (b, P') \<Longrightarrow> Q (p_handler P) \<Longrightarrow> Q (p_handler P')"
  unfolding parser_done_def by (rule feed_keeps)

end

end
