(* ===== verification/Crow_Server_Proofs.thy ===== *)
theory Crow_Server_Proofs
  imports Crow_Server Http_Handlers
begin

text \<open>
  Invariants of connections and of the server: what the handlers of a connection keep while a read is running,
  the accounts of the workers' queues, and that whatever the application keeps of its state, any events keep.
\<close>

section \<open>The choice of a worker\<close>

lemma pick_loop_min:
  assumes "m < length pool" and "\<And>j. j < i \<Longrightarrow> j < length pool \<Longrightarrow> pool ! m \<le> pool ! j"
  shows "pick_loop pool i m < length pool \<and> (\<forall>j<length pool. pool ! pick_loop pool i m \<le> pool ! j)"
  using assms
proof (induction pool i m rule: pick_loop.induct)
  case (1 pool i m)
  show ?case
  proof (cases "i < length pool \<and> pool ! m > 0")
    case True
    let ?m = "if pool ! i < pool ! m then i else m"
    have "pool ! ?m \<le> pool ! j" if "j < i + 1" "j < length pool" for j
      using "1.prems"(2) [of j] that by (cases "j = i") auto
    then have "pick_loop pool (i + 1) ?m < length pool \<and> (\<forall>j<length pool. pool ! pick_loop pool (i + 1) ?m \<le> pool ! j)"
      using "1.IH" [OF True] True "1.prems"(1) by auto
    with True show ?thesis by (simp add: pick_loop.simps [of pool i])
  next
    case False
    then have "pool ! m \<le> pool ! j" if "j < length pool" for j
      using "1.prems"(2) [of j] that by (cases "j < i") (auto simp: not_less)
    moreover have "pick_loop pool i m = m" using False by (subst pick_loop.simps) auto
    ultimately show ?thesis using "1.prems"(1) by simp
  qed
qed

lemma pick_io_service_idx_min:
  "pool \<noteq> [] \<Longrightarrow> pick_io_service_idx pool < length pool \<and> (\<forall>j<length pool. pool ! pick_io_service_idx pool \<le> pool ! j)"
  unfolding pick_io_service_idx_def by (rule pick_loop_min) auto

section \<open>A connection while a read runs\<close>

text \<open>While the callback of a read runs, no other read is pending and the connection is not deleted.\<close>

definition in_read :: "'w Connection \<Rightarrow> bool" where
  "in_read c \<longleftrightarrow> is_reading c \<and> \<not> c_deleted c \<and> pending_reads c = 0 \<and> \<not> need_read c"

lemma in_read_simps [simp]:
  "in_read (c\<lparr>c_world := w\<rparr>) = in_read c" "in_read (c\<lparr>c_open := b\<rparr>) = in_read c" "in_read (c\<lparr>c_sent := s\<rparr>) = in_read c"
  "in_read (c\<lparr>c_req := q\<rparr>) = in_read c" "in_read (c\<lparr>c_res := r\<rparr>) = in_read c" "in_read (c\<lparr>c_close := b\<rparr>) = in_read c"
  "in_read (c\<lparr>c_buffers := s\<rparr>) = in_read c" "in_read (c\<lparr>c_body_copy := s\<rparr>) = in_read c"
  "in_read (c\<lparr>is_writing := b\<rparr>) = in_read c" "in_read (c\<lparr>need_after := b\<rparr>) = in_read c"
  "in_read (c\<lparr>add_keep_alive := b\<rparr>) = in_read c" "in_read (c\<lparr>c_deadline := b\<rparr>) = in_read c"
  "in_read (c\<lparr>pending_writes := n\<rparr>) = in_read c" "in_read (c\<lparr>c_fault := f\<rparr>) = in_read c"
  by (simp_all add: in_read_def)

lemma check_destroy_in_read [simp]: "in_read c \<Longrightarrow> check_destroy c = c"
  by (simp add: check_destroy_def in_read_def)

lemma do_write_in_read: "in_read c \<Longrightarrow> in_read (do_write c)"
  by (simp add: do_write_def)

lemma written_sync_in_read: "in_read c \<Longrightarrow> in_read (fst (written_sync s c))"
  by (simp add: written_sync_def Let_def)

lemma complete_request_in_read: "in_read c \<Longrightarrow> in_read (fst (complete_request S c))"
proof -
  assume c: "in_read c"
  have "in_read (prepare_buffers S c)" if "in_read c" for c using that by (simp add: prepare_buffers_def Let_def)
  moreover have "in_read (fst (do_write_general S c))" if "in_read c" for c
    using that by (auto simp: do_write_general_def Let_def do_write_in_read written_sync_in_read)
      (simp add: in_read_def do_write_def)
  ultimately show ?thesis using c
    by (simp add: complete_request_def do_write_static_def written_sync_in_read Let_def)
qed

lemma call_app_in_read: "in_read c \<Longrightarrow> in_read (fst (call_app S c))"
  using complete_request_in_read [of _ S]
  by (auto simp: call_app_def Let_def split: prod.splits sum.splits if_splits) (metis fst_conv in_read_simps(1,5))+

lemma conn_handle_in_read: "in_read (p_handler P) \<Longrightarrow> in_read (fst (conn_handle S P))"
  by (auto simp: conn_handle_def Let_def cancel_deadline_timer_def complete_request_in_read call_app_in_read split: sum.splits)

interpretation reading: handler_invariant "connection_handler S" in_read for S :: "'w Server"
  by unfold_locales
     (simp_all add: connection_handler_def conn_handle_header_def do_write_in_read conn_handle_in_read)

section \<open>The life of a connection\<close>

text \<open>
  Between events: a pending read is the only one, and while one is pending the connection is reading and alive; a
  deleted connection is not reading.
\<close>

definition life_inv :: "'w Connection \<Rightarrow> bool" where
  "life_inv c \<longleftrightarrow> (c_deleted c \<longrightarrow> pending_reads c = 0) \<and>
     (pending_reads c > 0 \<longrightarrow> is_reading c \<and> \<not> need_read c \<and> pending_reads c = 1)"

lemma read_endsE:
  assumes "read_ends S close P = Inr P'"
  obtains b P1 where "parser_done (connection_handler S) (with_handler cancel_deadline_timer P) = Inr (b, P1)"
    and "P' = (if c_fault (p_handler P1) \<noteq> None then P1
      else with_handler (\<lambda>c. check_destroy ((close c)\<lparr>is_reading := False\<rparr>)) P1)"
  using assms by (auto simp: read_ends_def split: sum.splits if_splits)

lemma read_ends_life:
  assumes "read_ends S close P = Inr P'" and "in_read (p_handler P)" and "\<And>c. in_read c \<Longrightarrow> in_read (close c)"
  shows "life_inv (p_handler P')"
proof (rule read_endsE [OF assms(1)])
  fix b P1
  assume d: "parser_done (connection_handler S) (with_handler cancel_deadline_timer P) = Inr (b, P1)"
    and P': "P' = (if c_fault (p_handler P1) \<noteq> None then P1
      else with_handler (\<lambda>c. check_destroy ((close c)\<lparr>is_reading := False\<rparr>)) P1)"
  have "in_read (p_handler P1)"
    using reading.done_keeps [OF d] assms(2) by (simp add: cancel_deadline_timer_def)
  with assms(3) [of "p_handler P1"] P' show ?thesis by (auto simp: life_inv_def in_read_def check_destroy_def)
qed

lemma read_some_life:
  assumes "read_some S base bytes P = Inr P'" and "in_read (p_handler P)"
  shows "life_inv (p_handler P')"
proof -
  obtain ret P1 where f: "(case bytes of None \<Rightarrow> Inr (False, P) | Some data \<Rightarrow> feed (connection_handler S) base data P) = Inr (ret, P1)"
    using assms(1) by (auto simp: read_some_def split: sum.splits)
  then have r: "in_read (p_handler P1)"
    using assms(2) reading.feed_keeps by (auto split: option.splits)
  then have "life_inv (p_handler P1)" "life_inv (do_read (start_deadline (p_handler P1)))" "life_inv ((p_handler P1)\<lparr>need_read := True\<rparr>)"
    by (simp_all add: life_inv_def in_read_def do_read_def start_deadline_def cancel_deadline_timer_def)
  moreover have "life_inv (p_handler P')" if "read_ends S close P1 = Inr P'" "close \<in> {\<lambda>c. c\<lparr>c_open := False\<rparr>, \<lambda>c. c}" for close
    using read_ends_life [OF that(1) r] that(2) by auto
  ultimately show ?thesis using assms(1) f by (auto simp: read_some_def split: if_splits)
qed

lemma written_life: "life_inv (p_handler P) \<Longrightarrow> life_inv (p_handler (written success P))"
  by (auto simp: written_def Let_def life_inv_def check_destroy_def handler_kept)

lemma connection_step_life: "connection_step S e P = Inr P' \<Longrightarrow> life_inv (p_handler P) \<Longrightarrow> life_inv (p_handler P')"
proof (cases e)
  case (Read base bytes)
  assume s: "connection_step S e P = Inr P'" and l: "life_inv (p_handler P)"
  show ?thesis
  proof (cases "pending_reads (p_handler P) = 0 \<or> (\<exists>data\<in>set_option bytes. data = [] \<or> int (length data) > 4096)")
    case True
    with s l Read show ?thesis by auto
  next
    case False
    with s l have "read_some S base bytes (with_handler (\<lambda>c. c\<lparr>pending_reads := pending_reads c - 1\<rparr>) P) = Inr P'"
      unfolding Read by (auto simp: life_inv_def split: if_splits)
    then show ?thesis by (rule read_some_life) (use False l in \<open>auto simp: life_inv_def in_read_def\<close>)
  qed
next
  case (Written success)
  assume s: "connection_step S e P = Inr P'" and l: "life_inv (p_handler P)"
  have "life_inv ((p_handler P)\<lparr>pending_writes := n\<rparr>)" for n using l by (simp add: life_inv_def)
  with s l Written show ?thesis by (auto split: if_splits intro!: written_life)
next
  case Deadline
  assume s: "connection_step S e P = Inr P'" and l: "life_inv (p_handler P)"
  then show ?thesis using Deadline by (auto simp: life_inv_def deadline_passed_def split: if_splits)
qed

lemma connection_step_deleted:
  assumes "connection_step S e P = Inr P'" and "life_inv (p_handler P)" and "c_deleted (p_handler P)"
  shows "c_deleted (p_handler P')"
  using assms by (cases e) (auto simp: life_inv_def deadline_passed_def split: if_splits)

section \<open>Bytes without NUL\<close>

fun event_without_nul :: "event \<Rightarrow> bool" where
  "event_without_nul (Read base bytes) \<longleftrightarrow> (case bytes of None \<Rightarrow> True | Some data \<Rightarrow> nul \<notin> set data)"
| "event_without_nul _ \<longleftrightarrow> True"

lemma parser_ok_handler [simp]: "parser_ok (P\<lparr>p_handler := h\<rparr>) = parser_ok P"
  using state_inv_cong [of "P\<lparr>p_handler := h\<rparr>" P] by (simp add: parser_ok_def)

lemma parser_ok_clear: "parser_ok P \<Longrightarrow> parser_ok (HTTPParser_clear P)"
  using parser_call_safe [of P Clear] by simp

lemma read_ends_ok:
  assumes "parser_ok P"
  shows "\<exists>P'. read_ends S close P = Inr P' \<and> parser_ok P'"
proof -
  obtain b P1 where "parser_done (connection_handler S) (with_handler cancel_deadline_timer P) = Inr (b, P1)" "parser_ok P1"
    using feed_safe [of "with_handler cancel_deadline_timer P" "[]" "connection_handler S" 0] assms
    by (auto simp: parser_done_def)
  then show ?thesis by (simp add: read_ends_def)
qed

lemma read_some_ok:
  assumes "parser_ok P" and "event_without_nul (Read base bytes)"
  shows "\<exists>P'. read_some S base bytes P = Inr P' \<and> parser_ok P'"
proof -
  obtain ret P1 where "(case bytes of None \<Rightarrow> Inr (False, P) | Some data \<Rightarrow> feed (connection_handler S) base data P) = Inr (ret, P1)"
    "parser_ok P1"
    using assms feed_safe [OF assms(1), of "the bytes" "connection_handler S" base] by (cases bytes) auto
  then show ?thesis using read_ends_ok [of P1 S] by (simp add: read_some_def)
qed

lemma connection_step_ok:
  assumes "parser_ok P" and "event_without_nul e" and "life_inv (p_handler P)"
  shows "connection_step S e P = Inl Use_after_free \<or> (\<exists>P'. connection_step S e P = Inr P' \<and> parser_ok P')"
proof (cases e)
  case (Read base bytes)
  with assms read_some_ok [of "with_handler (\<lambda>c. c\<lparr>pending_reads := pending_reads c - 1\<rparr>) P" base bytes S] show ?thesis
    by auto
qed (use assms in \<open>auto simp: written_def intro!: parser_ok_clear\<close>)

section \<open>The state of the application\<close>

lemma check_destroy_fields [simp]:
  "c_world (check_destroy c) = c_world c" "c_fault (check_destroy c) = c_fault c"
  by (simp_all add: check_destroy_def)

lemma timer_fields [simp]:
  "c_world (cancel_deadline_timer c) = c_world c" "c_fault (cancel_deadline_timer c) = c_fault c"
  "c_world (start_deadline c) = c_world c" "c_fault (start_deadline c) = c_fault c"
  by (simp_all add: start_deadline_def cancel_deadline_timer_def)

lemma written_sync_world [simp]: "c_world (fst (written_sync s c)) = c_world c"
  by (simp add: written_sync_def Let_def)

lemma complete_request_world [simp]: "c_world (fst (complete_request S c)) = c_world c"
  by (simp add: complete_request_def do_write_static_def do_write_general_def prepare_buffers_def do_read_def
      do_write_def Let_def)

lemma call_app_world:
  assumes "app S (c_req c) (c_res c) (c_world c) = (r, w)"
  shows "c_world (fst (call_app S c)) = w"
proof (cases r)
  case (Inr x)
  obtain c1 b where "(if completed x then complete_request S (c\<lparr>c_world := w, c_res := x\<rparr>) else (c\<lparr>c_world := w, c_res := x\<rparr>, False)) = (c1, b)"
    "c_world c1 = w"
    using complete_request_world [of S "c\<lparr>c_world := w, c_res := x\<rparr>"]
    by (cases "complete_request S (c\<lparr>c_world := w, c_res := x\<rparr>)"; cases "completed x") auto
  with assms Inr show ?thesis by (simp add: call_app_def)
qed (use assms in \<open>simp add: call_app_def\<close>)

text \<open>A property of the application's state and the recorded fault that the handlers keep is kept by every event.\<close>

locale connection_invariant = handler_invariant "connection_handler S" Q for S :: "'w Server" and Q +
  assumes quiet: "Q c \<Longrightarrow> c_world c' = c_world c \<Longrightarrow> c_fault c' = c_fault c \<Longrightarrow> Q c'"
begin

lemma read_ends_keeps:
  assumes "read_ends S close P = Inr P'" and "Q (p_handler P)"
    and "\<And>c. c_world (close c) = c_world c \<and> c_fault (close c) = c_fault c"
  shows "Q (p_handler P')"
proof (rule read_endsE [OF assms(1)])
  fix b P1
  assume d: "parser_done (connection_handler S) (with_handler cancel_deadline_timer P) = Inr (b, P1)"
    and P': "P' = (if c_fault (p_handler P1) \<noteq> None then P1
      else with_handler (\<lambda>c. check_destroy ((close c)\<lparr>is_reading := False\<rparr>)) P1)"
  have "Q (p_handler P1)" by (rule done_keeps [OF d], rule quiet [OF assms(2)]) simp_all
  then show ?thesis unfolding P' using assms(3) [of "p_handler P1"] by (auto elim: quiet)
qed

lemma read_some_keeps:
  assumes "read_some S base bytes P = Inr P'" and "Q (p_handler P)"
  shows "Q (p_handler P')"
proof -
  obtain ret P1 where f: "(case bytes of None \<Rightarrow> Inr (False, P) | Some data \<Rightarrow> feed (connection_handler S) base data P) = Inr (ret, P1)"
    using assms(1) by (auto simp: read_some_def split: sum.splits)
  then have r: "Q (p_handler P1)" using assms(2) feed_keeps by (auto split: option.splits)
  then have "Q (do_read (start_deadline (p_handler P1)))" "Q ((p_handler P1)\<lparr>need_read := True\<rparr>)"
    by (auto elim!: quiet simp: do_read_def)
  moreover have "Q (p_handler P')" if "read_ends S close P1 = Inr P'" "close \<in> {\<lambda>c. c\<lparr>c_open := False\<rparr>, \<lambda>c. c}" for close
    using read_ends_keeps [OF that(1) r] that(2) by auto
  ultimately show ?thesis using assms(1) f r by (auto simp: read_some_def split: if_splits)
qed

lemma step_keeps: "connection_step S e P = Inr P' \<Longrightarrow> Q (p_handler P) \<Longrightarrow> Q (p_handler P')"
proof (cases e)
  case (Read base bytes)
  assume s: "connection_step S e P = Inr P'" and q: "Q (p_handler P)"
  have "Q ((p_handler P)\<lparr>pending_reads := n\<rparr>)" for n by (rule quiet [OF q]) simp_all
  with s q Read read_some_keeps [of base bytes "with_handler (\<lambda>c. c\<lparr>pending_reads := pending_reads c - 1\<rparr>) P" P'] show ?thesis
    by (auto split: if_splits)
qed (auto simp: written_def Let_def handler_kept deadline_passed_def elim!: quiet split: if_splits)

end

text \<open>
  What the application keeps of its state unless it ends with one of certain faults; any events keep it, unless a connection
  has recorded such a fault.
\<close>

locale app_invariant =
  fixes S :: "'w Server" and W :: "'w \<Rightarrow> bool" and X :: "fault \<Rightarrow> bool"
  assumes app_keeps: "W w \<Longrightarrow> app S req res w = (r, w') \<Longrightarrow> (\<And>f. r = Inl f \<Longrightarrow> \<not> X f) \<Longrightarrow> W w'"
begin

definition world_inv :: "'w Connection \<Rightarrow> bool" where
  "world_inv c \<longleftrightarrow> W (c_world c) \<or> (\<exists>f. c_fault c = Some f \<and> X f)"

lemma world_inv_ok: "c_fault c = None \<Longrightarrow> world_inv c \<Longrightarrow> W (c_world c)"
  by (simp add: world_inv_def)

lemma world_invI: "W (c_world c) \<Longrightarrow> world_inv c"
  by (simp add: world_inv_def)

lemma call_app_keeps: "W (c_world c) \<Longrightarrow> world_inv (fst (call_app S c))"
proof -
  assume w: "W (c_world c)"
  obtain r w' where a: "app S (c_req c) (c_res c) (c_world c) = (r, w')" by fastforce
  have "W w'" if "\<And>f. r = Inl f \<Longrightarrow> \<not> X f" using app_keeps [OF w a that] .
  moreover have "c_fault (fst (call_app S c)) = Some f" if "r = Inl f" for f using that a by (simp add: call_app_def)
  ultimately show ?thesis unfolding world_inv_def call_app_world [OF a] by blast
qed

lemma conn_handle_keeps: "world_inv (p_handler P) \<Longrightarrow> world_inv (fst (conn_handle S P))"
proof (cases "c_fault (p_handler P)")
  case None
  moreover assume "world_inv (p_handler P)"
  ultimately have w: "W (c_world (p_handler P))" by (rule world_inv_ok)
  then have a: "world_inv (fst (call_app S (c\<lparr>need_after := True, c_res := r\<rparr>)))" if "c_world c = c_world (p_handler P)" for c r
    using that by (intro call_app_keeps) simp
  show ?thesis using None w
    by (auto simp: conn_handle_def Let_def cancel_deadline_timer_def a intro!: world_invI split: sum.splits)
qed (simp add: conn_handle_def)

sublocale kept: connection_invariant S world_inv
proof unfold_locales
  fix P :: "'w Connection HTTPParser" assume "world_inv (p_handler P)"
  then show "world_inv (handle_header (connection_handler S) P)"
    by (auto simp: connection_handler_def conn_handle_header_def do_write_def world_inv_def)
qed (simp add: connection_handler_def conn_handle_keeps, simp add: world_inv_def)

end

section \<open>The server\<close>

interpretation faulted: connection_invariant S "\<lambda>c. c_fault c = Some f" for S :: "'w Server" and f
  by unfold_locales (simp_all add: connection_handler_def conn_handle_header_def conn_handle_def)

fun server_event_without_nul :: "server_event \<Rightarrow> bool" where
  "server_event_without_nul (Accept_done success) \<longleftrightarrow> True"
| "server_event_without_nul (At k e) \<longleftrightarrow> event_without_nul e"

definition connections_ok :: "'w Crow_Server \<Rightarrow> bool" where
  "connections_ok L \<longleftrightarrow> (\<forall>(i, P)\<in>set (connections L). parser_ok P \<and> life_inv (p_handler P))"

lemma do_accept_fields [simp]:
  "connections (do_accept L) = connections L" "shared_world (do_accept L) = shared_world L"
  by (simp_all add: do_accept_def Let_def)

lemma accepted_ok: "parser_ok (accepted w)" "life_inv (p_handler (accepted w))" "c_fault (p_handler (accepted w)) = None"
  "\<not> c_deleted (p_handler (accepted w))"
  using parser_ok_clear [OF mk_HTTPParser_ok]
  by (simp_all add: accepted_def connection_start_def life_inv_def do_read_def handler_kept mk_Connection_def
      mk_HTTPParser_def start_deadline_def cancel_deadline_timer_def HTTPParser_clear_def)

lemma connection_eventE:
  assumes "connection_event S k e L = Inr L'" and "k < length (connections L)"
  obtains i P P' where "connections L ! k = (i, P)" and "(i, P) \<in> set (connections L)"
    and "connection_step S e (with_handler (\<lambda>c. c\<lparr>c_world := shared_world L\<rparr>) P) = Inr P'"
    and "shared_world L' = c_world (p_handler P')" and "connections L' = (connections L)[k := (i, P')]"
    and "service_idx L' = service_idx L"
    and "task_queue_length_pool L' =
      (if c_deleted (p_handler P') \<and> \<not> c_deleted (p_handler P)
       then (task_queue_length_pool L)[i := task_queue_length_pool L ! i - 1] else task_queue_length_pool L)"
proof -
  obtain i P where k: "connections L ! k = (i, P)" by fastforce
  with assms obtain P' where "connection_step S e (with_handler (\<lambda>c. c\<lparr>c_world := shared_world L\<rparr>) P) = Inr P'"
    by (auto simp: connection_event_def split: sum.splits)
  with assms k nth_mem [OF assms(2)] show thesis
    by (intro that [of i P P']) (auto simp: connection_event_def)
qed

lemma connection_event_ok:
  assumes "connections_ok L" and "event_without_nul e"
  shows "connection_event S k e L = Inl Use_after_free \<or> (\<exists>L'. connection_event S k e L = Inr L' \<and> connections_ok L')"
proof (cases "k < length (connections L)")
  case True
  obtain i P where k: "connections L ! k = (i, P)" by fastforce
  let ?P = "with_handler (\<lambda>c. c\<lparr>c_world := shared_world L\<rparr>) P"
  have ok: "parser_ok ?P" "life_inv (p_handler ?P)"
    using assms(1) nth_mem [OF True] k by (auto simp: connections_ok_def life_inv_def)
  consider "connection_step S e ?P = Inl Use_after_free" | P' where "connection_step S e ?P = Inr P'" "parser_ok P'" "life_inv (p_handler P')"
    using connection_step_ok [OF ok(1) assms(2) ok(2), of S] connection_step_life [of S e ?P] ok(2) by blast
  then show ?thesis
  proof cases
    case 2
    then show ?thesis using assms(1) True k
      by (auto simp: connection_event_def connections_ok_def dest!: set_update_subset_insert [THEN subsetD])
  qed (use True k in \<open>simp add: connection_event_def\<close>)
qed (use assms in \<open>simp add: connection_event_def\<close>)

lemma accept_done_ok: "connections_ok L \<Longrightarrow> connections_ok (accept_done success L)"
  by (auto simp: accept_done_def connections_ok_def accepted_ok)

lemma server_step_ok:
  assumes "connections_ok L" and "server_event_without_nul e"
  shows "server_step S e L = Inl Use_after_free \<or> (\<exists>L'. server_step S e L = Inr L' \<and> connections_ok L')"
  using assms by (cases e) (auto simp: accept_done_ok dest: connection_event_ok)

lemma run_server_ok:
  "connections_ok L \<Longrightarrow> list_all server_event_without_nul es \<Longrightarrow>
   run_server S es L = Inl Use_after_free \<or> (\<exists>L'. run_server S es L = Inr L' \<and> connections_ok L')"
proof (induction es arbitrary: L)
  case (Cons e es)
  then show ?case using server_step_ok [of L e S] by fastforce
qed simp

context app_invariant
begin

definition server_inv :: "'w Crow_Server \<Rightarrow> bool" where
  "server_inv L \<longleftrightarrow> W (shared_world L) \<or> (\<exists>(i, P)\<in>set (connections L). \<exists>f. c_fault (p_handler P) = Some f \<and> X f)"

lemma connection_event_inv:
  assumes "connection_event S k e L = Inr L'" and "server_inv L"
  shows "server_inv L'"
proof (cases "k < length (connections L)")
  case True
  show ?thesis
  proof (rule connection_eventE [OF assms(1) True])
    fix i P P'
    let ?P = "with_handler (\<lambda>c. c\<lparr>c_world := shared_world L\<rparr>) P"
    assume k: "connections L ! k = (i, P)" and s: "connection_step S e ?P = Inr P'"
      and L': "shared_world L' = c_world (p_handler P')" "connections L' = (connections L)[k := (i, P')]"
    have new: "(i, P') \<in> set (connections L')" using True L'(2) by (metis set_update_memI)
    consider "W (shared_world L)" | j R f where "(j, R) \<in> set (connections L)" "c_fault (p_handler R) = Some f" "X f"
      using assms(2) by (auto simp: server_inv_def)
    then show ?thesis
    proof cases
      case 1
      then have "world_inv (p_handler P')" using kept.step_keeps [OF s] by (simp add: world_inv_def)
      then show ?thesis using new L'(1) by (auto simp: server_inv_def world_inv_def)
    next
      case 2
      show ?thesis
      proof (cases "(j, R) = (i, P)")
        case True
        then have "c_fault (p_handler P') = Some f" using faulted.step_keeps [OF s, of f] 2(2) by simp
        with new 2(3) show ?thesis by (auto simp: server_inv_def)
      next
        case False
        then have "(j, R) \<in> set (connections L')"
          using 2(1) k L'(2) by (metis in_set_conv_nth length_list_update nth_list_update_neq)
        with 2(2,3) show ?thesis by (auto simp: server_inv_def)
      qed
    qed
  qed
qed (use assms in \<open>simp add: connection_event_def\<close>)

lemma accept_done_inv: "server_inv L \<Longrightarrow> server_inv (accept_done success L)"
  by (cases success) (auto simp: accept_done_def server_inv_def)

lemma server_step_inv: "server_step S e L = Inr L' \<Longrightarrow> server_inv L \<Longrightarrow> server_inv L'"
  by (cases e) (auto simp: accept_done_inv dest: connection_event_inv)

lemma run_server_inv: "run_server S es L = Inr L' \<Longrightarrow> server_inv L \<Longrightarrow> server_inv L'"
  by (induction es arbitrary: L) (auto split: sum.splits dest: server_step_inv)

end

section \<open>The queues of the workers\<close>

text \<open>
  The length of a worker's queue is, modulo \<open>2 ^ 32\<close>, the number of its connections that are not deleted, the one
  that waits to be accepted included.
\<close>

definition live :: "nat \<Rightarrow> (nat \<times> 'w Connection HTTPParser) list \<Rightarrow> nat" where
  "live i cs = length (filter (\<lambda>(j, P). j = i \<and> \<not> c_deleted (p_handler P)) cs)"

definition queued :: "'w Crow_Server \<Rightarrow> 32 word list" where
  "queued L = map (\<lambda>i. of_nat (live i (connections L) + (if service_idx L = i then 1 else 0))) [0..<length (task_queue_length_pool L)]"

definition queues_inv :: "'w Crow_Server \<Rightarrow> bool" where
  "queues_inv L \<longleftrightarrow> task_queue_length_pool L \<noteq> [] \<and>
     (\<forall>i<length (task_queue_length_pool L). task_queue_length_pool L ! i =
       of_nat (live i (connections L) + (if service_idx L = i then 1 else 0))) \<and>
     service_idx L < length (task_queue_length_pool L) \<and>
     (\<forall>(i, P)\<in>set (connections L). i < length (task_queue_length_pool L) \<and> life_inv (p_handler P))"

lemma live_append: "live i (cs @ [(j, P)]) = live i cs + (if j = i \<and> \<not> c_deleted (p_handler P) then 1 else 0)"
  by (simp add: live_def)

lemma live_split: "k < length cs \<Longrightarrow> live i cs = live i (take k cs) + live i [cs ! k] + live i (drop (k + 1) cs)"
  using id_take_nth_drop [of k cs] unfolding live_def by (metis (no_types, lifting) Suc_eq_plus1 append_Cons append_Nil
    filter_append length_append add.assoc)

lemma live_update:
  assumes "k < length cs" and "cs ! k = (j, P)" and "c_deleted (p_handler P) \<Longrightarrow> c_deleted (p_handler P')"
  shows "live i cs = live i (cs[k := (j, P')]) + (if j = i \<and> c_deleted (p_handler P') \<and> \<not> c_deleted (p_handler P) then 1 else 0)"
proof -
  have "live i (cs[k := (j, P')]) = live i (take k cs) + live i [(j, P')] + live i (drop (k + 1) cs)"
    using live_split [of k "cs[k := (j, P')]" i] assms(1) by simp
  with live_split [OF assms(1), of i] assms(2,3) show ?thesis by (auto simp: live_def)
qed

text \<open>Before the next connection is made to wait, none waits.\<close>

definition settled :: "'w Crow_Server \<Rightarrow> bool" where
  "settled L \<longleftrightarrow> task_queue_length_pool L \<noteq> [] \<and>
     (\<forall>i<length (task_queue_length_pool L). task_queue_length_pool L ! i = of_nat (live i (connections L))) \<and>
     (\<forall>(i, P)\<in>set (connections L). i < length (task_queue_length_pool L) \<and> life_inv (p_handler P))"

lemma do_accept_queues: "settled L \<Longrightarrow> queues_inv (do_accept L)"
  using pick_io_service_idx_min [of "task_queue_length_pool L"]
  by (auto simp: settled_def queues_inv_def do_accept_def Let_def nth_list_update)

lemma accept_done_queues: "queues_inv L \<Longrightarrow> queues_inv (accept_done success L)"
  unfolding accept_done_def
  by (rule do_accept_queues) (auto simp: queues_inv_def settled_def live_append accepted_ok nth_list_update)

lemma connection_event_queues:
  assumes "connection_event S k e L = Inr L'" and "queues_inv L"
  shows "queues_inv L'"
proof (cases "k < length (connections L)")
  case True
  show ?thesis
  proof (rule connection_eventE [OF assms(1) True])
    fix i P P'
    let ?P = "with_handler (\<lambda>c. c\<lparr>c_world := shared_world L\<rparr>) P"
    assume k: "connections L ! k = (i, P)" "(i, P) \<in> set (connections L)" and s: "connection_step S e ?P = Inr P'"
      and L': "connections L' = (connections L)[k := (i, P')]" "service_idx L' = service_idx L"
        "task_queue_length_pool L' =
          (if c_deleted (p_handler P') \<and> \<not> c_deleted (p_handler P)
           then (task_queue_length_pool L)[i := task_queue_length_pool L ! i - 1] else task_queue_length_pool L)"
    have l: "life_inv (p_handler ?P)" "i < length (task_queue_length_pool L)"
      using assms(2) k(2) by (auto simp: queues_inv_def life_inv_def)
    have l': "life_inv (p_handler P')" using connection_step_life [OF s l(1)] .
    have d: "c_deleted (p_handler P) \<Longrightarrow> c_deleted (p_handler P')" using connection_step_deleted [OF s l(1)] by simp
    have n: "length (task_queue_length_pool L') = length (task_queue_length_pool L)" using L'(3) by simp
    note u = live_update [OF True k(1) d]
    have "task_queue_length_pool L' ! j = of_nat (live j (connections L') + (if service_idx L' = j then 1 else 0))"
      if "j < length (task_queue_length_pool L)" for j
      using assms(2) that u [of j] l(2) unfolding L' by (auto simp: queues_inv_def nth_list_update)
    moreover have "\<forall>(j, R)\<in>set (connections L'). j < length (task_queue_length_pool L') \<and> life_inv (p_handler R)"
      using assms(2) l(2) l' n unfolding L'(1)
      by (auto simp: queues_inv_def dest!: set_update_subset_insert [THEN subsetD])
    ultimately show ?thesis using assms(2) n L'(2) by (auto simp: queues_inv_def)
  qed
qed (use assms in \<open>simp add: connection_event_def\<close>)

lemma server_step_queues: "server_step S e L = Inr L' \<Longrightarrow> queues_inv L \<Longrightarrow> queues_inv L'"
  by (cases e) (auto simp: accept_done_queues dest: connection_event_queues)

lemma run_server_queues: "run_server S es L = Inr L' \<Longrightarrow> queues_inv L \<Longrightarrow> queues_inv L'"
  by (induction es arbitrary: L) (auto split: sum.splits dest: server_step_queues)

lemma concurrency_workers: "concurrency n - 1 \<noteq> 0"
  by (auto simp: concurrency_def word_less_nat_alt)

lemma mk_Crow_Server_queues: "queues_inv (mk_Crow_Server n w)"
  unfolding mk_Crow_Server_def using concurrency_workers [of n]
  by (intro do_accept_queues) (simp add: settled_def live_def unat_eq_zero)

end
