(* ===== verification/Crow_Session.thy ===== *)
theory Crow_Session
  imports Crow_Server_Proofs Http_Headers
begin

text \<open>
  A session of a client that waits for each response, against the application alone: the bytes that a connection sends are the
  responses of the application, one after the other.
\<close>

section \<open>The application without a connection\<close>

text \<open>A request as a client writes it: method, URL and headers.\<close>

type_synonym client_request = "HTTPMethod \<times> string \<times> (string \<times> string) list"

definition response_bytes :: "'w Server \<Rightarrow> request \<Rightarrow> response \<Rightarrow> string" where
  "response_bytes S req r =
     (let r1 = known_response ((absolute_location req r)\<lparr>has_complete_request_handler := False\<rparr>)
      in response_head S (keep_alive req) r1 @ body r1)"

text \<open>
  A response that is written in one piece: completed, not a file, and shorter than the limit. What such a response
  leaves behind on its connection is whether it was for a HEAD request.
\<close>

definition plain_response :: "'w Server \<Rightarrow> request \<Rightarrow> response \<Rightarrow> bool" where
  "plain_response S req r \<longleftrightarrow> completed r \<and> manual_length_header r = skip_body r \<and> file_path r = [] \<and>
     int (length (body (known_response ((absolute_location req r)\<lparr>has_complete_request_handler := False\<rparr>)))) < stream_threshold S"

definition client_request_ok :: "client_request \<Rightarrow> bool" where
  "client_request_ok = (\<lambda>(m, adr, kvs). m \<in> set methods \<and> m \<noteq> Connect \<and> url_text adr \<and> (\<forall>(k, v)\<in>set kvs. header_text k v) \<and>
     int (length (request_text m adr kvs)) \<le> 4096 \<and> ci_count ''host'' kvs > 0 \<and>
     get_header_value kvs ''expect'' \<noteq> ''100-continue'')"

definition request_of :: "'w Server \<Rightarrow> client_request \<Rightarrow> request" where
  "request_of S = (\<lambda>(m, adr, kvs).
     (plain_request m adr (the (mk_query_string adr)) kvs)\<lparr>remote_ip_address := remote_endpoint S\<rparr>)"

text \<open>The response that an application is handed; the flag tells whether there was a HEAD request before.\<close>

definition blank :: "bool \<Rightarrow> response" where
  "blank b = response_default\<lparr>skip_body := b, manual_length_header := b\<rparr>"

abbreviation handed :: "bool \<Rightarrow> response" where
  "handed b \<equiv> (blank b)\<lparr>has_complete_request_handler := True\<rparr>"

fun serve_requests :: "'w Server \<Rightarrow> bool \<Rightarrow> client_request list \<Rightarrow> 'w \<Rightarrow> (string \<times> 'w) option" where
  "serve_requests S b [] w = Some ([], w)"
| "serve_requests S b (x # xs) w =
     (case app S (request_of S x) (handed b) w of
        (Inl f, w1) \<Rightarrow> None
      | (Inr r, w1) \<Rightarrow>
          if plain_response S (request_of S x) r
          then map_option (apfst (append (response_bytes S (request_of S x) r))) (serve_requests S (skip_body r) xs w1)
          else None)"

section \<open>One exchange\<close>

definition conn_ready :: "bool \<Rightarrow> 'w Connection HTTPParser \<Rightarrow> bool" where
  "conn_ready b P \<longleftrightarrow> fresh P \<and> (let c = p_handler P in
     c_open c \<and> \<not> c_deleted c \<and> c_fault c = None \<and> is_reading c \<and> pending_reads c = 1 \<and> pending_writes c = 0 \<and>
     \<not> need_read c \<and> c_body_copy c = [] \<and> c_res c = blank b)"

lemma known_response_fields [simp]:
  "skip_body (known_response r) = skip_body r" "manual_length_header (known_response r) = manual_length_header r"
  "file_path (known_response r) = file_path r" "completed (known_response r) = completed r"
  "has_complete_request_handler (known_response r) = has_complete_request_handler r"
  by (simp_all add: known_response_def Let_def)

lemma absolute_location_fields [simp]:
  "skip_body (absolute_location req r) = skip_body r" "manual_length_header (absolute_location req r) = manual_length_header r"
  "file_path (absolute_location req r) = file_path r" "completed (absolute_location req r) = completed r"
  by (simp_all add: absolute_location_def set_header_def Let_def)

text \<open>What \<open>complete_request\<close> does with a plain response on an open connection that is reading.\<close>

lemma complete_request_plain:
  assumes "plain_response S (c_req c) (c_res c)" and "c_open c" and "\<not> need_read c" and "add_keep_alive c = keep_alive (c_req c)"
  shows "\<exists>c'. complete_request S c = (c', False) \<and> c_sent c' = c_sent c @ response_bytes S (c_req c) (c_res c) \<and>
    pending_writes c' = pending_writes c + 1 \<and> \<not> need_after c' \<and>
    skip_body (c_res c') = skip_body (c_res c) \<and> manual_length_header (c_res c') = skip_body (c_res c) \<and> \<not> has_complete_request_handler (c_res c') \<and>
    c_world c' = c_world c \<and> c_open c' \<and> c_deleted c' = c_deleted c \<and> c_fault c' = c_fault c \<and> is_reading c' = is_reading c \<and>
    pending_reads c' = pending_reads c \<and> \<not> need_read c' \<and> c_close c' = c_close c \<and> add_keep_alive c' = add_keep_alive c"
  using assms
  by (simp add: complete_request_def prepare_buffers_def is_static_type_def do_write_general_def do_write_def plain_response_def
      response_bytes_def Let_def)

lemma call_app_plain:
  assumes "app S (c_req c) (c_res c) (c_world c) = (Inr r, w)" and "plain_response S (c_req c) r" and "c_open c" "\<not> need_read c"
    and "add_keep_alive c = keep_alive (c_req c)" "c_fault c = None"
  shows "\<exists>c'. call_app S c = (c', False) \<and> c_sent c' = c_sent c @ response_bytes S (c_req c) r \<and>
    pending_writes c' = pending_writes c + 1 \<and> \<not> need_after c' \<and>
    skip_body (c_res c') = skip_body r \<and> manual_length_header (c_res c') = skip_body r \<and> \<not> has_complete_request_handler (c_res c') \<and>
    c_world c' = w \<and> c_open c' \<and> c_deleted c' = c_deleted c \<and> c_fault c' = None \<and> is_reading c' = is_reading c \<and>
    pending_reads c' = pending_reads c \<and> \<not> need_read c' \<and> c_close c' = c_close c"
proof -
  have "completed r" using assms(2) by (simp add: plain_response_def)
  then show ?thesis
    using complete_request_plain [of S "c\<lparr>c_world := w, c_res := r\<rparr>"] assms
    by (auto simp: call_app_def set_header_def)
qed

lemma request_of_fields [simp]:
  "keep_alive (request_of S x)" "\<not> close_connection (request_of S x)" "\<not> upgrade (request_of S x)"
  "check_version (request_of S x) 1 1" "req_headers (request_of S (m, adr, kvs)) = kvs"
  by (auto simp: request_of_def plain_request_def mk_request_def check_version_def split: prod.splits)

lemma handle_plain:
  assumes "to_request P\<lparr>remote_ip_address := remote_endpoint S\<rparr> = request_of S x" and "client_request_ok x"
    and "c_open (p_handler P)" "c_fault (p_handler P) = None" "\<not> need_read (p_handler P)" "c_res (p_handler P) = blank b"
    and "app S (request_of S x) (handed b) (c_world (p_handler P)) = (Inr r, w)"
    and "plain_response S (request_of S x) r"
  shows "\<exists>c'. conn_handle S P = (c', False) \<and> c_sent c' = c_sent (p_handler P) @ response_bytes S (request_of S x) r \<and>
    pending_writes c' = pending_writes (p_handler P) + 1 \<and> \<not> need_after c' \<and>
    skip_body (c_res c') = skip_body r \<and> manual_length_header (c_res c') = skip_body r \<and> \<not> has_complete_request_handler (c_res c') \<and>
    c_world c' = w \<and> c_open c' \<and> c_deleted c' = c_deleted (p_handler P) \<and> c_fault c' = None \<and>
    is_reading c' = is_reading (p_handler P) \<and> pending_reads c' = pending_reads (p_handler P) \<and> \<not> need_read c' \<and> \<not> c_close c'"
proof -
  let ?req = "request_of S x"
  let ?c = "(cancel_deadline_timer (p_handler P))\<lparr>c_req := ?req, add_keep_alive := keep_alive ?req, c_close := close_connection ?req,
    need_after := True, c_res := handed b\<rparr>"
  have "ci_count ''host'' (req_headers ?req) \<noteq> 0" using assms(2) by (cases x) (simp add: client_request_ok_def)
  then have "conn_handle S P = call_app S ?c"
    using assms(3-6) by (simp add: conn_handle_def assms(1) Let_def cancel_deadline_timer_def blank_def response_default_def)
  moreover have "\<exists>c'. call_app S ?c = (c', False) \<and> c_sent c' = c_sent ?c @ response_bytes S (c_req ?c) r \<and>
    pending_writes c' = pending_writes ?c + 1 \<and> \<not> need_after c' \<and>
    skip_body (c_res c') = skip_body r \<and> manual_length_header (c_res c') = skip_body r \<and> \<not> has_complete_request_handler (c_res c') \<and>
    c_world c' = w \<and> c_open c' \<and> c_deleted c' = c_deleted ?c \<and> c_fault c' = None \<and> is_reading c' = is_reading ?c \<and>
    pending_reads c' = pending_reads ?c \<and> \<not> need_read c' \<and> c_close c' = c_close ?c"
    by (rule call_app_plain) (use assms in \<open>simp_all add: cancel_deadline_timer_def\<close>)
  ultimately show ?thesis by (simp add: cancel_deadline_timer_def)
qed

lemma read_request:
  assumes ready: "conn_ready b P" and ok: "client_request_ok (m, adr, kvs)"
    and app: "app S (request_of S (m, adr, kvs)) (handed b) (c_world (p_handler P)) = (Inr r, w)"
    and plain: "plain_response S (request_of S (m, adr, kvs)) r"
  shows "\<exists>P'. connection_step S (Read base (Some (request_text m adr kvs))) P = Inr P' \<and>
    fresh (HTTPParser_clear P') \<and> message_complete P' \<and>
    (let c = p_handler P' in c_sent c = c_sent (p_handler P) @ response_bytes S (request_of S (m, adr, kvs)) r \<and> c_world c = w \<and>
     pending_writes c = 1 \<and> skip_body (c_res c) = skip_body r \<and> manual_length_header (c_res c) = skip_body r \<and> \<not> has_complete_request_handler (c_res c) \<and>
     c_open c \<and> \<not> c_deleted c \<and> c_fault c = None \<and> is_reading c \<and> pending_reads c = 1 \<and> \<not> need_read c \<and> \<not> c_close c \<and> \<not> need_after c)"
proof -
  let ?H = "connection_handler S" and ?text = "request_text m adr kvs"
  let ?P = "with_handler (\<lambda>c. c\<lparr>pending_reads := pending_reads c - 1\<rparr>) P"
  have fr: "fresh ?P" using ready by (simp add: conn_ready_def fresh_def)
  have o: "m \<in> set methods" "m \<noteq> Connect" "url_text adr" "\<forall>(k, v)\<in>set kvs. header_text k v" "length ?text \<le> 81920"
    using ok by (simp_all add: client_request_ok_def)
  obtain q P0 P1 where q: "mk_query_string adr = Some q"
    and f: "feed ?H base ?text ?P = Inr (True, (process_message ?H P1)\<lparr>nread := 0\<rparr>)"
    and r: "to_request P1 = plain_request m adr q kvs" and h: "p_handler P1 = handle_header ?H P0" "p_headers P0 = kvs"
      "p_handler P0 = p_handler ?P"
    and fr': "fresh (HTTPParser_clear ((process_message ?H P1)\<lparr>nread := 0\<rparr>))" and mc: "message_complete P1"
    using feed_request_complete [OF fr o, of ?H base] by blast
  have e: "get_header_value kvs ''expect'' \<noteq> ''100-continue''" using ok by (simp add: client_request_ok_def)
  have c: "p_handler P1 = p_handler ?P" using h e by (auto simp: connection_handler_def conn_handle_header_def)
  have req: "to_request P1\<lparr>remote_ip_address := remote_endpoint S\<rparr> = request_of S (m, adr, kvs)"
    using r q by (simp add: request_of_def)
  obtain c' where c': "conn_handle S P1 = (c', False)" "c_sent c' = c_sent (p_handler P) @ response_bytes S (request_of S (m, adr, kvs)) r"
    "pending_writes c' = 1" "\<not> need_after c'"
    "skip_body (c_res c') = skip_body r" "manual_length_header (c_res c') = skip_body r" "\<not> has_complete_request_handler (c_res c')" "c_world c' = w"
    "c_open c'" "\<not> c_deleted c'" "c_fault c' = None" "is_reading c'" "pending_reads c' = 0" "\<not> need_read c'" "\<not> c_close c'"
    using handle_plain [OF req ok, of b r w] ready app plain by (auto simp: c conn_ready_def Let_def)
  have m: "process_message ?H P1 = P1\<lparr>p_handler := c'\<rparr>"
    using c'(1) by (simp add: process_message_def connection_handler_def)
  have t: "?text \<noteq> []" "\<not> 4096 < int (length ?text)" using ok by (simp_all add: request_text_def client_request_ok_def)
  have "connection_step S (Read base (Some ?text)) P = read_some S base (Some ?text) ?P"
    using ready t by (simp add: conn_ready_def Let_def)
  also have "\<dots> = Inr (with_handler (\<lambda>c. do_read (start_deadline c)) (P1\<lparr>p_handler := c', nread := 0\<rparr>))"
    using f c' by (simp add: read_some_def m)
  finally have st: "connection_step S (Read base (Some ?text)) P =
      Inr (with_handler (\<lambda>c. do_read (start_deadline c)) (P1\<lparr>p_handler := c', nread := 0\<rparr>))" .
  show ?thesis unfolding st
    by (rule exI, rule conjI [OF refl])
       (use fr' c' m mc in \<open>simp add: do_read_def start_deadline_def cancel_deadline_timer_def Let_def fresh_def HTTPParser_clear_def\<close>)
qed

lemma exchange:
  assumes ready: "conn_ready b P" and ok: "client_request_ok (m, adr, kvs)"
    and app: "app S (request_of S (m, adr, kvs)) (handed b) (c_world (p_handler P)) = (Inr r, w)"
    and plain: "plain_response S (request_of S (m, adr, kvs)) r"
  shows "\<exists>P'. run_connection S [Read base (Some (request_text m adr kvs)), Written True] P = Inr P' \<and> conn_ready (skip_body r) P' \<and>
    c_sent (p_handler P') = c_sent (p_handler P) @ response_bytes S (request_of S (m, adr, kvs)) r \<and> c_world (p_handler P') = w"
proof -
  obtain P1 where P1: "connection_step S (Read base (Some (request_text m adr kvs))) P = Inr P1" "fresh (HTTPParser_clear P1)"
    and c: "let c = p_handler P1 in c_sent c = c_sent (p_handler P) @ response_bytes S (request_of S (m, adr, kvs)) r \<and> c_world c = w \<and>
     pending_writes c = 1 \<and> skip_body (c_res c) = skip_body r \<and> manual_length_header (c_res c) = skip_body r \<and> \<not> has_complete_request_handler (c_res c) \<and>
     c_open c \<and> \<not> c_deleted c \<and> c_fault c = None \<and> is_reading c \<and> pending_reads c = 1 \<and> \<not> need_read c \<and> \<not> c_close c \<and> \<not> need_after c"
    using read_request [OF assms, of base] by blast
  have "response_clear (c_res (p_handler P1)) = blank (skip_body r)"
    using c by (simp add: response_clear_def blank_def response_default_def Let_def)
  with P1 c show ?thesis
    by (simp del: connection_step.simps(1))
       (simp add: written_def handler_kept conn_ready_def Let_def fresh_def HTTPParser_clear_def)
qed

section \<open>Sessions\<close>

definition session_events :: "64 word \<Rightarrow> client_request list \<Rightarrow> event list" where
  "session_events base xs = concat (map (\<lambda>(m, adr, kvs). [Read base (Some (request_text m adr kvs)), Written True]) xs)"

lemma run_connection_append:
  "run_connection S (es @ fs) P = (case run_connection S es P of Inl f \<Rightarrow> Inl f | Inr P1 \<Rightarrow> run_connection S fs P1)"
  by (induction es arbitrary: P) (auto split: sum.splits)

lemma session:
  "serve_requests S b xs (c_world (p_handler P)) = Some (out, w) \<Longrightarrow> conn_ready b P \<Longrightarrow> list_all client_request_ok xs \<Longrightarrow>
   \<exists>P'. run_connection S (session_events base xs) P = Inr P' \<and> (\<exists>b'. conn_ready b' P') \<and> c_sent (p_handler P') = c_sent (p_handler P) @ out \<and>
     c_world (p_handler P') = w"
proof (induction xs arbitrary: b P out)
  case (Cons x xs)
  obtain m adr kvs where x: "x = (m, adr, kvs)" by (cases x)
  obtain r w1 out1 where a: "app S (request_of S x) (handed b) (c_world (p_handler P)) = (Inr r, w1)"
    "plain_response S (request_of S x) r" and rest: "serve_requests S (skip_body r) xs w1 = Some (out1, w)" "out = response_bytes S (request_of S x) r @ out1"
    using Cons.prems(1) by (auto split: prod.splits sum.splits if_splits)
  obtain P1 where P1: "run_connection S [Read base (Some (request_text m adr kvs)), Written True] P = Inr P1" "conn_ready (skip_body r) P1"
    "c_sent (p_handler P1) = c_sent (p_handler P) @ response_bytes S (request_of S x) r" "c_world (p_handler P1) = w1"
    using exchange [of b P m adr kvs S r w1 base] Cons.prems a unfolding x by auto
  have "session_events base (x # xs) = [Read base (Some (request_text m adr kvs)), Written True] @ session_events base xs"
    by (simp add: session_events_def x)
  then have "run_connection S (session_events base (x # xs)) P = run_connection S (session_events base xs) P1"
    by (simp only: run_connection_append P1(1) sum.case)
  with Cons.IH [of "skip_body r" P1 out1] rest Cons.prems(3) P1 show ?case by simp
qed (auto simp: session_events_def)

lemma accepted_ready: "conn_ready False (accepted w)" "c_sent (p_handler (accepted w)) = []" "c_world (p_handler (accepted w)) = w"
  by (simp_all add: accepted_def connection_start_def conn_ready_def fresh_def HTTPParser_clear_def mk_HTTPParser_def
      mk_Connection_def blank_def response_default_def do_read_def start_deadline_def cancel_deadline_timer_def Let_def)

end
