(* ===== verification/Wallet_Server.thy ===== *)
theory Wallet_Server
  imports Crow_Server_Proofs Crow_Session Wallet_App_Proofs
begin

text \<open>
  The wallet behind its sockets: the application of src/main.cpp as the server of lib/crowapi/crow_all.h runs it.
  The state that the connections share is the world of the service and the number of identifiers drawn so far.
\<close>

definition VERSION :: string where
  "VERSION = ''1.0''"

definition wallet_upgrade :: "(string \<Rightarrow> nat option) \<Rightarrow> app_handler Router \<Rightarrow> request \<Rightarrow> response \<Rightarrow> response result" where
  "wallet_upgrade strtod R req res =
     (case Router_handle_upgrade strtod R req res of
        Inl f \<Rightarrow> Inl f | Inr (Respond r) \<Rightarrow> Inr r | Inr (Call h ps r) \<Rightarrow> Inr r | Inr (Call_catchall h r) \<Rightarrow> Inr r)"

text \<open>
  \<open>uuids\<close> are the identifiers that Boost's generator draws; the other parameters are what the operating system provides.
\<close>

definition wallet_server ::
  "'db Extern \<Rightarrow> Config \<Rightarrow> app_handler Router \<Rightarrow> (nat \<Rightarrow> string) \<Rightarrow> (string \<Rightarrow> int option) \<Rightarrow> (string \<Rightarrow> string) \<Rightarrow>
   (string \<Rightarrow> nat option) \<Rightarrow> string \<Rightarrow> string \<Rightarrow> (ci_map \<Rightarrow> ci_map) \<Rightarrow> (nat \<times> 'db World) Server" where
  "wallet_server ext config R uuids stat content strtod date address order =
     \<lparr>app = (\<lambda>req res w. case app_handle ext config stat strtod R (uuids (fst w)) req res (snd w) of (r, s) \<Rightarrow> (r, (fst w + 1, s))),
      app_upgrade = wallet_upgrade strtod R, server_name = ''Crow/'' @ VERSION, cached_date = date, remote_endpoint = address,
      stream_threshold = 1048576, file_content = content, traverse = order\<rparr>"

locale wallet_served = wallet_env ext contents + wallet_routed R
  for ext :: "'db Extern" and contents :: "'db \<Rightarrow> (string \<rightharpoonup> string)" and R +
  fixes config :: Config
  assumes separate: "seed_file config \<noteq> event_log config"
begin

sublocale served: app_invariant "wallet_server ext config R uuids stat content strtod date address order"
    "\<lambda>w. wallet_inv ext contents config (snd w)" "\<lambda>f. f = Signed_overflow"
  for uuids stat content strtod date address order
proof unfold_locales
  fix w req res r w'
  assume i: "wallet_inv ext contents config (snd w)"
    and a: "app (wallet_server ext config R uuids stat content strtod date address order) req res w = (r, w')"
    and n: "\<And>f. r = Inl f \<Longrightarrow> f \<noteq> Signed_overflow"
  from a have "app_handle ext config stat strtod R (uuids (fst w)) req res (snd w) = (r, snd w')"
    by (auto simp: wallet_server_def split: prod.splits)
  from app_keeps_inv [OF wallet_env_axioms separate i built this] n show "wallet_inv ext contents config (snd w')" by blast
qed

lemma run_keeps:
  assumes "wallet_inv ext contents config s" and "list_all server_event_without_nul es"
  shows "case run_server (wallet_server ext config R uuids stat content strtod date address order) es
        (mk_Crow_Server n (k, s)) of
      Inl f \<Rightarrow> f = Use_after_free
    | Inr L \<Rightarrow> wallet_inv ext contents config (snd (shared_world L)) \<or>
        list_ex (\<lambda>(i, P). c_fault (p_handler P) = Some Signed_overflow) (connections L)"
proof -
  let ?S = "wallet_server ext config R uuids stat content strtod date address order"
  let ?L = "mk_Crow_Server n (k, s)"
  have "connections_ok ?L" "served.server_inv ?L"
    using assms(1) by (simp_all add: connections_ok_def mk_Crow_Server_def served.server_inv_def)
  then show ?thesis
    using run_server_ok [OF _ assms(2), of ?L ?S]
      served.run_server_inv [where L = ?L and es = es and uuids = uuids and stat = stat and content = content
        and strtod = strtod and date = date and address = address and order = order]
    by (auto simp: served.server_inv_def list_ex_iff)
qed

end

section \<open>Text responses\<close>

text \<open>A response with code 200 and a text, on a connection that is kept.\<close>

definition ok_response :: "string \<Rightarrow> string \<Rightarrow> string" where
  "ok_response date t =
     ''HTTP/1.1 200 OK'' @ crlf @ header_out ''Content-Length'' (to_string (int (length t))) @ header_out ''Server'' ''Crow/1.0'' @
     header_out ''Date'' date @ ''Connection: Keep-Alive'' @ crlf @ crlf @ t"

lemma wrapped_text:
  "wrapped_handler_call (handed False) (response_body t) =
     \<lparr>code = 200, body = t, headers = [], skip_body = False, manual_length_header = False, completed = True,
      has_complete_request_handler = True, file_path = []\<rparr>"
  by (simp add: wrapped_handler_call_def finish_def response_end_def response_assign_def response_body_def blank_def
      response_default_def)

lemma status_200: "map_of statusCodes 200 = Some (''HTTP/1.1 200 OK'' @ crlf)" "200 \<in> fst ` set statusCodes"
  by (simp_all add: statusCodes_def)

lemma known_200: "code r = 200 \<Longrightarrow> known_response r = r"
  using status_200(2) by (simp add: known_response_def Let_def)

lemma no_location: "headers r = [] \<Longrightarrow> absolute_location req r = r"
  by (simp add: absolute_location_def response_get_header_value_def get_header_value_find ci_find_def)

lemma text_response:
  fixes S :: "(nat \<times> 'db World) Server"
  assumes S: "S = wallet_server ext config R uuids stat content strtod date address order" and "order [] = []"
    and "int (length t) < 1048576" and "keep_alive req"
  shows "plain_response S req (wrapped_handler_call (handed False) (response_body t))"
    and "response_bytes S req (wrapped_handler_call (handed False) (response_body t)) = ok_response date t"
proof -
  let ?r = "wrapped_handler_call (handed False) (response_body t)"
  have r: "absolute_location req ?r = ?r" "known_response (?r\<lparr>has_complete_request_handler := False\<rparr>) = ?r\<lparr>has_complete_request_handler := False\<rparr>"
    by (auto intro!: no_location known_200 simp: wrapped_text)
  show "plain_response S req ?r" using assms(3) unfolding plain_response_def r by (simp add: S wrapped_text wallet_server_def)
  show "response_bytes S req ?r = ok_response date t"
    using assms(2,4) unfolding response_bytes_def Let_def unfolding r unfolding response_head_def wrapped_text
    by (simp add: S wallet_server_def status_200(1) ok_response_def VERSION_def ci_count_def)
qed

lemma request_of_url: "req_url (request_of S (m, adr, kvs)) = url_path adr" "req_method (request_of S (m, adr, kvs)) = m"
  by (simp_all add: request_of_def plain_request_def mk_request_def)

end
