(* ===== verification/Server_Properties.thy ===== *)
theory Server_Properties
  imports Wallet_Server Crow_Session Handlers_Properties
begin

text \<open>
  The wallet on the network: what holds whatever bytes arrive on however many connections, and what a client can do.
\<close>

text \<open>The example service behind the server.\<close>

definition demo_server :: "app_handler Router \<Rightarrow> (nat \<times> (string \<times> string) list World) Server" where
  "demo_server R =
     wallet_server map_ext demo_config R (\<lambda>_. ''tx'') (\<lambda>_. None) (\<lambda>_. []) (\<lambda>_. None) ''now'' ''::1'' id"

interpretation demo: wallet_served map_ext map_of "projr wallet_router" demo_config
proof -
  have "wallet_router = Inr (projr wallet_router)" using wallet_router_built by (metis sum.sel(2))
  moreover have "seed_file demo_config \<noteq> event_log demo_config" by code_simp
  ultimately show "wallet_served map_ext map_of (projr wallet_router) demo_config"
    using map_env.wallet_env_axioms by (simp add: wallet_served_def wallet_routed_def wallet_served_axioms_def)
qed




text \<open>
  C13. The queues of the workers, for any application, any number of threads and any events: the length of each queue is the number
  of the worker's connections that are not deleted, the one that waits to be accepted included, modulo 2 ^ 32;
  and the next connection goes to a worker with a shortest queue.
\<close>

theorem worker_queues_exact:
  "case run_server S es (mk_Crow_Server n w) of
     Inl f \<Rightarrow> True
   | Inr L \<Rightarrow> task_queue_length_pool L = queued L \<and>
       task_queue_length_pool L ! pick_io_service_idx (task_queue_length_pool L) = Min (set (task_queue_length_pool L))"
proof (cases "run_server S es (mk_Crow_Server n w)")
  case (Inr L)
  have q: "queues_inv L" using run_server_queues [OF Inr mk_Crow_Server_queues] .
  then have "task_queue_length_pool L = queued L"
    by (auto simp: queues_inv_def queued_def intro: nth_equalityI)
  moreover have "task_queue_length_pool L ! pick_io_service_idx (task_queue_length_pool L) = Min (set (task_queue_length_pool L))"
    using pick_io_service_idx_min [of "task_queue_length_pool L"] q
    by (intro Min_eqI [symmetric]) (auto simp: queues_inv_def in_set_conv_nth)
  ultimately show ?thesis using Inr by simp
qed simp

section \<open>Sessions\<close>

text \<open>
  C11. A connection refines the application. For any application: a client that sends its requests one after the other,
  each when the response before has been sent, receives exactly the responses that the application gives to these requests
  alone, in their order, and leaves the application in the same state; the connection never stops on the way. The
  requests are those of the parser's round trip, with a Host header and without Expect, of at most one buffer; the responses are
  completed ones below the limit for streaming, and no files.
\<close>

theorem connection_refines_application:
  assumes "serve_requests S False xs w = Some (out, w')" and "list_all client_request_ok xs"
  shows "\<exists>P. run_connection S (session_events base xs) (accepted w) = Inr P \<and> c_sent (p_handler P) = out \<and> c_world (p_handler P) = w' \<and>
    c_open (p_handler P) \<and> \<not> c_deleted (p_handler P)"
  using session [of S False xs "accepted w" out w' base] assms accepted_ready [of w] by (auto simp: conn_ready_def Let_def)

definition demo_balance :: client_request where
  "demo_balance = (Get, ''/api/1.0/wallet/get_balance?accountID=700000001'', [(''Host'', ''a'')])"

definition demo_wire_transfer :: client_request where
  "demo_wire_transfer =
     (Get, ''/api/1.0/wallet/balance_transfer?fromAccount=700000001&toAccount=700000002&amount=30'', [(''Host'', ''a'')])"

lemma get_allowed: "Get \<in> set methods" "Get \<noteq> Connect"
  by (simp_all add: methods_def)

lemma demo_host: "\<forall>(k, v)\<in>set [(''Host'', ''a'')]. header_text k v" "ci_count ''host'' [(''Host'', ''a'')] > 0"
  "get_header_value [(''Host'', ''a'')] ''expect'' \<noteq> ''100-continue''"
  by code_simp+

lemma demo_urls: "url_text ''/api/1.0/wallet/get_balance?accountID=700000001''"
  "url_text ''/api/1.0/wallet/balance_transfer?fromAccount=700000001&toAccount=700000002&amount=30''"
  by code_simp+

lemma demo_lengths: "int (length (request_text Get ''/api/1.0/wallet/get_balance?accountID=700000001'' [(''Host'', ''a'')])) \<le> 4096"
  "int (length (request_text Get ''/api/1.0/wallet/balance_transfer?fromAccount=700000001&toAccount=700000002&amount=30'' [(''Host'', ''a'')])) \<le> 4096"
  by (simp_all add: request_text_def header_line_def method_name_def method_strings_def)

lemma demo_wire_ok: "client_request_ok demo_balance" "client_request_ok demo_wire_transfer"
  unfolding client_request_ok_def demo_balance_def demo_wire_transfer_def prod.case
  using get_allowed demo_host demo_urls demo_lengths by blast+

theorem connection_refines_application_witness:
  "\<exists>R P. wallet_router = Inr R \<and>
     run_connection (demo_server R) (session_events 4096 [demo_wire_transfer, demo_balance]) (accepted (0, demo_service demo_accounts)) = Inr P \<and>
     map_of (accountDB (snd (c_world (p_handler P)))) ''700000001'' = Some ''970'' \<and>
     suffix (endl ''Account: 700000001 : Balance: 970'') (c_sent (p_handler P))"
proof -
  let ?xs = "[demo_wire_transfer, demo_balance]"
  have "case wallet_router of Inl _ \<Rightarrow> False | Inr R \<Rightarrow>
      (case serve_requests (demo_server R) False ?xs (0, demo_service demo_accounts) of
         None \<Rightarrow> False
       | Some (out, w) \<Rightarrow> map_of (accountDB (snd w)) ''700000001'' = Some ''970'' \<and> suffix (endl ''Account: 700000001 : Balance: 970'') out)"
    by code_simp
  then obtain R out w where R: "wallet_router = Inr R"
    "serve_requests (demo_server R) False ?xs (0, demo_service demo_accounts) = Some (out, w)"
    "map_of (accountDB (snd w)) ''700000001'' = Some ''970''" "suffix (endl ''Account: 700000001 : Balance: 970'') out"
    by (auto split: sum.splits option.splits)
  with connection_refines_application [OF R(2), of 4096] demo_wire_ok show ?thesis by auto
qed

text \<open>
  C12. A transfer over the wire, on a database that does not fail: the bytes of a GET request for a transfer that fits,
  read by a new connection, are answered with exactly one response, 200 with the text of the status; the ledger is afterwards
  what the specification says, and the status is OK exactly when both accounts exist.
\<close>

theorem transfer_over_the_wire:
  assumes "reliable_env ext contents" and "wallet_inv ext contents config s" and "wallet_router = Inr R"
    and "S = wallet_server ext config R uuids stat content strtod date address order" and "order [] = []"
    and "\<And>st. int (length (ToString ext st)) < 65536"
    and "client_request_ok (Get, adr, kvs)" and "url_path adr = ''/api/1.0/wallet/balance_transfer''"
    and "transfer_command (uuids k) (request_of S (Get, adr, kvs)) = Inr (Inr c)"
    and "credit_fits (ledger (contents (accountDB s))) (getAccount1 c) (getAccount2 c) (balance_value (getAmount c))"
  shows "\<exists>P s'. run_connection S (session_events base [(Get, adr, kvs)]) (accepted (k, s)) = Inr P \<and> c_world (p_handler P) = (k + 1, s') \<and>
    c_sent (p_handler P) = ok_response date (endl (''Return Status: '' @ ToString ext (status s'))) \<and>
    ledger (contents (accountDB s')) = spec_transfer (ledger (contents (accountDB s)))
      (getAccount1 c) (getAccount2 c) (balance_value (getAmount c)) \<and>
    (ok (status s') \<longleftrightarrow> {getAccount1 c, getAccount2 c} \<subseteq> dom (ledger (contents (accountDB s))))"
proof -
  let ?req = "request_of S (Get, adr, kvs)"
  obtain s' where s': "balance_transfer ext config (uuids k) ?req s =
      (Inr (response_body (endl (''Return Status: '' @ ToString ext (status s')))), s')"
    "ledger (contents (accountDB s')) = spec_transfer (ledger (contents (accountDB s)))
      (getAccount1 c) (getAccount2 c) (balance_value (getAmount c))"
    "ok (status s') \<longleftrightarrow> getAccount1 c \<in> dom (ledger (contents (accountDB s))) \<and>
       getAccount2 c \<in> dom (ledger (contents (accountDB s)))"
    by (rule reliable_env.balance_transfer_exact [OF assms(1,2,9) refl refl assms(10)])
  let ?t = "endl (''Return Status: '' @ ToString ext (status s'))"
  have len: "int (length ?t) < 1048576" using assms(6) [of "status s'"] by (simp add: endl_def)
  have target: "target (req_url ?req) = Some (Endpoint Balance_transfer, [])"
    unfolding request_of_url assms(8) by code_simp
  have "app_handle ext config stat strtod R (uuids k) ?req (handed False) s =
      (Inr (wrapped_handler_call (handed False) (response_body ?t)), s')"
    using wallet_routed.app_endpoint [OF wallet_routed.intro [OF assms(3)] target, where ext = ext] s'(1)
    by (simp add: request_of_url finished_def)
  then have "app S ?req (handed False) (k, s) = (Inr (wrapped_handler_call (handed False) (response_body ?t)), (k + 1, s'))"
    by (simp add: assms(4) wallet_server_def)
  then have "serve_requests S False [(Get, adr, kvs)] (k, s) = Some (ok_response date ?t, (k + 1, s'))"
    using text_response [OF assms(4,5) len, of ?req] by simp
  then obtain P where "run_connection S (session_events base [(Get, adr, kvs)]) (accepted (k, s)) = Inr P"
    "c_sent (p_handler P) = ok_response date ?t" "c_world (p_handler P) = (k + 1, s')"
    using session [of S False "[(Get, adr, kvs)]" "accepted (k, s)" "ok_response date ?t" "(k + 1, s')" base] accepted_ready [of "(k, s)"] assms(7)
    by (auto simp del: serve_requests.simps)
  moreover have "ok (status s') \<longleftrightarrow> {getAccount1 c, getAccount2 c} \<subseteq> dom (ledger (contents (accountDB s)))"
    using s'(3) by simp
  ultimately show ?thesis using s'(2) by blast
qed

lemma demo_wire_command: "transfer_command ''tx'' (request_of (demo_server R) demo_wire_transfer) = Inr (Inr demo_command)"
  by code_simp

theorem transfer_over_the_wire_witness:
  "\<exists>R P s'. wallet_router = Inr R \<and>
     run_connection (demo_server R) (session_events 4096 [demo_wire_transfer]) (accepted (0, demo_service demo_accounts)) = Inr P \<and>
     c_world (p_handler P) = (1, s') \<and> ledger (map_of (accountDB s')) ''700000001'' = Some 970"
proof -
  obtain R where R: "wallet_router = Inr R" using wallet_router_built by blast
  have d: "accountDB (demo_service demo_accounts) = demo_accounts" by (simp add: demo_service_def demo_world_def)
  have t: "int (length (ToString map_ext st)) < 65536" for st by (simp add: map_ext_def status_text_def)
  have u: "url_path ''/api/1.0/wallet/balance_transfer?fromAccount=700000001&toAccount=700000002&amount=30'' = ''/api/1.0/wallet/balance_transfer''"
    by code_simp
  have f: "credit_fits (ledger (map_of (accountDB (demo_service demo_accounts)))) (getAccount1 demo_command) (getAccount2 demo_command)
      (balance_value (getAmount demo_command))"
    using demo_fits by (simp add: d demo_simps)
  obtain P s' where P: "run_connection (demo_server R) (session_events 4096 [demo_wire_transfer]) (accepted (0, demo_service demo_accounts)) = Inr P"
    "c_world (p_handler P) = (0 + 1, s')"
    "ledger (map_of (accountDB s')) = spec_transfer (ledger (map_of (accountDB (demo_service demo_accounts))))
      (getAccount1 demo_command) (getAccount2 demo_command) (balance_value (getAmount demo_command))"
    using transfer_over_the_wire [OF map_env.reliable_env_axioms demo_service_inv(1) R demo_server_def _ t
        demo_wire_ok(2) [unfolded demo_wire_transfer_def] u, where k = 0 and c = demo_command and base = 4096] f demo_wire_command [of R]
    unfolding demo_wire_transfer_def by auto
  then have "ledger (map_of (accountDB s')) ''700000001'' = Some 970"
    by (simp add: d demo_simps spec_transfer_def demo_dom)
  with R P show ?thesis by auto
qed

section \<open>What a client can do\<close>

text \<open>
  Bytes that arrive before the response has been written out are dropped, for any application: a client that sends
  something else, a further request for instance, after a request and before its response was sent, gets the response to the first
  request and nothing else, and the application never sees the rest.
\<close>

theorem early_bytes_dropped:
  assumes "client_request_ok (m, adr, kvs)" and "app S (request_of S (m, adr, kvs)) (handed False) w = (Inr r, w')"
    and "plain_response S (request_of S (m, adr, kvs)) r" and "data \<noteq> []" and "int (length data) \<le> 4096"
  shows "\<exists>P. run_connection S [Read base (Some (request_text m adr kvs)), Read base (Some data), Written True] (accepted w) = Inr P \<and>
    c_sent (p_handler P) = response_bytes S (request_of S (m, adr, kvs)) r \<and> c_world (p_handler P) = w' \<and>
    fresh P \<and> c_open (p_handler P)"
proof -
  obtain P1 where P1: "connection_step S (Read base (Some (request_text m adr kvs))) (accepted w) = Inr P1"
      "fresh (HTTPParser_clear P1)" "message_complete P1"
    and c: "c_sent (p_handler P1) = response_bytes S (request_of S (m, adr, kvs)) r" "c_world (p_handler P1) = w'"
      "pending_writes (p_handler P1) = 1" "c_open (p_handler P1)" "\<not> c_deleted (p_handler P1)" "c_fault (p_handler P1) = None"
      "pending_reads (p_handler P1) = 1" "\<not> c_close (p_handler P1)" "\<not> need_after (p_handler P1)"
    using read_request [OF accepted_ready(1) assms(1), of S w r w' base] assms(2,3) accepted_ready [of w] by (auto simp: Let_def)
  let ?c = "(p_handler P1)\<lparr>pending_reads := 0\<rparr>"
  let ?P2 = "P1\<lparr>p_handler := do_read (start_deadline ?c)\<rparr>"
  have "feed (connection_handler S) base data (P1\<lparr>p_handler := ?c\<rparr>) = Inr (True, P1\<lparr>p_handler := ?c\<rparr>)"
    using P1(3) by (simp add: feed_def)
  then have P2: "connection_step S (Read base (Some data)) P1 = Inr ?P2"
    using c assms(4,5) by (simp add: read_some_def)
  have "connection_step S (Written True) ?P2 = Inr (written True (with_handler (\<lambda>c. c\<lparr>pending_writes := 0\<rparr>) ?P2))"
    using c by (simp add: do_read_def start_deadline_def cancel_deadline_timer_def)
  with P1 P2 c show ?thesis
    by (auto simp: written_def handler_kept do_read_def start_deadline_def cancel_deadline_timer_def Let_def fresh_def
        HTTPParser_clear_def simp del: connection_step.simps)
qed

theorem early_bytes_dropped_witness:
  "\<exists>R P. wallet_router = Inr R \<and>
     run_connection (demo_server R)
       [Read 4096 (Some (request_text Get ''/api/1.0/wallet/get_balance?accountID=700000001'' [(''Host'', ''a'')])),
        Read 4096 (Some (request_text Get ''/api/1.0/wallet/events'' [(''Host'', ''a'')])), Written True]
       (accepted (0, demo_service demo_accounts)) = Inr P \<and>
     fst (c_world (p_handler P)) = 1"
proof -
  let ?x = "(Get, ''/api/1.0/wallet/get_balance?accountID=700000001'', [(''Host'', ''a'')])"
  let ?data = "request_text Get ''/api/1.0/wallet/events'' [(''Host'', ''a'')]"
  have e: "case wallet_router of Inl _ \<Rightarrow> False | Inr R \<Rightarrow>
      (case app (demo_server R) (request_of (demo_server R) ?x) (handed False) (0, demo_service demo_accounts) of
         (Inl _, w) \<Rightarrow> False | (Inr r, w) \<Rightarrow> plain_response (demo_server R) (request_of (demo_server R) ?x) r \<and> fst w = 1)"
    by code_simp
  obtain R where R: "wallet_router = Inr R" using wallet_router_built by blast
  obtain q w where a: "app (demo_server R) (request_of (demo_server R) ?x) (handed False) (0, demo_service demo_accounts) = (q, w)"
    by (rule prod.exhaust)
  from e obtain r where r: "q = Inr r" "plain_response (demo_server R) (request_of (demo_server R) ?x) r" "fst w = 1"
    unfolding R sum.case a prod.case by (cases q) auto
  have d: "?data \<noteq> []" "int (length ?data) \<le> 4096"
    by (simp_all add: request_text_def header_line_def method_name_def method_strings_def)
  show ?thesis
    using early_bytes_dropped [OF demo_wire_ok(1) [unfolded demo_balance_def] a [unfolded r(1)] r(2) d, of 4096] R r(3) by blast
qed

text \<open>The lines of a message, each with its end, and the empty line.\<close>

definition message_lines :: "string list \<Rightarrow> string" where
  "message_lines ls = concat (map (\<lambda>l. l @ crlf) ls) @ crlf"

text \<open>
  Use of freed memory: a request that closes its connection, followed in the same buffer by a line feed, is
  answered twice, because the line feed completes the message again. Two writes are then pending, but the connection only knows that it is
  writing; the callback of the first deletes it, and the callback of the second uses it.
\<close>

theorem line_feed_uses_freed_memory:
  "case wallet_router of Inl _ \<Rightarrow> False | Inr R \<Rightarrow>
     (case run_connection (demo_server R)
         [Read 4096 (Some (message_lines [''GET / HTTP/1.1'', ''Host: a'', ''Connection: close''] @ [lf])), Written True, Written True]
         (accepted (0, demo_service demo_accounts)) of
        Inl f \<Rightarrow> f = Use_after_free | Inr P \<Rightarrow> False)"
  by code_simp

text \<open>
  A HEAD request silences its connection: \<open>skip_body\<close> is reset neither by \<open>clear\<close> nor by the assignment of a
  response, so a GET request after a HEAD request gets the answer of the HEAD request, without a body.
\<close>

theorem head_silences_connection:
  "case wallet_router of Inl _ \<Rightarrow> False | Inr R \<Rightarrow>
     (case serve_requests (demo_server R) False [(Head, snd demo_balance), demo_balance] (0, demo_service demo_accounts) of
        None \<Rightarrow> False
      | Some (out, w) \<Rightarrow> out = take (length out div 2) out @ take (length out div 2) out \<and> suffix (crlf @ crlf) out)"
  by code_simp

text \<open>
  A client that waits for \<^verbatim>\<open>100 Continue\<close> is disconnected, whatever the application: the callback of the write of these
  bytes clears the parser, so the body is read as the start of a request.
\<close>

theorem continue_loses_body:
  "case run_connection S
      [Read 4096 (Some (message_lines [''POST / HTTP/1.1'', ''Host: a'', ''Expect: 100-continue'', ''Content-Length: 2''])),
       Written True, Read 4096 (Some ''ok'')] (accepted w) of
     Inl f \<Rightarrow> False
   | Inr P \<Rightarrow> c_sent (p_handler P) = ''HTTP/1.1 100 Continue'' @ crlf @ crlf \<and> c_deleted (p_handler P)"
  by code_simp

text \<open>
  A request to upgrade the protocol gets no answer from the wallet: the response is ended before it has a
  completion handler, and the connection is deleted.
\<close>

theorem upgrade_unanswered:
  "case wallet_router of Inl _ \<Rightarrow> False | Inr R \<Rightarrow>
     (case run_connection (demo_server R)
         [Read 4096 (Some (message_lines [''GET / HTTP/1.1'', ''Host: a'', ''Connection: Upgrade'', ''Upgrade: websocket'']))]
         (accepted (0, demo_service demo_accounts)) of
        Inl f \<Rightarrow> False | Inr P \<Rightarrow> c_sent (p_handler P) = [] \<and> c_deleted (p_handler P))"
  by code_simp

end
