(* ===== verification/Crow_Timer.thy ===== *)
theory Crow_Timer
  imports Prelude "HOL-Library.Word" "HOL-Library.Multiset"
begin

text \<open>
  \<^verbatim>\<open>crow::detail::task_timer\<close> (lib/crowapi/crow_all.h), which closes idle connections. Time is in
  seconds of the steady clock, and the time of a call is an argument. A task is a value; running one is being in the list that
  \<open>process_tasks\<close> returns. The tasks do not call the timer: those of the connections close a socket.
\<close>

text \<open>The map of tasks is a list in the order of the identifiers, as a \<^verbatim>\<open>std::map\<close> is traversed.\<close>

record 'a task_timer =
  default_timeout :: "8 word"
  tasks :: "(64 word \<times> int \<times> 'a) list"
  highest_id :: "64 word"

definition mk_task_timer :: "'a task_timer" where
  "mk_task_timer = \<lparr>default_timeout = 5, tasks = [], highest_id = 0\<rparr>"

definition cancel :: "64 word \<Rightarrow> 'a task_timer \<Rightarrow> 'a task_timer" where
  "cancel i T = T\<lparr>tasks := filter (\<lambda>(j, _). j \<noteq> i) (tasks T)\<rparr>"

text \<open>\<^verbatim>\<open>std::map::insert\<close>, which does nothing when the key is there.\<close>

fun map_insert :: "64 word \<Rightarrow> 'b \<Rightarrow> (64 word \<times> 'b) list \<Rightarrow> (64 word \<times> 'b) list" where
  "map_insert k v [] = [(k, v)]"
| "map_insert k v ((k', v') # xs) =
     (if k < k' then (k, v) # (k', v') # xs else if k = k' then (k', v') # xs else (k', v') # map_insert k v xs)"

definition schedule_timeout :: "int \<Rightarrow> 'a \<Rightarrow> 8 word \<Rightarrow> 'a task_timer \<Rightarrow> 64 word \<times> 'a task_timer" where
  "schedule_timeout now task timeout T =
     (let i = highest_id T + 1
      in (i, T\<lparr>highest_id := i, tasks := map_insert i (now + uint timeout, task) (tasks T)\<rparr>))"

definition schedule :: "int \<Rightarrow> 'a \<Rightarrow> 'a task_timer \<Rightarrow> 64 word \<times> 'a task_timer" where
  "schedule now task T = schedule_timeout now task (default_timeout T) T"

definition set_default_timeout :: "8 word \<Rightarrow> 'a task_timer \<Rightarrow> 'a task_timer" where
  "set_default_timeout t T = T\<lparr>default_timeout := t\<rparr>"

text \<open>What runs, and the timer afterwards.\<close>

definition process_tasks :: "int \<Rightarrow> 'a task_timer \<Rightarrow> 'a list \<times> 'a task_timer" where
  "process_tasks current_time T =
     (let expired = filter (\<lambda>(_, t, _). t < current_time) (tasks T);
          finished_tasks = map fst expired;
          left = filter (\<lambda>(i, _). i \<notin> set finished_tasks) (tasks T)
      in (map (\<lambda>(_, _, task). task) expired,
          T\<lparr>tasks := left, highest_id := (if left = [] then 0 else highest_id T)\<rparr>))"

definition tick_handler :: "bool \<Rightarrow> int \<Rightarrow> 'a task_timer \<Rightarrow> 'a list \<times> 'a task_timer" where
  "tick_handler ec current_time T = (if ec then ([], T) else process_tasks current_time T)"

section \<open>Invariant\<close>

text \<open>The identifiers ascend up to the highest one issued since the map was empty.\<close>

definition timer_inv :: "'a task_timer \<Rightarrow> bool" where
  "timer_inv T \<longleftrightarrow> sorted_wrt (<) (map fst (tasks T)) \<and> (\<forall>i\<in>set (map fst (tasks T)). 0 < i \<and> i \<le> highest_id T)"

lemma word_inc_greater: "(w :: 64 word) \<noteq> - 1 \<Longrightarrow> w < w + 1"
  using inc_less_eq_self_iff_eq [of w] by (simp add: not_le)

lemma map_insert_last: "(\<And>k'. k' \<in> set (map fst xs) \<Longrightarrow> k' < k) \<Longrightarrow> map_insert k v xs = xs @ [(k, v)]"
proof (induction xs)
  case (Cons x xs)
  obtain k' v' where x: "x = (k', v')" by fastforce
  have "k' < k" using Cons.prems [of k'] by (simp add: x)
  moreover have "map_insert k v xs = xs @ [(k, v)]" by (rule Cons.IH) (use Cons.prems in auto)
  ultimately show ?case by (auto simp: x)
qed simp

lemma mk_task_timer_inv: "timer_inv mk_task_timer"
  by (simp add: timer_inv_def mk_task_timer_def)

lemma cancel_inv: "timer_inv T \<Longrightarrow> timer_inv (cancel i T)"
  by (auto simp: timer_inv_def cancel_def sorted_wrt_filter sorted_wrt_map)

lemma schedule_timeout_exact:
  assumes "timer_inv T" and "highest_id T \<noteq> - 1"
  shows "schedule_timeout now task timeout T =
    (highest_id T + 1, T\<lparr>highest_id := highest_id T + 1, tasks := tasks T @ [(highest_id T + 1, now + uint timeout, task)]\<rparr>)"
proof -
  have "highest_id T < highest_id T + 1" using assms(2) by (rule word_inc_greater)
  then have "map_insert (highest_id T + 1) (now + uint timeout, task) (tasks T) = tasks T @ [(highest_id T + 1, now + uint timeout, task)]"
    using assms(1) by (intro map_insert_last) (auto simp: timer_inv_def intro: order.strict_trans1)
  then show ?thesis by (simp add: schedule_timeout_def Let_def)
qed

lemma schedule_timeout_inv:
  assumes "timer_inv T" and "highest_id T \<noteq> - 1"
  shows "timer_inv (snd (schedule_timeout now task timeout T))"
proof -
  have "highest_id T < highest_id T + 1" using assms(2) by (rule word_inc_greater)
  then show ?thesis using assms(1) unfolding schedule_timeout_exact [OF assms]
    by (auto simp: timer_inv_def sorted_wrt_append intro: order.strict_trans1 order.strict_implies_order order.strict_trans1 [OF word_zero_le])
qed

lemma distinct_ids: "timer_inv T \<Longrightarrow> distinct (map fst (tasks T))"
  by (simp add: timer_inv_def strict_sorted_iff)

lemma expired_ids:
  assumes "distinct (map fst xs)" and "x \<in> set xs"
  shows "fst x \<in> set (map fst (filter Q xs)) \<longleftrightarrow> Q x"
  using assms by (induction xs) auto

lemma process_tasks_exact:
  assumes "timer_inv T"
  shows "process_tasks now T =
    (map (\<lambda>(_, _, task). task) (filter (\<lambda>(_, t, _). t < now) (tasks T)),
     T\<lparr>tasks := filter (\<lambda>(_, t, _). \<not> t < now) (tasks T),
       highest_id := (if list_all (\<lambda>(_, t, _). t < now) (tasks T) then 0 else highest_id T)\<rparr>)"
proof -
  have "filter (\<lambda>(i, _). i \<notin> set (map fst (filter (\<lambda>(_, t, _). t < now) (tasks T)))) (tasks T) =
      filter (\<lambda>(_, t, _). \<not> t < now) (tasks T)"
    using expired_ids [OF distinct_ids [OF assms]] by (intro filter_cong) (auto simp: split_beta)
  moreover have "filter (\<lambda>(_, t, _). \<not> t < now) (tasks T) = [] \<longleftrightarrow> list_all (\<lambda>(_, t, _). t < now) (tasks T)"
    by (auto simp: filter_empty_conv list_all_iff)
  ultimately show ?thesis by (simp add: process_tasks_def Let_def)
qed

lemma process_tasks_inv: "timer_inv T \<Longrightarrow> timer_inv (snd (process_tasks now T))"
  unfolding process_tasks_exact snd_conv
  by (auto simp: timer_inv_def sorted_wrt_filter sorted_wrt_map list_all_iff)

section \<open>Sequences of calls\<close>

text \<open>What the connections of a worker and the clock do to its timer.\<close>

datatype 'a timer_call = Schedule int 'a | Cancel "64 word" | Tick int

text \<open>The tasks that ran, those that were cancelled, and the timer.\<close>

fun run_timer :: "'a timer_call list \<Rightarrow> 'a task_timer \<Rightarrow> 'a list \<times> 'a list \<times> 'a task_timer" where
  "run_timer [] T = ([], [], T)"
| "run_timer (Schedule now task # cs) T = run_timer cs (snd (schedule now task T))"
| "run_timer (Cancel i # cs) T =
     (let (called, gone, T') = run_timer cs (cancel i T)
      in (called, map (\<lambda>(_, _, task). task) (filter (\<lambda>(j, _). j = i) (tasks T)) @ gone, T'))"
| "run_timer (Tick now # cs) T =
     (let (called1, T1) = process_tasks now T; (called, gone, T') = run_timer cs T1 in (called1 @ called, gone, T'))"

fun scheduled :: "'a timer_call list \<Rightarrow> 'a list" where
  "scheduled [] = []"
| "scheduled (Schedule now task # cs) = task # scheduled cs"
| "scheduled (_ # cs) = scheduled cs"

definition waiting_tasks :: "'a task_timer \<Rightarrow> 'a list" where
  "waiting_tasks T = map (\<lambda>(_, _, task). task) (tasks T)"

lemma waiting_split: "mset (waiting_tasks T) = mset (map (\<lambda>(_, _, task). task) (filter Q (tasks T))) +
    mset (map (\<lambda>(_, _, task). task) (filter (\<lambda>x. \<not> Q x) (tasks T)))"
  using multiset_partition [of "mset (tasks T)" Q] unfolding waiting_tasks_def mset_map mset_filter
  by (metis image_mset_union)

lemma uint_minus_1: "uint (- 1 :: 64 word) = 18446744073709551615"
  by (simp add: unsigned_minus_1_eq_mask mask_eq_exp_minus_1)

lemma uint_inc: "uint (w :: 64 word) < 18446744073709551615 \<Longrightarrow> uint (w + 1) = uint w + 1 \<and> w \<noteq> - 1"
  using uint_minus_1 by (auto simp: uint_plus_if')

lemma schedule_fields:
  assumes "timer_inv T" and "uint (highest_id T) < 18446744073709551615"
  shows "timer_inv (snd (schedule now task T))" "uint (highest_id (snd (schedule now task T))) = uint (highest_id T) + 1"
    "waiting_tasks (snd (schedule now task T)) = waiting_tasks T @ [task]"
  using assms uint_inc [OF assms(2)] schedule_timeout_inv [of T now task]
  by (simp_all add: schedule_def schedule_timeout_exact waiting_tasks_def)

lemma run_timer_accounts:
  "timer_inv T \<Longrightarrow> uint (highest_id T) + int (length (scheduled cs)) < 18446744073709551616 \<Longrightarrow> run_timer cs T = (called, gone, T') \<Longrightarrow>
   timer_inv T' \<and> mset (waiting_tasks T) + mset (scheduled cs) = mset called + mset gone + mset (waiting_tasks T')"
proof (induction cs arbitrary: T called gone)
  case (Cons c cs)
  show ?case
  proof (cases c)
    case (Schedule now task)
    note f = schedule_fields [OF Cons.prems(1), of now task]
    have "uint (highest_id T) < 18446744073709551615" using Cons.prems(2) Schedule by simp
    with Cons.IH [of "snd (schedule now task T)" called gone] Cons.prems Schedule f show ?thesis by simp
  next
    case (Cancel i)
    obtain gone' where r: "run_timer cs (cancel i T) = (called, gone', T')"
      "gone = map (\<lambda>(_, _, task). task) (filter (\<lambda>(j, _). j = i) (tasks T)) @ gone'"
      using Cons.prems(3) Cancel by (auto simp: Let_def split: prod.splits)
    have "mset (waiting_tasks T) = mset (map (\<lambda>(_, _, task). task) (filter (\<lambda>(j, _). j = i) (tasks T))) + mset (waiting_tasks (cancel i T))"
      using waiting_split [of T "\<lambda>(j, _). j = i"] by (simp add: waiting_tasks_def cancel_def split_def)
    moreover have "highest_id (cancel i T) = highest_id T" by (simp add: cancel_def)
    ultimately show ?thesis using Cons.IH [OF cancel_inv [OF Cons.prems(1)] _ r(1)] Cons.prems(2) Cancel r(2) by simp
  next
    case (Tick now)
    obtain called1 T1 called' where p: "process_tasks now T = (called1, T1)" "run_timer cs T1 = (called', gone, T')" "called = called1 @ called'"
      using Cons.prems(3) Tick by (auto simp: Let_def split: prod.splits)
    have m: "mset (waiting_tasks T) = mset called1 + mset (waiting_tasks T1)" "highest_id T1 \<in> {0, highest_id T}"
      using p(1) waiting_split [of T "\<lambda>(_, t, _). t < now"] unfolding process_tasks_exact [OF Cons.prems(1)]
      by (auto simp: waiting_tasks_def split_def)
    have "timer_inv T1" using process_tasks_inv [OF Cons.prems(1), of now] p(1) by simp
    have "uint (highest_id T1) \<le> uint (highest_id T)" using m(2) by auto
    then have "uint (highest_id T1) + int (length (scheduled cs)) < 18446744073709551616" using Cons.prems(2) Tick by simp
    with Cons.IH [OF \<open>timer_inv T1\<close> _ p(2)] m(1) Tick p(3) show ?thesis by (simp add: add.assoc)
  qed
qed simp

section \<open>Contract\<close>

text \<open>
  C29. The timer of a worker loses no task and runs none twice: whatever calls are made on a new timer, as long as fewer than
  2 ^ 64 tasks are scheduled, each scheduled task has run, was cancelled or still waits, exactly one of these, counted with
  multiplicity; and a tick runs exactly those whose time has passed.
\<close>

theorem timer_accounts_for_tasks:
  assumes "int (length (scheduled cs)) < 18446744073709551616" and "run_timer cs mk_task_timer = (called, gone, T)"
  shows "mset (scheduled cs) = mset called + mset gone + mset (waiting_tasks T) \<and>
    process_tasks now T =
      (map (\<lambda>(_, _, task). task) (filter (\<lambda>(_, t, _). t < now) (tasks T)),
       T\<lparr>tasks := filter (\<lambda>(_, t, _). \<not> t < now) (tasks T),
         highest_id := (if list_all (\<lambda>(_, t, _). t < now) (tasks T) then 0 else highest_id T)\<rparr>)"
proof -
  have "timer_inv T \<and> mset (scheduled cs) = mset called + mset gone + mset (waiting_tasks T)"
    using run_timer_accounts [OF mk_task_timer_inv _ assms(2)] assms(1) by (simp add: mk_task_timer_def waiting_tasks_def)
  then show ?thesis using process_tasks_exact [of T now] by blast
qed

definition demo_calls :: "string timer_call list" where
  "demo_calls = [Schedule 0 ''a'', Schedule 2 ''b'', Tick 6, Cancel 2, Schedule 8 ''c'']"

theorem timer_accounts_for_tasks_witness:
  "\<exists>T. run_timer demo_calls mk_task_timer = ([''a''], [''b''], T) \<and> waiting_tasks T = [''c''] \<and>
     mset [''a'', ''b'', ''c''] = mset [''a''] + mset [''b''] + mset (waiting_tasks T)"
proof -
  have r: "case run_timer demo_calls mk_task_timer of (called, gone, T) \<Rightarrow> called = [''a''] \<and> gone = [''b''] \<and> waiting_tasks T = [''c'']"
    "scheduled demo_calls = [''a'', ''b'', ''c'']"
    by code_simp+
  then obtain T where T: "run_timer demo_calls mk_task_timer = ([''a''], [''b''], T)" "waiting_tasks T = [''c'']"
    by (auto split: prod.splits)
  with timer_accounts_for_tasks [OF _ T(1)] r(2) show ?thesis by auto
qed

text \<open>
  Identifiers are used again: when the last task has run, the next one gets the same identifier as the first, so a connection that cancels
  its timer after it has expired disarms the timer of another connection, which then never expires.
\<close>

theorem stale_cancel_disarms_other:
  assumes "t + uint (default_timeout T) < t'" and "tasks T = []" and "highest_id T = 0"
  shows "\<exists>i T1 T2 T3. schedule t a T = (i, T1) \<and> process_tasks t' T1 = ([a], T2) \<and> schedule t'' b T2 = (i, T3) \<and>
    waiting_tasks T3 = [b] \<and> waiting_tasks (cancel i T3) = []"
  using assms by (auto simp: schedule_def schedule_timeout_def process_tasks_def cancel_def waiting_tasks_def Let_def image_iff)

theorem stale_cancel_disarms_other_witness:
  "\<exists>i T1 T2 T3. schedule 0 ''a'' mk_task_timer = (i, T1) \<and> process_tasks 6 T1 = ([''a''], T2) \<and> schedule 7 ''b'' T2 = (i, T3) \<and>
    waiting_tasks (cancel i T3) = []"
  using stale_cancel_disarms_other [of 0 mk_task_timer 6 "''a''" 7 "''b''"] by (auto simp: mk_task_timer_def)

end
