(* ===== verification/Json_Text.thy ===== *)
theory Json_Text
  imports Cxx_Std
begin

text \<open>
  \<^verbatim>\<open>crow::json\<close> (lib/crowapi/crow_all.h), the text of strings: \<open>escape\<close>, which writes a
  string between quotes, \<open>decode_string\<close>, which finds the closing quote, and \<open>unescape\<close>, which
  \<open>rvalue::s\<close> runs over the characters in place. \<open>escape\<close> and \<open>decode_string\<close> work on texts; \<open>unescape\<close> is
  modelled twice: \<open>unescape_loop\<close> is the code, two positions that move over one buffer, and \<open>unescaped\<close> is
  what it computes. A position outside the buffer is a fault.
\<close>

section \<open>Writing\<close>

abbreviation dquote :: char where "dquote \<equiv> CHR 0x22"
abbreviation backslash :: char where "backslash \<equiv> CHR 0x5C"

definition to_hex :: "nat \<Rightarrow> char" where
  "to_hex n = (let c = n mod 16 in if c < 10 then char_of (48 + c) else char_of (97 + c - 10))"

definition escape_char :: "char \<Rightarrow> string" where
  "escape_char c =
     (if c = dquote then [backslash, dquote]
      else if c = backslash then [backslash, backslash]
      else if c = CHR 0x0A then [backslash, CHR ''n'']
      else if c = CHR 0x08 then [backslash, CHR ''b'']
      else if c = CHR 0x0C then [backslash, CHR ''f'']
      else if c = CHR 0x0D then [backslash, CHR ''r'']
      else if c = CHR 0x09 then [backslash, CHR ''t'']
      else if byte c < 32 then backslash # ''u00'' @ [to_hex (byte c div 16), to_hex (byte c mod 16)]
      else [c])"

definition escape :: "string \<Rightarrow> string" where
  "escape str = concat (map escape_char str)"

definition dump_string :: "string \<Rightarrow> string" where
  "dump_string str = dquote # escape str @ [dquote]"

section \<open>Finding the end of a string\<close>

definition peek :: "string \<Rightarrow> char" where
  "peek s = (case s of [] \<Rightarrow> nul | c # _ \<Rightarrow> c)"

definition is_hex :: "char \<Rightarrow> bool" where
  "is_hex c \<longleftrightarrow> 48 \<le> byte c \<and> byte c \<le> 57 \<or> 97 \<le> byte c \<and> byte c \<le> 102 \<or> 65 \<le> byte c \<and> byte c \<le> 70"

definition simple_escapes :: string where
  "simple_escapes = [dquote, backslash, CHR ''/'', CHR ''b'', CHR ''f'', CHR ''n'', CHR ''r'', CHR ''t'']"

text \<open>The text up to the closing quote, whether it has escapes, and the rest behind the quote.\<close>

function string_body :: "string \<Rightarrow> (string \<times> bool \<times> string) option" where
  "string_body s =
     (case s of
        [] \<Rightarrow> None
      | c # s1 \<Rightarrow>
          if c = dquote then Some ([], False, s1)
          else if c = nul then None
          else if c \<noteq> backslash then map_option (\<lambda>(t, e, r). (c # t, e, r)) (string_body s1)
          else (case s1 of
                  [] \<Rightarrow> None
                | d # s2 \<Rightarrow>
                    if d = CHR ''u'' then
                      (case s2 of
                         h1 # h2 # h3 # h4 # s3 \<Rightarrow>
                           if is_hex h1 \<and> is_hex h2 \<and> is_hex h3 \<and> is_hex h4
                           then map_option (\<lambda>(t, e, r). (c # d # h1 # h2 # h3 # h4 # t, True, r)) (string_body s3)
                           else None
                       | _ \<Rightarrow> None)
                    else if d \<in> set simple_escapes
                    then map_option (\<lambda>(t, e, r). (c # d # t, True, r)) (string_body s2)
                    else None))"
  by pat_completeness auto
termination
  by (relation "measure length") auto

declare string_body.simps [simp del]

section \<open>Reading\<close>

definition from_hex :: "char \<Rightarrow> int" where
  "from_hex c =
     (if byte c \<ge> 97 then int (byte c) - 97 + 10
      else if byte c \<ge> 65 then int (byte c) - 65 + 10
      else int (byte c) - 48)"

definition code_unit :: "char \<Rightarrow> char \<Rightarrow> char \<Rightarrow> char \<Rightarrow> int" where
  "code_unit h1 h2 h3 h4 = from_hex h1 * 4096 + from_hex h2 * 256 + from_hex h3 * 16 + from_hex h4"

text \<open>
  The bytes of a code of 16 bits. Of \<^verbatim>\<open>0xE0 | (code >> 12)\<close> and its kin the operands share no
  bit, so that the bitwise or is a sum.
\<close>

definition utf8 :: "int \<Rightarrow> string" where
  "utf8 code =
     (if code \<ge> 0x800
      then [char_of (0xE0 + code div 4096), char_of (0x80 + code div 64 mod 64), char_of (0x80 + code mod 64)]
      else if code \<ge> 0x80 then [char_of (0xC0 + code div 64), char_of (0x80 + code mod 64)]
      else [char_of code])"

definition unescaped_char :: "char \<Rightarrow> string" where
  "unescaped_char d =
     (if d = dquote \<or> d = backslash \<or> d = CHR ''/'' then [d]
      else if d = CHR ''b'' then [CHR 0x08]
      else if d = CHR ''f'' then [CHR 0x0C]
      else if d = CHR ''n'' then [CHR 0x0A]
      else if d = CHR ''r'' then [CHR 0x0D]
      else if d = CHR ''t'' then [CHR 0x09]
      else [])"

text \<open>What \<open>head\<close> finds: the bytes to write and how far it moves; nothing where it would leave the buffer.\<close>

definition piece :: "string \<Rightarrow> (string \<times> nat) option" where
  "piece s =
     (case s of
        [] \<Rightarrow> None
      | c # s1 \<Rightarrow>
          if c \<noteq> backslash then Some ([c], 1)
          else (case s1 of
                  [] \<Rightarrow> None
                | d # s2 \<Rightarrow>
                    if d = CHR ''u'' then
                      (case s2 of
                         h1 # h2 # h3 # h4 # _ \<Rightarrow> Some (utf8 (code_unit h1 h2 h3 h4), 6)
                       | _ \<Rightarrow> None)
                    else Some (unescaped_char d, 2)))"

lemma piece_moves: "piece s = Some (bs, n) \<Longrightarrow> 0 < n \<and> n \<le> length s"
  by (auto simp: piece_def split: list.splits if_splits)

function unescaped :: "string \<Rightarrow> string" where
  "unescaped s = (case piece s of None \<Rightarrow> [] | Some (bs, n) \<Rightarrow> bs @ unescaped (drop n s))"
  by pat_completeness auto
termination
  by (relation "measure length") (auto dest!: piece_moves simp: less_imp_diff_less)

declare unescaped.simps [simp del]

text \<open>
  The code: \<open>head\<close> reads and \<open>tail\<close> writes. The loop ends when \<open>head\<close> meets the end of the
  string; a \<open>head\<close> that jumped over it would run on to the end of the buffer.
\<close>

fun store_at :: "string \<Rightarrow> nat \<Rightarrow> string \<Rightarrow> string" where
  "store_at buf i [] = buf"
| "store_at buf i (b # bs) = store_at (buf[i := b]) (Suc i) bs"

lemma length_store_at [simp]: "length (store_at buf i bs) = length buf"
  by (induction buf i bs rule: store_at.induct) simp_all

function unescape_loop :: "string \<Rightarrow> nat \<Rightarrow> nat \<Rightarrow> nat \<Rightarrow> (string \<times> nat) result" where
  "unescape_loop buf head tail e =
     (if head = e then Inr (buf, tail)
      else case piece (drop head buf) of
             None \<Rightarrow> Inl Out_of_bounds_read
           | Some (bs, n) \<Rightarrow>
               if length buf < tail + length bs then Inl Out_of_bounds_write
               else unescape_loop (store_at buf tail bs) (head + n) (tail + length bs) e)"
  by pat_completeness auto
termination
  by (relation "measure (\<lambda>(buf, head, tail, e). length buf - head)") (auto dest!: piece_moves)

declare unescape_loop.simps [simp del]

text \<open>
  \<open>unescape\<close>: the character before the string says whether it has escapes. The result is the
  buffer and the new end of the string.
\<close>

definition unescape :: "string \<Rightarrow> nat \<Rightarrow> nat \<Rightarrow> (string \<times> nat) result" where
  "unescape buf start e =
     (if start = 0 \<or> length buf < start then Inl Out_of_bounds_read
      else if buf ! (start - 1) = nul then Inr (buf, e)
      else case unescape_loop buf start start e of
             Inl f \<Rightarrow> Inl f
           | Inr (buf', tail) \<Rightarrow>
               if length buf \<le> tail then Inl Out_of_bounds_write
               else Inr (buf' [tail := nul, start - 1 := nul], tail))"

text \<open>\<open>rvalue::s\<close> of a string that lies at \<open>start\<close>: the buffer afterwards, the new end, and the characters.\<close>

definition string_at :: "string \<Rightarrow> nat \<Rightarrow> nat \<Rightarrow> (string \<times> nat \<times> string) result" where
  "string_at buf start e =
     (case unescape buf start e of
        Inl f \<Rightarrow> Inl f
      | Inr (buf', e') \<Rightarrow> Inr (buf', e', take (e' - start) (drop start buf')))"

section \<open>What is written is read back\<close>

lemma string_body_Nil [simp]: "string_body [] = None"
  by (simp add: string_body.simps)

lemma string_body_dquote [simp]: "string_body (dquote # r) = Some ([], False, r)"
  by (simp add: string_body.simps [of "dquote # r"])

lemma string_body_plain:
  "c \<noteq> dquote \<Longrightarrow> c \<noteq> nul \<Longrightarrow> c \<noteq> backslash \<Longrightarrow>
   string_body (c # s) = map_option (\<lambda>(t, e, r). (c # t, e, r)) (string_body s)"
  by (simp add: string_body.simps [of "c # s"])

lemma string_body_simple:
  "d \<in> set simple_escapes \<Longrightarrow>
   string_body (backslash # d # s) = map_option (\<lambda>(t, e, r). (backslash # d # t, True, r)) (string_body s)"
  by (auto simp: string_body.simps [of "backslash # d # s"] simple_escapes_def)

lemma string_body_unicode:
  "is_hex h1 \<Longrightarrow> is_hex h2 \<Longrightarrow> is_hex h3 \<Longrightarrow> is_hex h4 \<Longrightarrow>
   string_body (backslash # CHR ''u'' # h1 # h2 # h3 # h4 # s) =
     map_option (\<lambda>(t, e, r). (backslash # CHR ''u'' # h1 # h2 # h3 # h4 # t, True, r)) (string_body s)"
  by (simp add: string_body.simps [of "backslash # CHR ''u'' # h1 # h2 # h3 # h4 # s"])

lemma is_hex_to_hex [simp]: "is_hex (to_hex n)"
proof -
  have "n mod 16 < 16" by simp
  then show ?thesis by (auto simp: to_hex_def is_hex_def Let_def)
qed

lemma is_hex_0: "is_hex (CHR ''0'')"
  by (simp add: is_hex_def)

lemma from_hex_to_hex: "n < 16 \<Longrightarrow> from_hex (to_hex n) = int n"
  by (auto simp: to_hex_def from_hex_def Let_def)

text \<open>One character escaped: one piece, which is the character.\<close>

lemma control_code:
  "code_unit (CHR ''0'') (CHR ''0'') (to_hex (n div 16)) (to_hex (n mod 16)) = int n" if "n < 256"
proof -
  have "int (n div 16) * 16 + int (n mod 16) = int n"
    by (simp flip: of_nat_mult of_nat_add add: of_nat_div of_nat_mod)
  moreover have "from_hex (CHR ''0'') = 0" by (simp add: from_hex_def)
  ultimately show ?thesis using that by (simp add: code_unit_def from_hex_to_hex)
qed

lemma utf8_ascii: "n < 128 \<Longrightarrow> utf8 (int n) = [char_of n]"
  by (simp add: utf8_def char_of_nat)

lemma piece_escape_char: "piece (escape_char c @ s) = Some ([c], length (escape_char c))"
proof (cases "escape_char c = [c]")
  case True
  then show ?thesis by (auto simp: piece_def escape_char_def split: if_splits)
next
  case False
  then show ?thesis
    by (auto simp: escape_char_def piece_def unescaped_char_def control_code utf8_ascii)
qed

theorem unescaped_escape: "unescaped (escape s) = s"
proof (induction s)
  case Nil
  then show ?case by (simp add: escape_def unescaped.simps piece_def)
next
  case (Cons c s)
  then show ?case
    by (simp add: escape_def unescaped.simps [of "escape_char c @ concat (map escape_char s)"] piece_escape_char)
qed

definition needs_escaping :: "string \<Rightarrow> bool" where
  "needs_escaping s \<longleftrightarrow> (\<exists>c \<in> set s. escape_char c \<noteq> [c])"

lemma string_body_escape_char:
  "string_body (escape_char c @ s) =
     map_option (\<lambda>(t, e, r). (escape_char c @ t, e \<or> escape_char c \<noteq> [c], r)) (string_body s)"
proof (cases "escape_char c = [c]")
  case True
  then have "c \<noteq> dquote" "c \<noteq> nul" "c \<noteq> backslash" by (auto simp: escape_char_def)
  then show ?thesis using True by (simp add: string_body_plain)
next
  case False
  then show ?thesis
    by (cases "string_body s")
       (auto simp: escape_char_def string_body_simple string_body_unicode simple_escapes_def is_hex_0)
qed

theorem string_body_escape: "string_body (escape s @ dquote # r) = Some (escape s, needs_escaping s, r)"
  by (induction s) (auto simp: escape_def needs_escaping_def string_body_escape_char)

lemma escape_plain: "\<not> needs_escaping s \<Longrightarrow> escape s = s"
  by (induction s) (auto simp: escape_def needs_escaping_def)

section \<open>Unescaping in place\<close>

text \<open>Texts on which \<open>head\<close> never jumps over the end.\<close>

function well_escaped :: "string \<Rightarrow> bool" where
  "well_escaped t \<longleftrightarrow> t = [] \<or> (case piece t of None \<Rightarrow> False | Some (bs, n) \<Rightarrow> well_escaped (drop n t))"
  by pat_completeness auto
termination
  by (relation "measure length") (auto dest!: piece_moves)

declare well_escaped.simps [simp del]

lemma well_escaped_Nil [simp]: "well_escaped []"
  by (simp add: well_escaped.simps)

lemma unescaped_Nil [simp]: "unescaped [] = []"
  by (simp add: unescaped.simps piece_def)

lemma piece_append: "piece t = Some p \<Longrightarrow> piece (t @ r) = Some p"
  by (auto simp: piece_def split: list.splits if_splits)

lemma piece_shrinks: "piece t = Some (bs, n) \<Longrightarrow> length bs \<le> n"
  by (auto simp: piece_def utf8_def unescaped_char_def split: list.splits if_splits)

lemma well_escaped_Cons:
  "c \<noteq> backslash \<Longrightarrow> well_escaped (c # t) = well_escaped t"
  "d \<noteq> CHR ''u'' \<Longrightarrow> well_escaped (backslash # d # t) = well_escaped t"
  "well_escaped (backslash # CHR ''u'' # h1 # h2 # h3 # h4 # t) = well_escaped t"
  by (simp_all add: well_escaped.simps [of "c # t"] well_escaped.simps [of "backslash # d # t"]
      well_escaped.simps [of "backslash # CHR ''u'' # h1 # h2 # h3 # h4 # t"] piece_def)

lemma string_body_cases:
  assumes "string_body s = Some (t, e, r)"
  obtains (close) "s = dquote # r" "t = []" "e = False"
  | (plain) c s1 t1 where "s = c # s1" "t = c # t1" "c \<noteq> dquote" "c \<noteq> nul" "c \<noteq> backslash"
      "string_body s1 = Some (t1, e, r)"
  | (simple) d s2 t2 e2 where "s = backslash # d # s2" "t = backslash # d # t2" "d \<in> set simple_escapes"
      "string_body s2 = Some (t2, e2, r)" "e = True"
  | (unicode) h1 h2 h3 h4 s3 t3 e3 where "s = backslash # CHR ''u'' # h1 # h2 # h3 # h4 # s3"
      "t = backslash # CHR ''u'' # h1 # h2 # h3 # h4 # t3" "is_hex h1" "is_hex h2" "is_hex h3" "is_hex h4"
      "string_body s3 = Some (t3, e3, r)" "e = True"
  using assms by (subst (asm) string_body.simps) (auto split: list.splits if_splits)

lemma is_hex_not_nul: "\<not> is_hex nul"
  by (simp add: is_hex_def)

lemma string_body_well_escaped:
  "string_body s = Some (t, e, r) \<Longrightarrow> s = t @ dquote # r \<and> well_escaped t \<and> nul \<notin> set t"
proof (induction "length s" arbitrary: s t e r rule: less_induct)
  case less
  from less.prems show ?case
  proof (cases rule: string_body_cases)
    case (plain c s1 t1)
    then show ?thesis using less.hyps [of s1 t1 e r] by (simp add: well_escaped_Cons)
  next
    case (simple d s2 t2 e2)
    then show ?thesis using less.hyps [of s2 t2 e2 r] by (auto simp: well_escaped_Cons simple_escapes_def)
  next
    case (unicode h1 h2 h3 h4 s3 t3 e3)
    then have "nul \<notin> {h1, h2, h3, h4}" using is_hex_not_nul by blast
    then show ?thesis using less.hyps [of s3 t3 e3 r] unicode by (simp add: well_escaped_Cons)
  qed simp
qed

lemma string_body_length: "string_body s = Some (t, e, r) \<Longrightarrow> length r < length s"
  by (drule string_body_well_escaped) simp

lemma store_at_append:
  "length bs \<le> length z \<Longrightarrow> store_at (a @ z) (length a) bs = a @ bs @ drop (length bs) z"
proof (induction bs arbitrary: a z)
  case (Cons b bs)
  then obtain y z' where z: "z = y # z'" by (cases z) auto
  show ?case using Cons.IH [of z' "a @ [b]"] Cons.prems by (simp add: z)
qed simp

lemma unescape_loop_refines:
  "well_escaped t \<Longrightarrow>
   \<exists>g'. length g' + length (unescaped t) = length g + length t \<and>
        unescape_loop (a @ g @ t @ post) (length a + length g) (length a) (length a + length g + length t)
          = Inr (a @ unescaped t @ g' @ post, length a + length (unescaped t))"
proof (induction t arbitrary: a g rule: well_escaped.induct)
  case (1 t)
  show ?case
  proof (cases "t = []")
    case True
    then show ?thesis by (simp add: unescape_loop.simps)
  next
    case False
    then obtain bs n where p: "piece t = Some (bs, n)" and ok: "well_escaped (drop n t)"
      using 1(2) by (subst (asm) well_escaped.simps) (auto split: option.splits)
    note n = piece_moves [OF p] piece_shrinks [OF p]
    define g2 where "g2 = drop (length bs) (g @ take n t)"
    have st: "store_at (a @ g @ t @ post) (length a) bs = (a @ bs) @ g2 @ drop n t @ post"
    proof -
      have eq: "g @ t @ post = (g @ take n t) @ drop n t @ post"
        by (metis append_assoc append_take_drop_id)
      have dr: "drop (length bs) ((g @ take n t) @ drop n t @ post) = g2 @ drop n t @ post"
        using n unfolding g2_def by (subst drop_append) simp
      have "store_at (a @ (g @ take n t) @ drop n t @ post) (length a) bs
          = a @ bs @ drop (length bs) ((g @ take n t) @ drop n t @ post)"
        using n by (intro store_at_append) simp
      then show ?thesis unfolding eq dr by (simp only: append_assoc)
    qed
    have len: "length g2 + length bs = length g + n" using n by (simp add: g2_def)
    obtain g' where g': "length g' + length (unescaped (drop n t)) = length g2 + length (drop n t)"
      and loop: "unescape_loop ((a @ bs) @ g2 @ drop n t @ post) (length (a @ bs) + length g2) (length (a @ bs))
          (length (a @ bs) + length g2 + length (drop n t))
        = Inr ((a @ bs) @ unescaped (drop n t) @ g' @ post, length (a @ bs) + length (unescaped (drop n t)))"
      using 1(1) [OF p refl ok, of g2 "a @ bs"] by auto
    have u: "unescaped t = bs @ unescaped (drop n t)" by (simp add: unescaped.simps [of t] p)
    have pos: "length (a @ bs) + length g2 = length a + length g + n"
      "length (a @ bs) + length g2 + length (drop n t) = length a + length g + length t"
      using len n by simp_all
    have "unescape_loop (a @ g @ t @ post) (length a + length g) (length a) (length a + length g + length t)
        = unescape_loop (store_at (a @ g @ t @ post) (length a) bs) (length a + length g + n) (length a + length bs)
            (length a + length g + length t)"
      using False n piece_append [OF p, of post] by (subst unescape_loop.simps) auto
    also have "\<dots> = Inr (a @ unescaped t @ g' @ post, length a + length (unescaped t))"
      using loop n unfolding pos by (simp add: u st add.assoc)
    finally have "unescape_loop (a @ g @ t @ post) (length a + length g) (length a) (length a + length g + length t)
        = Inr (a @ unescaped t @ g' @ post, length a + length (unescaped t))" .
    moreover have "length g' + length (unescaped t) = length g + length t"
      using g' len n unfolding u length_append length_drop by linarith
    ultimately show ?thesis by blast
  qed
qed

text \<open>
  What \<open>s()\<close> does to a string with escapes: the characters become the unescaped ones and the
  mark before them is cleared; what is left between their end and the old end stays in the buffer.
\<close>

lemma unescape_refines:
  assumes t: "well_escaped t" and m: "m \<noteq> nul"
  obtains g where "length g + length (unescaped t) = length t"
    and "unescape (pre @ m # t @ nul # post) (length pre + 1) (length pre + 1 + length t)
      = Inr (pre @ nul # unescaped t @ (g @ nul # post)[0 := nul], length pre + 1 + length (unescaped t))"
proof -
  obtain g where g: "length g + length (unescaped t) = length t"
    and loop: "unescape_loop (pre @ m # t @ nul # post) (length pre + 1) (length pre + 1) (length pre + 1 + length t)
      = Inr (pre @ m # unescaped t @ g @ nul # post, length pre + 1 + length (unescaped t))"
    using unescape_loop_refines [OF t, of "[]" "pre @ [m]" "nul # post"] by auto
  have "(pre @ m # unescaped t @ g @ nul # post)[length pre + 1 + length (unescaped t) := nul, length pre := nul]
      = pre @ nul # unescaped t @ (g @ nul # post)[0 := nul]"
    by (simp add: list_update_append)
  then show ?thesis
    using g loop m that by (simp add: unescape_def)
qed

lemma unescape_again:
  "unescape (pre @ nul # t) (length pre + 1) e = Inr (pre @ nul # t, e)"
  by (simp add: unescape_def)

lemma unescaped_Cons:
  "c \<noteq> backslash \<Longrightarrow> unescaped (c # t) = c # unescaped t"
  "d \<noteq> CHR ''u'' \<Longrightarrow> unescaped (backslash # d # t) = unescaped_char d @ unescaped t"
  "unescaped (backslash # CHR ''u'' # h1 # h2 # h3 # h4 # t) = utf8 (code_unit h1 h2 h3 h4) @ unescaped t"
  by (simp_all add: unescaped.simps [of "c # t"] unescaped.simps [of "backslash # d # t"]
      unescaped.simps [of "backslash # CHR ''u'' # h1 # h2 # h3 # h4 # t"] piece_def)

lemma unescaped_shorter_iff:
  "string_body s = Some (t, e, r) \<Longrightarrow> length (unescaped t) + (if e then 1 else 0) \<le> length t"
proof (induction "length s" arbitrary: s t e r rule: less_induct)
  case less
  from less.prems show ?case
  proof (cases rule: string_body_cases)
    case (plain c s1 t1)
    then show ?thesis using less.hyps [of s1 t1 e r] by (simp add: unescaped_Cons)
  next
    case (simple d s2 t2 e2)
    then have "d \<noteq> CHR ''u''" "length (unescaped_char d) \<le> 1" by (auto simp: simple_escapes_def unescaped_char_def)
    then show ?thesis using simple less.hyps [of s2 t2 e2 r] by (auto simp: unescaped_Cons split: if_splits)
  next
    case (unicode h1 h2 h3 h4 s3 t3 e3)
    have "length (utf8 x) \<le> 3" for x by (simp add: utf8_def)
    then have "length (utf8 (code_unit h1 h2 h3 h4)) \<le> 3" .
    then show ?thesis using unicode less.hyps [of s3 t3 e3 r] by (auto simp: unescaped_Cons split: if_splits)
  qed simp
qed

lemmas unescaped_shorter = unescaped_shorter_iff [of _ _ True, simplified]

text \<open>The first call of \<open>s()\<close> on a string with escapes, and any call on one whose mark is cleared.\<close>

lemma string_at_first:
  assumes "string_body txt = Some (t, True, post)"
  obtains g where "length (unescaped t) + 1 + length g = length t"
    and "string_at (pre @ CHR 0x01 # t @ nul # post) (length pre + 1) (length pre + 1 + length t)
      = Inr (pre @ nul # unescaped t @ nul # g @ nul # post, length pre + 1 + length (unescaped t), unescaped t)"
proof -
  have t: "well_escaped t" using string_body_well_escaped [OF assms] by simp
  obtain g where g: "length g + length (unescaped t) = length t"
    and u: "unescape (pre @ CHR 0x01 # t @ nul # post) (length pre + 1) (length pre + 1 + length t)
      = Inr (pre @ nul # unescaped t @ (g @ nul # post)[0 := nul], length pre + 1 + length (unescaped t))"
    by (rule unescape_refines [OF t, of "CHR 0x01"]) simp
  obtain x g' where "g = x # g'" using g unescaped_shorter [OF assms] by (cases g) auto
  then show ?thesis using that [of g'] g u by (simp add: string_at_def)
qed

lemma string_at_again:
  "string_at (pre @ nul # xs @ ys) (length pre + 1) (length pre + 1 + length xs) = Inr (pre @ nul # xs @ ys, length pre + 1 + length xs, xs)"
  by (simp only: string_at_def unescape_again sum.case prod.case) simp

end
