(* ===== verification/Json_Load.thy ===== *)
theory Json_Load
  imports Json_Text
begin

text \<open>
  \<^verbatim>\<open>crow::json\<close> (lib/crowapi/crow_all.h), the parser behind \<open>load\<close>. The parser walks over a buffer that
  ends with a NUL; here its position is the rest of the text, and the character at the end of the text is NUL.
  The NUL and the mark that it writes around a string lie behind its position. A value is a tree: a
  string is the text between its quotes with the mark for escapes, an element of an object is its key
  and its value. An erroneous value is \<open>None\<close>.
\<close>

section \<open>Values that are read\<close>

datatype type = Null | JFalse | JTrue | Number | JString | JList | Object | Function

datatype num_type = Signed_integer | Unsigned_integer | Floating_point | Num_null

datatype rvalue =
    R_Null
  | R_False
  | R_True
  | R_Number string num_type
  | R_String string bool
  | R_List "rvalue list"
  | R_Object "(string \<times> rvalue) list" bool

definition is_ws :: "char \<Rightarrow> bool" where
  "is_ws c \<longleftrightarrow> c = CHR '' '' \<or> c = CHR 0x09 \<or> c = CHR 0x0D \<or> c = CHR 0x0A"

definition ws_skip :: "string \<Rightarrow> string" where
  "ws_skip s = dropWhile is_ws s"

definition decode_string :: "string \<Rightarrow> (rvalue \<times> string) option" where
  "decode_string s =
     (if peek s \<noteq> dquote then None
      else map_option (\<lambda>(t, e, r). (R_String t e, r)) (string_body (tl s)))"

text \<open>The characters that \<open>s()\<close> returns.\<close>

definition string_value :: "string \<Rightarrow> bool \<Rightarrow> string" where
  "string_value t has_escaping = (if has_escaping then unescaped t else t)"

section \<open>Numbers\<close>

datatype NumberParsingState =
    Minus | AfterMinus | ZeroFirst | Digits | DigitsAfterPoints | AfterE | DigitsAfterE | Invalid

definition number_state :: "nat \<Rightarrow> NumberParsingState" where
  "number_state n = [Minus, AfterMinus, ZeroFirst, Digits, DigitsAfterPoints, AfterE, DigitsAfterE, Invalid] ! n"

fun state_index :: "NumberParsingState \<Rightarrow> nat" where
  "state_index Minus = 0" | "state_index AfterMinus = 1" | "state_index ZeroFirst = 2" | "state_index Digits = 3"
| "state_index DigitsAfterPoints = 4" | "state_index AfterE = 5" | "state_index DigitsAfterE = 6" | "state_index Invalid = 7"

definition nonzero_digit :: "char \<Rightarrow> bool" where
  "nonzero_digit c \<longleftrightarrow> 49 \<le> byte c \<and> byte c \<le> 57"

text \<open>The tables that the code writes as string literals, by the character read.\<close>

definition number_table :: "char \<Rightarrow> nat list option" where
  "number_table c =
     (if c = CHR ''0'' then Some [2, 2, 7, 3, 4, 6, 6]
      else if nonzero_digit c then Some [3, 3, 7, 3, 4, 6, 6]
      else if c = CHR ''.'' then Some [7, 7, 4, 4, 7, 7, 7]
      else if c = CHR ''-'' then Some [1, 7, 7, 7, 7, 6, 7]
      else if c = CHR ''+'' then Some [7, 7, 7, 7, 7, 6, 7]
      else if c = CHR ''e'' \<or> c = CHR ''E'' then Some [7, 7, 7, 5, 5, 7, 7]
      else None)"

definition number_ends :: "NumberParsingState \<Rightarrow> bool" where
  "number_ends st \<longleftrightarrow> st \<in> {ZeroFirst, Digits, DigitsAfterPoints, DigitsAfterE}"

definition digits_ahead :: "char \<Rightarrow> string \<Rightarrow> nat" where
  "digits_ahead c s = (if nonzero_digit c then length (takeWhile isdigit s) else 0)"

function number_loop :: "NumberParsingState \<Rightarrow> string \<Rightarrow> (string \<times> string) option" where
  "number_loop st s =
     (if st = Invalid then None
      else case s of
             [] \<Rightarrow> if number_ends st then Some ([], []) else None
           | c # s1 \<Rightarrow>
               (case number_table c of
                  None \<Rightarrow> if number_ends st then Some ([], s) else None
                | Some row \<Rightarrow>
                    map_option (\<lambda>(t, r). (c # take (digits_ahead c s1) s1 @ t, r))
                      (number_loop (number_state (row ! state_index st)) (drop (digits_ahead c s1) s1))))"
  by pat_completeness auto
termination
  by (relation "measure (\<lambda>(st, s). length s)") auto

declare number_loop.simps [simp del]

definition determine_num_type :: "string \<Rightarrow> num_type" where
  "determine_num_type t =
     (if CHR ''.'' \<in> set t \<or> CHR ''e'' \<in> set t \<or> CHR ''E'' \<in> set t then Floating_point
      else if CHR ''-'' \<in> set t then Signed_integer else Unsigned_integer)"

definition decode_number :: "string \<Rightarrow> (rvalue \<times> string) option" where
  "decode_number s = map_option (\<lambda>(t, r). (R_Number t (determine_num_type t), r)) (number_loop Minus s)"

section \<open>Lists, objects and values\<close>

definition max_depth :: nat where
  "max_depth = 10000"

definition literal :: "string \<Rightarrow> rvalue \<Rightarrow> string \<Rightarrow> (rvalue \<times> string) option" where
  "literal w v s = (if take (length w) s = w then Some (v, drop (length w) s) else None)"

text \<open>The key of an element: \<open>decode_string\<close>, the colon, \<open>s()\<close>.\<close>

definition decode_member_key :: "string \<Rightarrow> (string \<times> string) option" where
  "decode_member_key s =
     (case decode_string s of
        Some (R_String t e, s1) \<Rightarrow>
          let s2 = ws_skip s1
          in if peek s2 \<noteq> CHR '':'' then None else Some (string_value t e, ws_skip (tl s2))
      | _ \<Rightarrow> None)"

function decode_value :: "nat \<Rightarrow> string \<Rightarrow> (rvalue \<times> string) option"
  and decode_list :: "nat \<Rightarrow> string \<Rightarrow> (rvalue \<times> string) option"
  and list_loop :: "nat \<Rightarrow> string \<Rightarrow> (rvalue list \<times> string) option"
  and decode_object :: "nat \<Rightarrow> string \<Rightarrow> (rvalue \<times> string) option"
  and object_loop :: "nat \<Rightarrow> string \<Rightarrow> ((string \<times> rvalue) list \<times> string) option"
where
  "decode_value depth s =
     (if peek s = CHR ''['' then decode_list (depth + 1) s
      else if peek s = CHR ''{'' then decode_object (depth + 1) s
      else if peek s = dquote then decode_string s
      else if peek s = CHR ''t'' then literal ''true'' R_True s
      else if peek s = CHR ''f'' then literal ''false'' R_False s
      else if peek s = CHR ''n'' then literal ''null'' R_Null s
      else decode_number s)"
| "decode_list depth s =
     (if peek s \<noteq> CHR ''['' \<or> max_depth < depth then None
      else let s1 = ws_skip (tl s)
           in if peek s1 = CHR '']'' then Some (R_List [], tl s1)
              else map_option (\<lambda>(vs, r). (R_List vs, r)) (list_loop depth s1))"
| "list_loop depth s =
     (case decode_value (depth + 1) s of
        None \<Rightarrow> None
      | Some (v, s1) \<Rightarrow>
          let s2 = ws_skip s1
          in if peek s2 = CHR '']'' then Some ([v], tl s2)
             else if peek s2 \<noteq> CHR '','' then None
             else map_option (\<lambda>(vs, r). (v # vs, r)) (list_loop depth (ws_skip (tl s2))))"
| "decode_object depth s =
     (if peek s \<noteq> CHR ''{'' \<or> max_depth < depth then None
      else let s1 = ws_skip (tl s)
           in if peek s1 = CHR ''}'' then Some (R_Object [] False, tl s1)
              else map_option (\<lambda>(kvs, r). (R_Object kvs False, r)) (object_loop depth s1))"
| "object_loop depth s =
     (case decode_member_key s of
        None \<Rightarrow> None
      | Some (k, s1) \<Rightarrow>
          (case decode_value (depth + 1) s1 of
             None \<Rightarrow> None
           | Some (v, s2) \<Rightarrow>
               let s3 = ws_skip s2
               in if peek s3 = CHR ''}'' then Some ([(k, v)], tl s3)
                  else if peek s3 \<noteq> CHR '','' then None
                  else map_option (\<lambda>(kvs, r). ((k, v) # kvs, r)) (object_loop depth (ws_skip (tl s3)))))"
  by pat_completeness auto

subsection \<open>The parser ends\<close>

lemma ws_skip_length: "length (ws_skip s) \<le> length s"
  by (simp add: ws_skip_def length_dropWhile_le)

lemma peek_tl: "peek s = c \<Longrightarrow> c \<noteq> nul \<Longrightarrow> length (tl s) < length s"
  by (cases s) (auto simp: peek_def)

lemma decode_string_length: "decode_string s = Some (v, r) \<Longrightarrow> length r < length s"
  by (cases s) (auto simp: decode_string_def peek_def dest: string_body_length split: if_splits)

lemma decode_member_key_length: "decode_member_key s = Some (k, r) \<Longrightarrow> length r < length s"
proof -
  assume "decode_member_key s = Some (k, r)"
  then obtain t e s1 where s1: "decode_string s = Some (R_String t e, s1)" and r: "r = ws_skip (tl (ws_skip s1))"
    by (auto simp: decode_member_key_def Let_def split: option.splits rvalue.splits if_splits)
  have "length r \<le> length s1"
    using ws_skip_length [of "tl (ws_skip s1)"] ws_skip_length [of s1] by (simp add: r)
  then show ?thesis using decode_string_length [OF s1] by simp
qed

lemma number_loop_length: "number_loop st s = Some (t, r) \<Longrightarrow> s = t @ r"
proof (induction st s arbitrary: t r rule: number_loop.induct)
  case (1 st s)
  from 1(2) show ?case
    by (subst (asm) number_loop.simps) (auto split: if_splits list.splits option.splits dest!: 1(1), (metis append_take_drop_id)+)
qed

lemma decode_number_length: "decode_number s = Some (v, r) \<Longrightarrow> length r \<le> length s"
  by (auto simp: decode_number_def dest!: number_loop_length)

lemma literal_length: "literal w v s = Some (v', r) \<Longrightarrow> length r \<le> length s"
  by (auto simp: literal_def split: if_splits)

lemma ws_skip_tl_length: "length (ws_skip (tl (ws_skip s))) \<le> length s"
  using ws_skip_length [of "tl (ws_skip s)"] ws_skip_length [of s] by simp

lemma decode_shrinks_partial:
  "decode_value_decode_list_list_loop_decode_object_object_loop_dom (Inl (Inl (d, s))) \<Longrightarrow>
     (\<forall>v r. decode_value d s = Some (v, r) \<longrightarrow> length r \<le> length s)"
  "decode_value_decode_list_list_loop_decode_object_object_loop_dom (Inl (Inr (d, s))) \<Longrightarrow>
     (\<forall>v r. decode_list d s = Some (v, r) \<longrightarrow> length r \<le> length s)"
  "decode_value_decode_list_list_loop_decode_object_object_loop_dom (Inr (Inl (d, s))) \<Longrightarrow>
     (\<forall>vs r. list_loop d s = Some (vs, r) \<longrightarrow> length r \<le> length s)"
  "decode_value_decode_list_list_loop_decode_object_object_loop_dom (Inr (Inr (Inl (d, s)))) \<Longrightarrow>
     (\<forall>v r. decode_object d s = Some (v, r) \<longrightarrow> length r \<le> length s)"
  "decode_value_decode_list_list_loop_decode_object_object_loop_dom (Inr (Inr (Inr (d, s)))) \<Longrightarrow>
     (\<forall>kvs r. object_loop d s = Some (kvs, r) \<longrightarrow> length r \<le> length s)"
proof (induction d s and d s and d s and d s and d s
    rule: decode_value_decode_list_list_loop_decode_object_object_loop.pinduct)
  case (1 depth s)
  then show ?case
    by (auto simp: decode_value.psimps dest: decode_string_length literal_length decode_number_length split: if_splits)
next
  case (2 depth s)
  have "length (ws_skip (tl s)) \<le> length s" using ws_skip_length [of "tl s"] by simp
  with 2 show ?case
    by (auto simp: decode_list.psimps Let_def split: if_splits)
next
  case (3 depth s)
  show ?case
  proof (intro allI impI)
    fix vs r assume loop: "list_loop depth s = Some (vs, r)"
    then obtain v s1 where v: "decode_value (depth + 1) s = Some (v, s1)"
      by (auto simp: list_loop.psimps [OF 3(1)] split: option.splits)
    note v' = v [folded Suc_eq_plus1]
    note len = 3(2) [rule_format, OF v] ws_skip_length [of s1] ws_skip_tl_length [of s1]
    show "length r \<le> length s"
    proof (cases "peek (ws_skip s1) = CHR '']''")
      case True
      then show ?thesis using loop len by (auto simp: list_loop.psimps [OF 3(1)] v' Let_def)
    next
      case False
      then show ?thesis
        using loop len 3(3) [OF v refl refl False]
        by (fastforce simp: list_loop.psimps [OF 3(1)] v' Let_def split: if_splits)
    qed
  qed
next
  case (4 depth s)
  have "length (ws_skip (tl s)) \<le> length s" using ws_skip_length [of "tl s"] by simp
  with 4 show ?case
    by (auto simp: decode_object.psimps Let_def split: if_splits)
next
  case (5 depth s)
  show ?case
  proof (intro allI impI)
    fix kvs r assume loop: "object_loop depth s = Some (kvs, r)"
    then obtain k s1 v s2 where k: "decode_member_key s = Some (k, s1)" and v: "decode_value (depth + 1) s1 = Some (v, s2)"
      by (auto simp: object_loop.psimps [OF 5(1)] split: option.splits)
    note v' = v [folded Suc_eq_plus1]
    note len = decode_member_key_length [OF k] 5(2) [OF k refl, rule_format, OF v] ws_skip_length [of s2] ws_skip_tl_length [of s2]
    show "length r \<le> length s"
    proof (cases "peek (ws_skip s2) = CHR ''}''")
      case True
      then show ?thesis using loop len by (auto simp: object_loop.psimps [OF 5(1)] k v' Let_def)
    next
      case False
      then show ?thesis
        using loop len 5(3) [OF k refl v refl refl False]
        by (fastforce simp: object_loop.psimps [OF 5(1)] k v' Let_def split: if_splits)
    qed
  qed
qed

text \<open>
  Every call is on a shorter text, or goes from a loop to the value, and from the value to the
  list or object, at the same text.
\<close>

termination decode_value
proof (relation "measures
    [\<lambda>x. case x of Inl (Inl (d, s)) \<Rightarrow> length s | Inl (Inr (d, s)) \<Rightarrow> length s
       | Inr (Inl (d, s)) \<Rightarrow> length s | Inr (Inr (Inl (d, s))) \<Rightarrow> length s | Inr (Inr (Inr (d, s))) \<Rightarrow> length s,
     \<lambda>x. case x of Inl (Inl _) \<Rightarrow> 1 | Inr (Inl _) \<Rightarrow> 2 | Inr (Inr (Inr _)) \<Rightarrow> 2 | _ \<Rightarrow> 0]", goal_cases)
  case (4 depth s x)
  then show ?case using peek_tl [of s "CHR ''[''"] ws_skip_length [of "tl s"] by auto
next
  case (6 depth s x2 x y xa)
  then have "length y \<le> length s" using decode_shrinks_partial(1) by blast
  moreover have "length (ws_skip (tl xa)) < length y"
    using 6 peek_tl [of xa "CHR '',''"] ws_skip_length [of "tl xa"] ws_skip_length [of y] by auto
  ultimately show ?case by auto
next
  case (7 depth s x)
  then show ?case using peek_tl [of s "CHR ''{''"] ws_skip_length [of "tl s"] by auto
next
  case (8 depth s x2 x y)
  then show ?case using decode_member_key_length [of s x y] by auto
next
  case (9 depth s x2 x y x2a xa ya xb)
  then have "length ya \<le> length y" using decode_shrinks_partial(1) by blast
  moreover have "length (ws_skip (tl xb)) < length ya"
    using 9 peek_tl [of xb "CHR '',''"] ws_skip_length [of "tl xb"] ws_skip_length [of ya] by auto
  ultimately show ?case using 9 decode_member_key_length [of s x y] by auto
qed auto

declare decode_value.simps [simp del] decode_list.simps [simp del] list_loop.simps [simp del]
  decode_object.simps [simp del] object_loop.simps [simp del]

definition parse :: "string \<Rightarrow> rvalue option" where
  "parse s = (case decode_value 0 (ws_skip s) of
                None \<Rightarrow> None
              | Some (v, r) \<Rightarrow> if peek (ws_skip r) \<noteq> nul then None else Some v)"

text \<open>\<open>load\<close> of a buffer with its size, and of a string that ends at its first NUL.\<close>

definition load :: "string \<Rightarrow> rvalue option" where
  "load data = parse data"

definition load_cstr :: "string \<Rightarrow> rvalue option" where
  "load_cstr data = load (takeWhile (\<lambda>c. c \<noteq> nul) data)"

end
