(* ===== verification/Json_Value.thy ===== *)
theory Json_Value
  imports Json_Load "HOL-Library.Multiset"
begin

text \<open>
  \<^verbatim>\<open>crow::json::rvalue\<close> (lib/crowapi/crow_all.h), the operations on a value that was read. \<open>None\<close> is the
  erroneous value, on which all of them throw. Two parameters stand for code that is not the
  program's: \<open>cast\<close> for \<^verbatim>\<open>boost::lexical_cast\<close>, \<open>sort_by\<close> for \<^verbatim>\<open>std::sort\<close> with the comparison of keys, whose
  order of equal keys is left open. The accessors are \<^verbatim>\<open>const\<close>, yet two of them change the value: \<open>s()\<close> unescapes the
  string, and the first lookup of a key sorts the elements of the object.
\<close>

section \<open>Types\<close>

fun get_type_str :: "type \<Rightarrow> string" where
  "get_type_str Number = ''Number''"
| "get_type_str JFalse = ''False''"
| "get_type_str JTrue = ''True''"
| "get_type_str JList = ''List''"
| "get_type_str JString = ''String''"
| "get_type_str Object = ''Object''"
| "get_type_str Function = ''Function''"
| "get_type_str Null = ''Unknown''"

fun type_of :: "rvalue \<Rightarrow> type" where
  "type_of R_Null = Null"
| "type_of R_False = JFalse"
| "type_of R_True = JTrue"
| "type_of (R_Number _ _) = Number"
| "type_of (R_String _ _) = JString"
| "type_of (R_List _) = JList"
| "type_of (R_Object _ _) = Object"

abbreviation runtime_error :: "string \<Rightarrow> fault" where
  "runtime_error msg \<equiv> Throw (Runtime_error msg)"

definition checked :: "rvalue option \<Rightarrow> rvalue result" where
  "checked r = (case r of None \<Rightarrow> Inl (runtime_error ''invalid json object'') | Some v \<Rightarrow> Inr v)"

definition r_t :: "rvalue option \<Rightarrow> type result" where
  "r_t r = map_sum id type_of (checked r)"

definition r_nt :: "rvalue option \<Rightarrow> num_type result" where
  "r_nt r = map_sum id (\<lambda>v. case v of R_Number _ nt \<Rightarrow> nt | _ \<Rightarrow> Num_null) (checked r)"

section \<open>Numbers, truth values and strings\<close>

text \<open>\<open>i\<close> and \<open>u\<close>: the cast of the characters of a number or a string.\<close>

definition r_integer :: "(string \<Rightarrow> int option) \<Rightarrow> rvalue option \<Rightarrow> int result" where
  "r_integer cast r =
     (case checked r of
        Inl e \<Rightarrow> Inl e
      | Inr v \<Rightarrow>
          (case (case v of R_Number t _ \<Rightarrow> Some t | R_String t _ \<Rightarrow> Some t | _ \<Rightarrow> None) of
             None \<Rightarrow> Inl (runtime_error (''expected number, got: '' @ get_type_str (type_of v)))
           | Some t \<Rightarrow> (case cast t of None \<Rightarrow> Inl (Throw Bad_cast) | Some i \<Rightarrow> Inr i)))"

definition r_d :: "(string \<Rightarrow> 'd option) \<Rightarrow> rvalue option \<Rightarrow> 'd result" where
  "r_d cast r =
     (case checked r of
        Inl e \<Rightarrow> Inl e
      | Inr (R_Number t _) \<Rightarrow> (case cast t of None \<Rightarrow> Inl (Throw Bad_cast) | Some x \<Rightarrow> Inr x)
      | Inr _ \<Rightarrow> Inl (runtime_error ''value is not number''))"

definition r_b :: "rvalue option \<Rightarrow> bool result" where
  "r_b r =
     (case checked r of
        Inl e \<Rightarrow> Inl e
      | Inr v \<Rightarrow> if v = R_True then Inr True else if v = R_False then Inr False
                 else Inl (runtime_error ''value is not boolean''))"

text \<open>\<open>s\<close>: the characters, and the value with its string unescaped.\<close>

definition r_s :: "rvalue option \<Rightarrow> (string \<times> rvalue) result" where
  "r_s r =
     (case checked r of
        Inl e \<Rightarrow> Inl e
      | Inr (R_String t esc) \<Rightarrow> Inr (string_value t esc, R_String (string_value t esc) False)
      | Inr _ \<Rightarrow> Inl (runtime_error ''value is not string''))"

text \<open>The conversion to \<^verbatim>\<open>std::string\<close>.\<close>

definition r_string :: "rvalue option \<Rightarrow> string result" where
  "r_string r =
     (case checked r of
        Inl e \<Rightarrow> Inl e
      | Inr v \<Rightarrow>
          (case v of
             R_Null \<Rightarrow> Inr ''null''
           | R_True \<Rightarrow> Inr ''true''
           | R_False \<Rightarrow> Inr ''false''
           | R_Number t _ \<Rightarrow> Inr t
           | R_String t esc \<Rightarrow> Inr (string_value t esc)
           | _ \<Rightarrow> Inl (runtime_error ''json type container'')))"

section \<open>Containers\<close>

definition r_lo :: "rvalue option \<Rightarrow> rvalue list result" where
  "r_lo r =
     (case checked r of
        Inl e \<Rightarrow> Inl e
      | Inr (R_List vs) \<Rightarrow> Inr vs
      | Inr (R_Object kvs _) \<Rightarrow> Inr (map snd kvs)
      | Inr _ \<Rightarrow> Inl (runtime_error ''value is not a container''))"

definition r_size :: "rvalue option \<Rightarrow> nat result" where
  "r_size r =
     (case checked r of
        Inl e \<Rightarrow> Inl e
      | Inr (R_String t esc) \<Rightarrow> Inr (length (string_value t esc))
      | Inr (R_List vs) \<Rightarrow> Inr (length vs)
      | Inr (R_Object kvs _) \<Rightarrow> Inr (length kvs)
      | Inr _ \<Rightarrow> Inl (runtime_error ''value is not a container''))"

definition r_at :: "rvalue option \<Rightarrow> int \<Rightarrow> rvalue result" where
  "r_at r index =
     (case checked r of
        Inl e \<Rightarrow> Inl e
      | Inr (R_List vs) \<Rightarrow>
          if int (length vs) \<le> index \<or> index < 0 then Inl (runtime_error ''list out of bound'')
          else Inr (vs ! nat index)
      | Inr _ \<Rightarrow> Inl (runtime_error ''value is not a list''))"

definition r_keys :: "rvalue option \<Rightarrow> string list result" where
  "r_keys r =
     (case checked r of
        Inl e \<Rightarrow> Inl e
      | Inr (R_Object kvs _) \<Rightarrow> Inr (map fst kvs)
      | Inr _ \<Rightarrow> Inl (runtime_error ''value is not an object''))"

subsection \<open>Keys\<close>

text \<open>Keys are compared as ranges of \<^verbatim>\<open>char\<close>, which is signed.\<close>

definition signed_char :: "char \<Rightarrow> int" where
  "signed_char c = (if byte c < 128 then int (byte c) else int (byte c) - 256)"

fun key_less :: "string \<Rightarrow> string \<Rightarrow> bool" where
  "key_less _ [] = False"
| "key_less [] (_ # _) = True"
| "key_less (c # cs) (d # ds) \<longleftrightarrow> signed_char c < signed_char d \<or> signed_char c = signed_char d \<and> key_less cs ds"

type_synonym members = "(string \<times> rvalue) list"

text \<open>\<^verbatim>\<open>std::lower_bound\<close> over the \<open>len\<close> elements from \<open>first\<close>.\<close>

function lower_bound :: "members \<Rightarrow> string \<Rightarrow> nat \<Rightarrow> nat \<Rightarrow> nat" where
  "lower_bound kvs k first len =
     (if len = 0 then first
      else let half = len div 2
           in if key_less (fst (kvs ! (first + half))) k
              then lower_bound kvs k (first + half + 1) (len - half - 1)
              else lower_bound kvs k first half)"
  by pat_completeness auto
termination
  by (relation "measure (\<lambda>(kvs, k, first, len). len)") auto

declare lower_bound.simps [simp del]

text \<open>
  The search that \<open>has\<close> and \<open>operator[]\<close> share: the elements as they are left, and the one that was
  found. The elements of a list have no keys: to compare them reads pointers that were never set.
\<close>

definition find_key :: "(members \<Rightarrow> members) \<Rightarrow> members \<Rightarrow> bool \<Rightarrow> string \<Rightarrow> members \<times> rvalue option" where
  "find_key sort_by kvs cached k =
     (let xs = (if cached then kvs else sort_by kvs);
          i = lower_bound xs k 0 (length xs)
      in (xs, if i < length xs \<and> fst (xs ! i) = k then Some (snd (xs ! i)) else None))"

definition has :: "(members \<Rightarrow> members) \<Rightarrow> rvalue option \<Rightarrow> string \<Rightarrow> (bool \<times> rvalue) result" where
  "has sort_by r k =
     (case checked r of
        Inl e \<Rightarrow> Inl e
      | Inr (R_Object kvs cached) \<Rightarrow>
          let (xs, found) = find_key sort_by kvs cached k in Inr (found \<noteq> None, R_Object xs True)
      | Inr (R_List vs) \<Rightarrow> if vs = [] then Inr (False, R_List vs) else Inl Out_of_bounds_read
      | Inr _ \<Rightarrow> Inl (runtime_error ''value is not a container''))"

definition r_count :: "(members \<Rightarrow> members) \<Rightarrow> rvalue option \<Rightarrow> string \<Rightarrow> (nat \<times> rvalue) result" where
  "r_count sort_by r k = map_sum id (\<lambda>(b, v). (if b then 1 else 0, v)) (has sort_by r k)"

definition r_member :: "(members \<Rightarrow> members) \<Rightarrow> rvalue option \<Rightarrow> string \<Rightarrow> (rvalue \<times> rvalue) result" where
  "r_member sort_by r k =
     (case checked r of
        Inl e \<Rightarrow> Inl e
      | Inr (R_Object kvs cached) \<Rightarrow>
          (case find_key sort_by kvs cached k of
             (xs, Some v) \<Rightarrow> Inr (v, R_Object xs True)
           | (xs, None) \<Rightarrow> Inl (runtime_error ''cannot find key''))
      | Inr _ \<Rightarrow> Inl (runtime_error ''value is not an object''))"

section \<open>The order of keys\<close>

lemma signed_char_inj: "signed_char c = signed_char d \<longleftrightarrow> c = d"
proof
  assume "signed_char c = signed_char d"
  moreover have "int (byte c) < 256" "int (byte d) < 256" by simp_all
  ultimately have "int (byte c) = int (byte d)" unfolding signed_char_def by (simp only: split: if_splits)
  then show "c = d" by simp
qed simp

lemma key_less_irrefl [simp]: "\<not> key_less k k"
  by (induction k) simp_all

lemma key_less_trans: "key_less a b \<Longrightarrow> key_less b c \<Longrightarrow> key_less a c"
proof (induction a b arbitrary: c rule: key_less.induct)
  case (3 x xs y ys)
  then show ?case by (cases c) (auto simp: signed_char_inj)
next
  case (2 y ys)
  then show ?case by (cases c) auto
qed auto

lemma key_less_total: "key_less a b \<or> a = b \<or> key_less b a"
  by (induction a b rule: key_less.induct) (auto simp: signed_char_inj neq_Nil_conv elim: key_less.elims)

lemma key_less_asym: "key_less a b \<Longrightarrow> \<not> key_less b a"
  using key_less_trans key_less_irrefl by blast

definition sorted_keys :: "members \<Rightarrow> bool" where
  "sorted_keys kvs \<longleftrightarrow> sorted_wrt (\<lambda>x y. \<not> key_less (fst y) (fst x)) kvs"

text \<open>The binary search ends where the keys below \<open>k\<close> end.\<close>

lemma lower_bound_partition:
  assumes "sorted_keys kvs" and "first + len \<le> length kvs"
    and "\<And>i. i < first \<Longrightarrow> key_less (fst (kvs ! i)) k"
    and "\<And>i. first + len \<le> i \<Longrightarrow> i < length kvs \<Longrightarrow> \<not> key_less (fst (kvs ! i)) k"
  shows "lower_bound kvs k first len \<le> length kvs
    \<and> (\<forall>i < length kvs. key_less (fst (kvs ! i)) k \<longleftrightarrow> i < lower_bound kvs k first len)"
  using assms
proof (induction kvs k first len rule: lower_bound.induct)
  case (1 kvs k first len)
  let ?m = "first + len div 2"
  have ord: "\<not> key_less (fst (kvs ! j)) (fst (kvs ! i))" if "i < j" "j < length kvs" for i j
    using 1(3) that by (simp add: sorted_keys_def sorted_wrt_iff_nth_less)
  show ?case
  proof (cases "len = 0")
    case True
    then show ?thesis
      using "1.prems" by (auto simp: lower_bound.simps [of _ _ _ 0]) (meson not_less)
  next
    case len: False
    then have m: "?m < length kvs" "?m < first + len" using "1.prems"(2) by auto
    show ?thesis
    proof (cases "key_less (fst (kvs ! ?m)) k")
      case True
      have below: "key_less (fst (kvs ! i)) k" if "i < ?m + 1" for i
      proof (cases "i = ?m")
        case False
        with that m have "\<not> key_less (fst (kvs ! ?m)) (fst (kvs ! i))" by (intro ord) auto
        then show ?thesis using True key_less_trans key_less_total by metis
      qed (use True in simp)
      show ?thesis
        using 1(1) [OF len refl True "1.prems"(1) _ below] "1.prems"(2,4) len True
        by (subst (1 2) lower_bound.simps) (simp add: Let_def)
    next
      case False
      have above: "\<not> key_less (fst (kvs ! i)) k" if "?m \<le> i" "i < length kvs" for i
      proof (cases "i = ?m")
        case False
        with that have "\<not> key_less (fst (kvs ! i)) (fst (kvs ! ?m))" by (intro ord) auto
        then show ?thesis using \<open>\<not> key_less (fst (kvs ! ?m)) k\<close> key_less_trans key_less_total by metis
      qed (use False in simp)
      show ?thesis
        using 1(2) [OF len refl False "1.prems"(1) _ "1.prems"(3) above] "1.prems"(2) len False
        by (subst (1 2) lower_bound.simps) (simp add: Let_def)
    qed
  qed
qed

section \<open>Lookup\<close>

text \<open>What \<^verbatim>\<open>std::sort\<close> promises: the same elements, in the order of their keys.\<close>

locale sorts_members =
  fixes sort_by :: "members \<Rightarrow> members"
  assumes same_members: "mset (sort_by kvs) = mset kvs"
    and sorted_members: "sorted_keys (sort_by kvs)"
begin

lemma map_of_sort: "distinct (map fst kvs) \<Longrightarrow> map_of (sort_by kvs) = map_of kvs"
  by (rule map_of_inject_set [THEN iffD2])
     (metis same_members mset_map mset_eq_imp_distinct_iff, simp, metis same_members set_mset_mset)

lemma find_key_sorted:
  assumes "sorted_keys xs" and "distinct (map fst xs)"
  shows "find_key sort_by xs True k = (xs, map_of xs k)"
proof -
  let ?i = "lower_bound xs k 0 (length xs)"
  have part: "key_less (fst (xs ! j)) k \<longleftrightarrow> j < ?i" if "j < length xs" for j
    using lower_bound_partition [OF assms(1), of 0 "length xs" k] that by simp
  have "map_of xs k = (if ?i < length xs \<and> fst (xs ! ?i) = k then Some (snd (xs ! ?i)) else None)"
  proof (cases "k \<in> fst ` set xs")
    case True
    then obtain j where j: "j < length xs" "fst (xs ! j) = k" by (auto simp: in_set_conv_nth)
    then have "\<not> j < ?i" using part by fastforce
    moreover have "\<not> ?i < j"
    proof
      assume less: "?i < j"
      then have "\<not> key_less (fst (xs ! ?i)) k" "\<not> key_less k (fst (xs ! ?i))"
        using part [of ?i] j assms(1) by (auto simp: sorted_keys_def sorted_wrt_iff_nth_less)
      then have "map fst xs ! ?i = map fst xs ! j" using key_less_total j less by auto
      then show False using assms(2) j less by (simp add: nth_eq_iff_index_eq del: nth_map)
    qed
    ultimately have "?i = j" by simp
    then show ?thesis using j assms(2) by (metis map_of_is_SomeI nth_mem prod.collapse)
  next
    case False
    then show ?thesis by (metis image_eqI map_of_eq_None_iff nth_mem)
  qed
  then show ?thesis by (simp add: find_key_def Let_def)
qed

lemma find_key_first:
  assumes "distinct (map fst kvs)"
  shows "find_key sort_by kvs False k = (sort_by kvs, map_of kvs k)"
proof -
  have "distinct (map fst (sort_by kvs))"
    using assms same_members by (metis mset_map mset_eq_imp_distinct_iff)
  from find_key_sorted [OF sorted_members this] show ?thesis
    using assms by (simp add: find_key_def Let_def map_of_sort)
qed

lemma member_found:
  assumes "distinct (map fst kvs)" and "map_of kvs k = Some v"
  shows "r_member sort_by (Some (R_Object kvs False)) k = Inr (v, R_Object (sort_by kvs) True)"
  using assms by (simp add: r_member_def checked_def find_key_first)

lemma member_missing:
  assumes "distinct (map fst kvs)" and "map_of kvs k = None"
  shows "r_member sort_by (Some (R_Object kvs False)) k = Inl (runtime_error ''cannot find key'')"
  using assms by (simp add: r_member_def checked_def find_key_first)

lemma member_again:
  assumes "distinct (map fst kvs)"
  shows "r_member sort_by (Some (R_Object (sort_by kvs) True)) k =
    (case map_of kvs k of
       Some v \<Rightarrow> Inr (v, R_Object (sort_by kvs) True)
     | None \<Rightarrow> Inl (runtime_error ''cannot find key''))"
proof -
  have "distinct (map fst (sort_by kvs))"
    using assms same_members by (metis mset_map mset_eq_imp_distinct_iff)
  from find_key_sorted [OF sorted_members this] show ?thesis
    using assms by (simp add: r_member_def checked_def map_of_sort split: option.splits)
qed

end

text \<open>\<^verbatim>\<open>std::sort\<close> of a short range is an insertion sort.\<close>

fun insert_member :: "string \<times> rvalue \<Rightarrow> members \<Rightarrow> members" where
  "insert_member x [] = [x]"
| "insert_member x (y # ys) = (if key_less (fst y) (fst x) then y # insert_member x ys else x # y # ys)"

definition insertion_sort :: "members \<Rightarrow> members" where
  "insertion_sort kvs = foldr insert_member kvs []"

lemma mset_insert_member [simp]: "mset (insert_member x ys) = add_mset x (mset ys)"
  by (induction ys) auto

lemma set_insert_member [simp]: "set (insert_member x ys) = insert x (set ys)"
  by (metis mset_insert_member set_mset_add_mset_insert set_mset_mset)

lemma sorted_insert_member: "sorted_keys ys \<Longrightarrow> sorted_keys (insert_member x ys)"
proof (induction ys)
  case (Cons y ys)
  show ?case
  proof (cases "key_less (fst y) (fst x)")
    case True
    then show ?thesis using Cons key_less_asym by (auto simp: sorted_keys_def)
  next
    case False
    have "\<not> key_less (fst z) (fst x)" if "z \<in> set ys" for z
      using Cons.prems that False key_less_trans key_less_total unfolding sorted_keys_def sorted_wrt.simps by metis
    then show ?thesis using Cons.prems False by (simp add: sorted_keys_def)
  qed
qed (simp add: sorted_keys_def)

interpretation insertion: sorts_members insertion_sort
proof
  fix kvs :: members
  show "mset (insertion_sort kvs) = mset kvs" by (induction kvs) (simp_all add: insertion_sort_def)
  show "sorted_keys (insertion_sort kvs)"
    by (induction kvs) (simp_all add: insertion_sort_def sorted_insert_member, simp add: sorted_keys_def)
qed

end
