(* ===== verification/Json_Write.thy ===== *)
theory Json_Write
  imports Json_Value
begin

text \<open>
  \<^verbatim>\<open>crow::json::wvalue\<close> (lib/crowapi/crow_all.h): the value that an application builds and \<open>dump\<close> writes as text. The
  value keeps a field for each kind of content, of which its type names the one in use; the union
  of its numbers is the 64 bits of it. A list or an object is behind a pointer that a move leaves null.
  An object is the elements in the order in which \<^verbatim>\<open>std::unordered_map\<close> iterates over them; where
  it puts a new one is the parameter \<open>place\<close>.
\<close>

section \<open>Values that are written\<close>

datatype wvalue =
  Wvalue (w_type: type) (w_nt: num_type) (w_num: "64 word") (w_s: string)
    (w_l: "wvalue list option") (w_o: "(string \<times> wvalue) list option") (w_f: "(string \<Rightarrow> string) option")

type_synonym object = "(string \<times> wvalue) list"

subsection \<open>Constructors\<close>

definition wvalue_default :: wvalue where
  "wvalue_default = Wvalue Null Num_null 0 [] None None None"

definition wvalue_bool :: "bool \<Rightarrow> wvalue" where
  "wvalue_bool b = Wvalue (if b then JTrue else JFalse) Num_null 0 [] None None None"

definition wvalue_unsigned :: "64 word \<Rightarrow> wvalue" where
  "wvalue_unsigned n = Wvalue Number Unsigned_integer n [] None None None"

definition wvalue_signed :: "64 word \<Rightarrow> wvalue" where
  "wvalue_signed n = Wvalue Number Signed_integer n [] None None None"

definition wvalue_double :: "64 word \<Rightarrow> wvalue" where
  "wvalue_double n = Wvalue Number Floating_point n [] None None None"

definition wvalue_string :: "string \<Rightarrow> wvalue" where
  "wvalue_string s = Wvalue JString Num_null 0 s None None None"

definition wvalue_object :: "object \<Rightarrow> wvalue" where
  "wvalue_object m = Wvalue Object Num_null 0 [] None (Some m) None"

text \<open>The copy keeps the content that the type names; a list or object that was moved from has none to copy.\<close>

fun wvalue_copy :: "wvalue \<Rightarrow> wvalue result"
  and copy_list :: "wvalue list \<Rightarrow> wvalue list result"
  and copy_object :: "object \<Rightarrow> object result"
where
  "wvalue_copy (Wvalue t nt num s l m f) =
     (case t of
        Null \<Rightarrow> Inr (Wvalue t Num_null 0 [] None None None)
      | JFalse \<Rightarrow> Inr (Wvalue t Num_null 0 [] None None None)
      | JTrue \<Rightarrow> Inr (Wvalue t Num_null 0 [] None None None)
      | Number \<Rightarrow> Inr (Wvalue t nt num [] None None None)
      | JString \<Rightarrow> Inr (Wvalue t Num_null 0 s None None None)
      | JList \<Rightarrow>
          (case l of
             None \<Rightarrow> Inl Null_dereference
           | Some vs \<Rightarrow> map_sum id (\<lambda>ws. Wvalue t Num_null 0 [] (Some ws) None None) (copy_list vs))
      | Object \<Rightarrow>
          (case m of
             None \<Rightarrow> Inl Null_dereference
           | Some kvs \<Rightarrow> map_sum id (\<lambda>kws. Wvalue t Num_null 0 [] None (Some kws) None) (copy_object kvs))
      | Function \<Rightarrow> Inr (Wvalue t Num_null 0 [] None None f))"
| "copy_list [] = Inr []"
| "copy_list (v # vs) =
     (case wvalue_copy v of Inl e \<Rightarrow> Inl e | Inr w \<Rightarrow> map_sum id (\<lambda>ws. w # ws) (copy_list vs))"
| "copy_object [] = Inr []"
| "copy_object ((k, v) # kvs) =
     (case wvalue_copy v of Inl e \<Rightarrow> Inl e | Inr w \<Rightarrow> map_sum id (\<lambda>kws. (k, w) # kws) (copy_object kvs))"

definition wvalue_list :: "wvalue list \<Rightarrow> wvalue result" where
  "wvalue_list r = map_sum id (\<lambda>ws. Wvalue JList Num_null 0 [] (Some ws) None None) (copy_list r)"

text \<open>
  The move leaves the type and the number of the source in place and takes its string, list and
  object; \<open>nt\<close> and \<open>f\<close> are not among the assignments. The results are the target and the source.
\<close>

definition move_assign :: "wvalue \<Rightarrow> wvalue \<Rightarrow> wvalue \<times> wvalue" where
  "move_assign v r =
     (Wvalue (w_type r) (w_nt v) (w_num r) (w_s r) (w_l r) (w_o r) (w_f v),
      Wvalue (w_type r) (w_nt r) (w_num r) [] None None (w_f r))"

definition wvalue_move :: "wvalue \<Rightarrow> wvalue \<times> wvalue" where
  "wvalue_move r = move_assign wvalue_default r"

subsection \<open>Assignments\<close>

definition reset :: "wvalue \<Rightarrow> wvalue" where
  "reset v = Wvalue Null (w_nt v) (w_num v) (w_s v) None None (w_f v)"

definition assign_null :: "wvalue \<Rightarrow> wvalue" where
  "assign_null v = reset v"

definition assign_bool :: "wvalue \<Rightarrow> bool \<Rightarrow> wvalue" where
  "assign_bool v b = Wvalue (if b then JTrue else JFalse) (w_nt v) (w_num v) (w_s v) None None (w_f v)"

definition assign_number :: "wvalue \<Rightarrow> num_type \<Rightarrow> 64 word \<Rightarrow> wvalue" where
  "assign_number v nt n = Wvalue Number nt n (w_s v) None None (w_f v)"

definition assign_double :: "wvalue \<Rightarrow> 64 word \<Rightarrow> wvalue" where
  "assign_double v n = assign_number v Floating_point n"

definition assign_unsigned :: "wvalue \<Rightarrow> 64 word \<Rightarrow> wvalue" where
  "assign_unsigned v n = assign_number v Unsigned_integer n"

definition assign_signed :: "wvalue \<Rightarrow> 64 word \<Rightarrow> wvalue" where
  "assign_signed v n = assign_number v Signed_integer n"

definition assign_string :: "wvalue \<Rightarrow> string \<Rightarrow> wvalue" where
  "assign_string v s = Wvalue JString (w_nt v) (w_num v) s None None (w_f v)"

text \<open>
  Containers: one that is of the type already keeps what else it holds. The elements of a list are
  moved one by one into fresh values.
\<close>

definition as_type :: "type \<Rightarrow> wvalue \<Rightarrow> wvalue" where
  "as_type t v =
     (let u = if w_type v \<noteq> t then reset v else v
      in Wvalue t (w_nt u) (w_num u) (w_s u) (w_l u) (w_o u) (w_f u))"

definition with_list :: "wvalue \<Rightarrow> wvalue list \<Rightarrow> wvalue" where
  "with_list v vs = Wvalue (w_type v) (w_nt v) (w_num v) (w_s v) (Some vs) (w_o v) (w_f v)"

definition with_object :: "wvalue \<Rightarrow> object \<Rightarrow> wvalue" where
  "with_object v m = Wvalue (w_type v) (w_nt v) (w_num v) (w_s v) (w_l v) (Some m) (w_f v)"

definition assign_list :: "wvalue \<Rightarrow> wvalue list \<Rightarrow> wvalue" where
  "assign_list v xs = with_list (as_type JList v) (map (\<lambda>x. fst (move_assign wvalue_default x)) xs)"

definition assign_vector :: "(wvalue \<Rightarrow> 'a \<Rightarrow> wvalue) \<Rightarrow> wvalue \<Rightarrow> 'a list \<Rightarrow> wvalue" where
  "assign_vector asg v xs = with_list (as_type JList v) (map (asg wvalue_default) xs)"

text \<open>The elements arrive as the container holds them, copied or taken over.\<close>

definition assign_object :: "wvalue \<Rightarrow> object \<Rightarrow> wvalue result" where
  "assign_object v m =
     (if w_type v = Object \<and> w_o v = None then Inl Null_dereference
      else Inr (with_object (as_type Object v) m))"

definition assign_function :: "wvalue \<Rightarrow> (string \<Rightarrow> string) \<Rightarrow> wvalue" where
  "assign_function v func = Wvalue Function (w_nt v) (w_num v) (w_s v) None None (Some func)"

subsection \<open>Elements\<close>

text \<open>
  \<open>operator[]\<close> returns a reference: \<open>g\<close> is what the caller does to the element. An index of
  \<^verbatim>\<open>UINT_MAX\<close> makes \<^verbatim>\<open>index + 1\<close> zero, so that the list does not grow.
\<close>

text \<open>\<^verbatim>\<open>std::vector::resize\<close>; the elements of a vector that grows keep their content.\<close>

definition resized :: "nat \<Rightarrow> wvalue list \<Rightarrow> wvalue list" where
  "resized n vs = take n vs @ replicate (n - length vs) wvalue_default"

definition at_index :: "wvalue \<Rightarrow> 32 word \<Rightarrow> (wvalue \<Rightarrow> wvalue) \<Rightarrow> wvalue result" where
  "at_index v i g =
     (let u = as_type JList v;
          vs = (case w_l u of None \<Rightarrow> [] | Some vs \<Rightarrow> vs);
          ws = (if length vs < unat (i + 1) then resized (unat (i + 1)) vs else vs)
      in if length ws \<le> unat i then Inl Out_of_bounds_write
         else Inr (with_list u (ws[unat i := g (ws ! unat i)])))"

definition at_key :: "(string \<Rightarrow> wvalue \<Rightarrow> object \<Rightarrow> object) \<Rightarrow> wvalue \<Rightarrow> string \<Rightarrow> (wvalue \<Rightarrow> wvalue) \<Rightarrow> wvalue" where
  "at_key place v k g =
     (let u = as_type Object v;
          m = (case w_o u of None \<Rightarrow> [] | Some m \<Rightarrow> m);
          m' = (if map_of m k = None then place k wvalue_default m else m)
      in with_object u (map (\<lambda>(k', x). (k', if k' = k then g x else x)) m'))"

definition count_key :: "wvalue \<Rightarrow> string \<Rightarrow> nat" where
  "count_key v k =
     (if w_type v \<noteq> Object then 0
      else case w_o v of None \<Rightarrow> 0 | Some m \<Rightarrow> if map_of m k = None then 0 else 1)"

definition w_keys :: "wvalue \<Rightarrow> string list result" where
  "w_keys v =
     (if w_type v \<noteq> Object then Inr []
      else case w_o v of None \<Rightarrow> Inl Null_dereference | Some m \<Rightarrow> Inr (map fst m))"

definition execute :: "wvalue \<Rightarrow> string \<Rightarrow> string result" where
  "execute v txt =
     (if w_type v \<noteq> Function then Inr []
      else case w_f v of None \<Rightarrow> Inl (Throw Bad_function_call) | Some f \<Rightarrow> Inr (f txt))"

definition w_size :: "wvalue \<Rightarrow> nat result" where
  "w_size v =
     (if w_type v \<noteq> JList then Inr 1
      else case w_l v of None \<Rightarrow> Inl Null_dereference | Some vs \<Rightarrow> Inr (length vs))"

section \<open>Numbers with a point\<close>

text \<open>
  A \<^verbatim>\<open>double\<close> by its bits: sign, eleven bits of exponent, fifty-two of mantissa. \<open>printf_f\<close> is
  \<^verbatim>\<open>sprintf("%f")\<close>: six decimals of the exact value, rounded to the nearest, ties to the even one.
\<close>

definition d_negative :: "64 word \<Rightarrow> bool" where
  "d_negative d \<longleftrightarrow> 2 ^ 63 \<le> uint d"

definition d_exponent :: "64 word \<Rightarrow> nat" where
  "d_exponent d = nat (uint d div 2 ^ 52 mod 2 ^ 11)"

definition d_mantissa :: "64 word \<Rightarrow> int" where
  "d_mantissa d = uint d mod 2 ^ 52"

definition isnan :: "64 word \<Rightarrow> bool" where
  "isnan d \<longleftrightarrow> d_exponent d = 2047 \<and> d_mantissa d \<noteq> 0"

definition isinf :: "64 word \<Rightarrow> bool" where
  "isinf d \<longleftrightarrow> d_exponent d = 2047 \<and> d_mantissa d = 0"

definition round_half_even :: "int \<Rightarrow> int \<Rightarrow> int" where
  "round_half_even n m =
     (let q = n div m; r = n mod m in if m < 2 * r \<or> 2 * r = m \<and> odd q then q + 1 else q)"

text \<open>The absolute value in millionths: the significand is an integer with the weight \<open>2\<close> to the exponent less 1075.\<close>

definition d_millionths :: "64 word \<Rightarrow> int" where
  "d_millionths d =
     (let ex = (if d_exponent d = 0 then 1 else d_exponent d);
          m = (if d_exponent d = 0 then d_mantissa d else d_mantissa d + 2 ^ 52)
      in if 1075 \<le> ex then m * 2 ^ (ex - 1075) * 1000000
         else round_half_even (m * 1000000) (2 ^ (1075 - ex)))"

definition printf_f :: "64 word \<Rightarrow> string" where
  "printf_f d =
     (let n = d_millionths d
      in (if d_negative d then ''-'' else []) @ to_string (n div 1000000) @ ''.'' @
         setw_setfill 6 (CHR ''0'') (to_string (n mod 1000000)))"

text \<open>The scan over the text that finds where its trailing zeros begin; the first decimal is never one of them.\<close>

datatype f_state = FStart | FDecp | FZero

fun zeros_from :: "f_state \<Rightarrow> nat \<Rightarrow> nat option \<Rightarrow> string \<Rightarrow> nat option" where
  "zeros_from st p z [] = z"
| "zeros_from FStart p z (ch # cs) =
     (if ch = CHR ''.''
      then (if peek cs = CHR ''0'' then zeros_from FDecp (p + 2) z (tl cs) else zeros_from FDecp (p + 1) z cs)
      else zeros_from FStart (p + 1) z cs)"
| "zeros_from FDecp p z (ch # cs) =
     (if ch = CHR ''0'' then zeros_from FZero (p + 1) (Some p) cs else zeros_from FDecp (p + 1) z cs)"
| "zeros_from FZero p z (ch # cs) =
     (if ch \<noteq> CHR ''0'' then zeros_from FDecp (p + 1) None cs else zeros_from FZero (p + 1) z cs)"

definition cut_zeros :: "string \<Rightarrow> string" where
  "cut_zeros t = (case zeros_from FStart 0 None t of None \<Rightarrow> t | Some z \<Rightarrow> take z t)"

text \<open>The text goes through a buffer of 128 characters.\<close>

definition dump_double :: "64 word \<Rightarrow> string result" where
  "dump_double d =
     (if isnan d \<or> isinf d then Inr ''null''
      else if 128 \<le> length (printf_f d) then Inl Out_of_bounds_write
      else Inr (cut_zeros (printf_f d)))"

section \<open>Text\<close>

definition dump_number :: "num_type \<Rightarrow> 64 word \<Rightarrow> string result" where
  "dump_number nt n =
     (if nt = Floating_point then dump_double n
      else if nt = Signed_integer then Inr (to_string (sint n))
      else Inr (to_string (uint n)))"

fun dump_internal :: "wvalue \<Rightarrow> string result"
  and dump_items :: "bool \<Rightarrow> wvalue list \<Rightarrow> string result"
  and dump_pairs :: "bool \<Rightarrow> object \<Rightarrow> string result"
where
  "dump_internal (Wvalue t nt num s l m f) =
     (case t of
        Null \<Rightarrow> Inr ''null''
      | JFalse \<Rightarrow> Inr ''false''
      | JTrue \<Rightarrow> Inr ''true''
      | Number \<Rightarrow> dump_number nt num
      | JString \<Rightarrow> Inr (dump_string s)
      | JList \<Rightarrow>
          map_sum id (\<lambda>out. CHR ''['' # out @ '']'')
            (case l of None \<Rightarrow> Inr [] | Some vs \<Rightarrow> dump_items True vs)
      | Object \<Rightarrow>
          map_sum id (\<lambda>out. CHR ''{'' # out @ ''}'')
            (case m of None \<Rightarrow> Inr [] | Some kvs \<Rightarrow> dump_pairs True kvs)
      | Function \<Rightarrow> Inr ''custom function'')"
| "dump_items first [] = Inr []"
| "dump_items first (v # vs) =
     (case dump_internal v of
        Inl e \<Rightarrow> Inl e
      | Inr out \<Rightarrow> map_sum id (\<lambda>rest. (if first then [] else '','') @ out @ rest) (dump_items False vs))"
| "dump_pairs first [] = Inr []"
| "dump_pairs first ((k, v) # kvs) =
     (case dump_internal v of
        Inl e \<Rightarrow> Inl e
      | Inr out \<Rightarrow>
          map_sum id (\<lambda>rest. (if first then [] else '','') @ dump_string k @ '':'' @ out @ rest) (dump_pairs False kvs))"

definition dump :: "wvalue \<Rightarrow> string result" where
  "dump v = dump_internal v"

text \<open>What \<open>dump\<close> reserves for the text.\<close>

fun estimate_length :: "wvalue \<Rightarrow> nat"
  and estimate_items :: "wvalue list \<Rightarrow> nat"
  and estimate_pairs :: "object \<Rightarrow> nat"
where
  "estimate_length (Wvalue t nt num s l m f) =
     (case t of
        Null \<Rightarrow> 4
      | JFalse \<Rightarrow> 5
      | JTrue \<Rightarrow> 4
      | Number \<Rightarrow> 30
      | JString \<Rightarrow> 2 + length s + length s div 2
      | JList \<Rightarrow> (case l of None \<Rightarrow> 0 | Some vs \<Rightarrow> estimate_items vs) + 2
      | Object \<Rightarrow> (case m of None \<Rightarrow> 0 | Some kvs \<Rightarrow> estimate_pairs kvs) + 2
      | Function \<Rightarrow> 0)"
| "estimate_items [] = 0"
| "estimate_items (v # vs) = 1 + estimate_length v + estimate_items vs"
| "estimate_pairs [] = 0"
| "estimate_pairs ((k, v) # kvs) = 2 + (2 + length k + length k div 2) + estimate_length v + estimate_pairs kvs"

section \<open>From values that were read\<close>

text \<open>
  \<^verbatim>\<open>wvalue(const rvalue&)\<close>. The parameters are the casts of a number's text and the place
  of a new key; of two elements with one key the first stays.
\<close>

definition emplace :: "(string \<Rightarrow> wvalue \<Rightarrow> object \<Rightarrow> object) \<Rightarrow> object \<Rightarrow> string \<Rightarrow> wvalue \<Rightarrow> object" where
  "emplace place m k v = (if map_of m k = None then place k v m else m)"

definition cast_number :: "(num_type \<Rightarrow> string \<Rightarrow> 64 word option) \<Rightarrow> string \<Rightarrow> num_type \<Rightarrow> wvalue result" where
  "cast_number cast t nt =
     (case cast nt t of None \<Rightarrow> Inl (Throw Bad_cast) | Some n \<Rightarrow> Inr (Wvalue Number nt n [] None None None))"

fun wvalue_of :: "(num_type \<Rightarrow> string \<Rightarrow> 64 word option) \<Rightarrow> (string \<Rightarrow> wvalue \<Rightarrow> object \<Rightarrow> object) \<Rightarrow> rvalue \<Rightarrow> wvalue result"
  and wvalues_of :: "(num_type \<Rightarrow> string \<Rightarrow> 64 word option) \<Rightarrow> (string \<Rightarrow> wvalue \<Rightarrow> object \<Rightarrow> object) \<Rightarrow> rvalue list \<Rightarrow> wvalue list result"
  and object_of :: "(num_type \<Rightarrow> string \<Rightarrow> 64 word option) \<Rightarrow> (string \<Rightarrow> wvalue \<Rightarrow> object \<Rightarrow> object) \<Rightarrow> object \<Rightarrow> members \<Rightarrow> object result"
where
  "wvalue_of cast place R_Null = Inr wvalue_default"
| "wvalue_of cast place R_False = Inr (wvalue_bool False)"
| "wvalue_of cast place R_True = Inr (wvalue_bool True)"
| "wvalue_of cast place (R_Number t nt) = cast_number cast t nt"
| "wvalue_of cast place (R_String t e) = Inr (wvalue_string (string_value t e))"
| "wvalue_of cast place (R_List vs) =
     map_sum id (\<lambda>ws. Wvalue JList Num_null 0 [] (Some ws) None None) (wvalues_of cast place vs)"
| "wvalue_of cast place (R_Object kvs c) = map_sum id wvalue_object (object_of cast place [] kvs)"
| "wvalues_of cast place [] = Inr []"
| "wvalues_of cast place (v # vs) =
     (case wvalue_of cast place v of Inl e \<Rightarrow> Inl e | Inr w \<Rightarrow> map_sum id (\<lambda>ws. w # ws) (wvalues_of cast place vs))"
| "object_of cast place m [] = Inr m"
| "object_of cast place m ((k, v) # kvs) =
     (case wvalue_of cast place v of Inl e \<Rightarrow> Inl e | Inr w \<Rightarrow> object_of cast place (emplace place m k w) kvs)"

text \<open>
  \<open>operator<<\<close> of a value that was read; \<open>show_num\<close> is the cast of a number and the printing of it. Keys
  are escaped, strings are not.
\<close>

fun print_rvalue :: "(num_type \<Rightarrow> string \<Rightarrow> string result) \<Rightarrow> rvalue \<Rightarrow> string result"
  and print_items :: "(num_type \<Rightarrow> string \<Rightarrow> string result) \<Rightarrow> bool \<Rightarrow> rvalue list \<Rightarrow> string result"
  and print_members :: "(num_type \<Rightarrow> string \<Rightarrow> string result) \<Rightarrow> bool \<Rightarrow> members \<Rightarrow> string result"
where
  "print_rvalue show_num R_Null = Inr ''null''"
| "print_rvalue show_num R_False = Inr ''false''"
| "print_rvalue show_num R_True = Inr ''true''"
| "print_rvalue show_num (R_Number t nt) =
     (if nt = Num_null then Inl (runtime_error ''Number with num_type Null'') else show_num nt t)"
| "print_rvalue show_num (R_String t e) = Inr (dquote # string_value t e @ [dquote])"
| "print_rvalue show_num (R_List vs) = map_sum id (\<lambda>out. CHR ''['' # out @ '']'') (print_items show_num True vs)"
| "print_rvalue show_num (R_Object kvs c) = map_sum id (\<lambda>out. CHR ''{'' # out @ ''}'') (print_members show_num True kvs)"
| "print_items show_num first [] = Inr []"
| "print_items show_num first (v # vs) =
     (case print_rvalue show_num v of
        Inl e \<Rightarrow> Inl e
      | Inr out \<Rightarrow> map_sum id (\<lambda>rest. (if first then [] else '','') @ out @ rest) (print_items show_num False vs))"
| "print_members show_num first [] = Inr []"
| "print_members show_num first ((k, v) # kvs) =
     (case print_rvalue show_num v of
        Inl e \<Rightarrow> Inl e
      | Inr out \<Rightarrow>
          map_sum id (\<lambda>rest. (if first then [] else '','') @ dquote # escape k @ dquote # '':'' @ out @ rest)
            (print_members show_num False kvs))"

end
