(* ===== verification/Json_Number.thy ===== *)
theory Json_Number
  imports Json_Write
begin

text \<open>
  Numbers of \<^verbatim>\<open>crow::json\<close>: what \<open>dump\<close> prints for a number, \<open>decode_number\<close> takes as one and to its last
  character. The texts are an integer, or an integer, a point and digits; the automaton is
  followed through each of them.
\<close>

section \<open>The automaton on digits\<close>

text \<open>What may follow a value: a character that continues no number.\<close>

definition json_end :: "string \<Rightarrow> bool" where
  "json_end r \<longleftrightarrow> number_table (peek r) = None"

definition prefixed :: "string \<Rightarrow> (string \<times> string) option \<Rightarrow> (string \<times> string) option" where
  "prefixed p = map_option (\<lambda>(t, r). (p @ t, r))"

lemma prefixed_simps [simp]:
  "prefixed p (Some (t, r)) = Some (p @ t, r)" "prefixed p (prefixed q x) = prefixed (p @ q) x" "prefixed [] x = x"
  by (cases x; simp add: prefixed_def split: prod.splits)+

lemma number_loop_Cons:
  "st \<noteq> Invalid \<Longrightarrow> number_table c = Some row \<Longrightarrow>
   number_loop st (c # s) =
     prefixed (c # take (digits_ahead c s) s) (number_loop (number_state (row ! state_index st)) (drop (digits_ahead c s) s))"
  by (subst number_loop.simps) (simp add: prefixed_def)

lemma number_loop_end: "number_ends st \<Longrightarrow> json_end r \<Longrightarrow> number_loop st r = Some ([], r)"
  by (subst number_loop.simps) (auto simp: number_ends_def json_end_def peek_def split: list.splits)

lemma isdigit_cases: "isdigit c \<longleftrightarrow> c = CHR ''0'' \<or> nonzero_digit c"
proof -
  have "c = CHR ''0''" if "byte c = 48"
  proof -
    have "c = char_of (byte c)" by simp
    then show ?thesis using that by (simp add: char_of_def bit_0)
  qed
  moreover have "byte c = 48 \<or> 49 \<le> byte c" if "48 \<le> byte c" using that by linarith
  ultimately show ?thesis by (auto simp: isdigit_def nonzero_digit_def)
qed

lemma number_table_digit:
  "number_table (CHR ''0'') = Some [2, 2, 7, 3, 4, 6, 6]"
  "nonzero_digit c \<Longrightarrow> number_table c = Some [3, 3, 7, 3, 4, 6, 6]"
  by (auto simp: number_table_def nonzero_digit_def)

lemma digits_ahead_run:
  assumes "nonzero_digit c" and "\<And>x. x \<in> set ds \<Longrightarrow> isdigit x" and "\<not> isdigit (peek r)"
  shows "digits_ahead c (ds @ r) = length ds"
proof -
  have "takeWhile isdigit r = []" using assms(3) by (cases r) (auto simp: peek_def)
  then show ?thesis using assms(1,2) by (simp add: digits_ahead_def takeWhile_eq_all)
qed

lemma digits_ahead_0 [simp]: "digits_ahead (CHR ''0'') s = 0"
  by (simp add: digits_ahead_def nonzero_digit_def)

text \<open>In the states that loop on digits, a run of digits is taken.\<close>

lemma number_loop_run:
  assumes "st = Digits \<or> st = DigitsAfterPoints" and "\<not> isdigit (peek r)"
  shows "(\<And>x. x \<in> set ds \<Longrightarrow> isdigit x) \<Longrightarrow> number_loop st (ds @ r) = prefixed ds (number_loop st r)"
proof (induction ds)
  case (Cons c ds)
  have st: "st \<noteq> Invalid"
    and 0: "number_state ([2, 2, 7, 3, 4, 6, 6] ! state_index st) = st"
    and 1: "number_state ([3, 3, 7, 3, 4, 6, 6] ! state_index st) = st"
    using assms(1) by (auto simp: number_state_def)
  show ?case
  proof (cases "c = CHR ''0''")
    case True
    then show ?thesis
      using Cons number_loop_Cons [OF st number_table_digit(1), of "ds @ r"] 0 by simp
  next
    case False
    then have c: "nonzero_digit c" using Cons.prems isdigit_cases by auto
    have "digits_ahead c (ds @ r) = length ds"
      using Cons.prems assms(2) by (intro digits_ahead_run [OF c]) auto
    then show ?thesis
      using number_loop_Cons [OF st number_table_digit(2) [OF c], of "ds @ r"] 1 by simp
  qed
qed simp

lemma show_nat_head:
  assumes "0 < n"
  obtains c ds where "show_nat n = c # ds" and "nonzero_digit c" and "\<And>x. x \<in> set ds \<Longrightarrow> isdigit x"
  using assms
proof (induction n arbitrary: thesis rule: show_nat.induct)
  case (1 n)
  show ?case
  proof (cases "n < 10")
    case True
    then show ?thesis
      using 1(3) by (intro 1(2) [of "digit_char n" "[]"]) (auto simp: show_nat.simps [of n] nonzero_digit_def byte_simps)
  next
    case False
    then obtain c ds where "show_nat (n div 10) = c # ds" "nonzero_digit c" "\<And>x. x \<in> set ds \<Longrightarrow> isdigit x"
      using 1(1) [OF False] by (metis div_greater_zero_iff not_less zero_less_numeral)
    then show ?thesis
      using False by (intro 1(2) [of c "ds @ [digit_char (n mod 10)]"]) (auto simp: show_nat.simps [of n] byte_simps)
  qed
qed

text \<open>An integer without sign, from the two states that take its first digit.\<close>

lemma number_loop_nat:
  assumes st: "st = Minus \<or> st = AfterMinus" and r: "\<not> isdigit (peek r)"
  shows "number_loop st (show_nat n @ r) = prefixed (show_nat n) (number_loop (if n = 0 then ZeroFirst else Digits) r)"
proof (cases "n = 0")
  case True
  have "number_loop st (CHR ''0'' # r) = prefixed ''0'' (number_loop ZeroFirst r)"
    using st number_loop_Cons [of st "CHR ''0''" _ r] number_table_digit(1) by (auto simp: number_state_def)
  moreover have "show_nat 0 = ''0''" by (simp add: show_nat.simps digit_char_def char_of_def bit_0)
  ultimately show ?thesis using True by simp
next
  case False
  then obtain c ds where n: "show_nat n = c # ds" and c: "nonzero_digit c" and ds: "\<And>x. x \<in> set ds \<Longrightarrow> isdigit x"
    using show_nat_head [of n] by blast
  have "digits_ahead c (ds @ r) = length ds" using digits_ahead_run [OF c ds r] by simp
  then have "number_loop st ((c # ds) @ r) = prefixed (c # ds) (number_loop Digits r)"
    using st number_loop_Cons [OF _ number_table_digit(2) [OF c], of st "ds @ r"] by (auto simp: number_state_def)
  then show ?thesis using False n by simp
qed

lemma number_loop_minus: "number_loop Minus (CHR ''-'' # s) = prefixed ''-'' (number_loop AfterMinus s)"
  using number_loop_Cons [of Minus "CHR ''-''" _ s]
  by (simp add: number_table_def nonzero_digit_def digits_ahead_def number_state_def)

lemma number_loop_point:
  "st = ZeroFirst \<or> st = Digits \<Longrightarrow> number_loop st (CHR ''.'' # s) = prefixed ''.'' (number_loop DigitsAfterPoints s)"
  using number_loop_Cons [of st "CHR ''.''" _ s]
  by (auto simp: number_table_def nonzero_digit_def digits_ahead_def number_state_def)

lemma json_end_digit: "json_end r \<Longrightarrow> \<not> isdigit (peek r)"
  by (auto simp: json_end_def isdigit_cases number_table_digit)

section \<open>The texts of numbers\<close>

theorem number_loop_integer:
  assumes "json_end r"
  shows "number_loop Minus (to_string i @ r) = Some (to_string i, r)"
  using assms number_loop_nat [OF _ json_end_digit [OF assms]]
  by (auto simp: to_string_def number_loop_minus number_loop_end number_ends_def)

definition decimal :: "bool \<Rightarrow> nat \<Rightarrow> string \<Rightarrow> string" where
  "decimal neg n ds = (if neg then ''-'' else []) @ show_nat n @ CHR ''.'' # ds"

theorem number_loop_decimal:
  assumes "json_end r" and "\<And>x. x \<in> set ds \<Longrightarrow> isdigit x"
  shows "number_loop Minus (decimal neg n ds @ r) = Some (decimal neg n ds, r)"
proof -
  have "\<not> isdigit (peek (CHR ''.'' # ds @ r))" by (simp add: peek_def isdigit_def)
  note nat = number_loop_nat [OF _ this]
  have "number_loop DigitsAfterPoints (ds @ r) = Some (ds, r)"
    using number_loop_run [OF _ json_end_digit [OF assms(1)] assms(2), of DigitsAfterPoints] number_loop_end [OF _ assms(1)]
    by (simp add: number_ends_def)
  then show ?thesis
    by (auto simp: decimal_def number_loop_minus nat number_loop_point)
qed

section \<open>What dump prints\<close>

lemma zeros_from_position:
  "st \<noteq> FStart \<Longrightarrow> zeros_from st p z cs = Some i \<Longrightarrow> z = Some i \<or> p \<le> i"
  by (induction st p z cs rule: zeros_from.induct) (auto split: if_splits)

lemma zeros_from_start:
  "CHR ''.'' \<notin> set xs \<Longrightarrow> zeros_from FStart p None (xs @ CHR ''.'' # cs) = Some i \<Longrightarrow> p + length xs < i"
proof (induction xs arbitrary: p)
  case Nil
  then show ?case using zeros_from_position [of FDecp _ None _ i] by (auto split: if_splits dest: zeros_from_position [rotated])
next
  case (Cons x xs)
  then show ?case by fastforce
qed

lemma cut_zeros_decimal:
  obtains k where "cut_zeros (decimal neg n ds) = decimal neg n (take k ds)"
proof -
  define xs where "xs = (if neg then ''-'' else []) @ show_nat n"
  have dec: "decimal neg n es = xs @ CHR ''.'' # es" for es by (simp add: decimal_def xs_def)
  have dot: "CHR ''.'' \<notin> set xs" using show_nat_digits [of "CHR ''.''" n] by (auto simp: xs_def isdigit_def)
  show ?thesis
  proof (cases "zeros_from FStart 0 None (decimal neg n ds)")
    case None
    then show ?thesis using that [of "length ds"] by (simp add: cut_zeros_def)
  next
    case (Some i)
    then have "length xs < i" using zeros_from_start [OF dot, of 0 ds i] by (simp add: dec)
    then have "take i (decimal neg n ds) = decimal neg n (take (i - length xs - 1) ds)"
      by (cases "i - length xs") (simp_all add: dec)
    then show ?thesis using Some that by (simp add: cut_zeros_def)
  qed
qed

lemma d_millionths_nonneg: "0 \<le> d_millionths d"
proof -
  have "0 \<le> d_mantissa d" by (simp add: d_mantissa_def)
  moreover have "0 \<le> round_half_even n m" if "0 \<le> n" "0 < m" for n m
    using that by (simp add: round_half_even_def Let_def pos_imp_zdiv_nonneg_iff)
  ultimately show ?thesis by (simp add: d_millionths_def Let_def)
qed

lemma printf_f_decimal:
  obtains n ds where "printf_f d = decimal (d_negative d) n ds" and "\<And>x. x \<in> set ds \<Longrightarrow> isdigit x"
proof
  let ?m = "d_millionths d"
  have "to_string (?m div 1000000) = show_nat (nat (?m div 1000000))"
    using d_millionths_nonneg [of d] by (intro to_string_nonneg) (simp add: pos_imp_zdiv_nonneg_iff)
  moreover have "to_string (?m mod 1000000) = show_nat (nat (?m mod 1000000))"
    by (intro to_string_nonneg) simp
  ultimately show "printf_f d = decimal (d_negative d) (nat (?m div 1000000))
      (setw_setfill 6 (CHR ''0'') (show_nat (nat (?m mod 1000000))))"
    by (simp add: printf_f_def decimal_def Let_def)
  show "isdigit x" if "x \<in> set (setw_setfill 6 (CHR ''0'') (show_nat (nat (?m mod 1000000))))" for x
    using that by (auto simp: setw_setfill_def isdigit_def dest: show_nat_digits)
qed

text \<open>A number that is printed is read to its end and is of the type that its digits show.\<close>

definition read_number :: "num_type \<Rightarrow> 64 word \<Rightarrow> rvalue" where
  "read_number nt n =
     (if nt = Floating_point then
        (if isnan n \<or> isinf n then R_Null else R_Number (cut_zeros (printf_f n)) Floating_point)
      else if nt = Signed_integer
      then R_Number (to_string (sint n)) (if sint n < 0 then Signed_integer else Unsigned_integer)
      else R_Number (to_string (uint n)) Unsigned_integer)"

lemma to_string_num_type: "determine_num_type (to_string i) = (if i < 0 then Signed_integer else Unsigned_integer)"
proof -
  have "c \<notin> set (show_nat n)" if "\<not> isdigit c" for c n using that show_nat_digits by blast
  then show ?thesis by (simp add: determine_num_type_def to_string_def isdigit_def)
qed

lemma decode_printed_integer:
  "json_end r \<Longrightarrow>
   decode_number (to_string i @ r) = Some (R_Number (to_string i) (if i < 0 then Signed_integer else Unsigned_integer), r)"
  by (simp add: decode_number_def number_loop_integer to_string_num_type)

lemma decode_printed_decimal:
  assumes "json_end r"
  shows "decode_number (cut_zeros (printf_f d) @ r) = Some (R_Number (cut_zeros (printf_f d)) Floating_point, r)"
proof -
  obtain n ds where p: "printf_f d = decimal (d_negative d) n ds" and ds: "\<And>x. x \<in> set ds \<Longrightarrow> isdigit x"
    using printf_f_decimal [of d] by metis
  obtain k where c: "cut_zeros (printf_f d) = decimal (d_negative d) n (take k ds)"
    unfolding p by (rule cut_zeros_decimal)
  have "number_loop Minus (cut_zeros (printf_f d) @ r) = Some (cut_zeros (printf_f d), r)"
    unfolding c using assms ds by (intro number_loop_decimal) (auto dest: in_set_takeD)
  moreover have "determine_num_type (cut_zeros (printf_f d)) = Floating_point"
    unfolding c by (simp add: determine_num_type_def decimal_def)
  ultimately show ?thesis by (simp add: decode_number_def)
qed

section \<open>How long the text is\<close>

lemma digits_value_bound: "(\<And>c. c \<in> set ds \<Longrightarrow> isdigit c) \<Longrightarrow> digits_value n ds < (n + 1) * 10 ^ length ds"
proof (induction ds arbitrary: n)
  case (Cons c ds)
  have "digit_value c \<le> 9" using Cons.prems [of c] by (auto simp: isdigit_def digit_value_def)
  have "digits_value (10 * n + digit_value c) ds < (10 * n + digit_value c + 1) * 10 ^ length ds"
    using Cons by simp
  also have "\<dots> \<le> (10 * n + 10) * 10 ^ length ds" using \<open>digit_value c \<le> 9\<close> by (intro mult_right_mono) simp_all
  finally show ?case by (simp add: algebra_simps)
qed simp

lemma show_nat_length_iff: "0 < k \<Longrightarrow> length (show_nat n) \<le> k \<longleftrightarrow> n < 10 ^ k"
proof
  assume "length (show_nat n) \<le> k"
  then have "(10::nat) ^ length (show_nat n) \<le> 10 ^ k" by (simp add: power_increasing)
  moreover have "n < 10 ^ length (show_nat n)"
    using digits_value_bound [of "show_nat n" 0] show_nat_digits by simp
  ultimately show "n < 10 ^ k" by linarith
qed (simp add: show_nat_length)

lemma printf_f_length:
  "length (printf_f d) = (if d_negative d then 1 else 0) + length (show_nat (nat (d_millionths d div 1000000))) + 7"
proof -
  let ?m = "d_millionths d"
  have "to_string (?m div 1000000) = show_nat (nat (?m div 1000000))"
    using d_millionths_nonneg [of d] by (intro to_string_nonneg) (simp add: pos_imp_zdiv_nonneg_iff)
  moreover have "to_string (?m mod 1000000) = show_nat (nat (?m mod 1000000))"
    by (intro to_string_nonneg) simp
  moreover have "length (show_nat (nat (?m mod 1000000))) \<le> 6"
    by (rule show_nat_length) (simp_all add: nat_less_iff)
  ultimately show ?thesis by (simp add: printf_f_def Let_def setw_length)
qed

end
