(* ===== verification/Json_Roundtrip.thy ===== *)
theory Json_Roundtrip
  imports Json_Number
begin

text \<open>
  \<open>load\<close> after \<open>dump\<close>. The meaning of a value that is read and of one that is written is a tree of the
  JSON data model, \<open>json\<close>; what \<open>dump\<close> writes, \<open>load\<close> reads as a value of the same meaning, as long
  as the value holds no function and nests no deeper than the parser's limit.
\<close>

section \<open>The data model\<close>

datatype json =
    Json_null
  | Json_bool bool
  | Json_integer int
  | Json_decimal string
  | Json_string string
  | Json_list "json list"
  | Json_object "(string \<times> json) list"

fun read_meaning :: "rvalue \<Rightarrow> json" where
  "read_meaning R_Null = Json_null"
| "read_meaning R_False = Json_bool False"
| "read_meaning R_True = Json_bool True"
| "read_meaning (R_Number t nt) = (if nt = Floating_point then Json_decimal t else Json_integer (the (strtol t)))"
| "read_meaning (R_String t e) = Json_string (string_value t e)"
| "read_meaning (R_List vs) = Json_list (map read_meaning vs)"
| "read_meaning (R_Object kvs c) = Json_object (map (\<lambda>(k, v). (k, read_meaning v)) kvs)"

definition number_meaning :: "num_type \<Rightarrow> 64 word \<Rightarrow> json" where
  "number_meaning nt n =
     (if nt = Floating_point then (if isnan n \<or> isinf n then Json_null else Json_decimal (cut_zeros (printf_f n)))
      else Json_integer (if nt = Signed_integer then sint n else uint n))"

fun write_meaning :: "wvalue \<Rightarrow> json" where
  "write_meaning (Wvalue t nt num s l m f) =
     (case t of
        Null \<Rightarrow> Json_null
      | JFalse \<Rightarrow> Json_bool False
      | JTrue \<Rightarrow> Json_bool True
      | Number \<Rightarrow> number_meaning nt num
      | JString \<Rightarrow> Json_string s
      | JList \<Rightarrow> Json_list (case l of None \<Rightarrow> [] | Some vs \<Rightarrow> map write_meaning vs)
      | Object \<Rightarrow> Json_object (case m of None \<Rightarrow> [] | Some kvs \<Rightarrow> map (\<lambda>(k, v). (k, write_meaning v)) kvs)
      | Function \<Rightarrow> Json_null)"

fun nesting :: "wvalue \<Rightarrow> nat" where
  "nesting (Wvalue t nt num s l m f) =
     (case t of
        JList \<Rightarrow> Suc (case l of None \<Rightarrow> 0 | Some vs \<Rightarrow> foldr max (map nesting vs) 0)
      | Object \<Rightarrow> Suc (case m of None \<Rightarrow> 0 | Some kvs \<Rightarrow> foldr max (map (\<lambda>(k, v). nesting v) kvs) 0)
      | _ \<Rightarrow> 0)"

fun writable :: "wvalue \<Rightarrow> bool" where
  "writable (Wvalue t nt num s l m f) =
     (case t of
        JList \<Rightarrow> (case l of None \<Rightarrow> True | Some vs \<Rightarrow> list_all writable vs)
      | Object \<Rightarrow> (case m of None \<Rightarrow> True | Some kvs \<Rightarrow> list_all (\<lambda>(k, v). writable v) kvs)
      | Function \<Rightarrow> False
      | _ \<Rightarrow> True)"

text \<open>The value that is read, on the way to its meaning.\<close>

fun read_of :: "wvalue \<Rightarrow> rvalue" where
  "read_of (Wvalue t nt num s l m f) =
     (case t of
        Null \<Rightarrow> R_Null
      | JFalse \<Rightarrow> R_False
      | JTrue \<Rightarrow> R_True
      | Number \<Rightarrow> read_number nt num
      | JString \<Rightarrow> R_String (escape s) (needs_escaping s)
      | JList \<Rightarrow> R_List (case l of None \<Rightarrow> [] | Some vs \<Rightarrow> map read_of vs)
      | Object \<Rightarrow> R_Object (case m of None \<Rightarrow> [] | Some kvs \<Rightarrow> map (\<lambda>(k, v). (k, read_of v)) kvs) False
      | Function \<Rightarrow> R_Null)"

lemma string_value_escape [simp]: "string_value (escape s) (needs_escaping s) = s"
  by (simp add: string_value_def unescaped_escape escape_plain)

lemma read_number_meaning: "read_meaning (read_number nt n) = number_meaning nt n"
  by (simp add: read_number_def number_meaning_def strtol_to_string)

lemma read_of_meaning: "writable v \<Longrightarrow> read_meaning (read_of v) = write_meaning v"
proof (induction v)
  case (Wvalue t nt num s l m f)
  then show ?case
    by (cases t) (auto simp: read_number_meaning list_all_iff split: option.splits)
qed

section \<open>The text of a value\<close>

text \<open>A value's text begins with a character that the parser neither skips nor takes for the end of a container.\<close>

definition json_start :: "string \<Rightarrow> bool" where
  "json_start s \<longleftrightarrow> (\<exists>c cs. s = c # cs \<and> \<not> is_ws c \<and> c \<noteq> CHR '']'' \<and> c \<noteq> CHR ''}'')"

lemma json_start_append: "json_start s \<Longrightarrow> json_start (s @ r)"
  by (auto simp: json_start_def)

lemma json_start_skip: "json_start s \<Longrightarrow> ws_skip s = s"
  by (auto simp: json_start_def ws_skip_def)

lemma json_start_peek: "json_start s \<Longrightarrow> peek s \<noteq> CHR '']'' \<and> peek s \<noteq> CHR ''}''"
  by (auto simp: json_start_def peek_def)

text \<open>The first character of a number.\<close>

definition number_start :: "string \<Rightarrow> bool" where
  "number_start s \<longleftrightarrow> (\<exists>c cs. s = c # cs \<and> (c = CHR ''-'' \<or> isdigit c))"

lemma number_start_nat: "number_start (show_nat n @ r)"
  by (rule show_nat_Cons [of n]) (auto simp: number_start_def)

lemma number_start_integer: "number_start (to_string i)"
  using number_start_nat [of "nat i" "[]"] by (auto simp: to_string_def number_start_def)

lemma number_start_decimal: "number_start (decimal neg n ds)"
  using number_start_nat [of n "CHR ''.'' # ds"] by (auto simp: decimal_def number_start_def)

lemma number_start_printed: "number_start (cut_zeros (printf_f d))"
proof -
  obtain n ds where p: "printf_f d = decimal (d_negative d) n ds" using printf_f_decimal [of d] by metis
  obtain k where "cut_zeros (printf_f d) = decimal (d_negative d) n (take k ds)"
    unfolding p by (rule cut_zeros_decimal)
  then show ?thesis by (simp add: number_start_decimal)
qed

lemma number_start_value: "number_start s \<Longrightarrow> json_start s"
  by (auto simp: number_start_def json_start_def is_ws_def isdigit_def)

lemma decode_value_number: "number_start s \<Longrightarrow> decode_value d (s @ r) = decode_number (s @ r)"
  by (subst decode_value.simps) (auto simp: number_start_def peek_def isdigit_def)

lemma json_start_literal: "json_start ''null''" "json_start ''true''" "json_start ''false''"
  by (simp_all add: json_start_def is_ws_def)

lemma json_start_opening:
  "json_start (CHR ''['' # s)" "json_start (CHR ''{'' # s)" "json_start (dquote # s)"
  by (simp_all add: json_start_def is_ws_def)

lemma dump_number_reads:
  assumes "dump_number nt n = Inr s"
  shows "json_start s" and "json_end r \<Longrightarrow> decode_value d (s @ r) = Some (read_number nt n, r)"
proof -
  consider (null) "s = ''null''" "read_number nt n = R_Null"
    | (integer) i where "s = to_string i"
        "read_number nt n = R_Number s (if i < 0 then Signed_integer else Unsigned_integer)"
    | (decimal) "s = cut_zeros (printf_f n)" "read_number nt n = R_Number s Floating_point"
    using assms by (auto simp: dump_number_def dump_double_def read_number_def split: if_splits)
  note cs = this
  show "json_start s"
    using cs
    by cases (simp_all add: number_start_value number_start_integer number_start_printed json_start_literal)
  show "decode_value d (s @ r) = Some (read_number nt n, r)" if "json_end r"
    using cs
  proof cases
    case null
    then show ?thesis by (simp add: decode_value.simps peek_def literal_def)
  next
    case (integer i)
    then show ?thesis
      using that by (simp add: decode_value_number number_start_integer decode_printed_integer)
  next
    case decimal
    then show ?thesis
      using that by (simp add: decode_value_number number_start_printed decode_printed_decimal)
  qed
qed

lemma dump_value_start: "dump_internal v = Inr s \<Longrightarrow> writable v \<Longrightarrow> json_start s"
  by (cases v; cases "w_type v")
     (auto simp: json_start_literal json_start_opening dump_string_def dump_number_reads(1) map_sum_def split: sum.splits)

lemma decode_dumped_string: "decode_string (dump_string s @ r) = Some (R_String (escape s) (needs_escaping s), r)"
  by (simp add: decode_string_def dump_string_def peek_def string_body_escape)

lemma ws_skip_Cons [simp]: "\<not> is_ws c \<Longrightarrow> ws_skip (c # s) = c # s"
  by (simp add: ws_skip_def)

lemma not_ws [simp]: "\<not> is_ws (CHR '','')" "\<not> is_ws (CHR '']'')" "\<not> is_ws (CHR ''}'')" "\<not> is_ws (CHR '':'')"
  by (simp_all add: is_ws_def)

lemma peek_Cons [simp]: "peek (c # s) = c"
  by (simp add: peek_def)

lemma decode_dumped_key:
  "json_start s \<Longrightarrow> decode_member_key (dump_string k @ CHR '':'' # s) = Some (k, s)"
  by (simp add: decode_member_key_def decode_dumped_string json_start_skip)

section \<open>Containers\<close>

definition reads_back :: "wvalue \<Rightarrow> bool" where
  "reads_back v \<longleftrightarrow>
     (\<forall>s d r. dump_internal v = Inr s \<longrightarrow> writable v \<longrightarrow> d + 2 * nesting v \<le> max_depth + 1 \<longrightarrow> json_end r \<longrightarrow>
        decode_value d (s @ r) = Some (read_of v, r))"

lemma json_end_delim [simp]:
  "json_end (CHR '','' # r)" "json_end (CHR '']'' # r)" "json_end (CHR ''}'' # r)"
  by (simp_all add: json_end_def number_table_def nonzero_digit_def)

lemma dump_items_tail: "dump_items False vs = Inr t \<Longrightarrow> json_end (t @ CHR '']'' # r)"
  by (cases vs) (auto split: sum.splits simp: map_sum_def)

lemma dump_pairs_tail: "dump_pairs False kvs = Inr t \<Longrightarrow> json_end (t @ CHR ''}'' # r)"
  by (cases kvs) (auto split: sum.splits simp: map_sum_def)

lemma list_loop_items:
  assumes "\<And>v. v \<in> set vs \<Longrightarrow> reads_back v \<and> writable v \<and> d + 1 + 2 * nesting v \<le> max_depth + 1"
    and "dump_items False vs = Inr t"
    and "decode_value (d + 1) (s0 @ t @ CHR '']'' # r) = Some (v0, t @ CHR '']'' # r)"
  shows "list_loop d (s0 @ t @ CHR '']'' # r) = Some (v0 # map read_of vs, r)"
  using assms
proof (induction vs arbitrary: s0 v0 t)
  case Nil
  then show ?case by (simp add: list_loop.simps [of d])
next
  case (Cons v vs)
  then obtain s t' where s: "dump_internal v = Inr s" and t': "dump_items False vs = Inr t'" and t: "t = CHR '','' # s @ t'"
    by (auto split: sum.splits simp: map_sum_def)
  have v: "reads_back v" "writable v" "d + 1 + 2 * nesting v \<le> max_depth + 1" using Cons.prems(1) by auto
  have "decode_value (d + 1) (s @ t' @ CHR '']'' # r) = Some (read_of v, t' @ CHR '']'' # r)"
    using v s dump_items_tail [OF t'] unfolding reads_back_def by blast
  from Cons.IH [OF _ t' this] Cons.prems(1)
  have "list_loop d (s @ t' @ CHR '']'' # r) = Some (read_of v # map read_of vs, r)" by simp
  moreover have "ws_skip (s @ t' @ CHR '']'' # r) = s @ t' @ CHR '']'' # r"
    using json_start_skip json_start_append dump_value_start [OF s v(2)] by blast
  ultimately show ?case
    using Cons.prems(3) by (subst list_loop.simps) (simp add: t)
qed

lemma object_loop_pairs:
  assumes "\<And>k v. (k, v) \<in> set kvs \<Longrightarrow> reads_back v \<and> writable v \<and> d + 1 + 2 * nesting v \<le> max_depth + 1"
    and "dump_pairs False kvs = Inr t"
    and "decode_value (d + 1) (s0 @ t @ CHR ''}'' # r) = Some (v0, t @ CHR ''}'' # r)" and "json_start s0"
  shows "object_loop d (dump_string k0 @ CHR '':'' # s0 @ t @ CHR ''}'' # r)
     = Some ((k0, v0) # map (\<lambda>(k, v). (k, read_of v)) kvs, r)"
  using assms
proof (induction kvs arbitrary: k0 s0 v0 t)
  case Nil
  then show ?case
    by (subst object_loop.simps) (simp add: decode_dumped_key json_start_append)
next
  case (Cons kv kvs)
  obtain k v where kv: "kv = (k, v)" by (cases kv)
  obtain s t' where s: "dump_internal v = Inr s" and t': "dump_pairs False kvs = Inr t'"
    and t: "t = CHR '','' # dump_string k @ CHR '':'' # s @ t'"
    using Cons.prems(2) by (auto split: sum.splits simp: map_sum_def kv)
  have v: "reads_back v" "writable v" "d + 1 + 2 * nesting v \<le> max_depth + 1" using Cons.prems(1) by (auto simp: kv)
  have "decode_value (d + 1) (s @ t' @ CHR ''}'' # r) = Some (read_of v, t' @ CHR ''}'' # r)"
    using v s dump_pairs_tail [OF t'] unfolding reads_back_def by blast
  from Cons.IH [OF _ t' this dump_value_start [OF s v(2)], of k] Cons.prems(1)
  have "object_loop d (dump_string k @ CHR '':'' # s @ t' @ CHR ''}'' # r)
      = Some ((k, read_of v) # map (\<lambda>(k, v). (k, read_of v)) kvs, r)" by (meson list.set_intros(2))
  moreover have "ws_skip (dump_string k @ u) = dump_string k @ u" for u by (simp add: dump_string_def is_ws_def)
  ultimately show ?case
    using Cons.prems(3,4) by (subst object_loop.simps) (simp add: t kv decode_dumped_key json_start_append)
qed

section \<open>Reading back\<close>

lemma foldr_max_le: "x \<in> set xs \<Longrightarrow> x \<le> foldr max xs (0::nat)"
  by (induction xs) (auto simp: max_def)

lemma decode_dumped_list:
  assumes "\<And>v. v \<in> set vs \<Longrightarrow> reads_back v \<and> writable v \<and> d + 2 + 2 * nesting v \<le> max_depth + 1"
    and "dump_items True vs = Inr t" and "d < max_depth"
  shows "decode_value d (CHR ''['' # t @ CHR '']'' # r) = Some (R_List (map read_of vs), r)"
proof (cases vs)
  case Nil
  then show ?thesis using assms(2,3) by (simp add: decode_value.simps decode_list.simps)
next
  case (Cons v ws)
  then obtain s t' where s: "dump_internal v = Inr s" and t': "dump_items False ws = Inr t'" and t: "t = s @ t'"
    using assms(2) by (auto split: sum.splits simp: map_sum_def)
  have v: "reads_back v" "writable v" "d + 1 + 1 + 2 * nesting v \<le> max_depth + 1" using assms(1) [of v] by (auto simp: Cons)
  have start: "json_start (s @ t' @ CHR '']'' # r)" using json_start_append dump_value_start [OF s v(2)] by blast
  have "decode_value (d + 1 + 1) (s @ t' @ CHR '']'' # r) = Some (read_of v, t' @ CHR '']'' # r)"
    using v s dump_items_tail [OF t'] unfolding reads_back_def by blast
  then have "list_loop (d + 1) (s @ t' @ CHR '']'' # r) = Some (map read_of vs, r)"
    unfolding Cons list.map by (intro list_loop_items t') (use assms(1) Cons in auto)
  then show ?thesis
    using assms(3) json_start_skip [OF start] json_start_peek [OF start]
    by (simp add: decode_value.simps decode_list.simps t)
qed

lemma decode_dumped_object:
  assumes "\<And>k v. (k, v) \<in> set kvs \<Longrightarrow> reads_back v \<and> writable v \<and> d + 2 + 2 * nesting v \<le> max_depth + 1"
    and "dump_pairs True kvs = Inr t" and "d < max_depth"
  shows "decode_value d (CHR ''{'' # t @ CHR ''}'' # r) = Some (R_Object (map (\<lambda>(k, v). (k, read_of v)) kvs) False, r)"
proof (cases kvs)
  case Nil
  then show ?thesis using assms(2,3) by (simp add: decode_value.simps decode_object.simps)
next
  case (Cons kv kws)
  obtain k v where kv: "kv = (k, v)" by (cases kv)
  obtain s t' where s: "dump_internal v = Inr s" and t': "dump_pairs False kws = Inr t'"
    and t: "t = dump_string k @ CHR '':'' # s @ t'"
    using assms(2) by (auto split: sum.splits simp: map_sum_def Cons kv)
  have v: "reads_back v" "writable v" "d + 1 + 1 + 2 * nesting v \<le> max_depth + 1" using assms(1) [of k v] by (auto simp: Cons kv)
  have "decode_value (d + 1 + 1) (s @ t' @ CHR ''}'' # r) = Some (read_of v, t' @ CHR ''}'' # r)"
    using v s dump_pairs_tail [OF t'] unfolding reads_back_def by blast
  then have "object_loop (d + 1) (dump_string k @ CHR '':'' # s @ t' @ CHR ''}'' # r)
      = Some (map (\<lambda>(k, v). (k, read_of v)) kvs, r)"
    unfolding Cons kv list.map prod.case
    by (intro object_loop_pairs t' dump_value_start [OF s v(2)]) (use assms(1) Cons in auto)
  moreover have "ws_skip (dump_string k @ u) = dump_string k @ u" "peek (dump_string k @ u) = dquote" for u
    by (simp_all add: dump_string_def is_ws_def)
  ultimately show ?thesis
    using assms(3) by (simp add: decode_value.simps decode_object.simps t)
qed

theorem dumped_reads_back: "reads_back v"
proof (induction v)
  case (Wvalue t nt num s l m f)
  let ?v = "Wvalue t nt num s l m f"
  show ?case
    unfolding reads_back_def
  proof (intro allI impI)
    fix out d r
    assume out: "dump_internal ?v = Inr out" and w: "writable ?v"
      and d: "d + 2 * nesting ?v \<le> max_depth + 1" and r: "json_end r"
    show "decode_value d (out @ r) = Some (read_of ?v, r)"
    proof (cases t)
      case Number
      then show ?thesis using out r dump_number_reads(2) by simp
    next
      case JString
      then show ?thesis using out decode_dumped_string [of s r] by (auto simp: decode_value.simps dump_string_def)
    next
      case JList
      show ?thesis
      proof (cases l)
        case None
        then show ?thesis using JList out d by (auto simp: decode_value.simps decode_list.simps)
      next
        case (Some vs)
        have "nesting v \<le> foldr max (map nesting vs) 0" if "v \<in> set vs" for v using that by (simp add: foldr_max_le)
        then show ?thesis
          using JList Some out w d Wvalue(1) decode_dumped_list [of vs d _ r]
          by (force simp: map_sum_def list_all_iff split: sum.splits)
      qed
    next
      case Object
      show ?thesis
      proof (cases m)
        case None
        then show ?thesis using Object out d by (auto simp: decode_value.simps decode_object.simps)
      next
        case (Some kvs)
        have "nesting v \<le> foldr max (map (\<lambda>(k, v). nesting v) kvs) 0" if "(k, v) \<in> set kvs" for k v
          using that by (force intro: foldr_max_le)
        then show ?thesis
          using Object Some out w d Wvalue(2) decode_dumped_object [of kvs d _ r]
          by (force simp: map_sum_def list_all_iff split: sum.splits)
      qed
    qed (use out w in \<open>auto simp: decode_value.simps literal_def\<close>)
  qed
qed

end
