(* ===== verification/Json_Array.thy ===== *)
theory Json_Array
  imports Prelude
begin

text \<open>
  The array behind a list or an object of \<^verbatim>\<open>crow::json::rvalue\<close> (lib/crowapi/crow_all.h): \<open>l_\<close> with its \<open>lsize_\<close> elements and
  room for \<open>lremain_\<close> more, which \<open>emplace_back\<close> fills and replaces by a larger one. A slot that holds no
  element yet is \<open>None\<close>. \<open>lsize_\<close> has 32 bits and \<open>lremain_\<close> has 16.
\<close>

record 'a rarray =
  l_slots :: "'a option list"
  lsize :: nat
  lremain :: nat

definition empty_array :: "'a rarray" where
  "empty_array = \<lparr>l_slots = [], lsize = 0, lremain = 0\<rparr>"

text \<open>The size of the new array: an \<^verbatim>\<open>int\<close> from sums and differences of 32 bits.\<close>

definition to_int32 :: "nat \<Rightarrow> int" where
  "to_int32 n = (let m = int n mod 2 ^ 32 in if m < 2 ^ 31 then m else m - 2 ^ 32)"

definition new_size :: "nat \<Rightarrow> int" where
  "new_size n =
     (let doubled = to_int32 (n + n);
          bounded = (if (doubled - int n) mod 2 ^ 32 > 60000 then to_int32 (n + 60000) else doubled)
      in if bounded < 4 then 4 else bounded)"

definition emplace_back :: "'a rarray \<Rightarrow> 'a \<Rightarrow> 'a rarray result" where
  "emplace_back a v =
     (let n = lsize a;
          b = (if lremain a = 0
               then a\<lparr>l_slots := take n (l_slots a) @ replicate (nat (new_size n) - n) None,
                      lremain := nat ((new_size n - int n) mod 2 ^ 16)\<rparr>
               else a)
      in if length (l_slots b) \<le> n then Inl Out_of_bounds_write
         else Inr (b\<lparr>l_slots := (l_slots b)[n := Some v],
                     lsize := (n + 1) mod 2 ^ 32,
                     lremain := nat ((int (lremain b) - 1) mod 2 ^ 16)\<rparr>))"

fun emplace_all :: "'a rarray \<Rightarrow> 'a list \<Rightarrow> 'a rarray result" where
  "emplace_all a [] = Inr a"
| "emplace_all a (v # vs) = (case emplace_back a v of Inl e \<Rightarrow> Inl e | Inr b \<Rightarrow> emplace_all b vs)"

definition elements :: "'a rarray \<Rightarrow> 'a option list" where
  "elements a = take (lsize a) (l_slots a)"

section \<open>The array holds what was put into it\<close>

text \<open>Room and elements together are the whole array, and the room never outgrows its 16 bits.\<close>

definition array_of :: "'a rarray \<Rightarrow> 'a list \<Rightarrow> bool" where
  "array_of a xs \<longleftrightarrow>
     lsize a = length xs \<and> elements a = map Some xs \<and> length (l_slots a) = lsize a + lremain a \<and> lremain a \<le> 60000"

lemma array_of_empty: "array_of empty_array []"
  by (simp add: array_of_def empty_array_def elements_def)

lemma new_size_grows:
  assumes "n < 2 ^ 30"
  shows "new_size n = int n + (if n < 2 then 4 - int n else min (int n) 60000)"
proof -
  have "to_int32 (n + n) = int (n + n)" "to_int32 (n + 60000) = int (n + 60000)"
    using assms by (simp_all add: to_int32_def)
  moreover have "(int (n + n) - int n) mod 2 ^ 32 = int n" using assms by simp
  ultimately show ?thesis by (simp add: new_size_def Let_def)
qed

lemma emplace_back_array:
  assumes "array_of a xs" and "length xs < 2 ^ 30"
  obtains b where "emplace_back a v = Inr b" and "array_of b (xs @ [v])"
proof -
  let ?n = "length xs"
  have a: "lsize a = ?n" "take ?n (l_slots a) = map Some xs" "length (l_slots a) = ?n + lremain a" "lremain a \<le> 60000"
    using assms(1) by (auto simp: array_of_def elements_def)
  define g where "g = (if lremain a = 0 then nat (new_size ?n) - ?n else lremain a)"
  define rest where "rest = (if lremain a = 0 then replicate g None else drop ?n (l_slots a))"
  have g: "0 < g" "g \<le> 60000" "lremain a = 0 \<Longrightarrow> new_size ?n = int ?n + int g"
    using new_size_grows [OF assms(2)] a(4) by (auto simp: g_def)
  have len: "length rest = g" using a(3) by (auto simp: rest_def g_def)
  obtain y ys where rest: "rest = y # ys" using len g(1) by (cases rest) auto
  have slots: "l_slots a = map Some xs @ rest" if "lremain a \<noteq> 0"
    using that a(2) append_take_drop_id [of ?n "l_slots a"] by (simp add: rest_def)
  define b where "b = a\<lparr>l_slots := map Some xs @ Some v # ys, lsize := ?n + 1, lremain := g - 1\<rparr>"
  have "int g mod 65536 = int g" "(int g - 1) mod 65536 = int g - 1" using g(1,2) by simp_all
  then have arith: "nat ((int g - 1) mod 65536) = g - Suc 0" "nat ((int g mod 65536 - 1) mod 65536) = g - Suc 0"
    "Suc ?n mod 4294967296 = Suc ?n" "nat (int ?n + int g) - ?n = g"
    using assms(2) by simp_all
  have "emplace_back a v = Inr b"
  proof (cases "lremain a = 0")
    case True
    then have "replicate g None = y # ys" using rest by (simp add: rest_def)
    then show ?thesis
      using True a(1-3) g(1) by (cases a) (simp add: emplace_back_def Let_def b_def list_update_append g(3) [OF True] arith)
  next
    case False
    have slots': "l_slots a = map Some xs @ y # ys" using slots [OF False] rest by simp
    have "lremain a = g" using False by (simp add: g_def)
    then show ?thesis
      using False a(1) slots' arith(1,3) by (cases a) (simp add: emplace_back_def Let_def b_def list_update_append)
  qed
  moreover have "array_of b (xs @ [v])"
    using len rest g by (simp add: array_of_def b_def elements_def)
  ultimately show ?thesis by (rule that)
qed

lemma emplace_all_array:
  "array_of a xs \<Longrightarrow> length xs + length vs \<le> 2 ^ 30 \<Longrightarrow> \<exists>b. emplace_all a vs = Inr b \<and> array_of b (xs @ vs)"
proof (induction vs arbitrary: a xs)
  case (Cons v vs)
  obtain b where "emplace_back a v = Inr b" and b: "array_of b (xs @ [v])"
    using emplace_back_array [of a xs v] Cons.prems by auto
  then show ?case using Cons.IH [OF b] Cons.prems by auto
qed auto

end
