(* ===== verification/Json_Properties.thy ===== *)
theory Json_Properties
  imports Json_Roundtrip Json_Array
begin

text \<open>
  What the JSON library of lib/crowapi/crow_all.h guarantees, and where it breaks its promise: the round trip from value to text
  and back, the buffer in which strings are unescaped, the lookup of keys, the array of elements,
  the limit on nesting, and what moves and large numbers do to the text.
\<close>

section \<open>From value to text and back\<close>

text \<open>
  C30. What \<open>dump\<close> writes, \<open>load\<close> reads as a value of the same meaning: every string with its control
  characters, quotes and bytes above 127, every integer of 64 bits, every decimal as it was printed, all lists and
  objects. It holds for values that hold no function and nest no more than 5000 containers.
\<close>

theorem load_after_dump:
  assumes "dump v = Inr s" and "writable v" and "nesting v \<le> 5000"
  shows "map_option read_meaning (load s) = Some (write_meaning v)"
proof -
  have s: "dump_internal v = Inr s" using assms(1) by (simp add: dump_def)
  have "decode_value 0 (s @ []) = Some (read_of v, [])"
    using dumped_reads_back [of v, unfolded reads_back_def, rule_format, OF s assms(2), of 0 "[]"] assms(3)
    by (simp add: max_depth_def json_end_def number_table_def peek_def nonzero_digit_def)
  then show ?thesis
    using json_start_skip [OF dump_value_start [OF s assms(2)]] read_of_meaning [OF assms(2)]
    by (simp add: load_def parse_def peek_def ws_skip_def)
qed

theorem load_after_dump_witness:
  "map_option read_meaning (load (CHR ''['' # CHR ''-'' # CHR ''5'' # CHR '','' # dquote # backslash # dquote # dquote # '']''))
     = Some (Json_list [Json_integer (- 5), Json_string [dquote]])"
proof -
  let ?v = "Wvalue JList Num_null 0 [] (Some [wvalue_signed (- 5), wvalue_string [dquote]]) None None"
  have "dump ?v = Inr (CHR ''['' # CHR ''-'' # CHR ''5'' # CHR '','' # dquote # backslash # dquote # dquote # '']'')"
    by (simp add: dump_def wvalue_signed_def wvalue_string_def dump_number_def dump_string_def escape_def escape_char_def
        to_string_def show_nat.simps digit_char_def char_of_def bit_0)
  from load_after_dump [OF this] show ?thesis
    by (simp add: wvalue_signed_def wvalue_string_def number_meaning_def)
qed

section \<open>Strings\<close>



text \<open>
  A copy of a string value that was made before \<open>s()\<close> was called on the original: the mark in the
  buffer is gone, the copy still has the old end, and \<open>s()\<close> of the copy returns as many characters as the
  escaped text had - the unescaped ones, a NUL, and what the loop left behind.
\<close>

theorem stale_copy_reads_leftover:
  assumes "string_body txt = Some (t, True, post)"
    and "string_at (pre @ CHR 0x01 # t @ nul # post) (length pre + 1) (length pre + 1 + length t) = Inr (buf, e, w)"
  shows "\<exists>g. string_at buf (length pre + 1) (length pre + 1 + length t)
    = Inr (buf, length pre + 1 + length t, unescaped t @ nul # g) \<and> length (unescaped t @ nul # g) = length t"
proof -
  obtain g where g: "length (unescaped t) + 1 + length g = length t"
    and first: "string_at (pre @ CHR 0x01 # t @ nul # post) (length pre + 1) (length pre + 1 + length t)
      = Inr (pre @ nul # unescaped t @ nul # g @ nul # post, length pre + 1 + length (unescaped t), unescaped t)"
    by (rule string_at_first [OF assms(1)])
  have len: "length (unescaped t @ nul # g) = length t" using g by simp
  have "buf = pre @ nul # (unescaped t @ nul # g) @ nul # post" using first assms(2) by auto
  then show ?thesis using string_at_again [of pre "unescaped t @ nul # g" "nul # post", unfolded len] len by blast
qed

theorem stale_copy_reads_leftover_witness:
  "\<exists>buf e. string_at (dquote # CHR 0x01 # backslash # CHR ''n'' # nul # '']'') 2 4 = Inr (buf, e, [CHR 0x0A])
    \<and> string_at buf 2 4 = Inr (buf, 4, [CHR 0x0A, nul])"
proof -
  have b: "string_body (backslash # CHR ''n'' # dquote # '']'') = Some ([backslash, CHR ''n''], True, '']'')"
    by (simp add: string_body_simple simple_escapes_def)
  have s: "string_at ([dquote] @ CHR 0x01 # [backslash, CHR ''n''] @ nul # '']'') (length [dquote] + 1)
      (length [dquote] + 1 + length [backslash, CHR ''n'']) = Inr (dquote # nul # CHR 0x0A # nul # nul # '']'', 3, [CHR 0x0A])"
    by (simp add: string_at_def unescape_def unescape_loop.simps piece_def unescaped_char_def eval_nat_numeral)
  from stale_copy_reads_leftover [OF b s] s show ?thesis
    by (auto simp: unescaped.simps piece_def unescaped_char_def eval_nat_numeral)
qed

section \<open>Lookup\<close>

text \<open>
  C40. \<open>operator[]\<close> with a key, on an object whose keys differ, however \<^verbatim>\<open>std::sort\<close> is done: the element with
  that key or an exception, for the first lookup and for those after it, which search the sorted elements without
  sorting them again.
\<close>

theorem member_lookup:
  assumes sort_by: "\<And>xs. mset (sort_by xs) = mset xs" "\<And>xs. sorted_keys (sort_by xs)"
    and keys: "distinct (map fst kvs)"
  shows "r_member sort_by (Some (R_Object kvs False)) k =
      (case map_of kvs k of
         Some v \<Rightarrow> Inr (v, R_Object (sort_by kvs) True)
       | None \<Rightarrow> Inl (runtime_error ''cannot find key''))
    \<and> r_member sort_by (Some (R_Object (sort_by kvs) True)) k = r_member sort_by (Some (R_Object kvs False)) k"
proof -
  have s: "sorts_members sort_by" using sort_by by unfold_locales
  show ?thesis
    using sorts_members.member_found [OF s keys, of k] sorts_members.member_missing [OF s keys, of k]
      sorts_members.member_again [OF s keys, of k]
    by (cases "map_of kvs k") simp_all
qed

theorem member_lookup_witness:
  "r_member insertion_sort (Some (R_Object [(''b'', R_True), (''a'', R_Null)] False)) ''b''
     = Inr (R_True, R_Object [(''a'', R_Null), (''b'', R_True)] True)"
proof -
  have "insertion_sort [(''b'', R_True), (''a'', R_Null)] = [(''a'', R_Null), (''b'', R_True)]"
    by (simp add: insertion_sort_def signed_char_def)
  then show ?thesis
    using member_lookup [OF insertion.same_members insertion.sorted_members, of "[(''b'', R_True), (''a'', R_Null)]" "''b''"]
    by simp
qed

section \<open>The array of elements\<close>

text \<open>
  C34. The array of a list or an object, grown from empty by \<open>emplace_back\<close> once for each of up to 2 to the 30 elements: every write lies
  inside the array, the array holds the elements in their order, its size is their number, and the room that is left, which makes up the
  rest of the array, fits the 16 bits of \<open>lremain_\<close>.
\<close>

theorem emplace_back_in_bounds:
  assumes "length vs \<le> 2 ^ 30"
  shows "\<exists>a. emplace_all empty_array vs = Inr a \<and> elements a = map Some vs \<and> lsize a = length vs
    \<and> length (l_slots a) = lsize a + lremain a \<and> lremain a < 2 ^ 16"
  using emplace_all_array [OF array_of_empty, of vs] assms by (auto simp: array_of_def)

theorem emplace_back_in_bounds_witness:
  "\<exists>a. emplace_all empty_array [7, 8 :: nat] = Inr a \<and> elements a = [Some 7, Some 8]"
  using emplace_back_in_bounds [of "[7, 8 :: nat]"] by auto

section \<open>Nesting\<close>

text \<open>
  The limit on recursion: of nested empty lists \<open>load\<close> accepts exactly those up to 5000 deep, half of
  \<open>max_depth\<close>, since every container adds to the depth twice.
\<close>

fun nested :: "nat \<Rightarrow> rvalue" where
  "nested 0 = R_List []"
| "nested (Suc n) = R_List [nested n]"

lemma decode_nested:
  "decode_value d (replicate (Suc n) (CHR ''['') @ replicate (Suc n) (CHR '']'') @ r)
     = (if d + 2 * n < max_depth then Some (nested n, r) else None)"
proof (induction n arbitrary: d r)
  case 0
  then show ?case by (simp add: decode_value.simps decode_list.simps)
next
  case (Suc n)
  let ?s = "replicate (Suc n) (CHR ''['') @ replicate (Suc n) (CHR '']'') @ CHR '']'' # r"
  have "decode_value d (replicate (Suc (Suc n)) (CHR ''['') @ replicate (Suc (Suc n)) (CHR '']'') @ r)
      = decode_list (d + 1) (CHR ''['' # ?s)"
    by (simp add: decode_value.simps [of d] replicate_app_Cons_same)
  also have "\<dots> = (if max_depth < d + 1 then None
      else map_option (\<lambda>(vs, r). (R_List vs, r)) (list_loop (d + 1) ?s))"
    by (simp add: decode_list.simps is_ws_def)
  also have "list_loop (d + 1) ?s = (if d + 2 + 2 * n < max_depth then Some ([nested n], r) else None)"
    using Suc.IH [of "d + 2" "CHR '']'' # r"] by (subst list_loop.simps) simp
  finally show ?case by auto
qed

theorem nesting_limit:
  "load (replicate (Suc n) (CHR ''['') @ replicate (Suc n) (CHR '']''))
     = (if Suc n \<le> 5000 then Some (nested n) else None)"
proof -
  have "decode_value 0 (replicate (Suc n) (CHR ''['') @ replicate (Suc n) (CHR '']''))
      = (if Suc n \<le> 5000 then Some (nested n, []) else None)"
    using decode_nested [of 0 n "[]"] by (auto simp: max_depth_def)
  moreover have "ws_skip (replicate (Suc n) (CHR ''['') @ u) = replicate (Suc n) (CHR ''['') @ u" for u
    by (simp add: is_ws_def)
  ultimately show ?thesis by (simp add: load_def parse_def ws_skip_def peek_def)
qed

section \<open>Numbers\<close>

text \<open>
  A list of signed integers that is assigned with \<^verbatim>\<open>operator=(list&&)\<close>, as in \<^verbatim>\<open>x["a"] = wvalue::list{-1, 2}\<close>: the
  move of each element leaves its \<open>nt\<close> behind, and \<open>dump\<close> prints the numbers as unsigned ones, \<open>- 1\<close> as
  18446744073709551615.
\<close>

theorem moved_numbers_unsigned:
  "dump (assign_list v (map wvalue_signed ns)) = dump (assign_vector assign_unsigned v ns)"
proof -
  have "dump_items b (map (\<lambda>x. fst (move_assign wvalue_default x)) (map wvalue_signed ns))
      = dump_items b (map (assign_unsigned wvalue_default) ns)" for b
    by (induction ns arbitrary: b)
       (simp_all add: move_assign_def wvalue_default_def wvalue_signed_def assign_unsigned_def assign_number_def dump_number_def)
  then show ?thesis
    by (simp add: dump_def assign_list_def assign_vector_def with_list_def as_type_def Let_def)
qed

text \<open>
  A number with a point is printed into a buffer of 128 characters by \<^verbatim>\<open>sprintf\<close>, which knows no bound: the
  write leaves the buffer exactly when the absolute value is at least 10 to the 120, or 10 to the 119 with a minus sign.
\<close>

theorem double_overflows_buffer:
  assumes "\<not> isnan d" and "\<not> isinf d"
  shows "dump (wvalue_double d) = Inl Out_of_bounds_write
    \<longleftrightarrow> 10 ^ (if d_negative d then 125 else 126) \<le> d_millionths d"
proof -
  let ?n = "nat (d_millionths d div 1000000)" and ?k = "if d_negative d then 119 else 120 :: nat"
  have "length (printf_f d) = (if d_negative d then 1 else 0) + length (show_nat ?n) + 7"
    by (rule printf_f_length)
  then have "128 \<le> length (printf_f d) \<longleftrightarrow> \<not> length (show_nat ?n) \<le> ?k" by auto
  also have "\<dots> \<longleftrightarrow> 10 ^ ?k \<le> ?n" using show_nat_length_iff [of ?k ?n] by (auto simp: not_less)
  also have "\<dots> \<longleftrightarrow> 10 ^ ?k \<le> d_millionths d div 1000000" by (auto simp: le_nat_iff)
  also have "\<dots> \<longleftrightarrow> 10 ^ ?k * 1000000 \<le> d_millionths d" by auto
  finally have "128 \<le> length (printf_f d) \<longleftrightarrow> 10 ^ (if d_negative d then 125 else 126) \<le> d_millionths d"
    by (cases "d_negative d") simp_all
  then show ?thesis
    using assms by (simp add: dump_def wvalue_double_def dump_number_def dump_double_def)
qed

theorem double_overflows_buffer_witness:
  "dump (wvalue_double 0x7FE0000000000000) = Inl Out_of_bounds_write"
proof -
  have ex: "d_exponent 0x7FE0000000000000 = 2046" "d_mantissa 0x7FE0000000000000 = 0" "\<not> d_negative 0x7FE0000000000000"
    by (simp_all add: d_exponent_def d_mantissa_def d_negative_def)
  then show ?thesis
    using double_overflows_buffer [of "0x7FE0000000000000"] by (simp add: isnan_def isinf_def d_millionths_def)
qed

end
