(* ===== verification/Crow_Sha1.thy ===== *)
theory Crow_Sha1
  imports Prelude
begin

text \<open>
  \<^verbatim>\<open>sha1::SHA1\<close> (lib/crowapi/crow_all.h), with which a websocket answers the key of its client: the digest of five words, a block
  of 64 bytes that fills byte by byte, and the number of bytes so far. The theorem compares the incremental code with
  the standard, which is stated here on its own: pad the message, cut it into blocks, compress them one after the other.
\<close>

section \<open>The code\<close>

record SHA1 =
  m_digest :: "32 word list"
  m_block :: "8 word list"
  m_blockByteIndex :: nat
  m_byteCount :: nat

definition LeftRotate :: "32 word \<Rightarrow> nat \<Rightarrow> 32 word" where
  "LeftRotate v n = push_bit n v XOR drop_bit (32 - n) v"

definition initial_digest :: "32 word list" where
  "initial_digest = [0x67452301, 0xEFCDAB89, 0x98BADCFE, 0x10325476, 0xC3D2E1F0]"

text \<open>The block of a new object is not initialised; no byte of it is read before it is written.\<close>

definition sha1_reset :: "8 word list \<Rightarrow> SHA1" where
  "sha1_reset garbage = \<lparr>m_digest = initial_digest, m_block = garbage, m_blockByteIndex = 0, m_byteCount = 0\<rparr>"

definition big_endian :: "8 word list \<Rightarrow> nat \<Rightarrow> 32 word" where
  "big_endian blk i =
     push_bit 24 (ucast (blk ! (i * 4))) OR push_bit 16 (ucast (blk ! (i * 4 + 1))) OR
     push_bit 8 (ucast (blk ! (i * 4 + 2))) OR ucast (blk ! (i * 4 + 3))"

text \<open>The eighty words: sixteen of the block, each further one from four before it.\<close>

fun extend_words :: "nat \<Rightarrow> 32 word list \<Rightarrow> 32 word list" where
  "extend_words 0 w = w"
| "extend_words (Suc n) w =
     (let i = length w
      in extend_words n (w @ [LeftRotate (w ! (i - 3) XOR w ! (i - 8) XOR w ! (i - 14) XOR w ! (i - 16)) 1]))"

definition schedule_words :: "8 word list \<Rightarrow> 32 word list" where
  "schedule_words blk = extend_words 64 (map (big_endian blk) [0..<16])"

type_synonym regs = "32 word \<times> 32 word \<times> 32 word \<times> 32 word \<times> 32 word"

definition sha1_round :: "nat \<Rightarrow> 32 word \<Rightarrow> regs \<Rightarrow> regs" where
  "sha1_round i wi r =
     (case r of (a, b, c, d, e) \<Rightarrow>
        let f = (if i < 20 then (b AND c) OR (NOT b AND d)
                 else if i < 40 then b XOR c XOR d
                 else if i < 60 then (b AND c) OR (b AND d) OR (c AND d)
                 else b XOR c XOR d);
            k = (if i < 20 then 0x5A827999 else if i < 40 then 0x6ED9EBA1
                 else if i < 60 then 0x8F1BBCDC else 0xCA62C1D6)
        in (LeftRotate a 5 + f + e + k + wi, a, LeftRotate b 30, c, d))"

fun sha1_rounds :: "nat \<Rightarrow> 32 word list \<Rightarrow> regs \<Rightarrow> regs" where
  "sha1_rounds i [] r = r"
| "sha1_rounds i (wi # w) r = sha1_rounds (i + 1) w (sha1_round i wi r)"

definition process_block :: "32 word list \<Rightarrow> 8 word list \<Rightarrow> 32 word list" where
  "process_block h blk =
     (case sha1_rounds 0 (schedule_words blk) (h ! 0, h ! 1, h ! 2, h ! 3, h ! 4) of
        (a, b, c, d, e) \<Rightarrow> [h ! 0 + a, h ! 1 + b, h ! 2 + c, h ! 3 + d, h ! 4 + e])"

definition processByte :: "8 word \<Rightarrow> SHA1 \<Rightarrow> SHA1" where
  "processByte octet s =
     (let s1 = s\<lparr>m_block := (m_block s)[m_blockByteIndex s := octet],
                m_blockByteIndex := m_blockByteIndex s + 1,
                m_byteCount := m_byteCount s + 1\<rparr>
      in if m_blockByteIndex s1 = 64
         then s1\<lparr>m_blockByteIndex := 0, m_digest := process_block (m_digest s1) (m_block s1)\<rparr>
         else s1)"

definition processBytes :: "8 word list \<Rightarrow> SHA1 \<Rightarrow> SHA1" where
  "processBytes data s = fold processByte data s"

text \<open>The two loops that write zeros: until the block is full, and until 56 bytes are in it.\<close>

fun zeros_to_full :: "nat \<Rightarrow> SHA1 \<Rightarrow> SHA1" where
  "zeros_to_full 0 s = s"
| "zeros_to_full (Suc fuel) s = (if m_blockByteIndex s \<noteq> 0 then zeros_to_full fuel (processByte 0 s) else s)"

fun zeros_to_56 :: "nat \<Rightarrow> SHA1 \<Rightarrow> SHA1" where
  "zeros_to_56 0 s = s"
| "zeros_to_56 (Suc fuel) s = (if m_blockByteIndex s < 56 then zeros_to_56 fuel (processByte 0 s) else s)"

definition length_bytes :: "nat \<Rightarrow> 8 word list" where
  "length_bytes bitCount =
     [0, 0, 0, 0, of_nat (bitCount div 2 ^ 24), of_nat (bitCount div 2 ^ 16), of_nat (bitCount div 2 ^ 8), of_nat bitCount]"

definition getDigest :: "SHA1 \<Rightarrow> 32 word list" where
  "getDigest s =
     (let bitCount = m_byteCount s * 8;
          s1 = processByte 0x80 s;
          s2 = (if m_blockByteIndex s1 > 56 then zeros_to_56 64 (zeros_to_full 64 s1) else zeros_to_56 64 s1)
      in m_digest (fold processByte (length_bytes bitCount) s2))"

definition word_bytes :: "32 word \<Rightarrow> 8 word list" where
  "word_bytes d = [ucast (drop_bit 24 d), ucast (drop_bit 16 d), ucast (drop_bit 8 d), ucast d]"

definition getDigestBytes :: "SHA1 \<Rightarrow> 8 word list" where
  "getDigestBytes s = concat (map word_bytes (getDigest s))"

section \<open>The standard\<close>

text \<open>
  FIPS 180-4, sections 4 to 6, written from the standard and not from the code: the functions and constants of the eighty
  steps, the initial hash value, the message schedule as a recursion on the step, the rotation of the word library, and the
  compression of a block.
\<close>

definition fips_Ch :: "32 word \<Rightarrow> 32 word \<Rightarrow> 32 word \<Rightarrow> 32 word" where
  "fips_Ch x y z = (x AND y) XOR (NOT x AND z)"

definition fips_Parity :: "32 word \<Rightarrow> 32 word \<Rightarrow> 32 word \<Rightarrow> 32 word" where
  "fips_Parity x y z = x XOR y XOR z"

definition fips_Maj :: "32 word \<Rightarrow> 32 word \<Rightarrow> 32 word \<Rightarrow> 32 word" where
  "fips_Maj x y z = (x AND y) XOR (x AND z) XOR (y AND z)"

definition fips_f :: "nat \<Rightarrow> 32 word \<Rightarrow> 32 word \<Rightarrow> 32 word \<Rightarrow> 32 word" where
  "fips_f t = [fips_Ch, fips_Parity, fips_Maj, fips_Parity] ! (t div 20)"

definition fips_K :: "nat \<Rightarrow> 32 word" where
  "fips_K t = [0x5A827999, 0x6ED9EBA1, 0x8F1BBCDC, 0xCA62C1D6] ! (t div 20)"

definition fips_H0 :: regs where
  "fips_H0 = (0x67452301, 0xEFCDAB89, 0x98BADCFE, 0x10325476, 0xC3D2E1F0)"

definition fips_M :: "8 word list \<Rightarrow> nat \<Rightarrow> 32 word" where
  "fips_M blk t =
     word_cat (word_cat (blk ! (4 * t)) (blk ! (4 * t + 1)) :: 16 word)
              (word_cat (blk ! (4 * t + 2)) (blk ! (4 * t + 3)) :: 16 word)"

fun fips_W :: "8 word list \<Rightarrow> nat \<Rightarrow> 32 word" where
  "fips_W blk t =
     (if t < 16 then fips_M blk t
      else word_rotl 1 (fips_W blk (t - 3) XOR fips_W blk (t - 8) XOR fips_W blk (t - 14) XOR fips_W blk (t - 16)))"

declare fips_W.simps [simp del]

definition fips_round :: "8 word list \<Rightarrow> regs \<Rightarrow> nat \<Rightarrow> regs" where
  "fips_round blk v t =
     (case v of (a, b, c, d, e) \<Rightarrow>
        (word_rotl 5 a + fips_f t b c d + e + fips_K t + fips_W blk t, a, word_rotl 30 b, c, d))"

definition fips_compress :: "regs \<Rightarrow> 8 word list \<Rightarrow> regs" where
  "fips_compress h blk =
     (case (h, foldl (fips_round blk) h [0..<80]) of
        ((h0, h1, h2, h3, h4), (a, b, c, d, e)) \<Rightarrow> (a + h0, b + h1, c + h2, d + h3, e + h4))"

text \<open>The five words of a hash value, in order.\<close>

definition words_of :: "regs \<Rightarrow> 32 word list" where
  "words_of r = (case r of (a, b, c, d, e) \<Rightarrow> [a, b, c, d, e])"

text \<open>The padded message: the message, the bit 1, zeros, and the length in bits as a number of 64 bits, in blocks of 64 bytes.\<close>

definition padding :: "nat \<Rightarrow> 8 word list" where
  "padding n = 0x80 # replicate ((119 - n mod 64) mod 64) 0"

function blocks :: "'a list \<Rightarrow> 'a list list" where
  "blocks xs = (if length xs < 64 then [] else take 64 xs # blocks (drop 64 xs))"
  by pat_completeness auto
termination
  by (relation "measure length") auto

declare blocks.simps [simp del]

definition length_field :: "nat \<Rightarrow> 8 word list" where
  "length_field n = map (\<lambda>i. of_nat (8 * n div 2 ^ (8 * i))) (rev [0..<8])"

definition sha1_standard :: "8 word list \<Rightarrow> 32 word list" where
  "sha1_standard msg =
     words_of (foldl fips_compress fips_H0 (blocks (msg @ padding (length msg) @ length_field (length msg))))"

section \<open>The compression of the code is that of the standard\<close>

lemma LeftRotate_rotl:
  assumes "0 < n" and "n < 32"
  shows "LeftRotate v n = word_rotl n v"
proof (rule bit_word_eqI)
  fix k assume k: "k < LENGTH(32)"
  have short: "bit v (32 + k - n) \<Longrightarrow> 32 + k - n < 32"
    by (drule bit_imp_le_length) simp
  show "bit (LeftRotate v n) k = bit (word_rotl n v) k"
  proof (cases "n \<le> k")
    case True
    then have "(k + (32 - n mod 32)) mod 32 = k - n" using assms k
      by (simp add: le_add_diff_inverse2 mod_if)
    moreover have "\<not> bit v (32 + k - n)" using short True by auto
    ultimately show ?thesis using assms k True by (simp add: LeftRotate_def bit_simps)
  next
    case False
    then have "(k + (32 - n mod 32)) mod 32 = 32 + k - n" using assms by simp
    then show ?thesis using assms k False by (simp add: LeftRotate_def bit_simps)
  qed
qed

lemma bytes_word_cat:
  fixes a b c d :: "8 word"
  shows "push_bit 24 (ucast a) OR push_bit 16 (ucast b) OR push_bit 8 (ucast c) OR ucast d
    = (word_cat (word_cat a b :: 16 word) (word_cat c d :: 16 word) :: 32 word)"
  by (rule bit_word_eqI) (auto simp: bit_simps dest: bit_imp_le_length)

lemma big_endian_M: "big_endian blk t = fips_M blk t"
  by (simp add: big_endian_def fips_M_def bytes_word_cat mult.commute)

lemma f_bitwise:
  "(b AND c) OR (NOT b AND d) = fips_Ch b c d" "(b AND c) OR (b AND d) OR (c AND d) = fips_Maj b c d"
  by (rule bit_eqI, auto simp: fips_Ch_def fips_Maj_def bit_simps)+

text \<open>The schedule.\<close>

lemma extend_words_W:
  "w = map (fips_W blk) [0..<length w] \<Longrightarrow> 16 \<le> length w \<Longrightarrow>
   extend_words n w = map (fips_W blk) [0..<length w + n]"
proof (induction n arbitrary: w)
  case (Suc n)
  let ?i = "length w" and ?x = "LeftRotate (w ! (length w - 3) XOR w ! (length w - 8) XOR w ! (length w - 14) XOR w ! (length w - 16)) 1"
  have nth: "w ! j = fips_W blk j" if "j < ?i" for j using Suc.prems(1) that by (metis add_0 diff_zero nth_map_upt)
  have "?x = fips_W blk ?i"
    using Suc.prems(2) by (simp add: fips_W.simps [of blk ?i] nth LeftRotate_rotl)
  then have "w @ [?x] = map (fips_W blk) [0..<length (w @ [?x])]" using Suc.prems(1) by simp
  from Suc.IH [OF this] Suc.prems(2) show ?case by (simp add: Let_def)
qed simp

lemma schedule_words_W: "schedule_words blk = map (fips_W blk) [0..<80]"
proof -
  have "map (big_endian blk) [0..<16] = map (fips_W blk) [0..<16]"
    by (simp add: big_endian_M fips_W.simps)
  then show ?thesis using extend_words_W [of "map (big_endian blk) [0..<16]" blk 64] by (simp add: schedule_words_def)
qed

text \<open>The rounds.\<close>

lemma sha1_round_fips: "t < 80 \<Longrightarrow> sha1_round t (fips_W blk t) r = fips_round blk r t"
proof -
  assume "t < 80"
  then consider "t < 20" "t div 20 = 0" | "\<not> t < 20" "t < 40" "t div 20 = 1"
    | "\<not> t < 40" "t < 60" "t div 20 = 2" | "\<not> t < 60" "t div 20 = 3" by linarith
  then show ?thesis
    by cases (simp_all add: sha1_round_def fips_round_def Let_def f_bitwise fips_f_def fips_K_def
        fips_Parity_def LeftRotate_rotl split: prod.splits)
qed

lemma sha1_rounds_fips:
  "t + n = 80 \<Longrightarrow> sha1_rounds t (map (fips_W blk) [t..<80]) r = foldl (fips_round blk) r [t..<80]"
proof (induction n arbitrary: t r)
  case (Suc n)
  then have "[t..<80] = t # [Suc t..<80]" by (simp add: upt_conv_Cons)
  then show ?case using Suc sha1_round_fips [of t] by simp
qed simp

lemma process_block_fips: "process_block (words_of h) blk = words_of (fips_compress h blk)"
  using sha1_rounds_fips [of 0 80 blk h]
  by (auto simp: process_block_def words_of_def fips_compress_def schedule_words_W add.commute split: prod.splits)

lemma initial_digest_fips: "initial_digest = words_of fips_H0"
  by (simp add: initial_digest_def fips_H0_def words_of_def)

lemma fold_process_block:
  "fold (\<lambda>blk h. process_block h blk) bs (words_of h) = words_of (foldl fips_compress h bs)"
  by (induction bs arbitrary: h) (simp_all add: process_block_fips)

section \<open>Blocks of a message\<close>

lemma blocks_short [simp]: "length xs < 64 \<Longrightarrow> blocks xs = []"
  by (simp add: blocks.simps)

lemma blocks_one: "length xs = 64 \<Longrightarrow> blocks xs = [xs]"
  by (simp add: blocks.simps)

lemma blocks_append: "64 dvd length xs \<Longrightarrow> blocks (xs @ ys) = blocks xs @ blocks ys"
proof (induction xs rule: blocks.induct)
  case (1 xs)
  show ?case
  proof (cases "length xs < 64")
    case True
    then have "xs = []" using 1(2) by (auto dest: dvd_imp_le)
    then show ?thesis by simp
  next
    case False
    then have "64 dvd length (drop 64 xs)" using 1(2) by (simp add: dvd_diff_nat)
    from 1(1) [OF False this] False show ?thesis
      by (simp add: blocks.simps [of "xs @ ys"] blocks.simps [of xs])
  qed
qed

text \<open>The bytes of the block that is not full yet.\<close>

definition rest_of :: "'a list \<Rightarrow> 'a list" where
  "rest_of xs = drop (64 * (length xs div 64)) xs"

lemma rest_of_length: "length (rest_of xs) = length xs mod 64"
  by (simp add: rest_of_def minus_mult_div_eq_mod [symmetric])

lemma rest_of_split: obtains fs where "xs = fs @ rest_of xs" and "64 dvd length fs"
proof
  show "xs = take (64 * (length xs div 64)) xs @ rest_of xs" by (simp add: rest_of_def)
  show "64 dvd length (take (64 * (length xs div 64)) xs)"
    by (simp add: min_absorb2)
qed

lemma rest_of_append: "64 dvd length fs \<Longrightarrow> length r < 64 \<Longrightarrow> rest_of (fs @ r) = r"
  by (auto simp: rest_of_def elim!: dvdE)

lemma blocks_snoc:
  "length xs mod 64 < 63 \<Longrightarrow> blocks (xs @ [b]) = blocks xs \<and> rest_of (xs @ [b]) = rest_of xs @ [b]"
  "length xs mod 64 = 63 \<Longrightarrow> blocks (xs @ [b]) = blocks xs @ [rest_of xs @ [b]] \<and> rest_of (xs @ [b]) = []"
proof -
  obtain fs where xs: "xs = fs @ rest_of xs" and fs: "64 dvd length fs" by (rule rest_of_split)
  note len = rest_of_length [of xs]
  have old: "blocks xs = blocks fs" using blocks_append [OF fs, of "rest_of xs"] xs len by simp
  have new: "blocks (xs @ [b]) = blocks fs @ blocks (rest_of xs @ [b])"
    using blocks_append [OF fs, of "rest_of xs @ [b]"] xs by (metis append_assoc)
  have whole: "xs @ [b] = fs @ (rest_of xs @ [b])" using xs by (metis append_assoc)
  show "blocks (xs @ [b]) = blocks xs \<and> rest_of (xs @ [b]) = rest_of xs @ [b]" if "length xs mod 64 < 63"
  proof -
    have short: "length (rest_of xs @ [b]) < 64" using that len by simp
    have "rest_of (xs @ [b]) = rest_of xs @ [b]" unfolding whole by (rule rest_of_append [OF fs short])
    then show ?thesis using old new short by simp
  qed
  show "blocks (xs @ [b]) = blocks xs @ [rest_of xs @ [b]] \<and> rest_of (xs @ [b]) = []" if "length xs mod 64 = 63"
  proof -
    have 64: "length (rest_of xs @ [b]) = 64" using that len by simp
    then have "64 dvd length (fs @ rest_of xs @ [b])" using fs by simp
    then have "rest_of (xs @ [b]) = []" unfolding whole using rest_of_append [of "fs @ rest_of xs @ [b]" "[]"] by simp
    then show ?thesis using old new blocks_one [OF 64] by simp
  qed
qed

section \<open>The code implements the standard\<close>

definition digest_of :: "8 word list \<Rightarrow> 32 word list" where
  "digest_of xs = fold (\<lambda>blk h. process_block h blk) (blocks xs) initial_digest"

definition has_read :: "SHA1 \<Rightarrow> 8 word list \<Rightarrow> bool" where
  "has_read s xs \<longleftrightarrow>
     length (m_block s) = 64 \<and> m_blockByteIndex s = length xs mod 64 \<and> m_byteCount s = length xs
     \<and> take (length xs mod 64) (m_block s) = rest_of xs \<and> m_digest s = digest_of xs"

lemma has_read_reset: "length garbage = 64 \<Longrightarrow> has_read (sha1_reset garbage) []"
  by (simp add: has_read_def sha1_reset_def rest_of_def digest_of_def)

lemma has_read_byte:
  assumes "has_read s xs"
  shows "has_read (processByte b s) (xs @ [b])"
proof -
  let ?i = "length xs mod 64"
  have s: "length (m_block s) = 64" "m_blockByteIndex s = ?i" "m_byteCount s = length xs"
    "take ?i (m_block s) = rest_of xs" "m_digest s = digest_of xs" using assms by (auto simp: has_read_def)
  have i: "?i < 64" by simp
  have upd: "take (Suc ?i) ((m_block s)[?i := b]) = rest_of xs @ [b]"
    using s(1,4) i by (simp add: take_Suc_conv_app_nth)
  show ?thesis
  proof (cases "?i = 63")
    case True
    then have "(m_block s)[63 := b] = rest_of xs @ [b]" using upd s(1) by simp
    moreover have "Suc (length xs) mod 64 = 0" using True by (simp add: mod_Suc)
    ultimately show ?thesis
      using s blocks_snoc(2) [OF True, of b] True rest_of_length [of xs]
      by (simp add: has_read_def processByte_def Let_def digest_of_def)
  next
    case False
    then have "?i < 63" using i by linarith
    moreover from this have "Suc (length xs) mod 64 = Suc ?i" by (simp add: mod_Suc)
    ultimately show ?thesis
      using s blocks_snoc(1) [of xs b] upd by (simp add: has_read_def processByte_def Let_def digest_of_def)
  qed
qed

lemma has_read_bytes: "has_read s xs \<Longrightarrow> has_read (fold processByte ys s) (xs @ ys)"
proof (induction ys arbitrary: s xs)
  case (Cons y ys)
  from Cons.IH [OF has_read_byte [OF Cons.prems, of y]] show ?case by simp
qed simp

lemma zeros_to_full_fold:
  "has_read s xs \<Longrightarrow> 64 - length xs mod 64 \<le> fuel \<Longrightarrow>
   zeros_to_full fuel s = fold processByte (replicate ((64 - length xs mod 64) mod 64) 0) s"
proof (induction fuel arbitrary: s xs)
  case (Suc fuel)
  let ?i = "length xs mod 64"
  show ?case
  proof (cases "?i = 0")
    case False
    have "zeros_to_full fuel (processByte 0 s) = fold processByte (replicate (64 - Suc ?i) 0) (processByte 0 s)"
    proof (cases "?i = 63")
      case True
      then have "m_blockByteIndex (processByte 0 s) = 0"
        using Suc.prems(1) by (simp add: has_read_def processByte_def Let_def)
      then show ?thesis using True by (cases fuel) simp_all
    next
      case False
      moreover have "?i < 64" by simp
      ultimately have i: "length (xs @ [0]) mod 64 = Suc ?i" "Suc ?i < 64" by (simp_all add: mod_Suc)
      from Suc.IH [OF has_read_byte [OF Suc.prems(1), of 0]] Suc.prems(2) i show ?thesis by simp
    qed
    moreover have "(64 - ?i) mod 64 = Suc (64 - Suc ?i)" using False by (simp add: Suc_diff_Suc mod_less_divisor)
    moreover have "m_blockByteIndex s \<noteq> 0" using False Suc.prems(1) by (simp add: has_read_def)
    ultimately show ?thesis by simp
  qed (use Suc.prems(1) in \<open>simp add: has_read_def\<close>)
qed simp

lemma zeros_to_56_fold:
  "has_read s xs \<Longrightarrow> 56 - length xs mod 64 \<le> fuel \<Longrightarrow>
   zeros_to_56 fuel s = fold processByte (replicate (56 - length xs mod 64) 0) s"
proof (induction fuel arbitrary: s xs)
  case (Suc fuel)
  let ?i = "length xs mod 64"
  show ?case
  proof (cases "?i < 56")
    case True
    then have i: "length (xs @ [0]) mod 64 = Suc ?i" by (simp add: mod_Suc)
    have "56 - ?i = Suc (56 - Suc ?i)" using True by simp
    then show ?thesis
      using Suc.IH [OF has_read_byte [OF Suc.prems(1), of 0]] Suc.prems True i by (simp add: has_read_def)
  qed (use Suc.prems(1) in \<open>simp add: has_read_def\<close>)
qed simp

lemma length_bytes_field: "n < 2 ^ 29 \<Longrightarrow> length_bytes (n * 8) = length_field n"
proof -
  assume "n < 2 ^ 29"
  then have "n div 9007199254740992 = 0" "n div 35184372088832 = 0" "n div 137438953472 = 0" "n div 536870912 = 0"
    by simp_all
  then show ?thesis
    by (simp add: length_bytes_def length_field_def upt_rec mult.commute)
qed

lemma padding_zeros:
  fixes n :: nat
  shows "(119 - n mod 64) mod 64 =
    (if Suc n mod 64 > 56 then (64 - Suc n mod 64) mod 64 + 56 else 56 - Suc n mod 64)"
proof (cases "n mod 64 = 63")
  case False
  define r where "r = n mod 64"
  have r: "r < 63" using False mod_less_divisor [of 64 n] unfolding r_def by linarith
  have suc: "Suc n mod 64 = Suc r" using False by (simp add: mod_Suc r_def)
  show ?thesis
  proof (cases "56 \<le> r")
    case True
    then have h: "56 < Suc r" "119 - r < 64" "64 - Suc r < 64" "119 - r = 64 - Suc r + 56" using r by linarith+
    show ?thesis
      unfolding suc r_def [symmetric] if_P [OF h(1)] mod_less [OF h(2)] mod_less [OF h(3)] by (rule h(4))
  next
    case False
    then have eq: "119 - r = 64 + (55 - r)" by linarith
    have "(119 - r) mod 64 = (55 - r) mod 64" by (simp only: eq mod_add_self1)
    also have "\<dots> = 55 - r" by (rule mod_less) simp
    finally have h: "(119 - r) mod 64 = 55 - r" .
    have "\<not> 56 < Suc r" using False by simp
    then show ?thesis unfolding suc r_def [symmetric] h by simp
  qed
qed (simp add: mod_Suc)

lemma getDigest_padded:
  assumes "has_read s xs" and "length xs < 2 ^ 29"
  shows "getDigest s = digest_of (xs @ padding (length xs) @ length_field (length xs))"
proof -
  let ?n = "length xs" and ?s1 = "processByte 0x80 s" and ?xs1 = "xs @ [0x80]"
  have s1: "has_read ?s1 ?xs1" by (rule has_read_byte [OF assms(1)])
  have "(if m_blockByteIndex ?s1 > 56 then zeros_to_56 64 (zeros_to_full 64 ?s1) else zeros_to_56 64 ?s1)
      = fold processByte (replicate ((119 - ?n mod 64) mod 64) 0) ?s1"
  proof (cases "Suc ?n mod 64 > 56")
    case True
    let ?k = "(64 - Suc ?n mod 64) mod 64"
    have full: "zeros_to_full 64 ?s1 = fold processByte (replicate ?k 0) ?s1"
      using zeros_to_full_fold [OF s1] by simp
    have "?k = 64 - Suc ?n mod 64" "Suc ?n mod 64 + (64 - Suc ?n mod 64) = 64" using True by simp_all
    then have "(Suc ?n + ?k) mod 64 = 0" by (metis mod_add_left_eq mod_self)
    then have "length (?xs1 @ replicate ?k 0) mod 64 = 0" by simp
    then have "zeros_to_56 64 (fold processByte (replicate ?k 0) ?s1)
        = fold processByte (replicate 56 0) (fold processByte (replicate ?k 0) ?s1)"
      using zeros_to_56_fold [OF has_read_bytes [OF s1, of "replicate ?k 0"], of 64] by simp
    moreover have "fold processByte (replicate (?k + 56) 0) ?s1
        = fold processByte (replicate 56 0) (fold processByte (replicate ?k 0) ?s1)"
      by (simp only: replicate_add fold_append comp_apply)
    moreover have "(119 - ?n mod 64) mod 64 = ?k + 56" using padding_zeros [of ?n] if_P [OF True] by metis
    moreover have "m_blockByteIndex ?s1 > 56" using True s1 by (simp add: has_read_def)
    ultimately show ?thesis using full by (simp only: if_True)
  next
    case False
    then show ?thesis
      using padding_zeros [of ?n] zeros_to_56_fold [OF s1, of 64] s1 by (simp add: has_read_def)
  qed
  then have "getDigest s = m_digest (fold processByte (length_bytes (?n * 8)) (fold processByte (replicate ((119 - ?n mod 64) mod 64) 0) ?s1))"
    using assms(1) by (simp add: getDigest_def Let_def has_read_def)
  also have "\<dots> = digest_of ((?xs1 @ replicate ((119 - ?n mod 64) mod 64) 0) @ length_bytes (?n * 8))"
    using has_read_bytes [OF has_read_bytes [OF s1]] unfolding has_read_def by blast
  finally show ?thesis by (simp add: padding_def length_bytes_field [OF assms(2)])
qed

section \<open>The digest of a test message\<close>

text \<open>
  The sixteen words before the next one are a window that slides over the schedule; with it the digest of the
  message \<^verbatim>\<open>abc\<close>, the first example published with the standard, is computed.
\<close>

fun slide :: "nat \<Rightarrow> 32 word list \<Rightarrow> 32 word list" where
  "slide 0 w = w"
| "slide (Suc n) w = hd w # slide n (tl w @ [LeftRotate (w ! 13 XOR w ! 8 XOR w ! 2 XOR w ! 0) 1])"

lemma extend_words_slide: "length w = 16 \<Longrightarrow> extend_words n (p @ w) = p @ slide n w"
proof (induction n arbitrary: p w)
  case (Suc n)
  let ?x = "LeftRotate (w ! 13 XOR w ! 8 XOR w ! 2 XOR w ! 0) 1"
  obtain a w' where w: "w = a # w'" using Suc.prems by (cases w) auto
  have "extend_words n ((p @ w) @ [?x]) = (p @ [hd w]) @ slide n (tl w @ [?x])"
    using Suc.IH [of "tl w @ [?x]" "p @ [hd w]"] Suc.prems by (simp add: w)
  moreover have "extend_words (Suc n) (p @ w) = extend_words n ((p @ w) @ [?x])"
    using Suc.prems by (simp add: Let_def nth_append)
  ultimately show ?case by simp
qed simp

lemma slide_numeral: "slide (numeral n) w = 
     hd w # slide (pred_numeral n) (tl w @ [LeftRotate (w ! 13 XOR w ! 8 XOR w ! 2 XOR w ! 0) 1])"
  by (simp add: numeral_eq_Suc)

lemma rotl_of_int:
  assumes "k < 32"
  shows "LeftRotate (word_of_int x) k =
    word_of_int (push_bit k (take_bit (32 - k) x) OR drop_bit (32 - k) (take_bit 32 x))"
proof (rule bit_word_eqI)
  fix j assume "j < LENGTH(32)"
  then show "bit (LeftRotate (word_of_int x) k) j =
      bit (word_of_int (push_bit k (take_bit (32 - k) x) OR drop_bit (32 - k) (take_bit 32 x)) :: 32 word) j"
    using assms by (cases "k \<le> j") (simp_all add: LeftRotate_def bit_simps; auto)+
qed

lemma rotl_numeral:
  "k < 32 \<Longrightarrow> LeftRotate (numeral n) k =
     word_of_int (push_bit k (take_bit (32 - k) (numeral n)) OR drop_bit (32 - k) (take_bit 32 (numeral n)))"
  using rotl_of_int [of k "numeral n"] by simp

lemmas rotl_numerals = rotl_numeral [of "Suc 0"] rotl_numeral [of 5] rotl_numeral [of 30]

lemma rotl_0: "LeftRotate 0 n = 0"
  by (simp add: LeftRotate_def)

definition abc_block :: "8 word list" where
  "abc_block = [0x61, 0x62, 0x63, 0x80] @ replicate 59 0 @ [0x18]"

lemma abc_padded: "[0x61, 0x62, 0x63] @ padding 3 @ length_field 3 = abc_block"
proof -
  have "length_field 3 = [0, 0, 0, 0, 0, 0, 0, 0x18]" by (simp add: length_field_def upt_rec)
  moreover have "padding 3 = 0x80 # replicate 52 0" by (simp add: padding_def)
  moreover have "replicate 52 0 @ [0, 0, 0, 0, 0, 0, 0, 0x18] = replicate 59 0 @ [0x18 :: 8 word]" by code_simp
  ultimately show ?thesis by (simp add: abc_block_def)
qed

lemma abc_words: "map (big_endian abc_block) [0..<16] = 0x61626380 # replicate 14 0 @ [24]"
proof -
  have "abc_block = [0x61, 0x62, 0x63, 0x80, 0, 0, 0, 0, 0, 0, 0, 0, 0, 0, 0, 0, 0, 0, 0, 0, 0, 0, 0, 0, 0, 0, 0, 0, 0, 0, 0, 0,
      0, 0, 0, 0, 0, 0, 0, 0, 0, 0, 0, 0, 0, 0, 0, 0, 0, 0, 0, 0, 0, 0, 0, 0, 0, 0, 0, 0, 0, 0, 0, 0x18]"
    by code_simp
  then show ?thesis
    by (simp add: big_endian_def upt_rec nth_Cons') code_simp
qed

lemma abc_schedule: "schedule_words abc_block =
  slide 64 [0x61626380, 0, 0, 0, 0, 0, 0, 0, 0, 0, 0, 0, 0, 0, 0, 24]"
proof -
  have "0x61626380 # replicate 14 0 @ [24] = [0x61626380, 0, 0, 0, 0, 0, 0, 0, 0, 0, 0, 0, 0, 0, 0, 24 :: 32 word]"
    by code_simp
  then show ?thesis
    using extend_words_slide [of "[0x61626380, 0, 0, 0, 0, 0, 0, 0, 0, 0, 0, 0, 0, 0, 0, 24]" 64 "[]"]
    unfolding schedule_words_def abc_words by simp
qed

lemma abc_digest: "process_block initial_digest abc_block =
   [0xA9993E36, 0x4706816A, 0xBA3E2571, 0x7850C26C, 0x9CD0D89D]"
  unfolding process_block_def abc_schedule
  by (simp add: rotl_numerals rotl_0 slide_numeral Let_def sha1_round_def initial_digest_def)
lemma abc_message:
  "[0x61, 0x62, 0x63] @ padding (length [0x61, 0x62, 0x63 :: 8 word]) @ length_field (length [0x61, 0x62, 0x63 :: 8 word]) = abc_block"
proof -
  have "length [0x61, 0x62, 0x63 :: 8 word] = 3" by simp
  then show ?thesis by (simp only: abc_padded)
qed

lemma abc_standard: "words_of (foldl fips_compress fips_H0 (blocks abc_block)) =
   [0xA9993E36, 0x4706816A, 0xBA3E2571, 0x7850C26C, 0x9CD0D89D]"
proof -
  have "blocks abc_block = [abc_block]" by (rule blocks_one) (simp add: abc_block_def)
  then show ?thesis using abc_digest by (simp add: initial_digest_fips process_block_fips)
qed

text \<open>
  C35. For every message below 512 MB, given to \<open>processBytes\<close> of a new object, \<open>getDigest\<close> is the hash that FIPS 180-4
  defines: the message padded and cut into blocks, each compressed with the functions, constants, rotations and message
  schedule of the standard into the hash value, beginning with the standard's initial one.
\<close>

theorem sha1_implements_standard:
  assumes "length garbage = 64" and "length msg < 2 ^ 29"
  shows "getDigest (processBytes msg (sha1_reset garbage)) = sha1_standard msg"
  using getDigest_padded [OF has_read_bytes [OF has_read_reset [OF assms(1)], of msg]] assms(2)
  by (simp add: processBytes_def sha1_standard_def digest_of_def initial_digest_fips fold_process_block)

theorem sha1_implements_standard_witness:
  "getDigest (processBytes [0x61, 0x62, 0x63] (sha1_reset (replicate 64 0))) = sha1_standard [0x61, 0x62, 0x63] \<and>
   sha1_standard [0x61, 0x62, 0x63] = [0xA9993E36, 0x4706816A, 0xBA3E2571, 0x7850C26C, 0x9CD0D89D]"
proof
  show "getDigest (processBytes [0x61, 0x62, 0x63] (sha1_reset (replicate 64 0))) = sha1_standard [0x61, 0x62, 0x63]"
    using sha1_implements_standard [of "replicate 64 0" "[0x61, 0x62, 0x63]"] by simp
  show "sha1_standard [0x61, 0x62, 0x63] = [0xA9993E36, 0x4706816A, 0xBA3E2571, 0x7850C26C, 0x9CD0D89D]"
    unfolding sha1_standard_def abc_message by (rule abc_standard)
qed

end
