(* ===== verification/Crow_Websocket.thy ===== *)
theory Crow_Websocket
  imports Crow_Utility Crow_Sha1
begin

text \<open>
  \<^verbatim>\<open>crow::websocket::Connection\<close> (lib/crowapi/crow_all.h): the handshake, the frames that are written, and the
  automaton that reads frames. A connection moves when an asynchronous operation completes or the application
  calls it: these are the events. \<open>ws_log\<close> records the calls of the application's handlers, which are
  all taken to be set; what a handler does to the connection comes as a later event. \<open>ws_out\<close> is what was given to
  \<^verbatim>\<open>async_write\<close>. A connection deletes itself; a member that is used afterwards is a fault.
\<close>

section \<open>State\<close>

datatype WebSocketReadState = MiniHeader | Len16 | Len64 | ReadMask | ReadPayload

datatype ws_call = On_open | On_message string bool | On_close string | On_error

record websocket =
  ws_sending :: "string list"
  ws_waiting :: "string list"
  ws_binary :: bool
  ws_message :: string
  ws_fragment :: string
  ws_state :: WebSocketReadState
  ws_remaining :: nat
  ws_close_connection :: bool
  ws_is_reading :: bool
  ws_has_mask :: bool
  ws_mask :: string
  ws_mini_header :: nat
  ws_sent_close :: bool
  ws_recv_close :: bool
  ws_pong :: bool
  ws_close_called :: bool
  ws_socket :: bool
  ws_deleted :: bool
  ws_log :: "ws_call list"
  ws_out :: string

definition ws_call_handler :: "ws_call \<Rightarrow> websocket \<Rightarrow> websocket" where
  "ws_call_handler c w = w\<lparr>ws_log := ws_log w @ [c]\<rparr>"

section \<open>Writing\<close>

text \<open>Numbers in network byte order.\<close>

definition network_order :: "nat \<Rightarrow> nat \<Rightarrow> string" where
  "network_order k n = map (\<lambda>i. char_of (n div 256 ^ i mod 256)) (rev [0..<k])"

definition build_header :: "nat \<Rightarrow> nat \<Rightarrow> string" where
  "build_header op n =
     char_of (128 + op) #
       (if n < 126 then [char_of n]
        else if n < 65536 then char_of (126::nat) # network_order 2 n
        else char_of (127::nat) # network_order 8 n)"

definition ws_do_write :: "websocket \<Rightarrow> websocket" where
  "ws_do_write w =
     (if ws_sending w = []
      then w\<lparr>ws_sending := ws_waiting w, ws_waiting := [], ws_out := ws_out w @ concat (ws_waiting w)\<rparr>
      else w)"

definition ws_send :: "nat \<Rightarrow> string \<Rightarrow> websocket \<Rightarrow> websocket" where
  "ws_send op msg w = ws_do_write (w\<lparr>ws_waiting := ws_waiting w @ [build_header op (length msg), msg]\<rparr>)"

definition send_text :: "string \<Rightarrow> websocket \<Rightarrow> websocket" where "send_text msg w = ws_send 1 msg w"
definition send_binary :: "string \<Rightarrow> websocket \<Rightarrow> websocket" where "send_binary msg w = ws_send 2 msg w"
definition send_ping :: "string \<Rightarrow> websocket \<Rightarrow> websocket" where "send_ping msg w = ws_send 9 msg w"
definition send_pong :: "string \<Rightarrow> websocket \<Rightarrow> websocket" where "send_pong msg w = ws_send 10 msg w"

definition ws_close :: "string \<Rightarrow> websocket \<Rightarrow> websocket" where
  "ws_close msg w =
     (let w1 = w\<lparr>ws_sent_close := True\<rparr>;
          w2 = (if ws_recv_close w1 \<and> \<not> ws_close_called w1
                then ws_call_handler (On_close msg) (w1\<lparr>ws_close_called := True\<rparr>) else w1)
      in ws_send 8 msg w2)"

definition ws_check_destroy :: "websocket \<Rightarrow> websocket" where
  "ws_check_destroy w =
     (let w1 = (if \<not> ws_close_called w then ws_call_handler (On_close ''uncleanly'') w else w)
      in if ws_sending w1 = [] \<and> \<not> ws_is_reading w1 then w1\<lparr>ws_deleted := True\<rparr> else w1)"

definition ws_written :: "bool \<Rightarrow> websocket \<Rightarrow> websocket" where
  "ws_written ok w =
     (let w1 = w\<lparr>ws_sending := []\<rparr>
      in if ok \<and> \<not> ws_close_connection w1
         then let w2 = (if ws_waiting w1 \<noteq> [] then ws_do_write w1 else w1)
              in if ws_sent_close w2 then w2\<lparr>ws_close_connection := True\<rparr> else w2
         else ws_check_destroy (w1\<lparr>ws_close_connection := True\<rparr>))"

section \<open>Reading\<close>

definition ws_do_read :: "websocket \<Rightarrow> websocket" where
  "ws_do_read w =
     (let w1 = w\<lparr>ws_is_reading := True\<rparr>
      in case ws_state w1 of
           MiniHeader \<Rightarrow> w1\<lparr>ws_mini_header := 0\<rparr>
         | Len16 \<Rightarrow> w1\<lparr>ws_remaining := 0\<rparr>
         | Len64 \<Rightarrow> w1
         | ReadMask \<Rightarrow> if ws_has_mask w1 then w1 else w1\<lparr>ws_state := ReadPayload\<rparr>
         | ReadPayload \<Rightarrow> w1)"

text \<open>The least and the most bytes with which the read that was asked for completes.\<close>

definition ws_wanted :: "websocket \<Rightarrow> nat \<times> nat" where
  "ws_wanted w =
     (case ws_state w of
        MiniHeader \<Rightarrow> (1, 2)
      | Len16 \<Rightarrow> (2, 2)
      | Len64 \<Rightarrow> (8, 8)
      | ReadMask \<Rightarrow> (4, 4)
      | ReadPayload \<Rightarrow> (min 1 (ws_remaining w), min 4096 (ws_remaining w)))"

fun from_network :: "string \<Rightarrow> nat" where
  "from_network [] = 0"
| "from_network (c # cs) = byte c * 256 ^ length cs + from_network cs"

definition is_FIN :: "websocket \<Rightarrow> bool" where
  "is_FIN w \<longleftrightarrow> odd (ws_mini_header w div 32768)"

definition opcode :: "websocket \<Rightarrow> nat" where
  "opcode w = ws_mini_header w div 256 mod 16"

definition xor_char :: "char \<Rightarrow> char \<Rightarrow> char" where
  "xor_char c d = char_of ((of_char c :: nat) XOR of_char d)"

definition masked :: "string \<Rightarrow> string \<Rightarrow> string" where
  "masked m s = map (\<lambda>i. xor_char (s ! i) (m ! (i mod 4))) [0..<length s]"

definition ws_deliver :: "websocket \<Rightarrow> websocket" where
  "ws_deliver w =
     (let w1 = w\<lparr>ws_message := ws_message w @ ws_fragment w\<rparr>
      in if is_FIN w1 then (ws_call_handler (On_message (ws_message w1) (ws_binary w1)) w1)\<lparr>ws_message := []\<rparr> else w1)"

text \<open>A second close frame lets the connection go: it may be gone when its fragment is cleared.\<close>

definition ws_close_received :: "websocket \<Rightarrow> websocket" where
  "ws_close_received w =
     (let w1 = w\<lparr>ws_recv_close := True\<rparr>
      in if \<not> ws_sent_close w1 then ws_close (ws_fragment w1) w1
         else let w2 = w1\<lparr>ws_socket := False, ws_close_connection := True\<rparr>;
                  w3 = (if \<not> ws_close_called w2
                        then (ws_call_handler (On_close (ws_fragment w2)) w2)\<lparr>ws_close_called := True\<rparr> else w2)
              in ws_check_destroy w3)"

definition handle_fragment :: "websocket \<Rightarrow> websocket result" where
  "handle_fragment w0 =
     (let w = (if ws_has_mask w0 then w0\<lparr>ws_fragment := masked (ws_mask w0) (ws_fragment w0)\<rparr> else w0);
          w1 = (if opcode w = 0 then ws_deliver w
                else if opcode w = 1 then ws_deliver (w\<lparr>ws_binary := False\<rparr>)
                else if opcode w = 2 then ws_deliver (w\<lparr>ws_binary := True\<rparr>)
                else if opcode w = 8 then ws_close_received w
                else if opcode w = 9 then send_pong (ws_fragment w) w
                else if opcode w = 10 then w\<lparr>ws_pong := True\<rparr>
                else w)
      in if ws_deleted w1 then Inl Use_after_free else Inr (w1\<lparr>ws_fragment := []\<rparr>))"

definition ws_header_read :: "string \<Rightarrow> websocket \<Rightarrow> websocket" where
  "ws_header_read bs w0 =
     (let h = byte (bs ! 0) * 256 + (if length bs = 2 then byte (bs ! 1) else 0);
          w = w0\<lparr>ws_is_reading := False, ws_mini_header := h, ws_has_mask := odd (h div 128)\<rparr>
      in ws_do_read
           (if h mod 128 = 127 then w\<lparr>ws_state := Len64\<rparr>
            else if h mod 128 = 126 then w\<lparr>ws_state := Len16\<rparr>
            else w\<lparr>ws_remaining := h mod 128, ws_state := ReadMask\<rparr>))"

definition ws_payload_read :: "string \<Rightarrow> websocket \<Rightarrow> websocket result" where
  "ws_payload_read bs w0 =
     (let w = w0\<lparr>ws_is_reading := False, ws_fragment := ws_fragment w0 @ bs, ws_remaining := ws_remaining w0 - length bs\<rparr>
      in if ws_remaining w = 0
         then map_sum id (\<lambda>w1. ws_do_read (w1\<lparr>ws_state := MiniHeader\<rparr>)) (handle_fragment w)
         else Inr (ws_do_read w))"

definition ws_read_done :: "string \<Rightarrow> websocket \<Rightarrow> websocket result" where
  "ws_read_done bs w =
     (case ws_state w of
        MiniHeader \<Rightarrow> Inr (ws_header_read bs w)
      | Len16 \<Rightarrow> Inr (ws_do_read (w\<lparr>ws_is_reading := False, ws_remaining := from_network bs, ws_state := ReadMask\<rparr>))
      | Len64 \<Rightarrow> Inr (ws_do_read (w\<lparr>ws_is_reading := False, ws_remaining := from_network bs, ws_state := ReadMask\<rparr>))
      | ReadMask \<Rightarrow> Inr (ws_do_read (w\<lparr>ws_is_reading := False, ws_mask := bs, ws_state := ReadPayload\<rparr>))
      | ReadPayload \<Rightarrow> ws_payload_read bs w)"

text \<open>A read that fails. In the last two states nothing checks whether the connection can go.\<close>

definition ws_read_failed :: "websocket \<Rightarrow> websocket" where
  "ws_read_failed w =
     (let w1 = ws_call_handler On_error (w\<lparr>ws_is_reading := False, ws_close_connection := True, ws_socket := False\<rparr>)
      in if ws_state w \<in> {ReadMask, ReadPayload} then w1 else ws_check_destroy w1)"

section \<open>The connection\<close>

definition magic_string :: string where
  "magic_string = ''258EAFA5-E914-47DA-95CA-C5AB0DC85B11''"

definition ws_accept_key :: "8 word list \<Rightarrow> string \<Rightarrow> string" where
  "ws_accept_key garbage key =
     base64encode (getDigestBytes (processBytes (map (\<lambda>c. of_nat (byte c)) (key @ magic_string)) (sha1_reset garbage)))"

definition ws_start :: "string \<Rightarrow> websocket \<Rightarrow> websocket" where
  "ws_start hello w =
     ws_do_read (ws_call_handler On_open (ws_do_write (w\<lparr>ws_waiting := ws_waiting w @
       [''HTTP/1.1 101 Switching Protocols'' @ [cr, lf] @ ''Upgrade: websocket'' @ [cr, lf] @
        ''Connection: Upgrade'' @ [cr, lf] @ ''Sec-WebSocket-Accept: '',
        hello, [cr, lf], [cr, lf]]\<rparr>)))"

text \<open>
  The constructor. \<open>accept\<close> is the answer of the handler that may turn a client away, if there is one; \<open>binary\<close> and \<open>mk\<close>
  are what uninitialised members hold.
\<close>

definition ws_new :: "bool \<Rightarrow> string \<Rightarrow> websocket" where
  "ws_new binary mk =
     \<lparr>ws_sending = [], ws_waiting = [], ws_binary = binary, ws_message = [], ws_fragment = [], ws_state = MiniHeader,
      ws_remaining = 0, ws_close_connection = False, ws_is_reading = False, ws_has_mask = False, ws_mask = mk,
      ws_mini_header = 0, ws_sent_close = False, ws_recv_close = False, ws_pong = False, ws_close_called = False,
      ws_socket = True, ws_deleted = False, ws_log = [], ws_out = []\<rparr>"

definition ws_connect :: "8 word list \<Rightarrow> bool \<Rightarrow> string \<Rightarrow> bool option \<Rightarrow> request \<Rightarrow> websocket" where
  "ws_connect garbage binary mk accept req =
     (let w = ws_new binary mk
      in if \<not> ci_key_eq (request_get_header_value req ''upgrade'') ''websocket'' \<or> accept = Some False
         then w\<lparr>ws_socket := False, ws_deleted := True\<rparr>
         else ws_start (ws_accept_key garbage (request_get_header_value req ''Sec-WebSocket-Key'')) w)"

datatype ws_event =
    Ws_read string
  | Ws_read_error
  | Ws_written bool
  | Ws_text string
  | Ws_binary string
  | Ws_ping string
  | Ws_pong string
  | Ws_close string

text \<open>
  Which events can happen: a read completes only when one is pending, with a number of bytes that it may complete with, and a write only
  when one is pending. The application may call at any time.
\<close>

definition ws_can :: "ws_event \<Rightarrow> websocket \<Rightarrow> bool" where
  "ws_can e w =
     (case e of
        Ws_read bs \<Rightarrow> ws_is_reading w \<and> fst (ws_wanted w) \<le> length bs \<and> length bs \<le> snd (ws_wanted w)
      | Ws_read_error \<Rightarrow> ws_is_reading w
      | Ws_written ok \<Rightarrow> ws_sending w \<noteq> []
      | _ \<Rightarrow> True)"

text \<open>An event that cannot happen has no successor, \<open>None\<close>; one that happens to a deleted connection is a fault.\<close>

definition ws_step :: "ws_event \<Rightarrow> websocket \<Rightarrow> websocket result option" where
  "ws_step e w =
     (if \<not> ws_can e w then None
      else if ws_deleted w then Some (Inl Use_after_free)
      else Some (case e of
             Ws_read bs \<Rightarrow> ws_read_done bs w
           | Ws_read_error \<Rightarrow> Inr (ws_read_failed w)
           | Ws_written ok \<Rightarrow> Inr (ws_written ok w)
           | Ws_text msg \<Rightarrow> Inr (send_text msg w)
           | Ws_binary msg \<Rightarrow> Inr (send_binary msg w)
           | Ws_ping msg \<Rightarrow> Inr (send_ping msg w)
           | Ws_pong msg \<Rightarrow> Inr (send_pong msg w)
           | Ws_close msg \<Rightarrow> Inr (ws_close msg w)))"

text \<open>A sequence of events, every one of which has to happen: \<open>None\<close> if one cannot. A fault ends the run.\<close>

fun ws_run :: "ws_event list \<Rightarrow> websocket \<Rightarrow> websocket result option" where
  "ws_run [] w = Some (Inr w)"
| "ws_run (e # es) w =
     (case ws_step e w of
        None \<Rightarrow> None
      | Some (Inl f) \<Rightarrow> if es = [] then Some (Inl f) else None
      | Some (Inr w') \<Rightarrow> ws_run es w')"

end
