(* ===== verification/Crow_Websocket_Proofs.thy ===== *)
theory Crow_Websocket_Proofs
  imports Crow_Websocket
begin

text \<open>
  How \<^verbatim>\<open>crow::websocket::Connection\<close> (lib/crowapi/crow_all.h) reads a frame: whatever pieces the payload arrives in, the connection reaches
  \<open>handle_fragment\<close> with the payload, and is back at the header afterwards.
\<close>

section \<open>Numbers and masks\<close>

lemma from_network_order: "from_network (network_order k n) = n mod 256 ^ k"
proof (induction k)
  case (Suc k)
  have "network_order (Suc k) n = char_of (n div 256 ^ k mod 256) # network_order k n" by (simp add: network_order_def)
  moreover have "length (network_order k n) = k" by (simp add: network_order_def)
  moreover have "n mod (256 ^ k * 256) = 256 ^ k * (n div 256 ^ k mod 256) + n mod 256 ^ k" by (rule mod_mult2_eq)
  ultimately show ?case using Suc by (simp add: mult.commute)
qed (simp add: network_order_def)

lemma length_network_order [simp]: "length (network_order k n) = k"
  by (simp add: network_order_def)

lemma byte_take_bit: "(of_char c :: nat) = take_bit 8 (of_char c)"
  by (simp add: take_bit_eq_mod)

lemma byte_xor_char: "(of_char (xor_char c d) :: nat) = of_char c XOR of_char d"
proof -
  have "(of_char (xor_char c d) :: nat) = take_bit 8 (of_char c XOR of_char d)"
    by (simp add: xor_char_def take_bit_eq_mod)
  also have "\<dots> = of_char c XOR of_char d"
    by (simp only: take_bit_xor byte_take_bit [symmetric])
  finally show ?thesis .
qed

lemma xor_char_twice [simp]: "xor_char (xor_char c d) d = c"
proof -
  have "(of_char (xor_char (xor_char c d) d) :: nat) = of_char c" by (simp add: byte_xor_char xor.assoc)
  then show ?thesis by simp
qed

text \<open>
  How a client masks a payload (RFC 6455, section 5.3), stated on its own: the octets of the key are used in turn and start again after the
  fourth, and the exclusive or of two octets is that of their bits.
\<close>

fun xor_octet :: "char \<Rightarrow> char \<Rightarrow> char" where
  "xor_octet (Char a0 a1 a2 a3 a4 a5 a6 a7) (Char b0 b1 b2 b3 b4 b5 b6 b7) =
     Char (a0 \<noteq> b0) (a1 \<noteq> b1) (a2 \<noteq> b2) (a3 \<noteq> b3) (a4 \<noteq> b4) (a5 \<noteq> b5) (a6 \<noteq> b6) (a7 \<noteq> b7)"

fun client_mask :: "string \<Rightarrow> string \<Rightarrow> string" where
  "client_mask key [] = []"
| "client_mask key (c # s) = xor_octet c (hd key) # client_mask (rotate1 key) s"

lemma bit_of_char:
  "bit (of_char (Char b0 b1 b2 b3 b4 b5 b6 b7) :: nat) k \<longleftrightarrow> k < 8 \<and> [b0, b1, b2, b3, b4, b5, b6, b7] ! k"
  unfolding of_char_def char.sel bit_horner_sum_bit_iff by (simp add: numeral_eq_Suc)

lemma xor_char_octet: "xor_char c d = xor_octet c d"
  by (cases c; cases d) (simp only: xor_char_def char_of_def bit_xor_iff bit_of_char xor_octet.simps; simp)

lemma length_masked [simp]: "length (masked m s) = length s"
  by (simp add: masked_def)

lemma length_client_mask [simp]: "length (client_mask key s) = length s"
  by (induction s arbitrary: key) simp_all

lemma client_mask_nth:
  assumes "length key = 4" and "i < length s"
  shows "client_mask key s ! i = xor_octet (s ! i) (key ! (i mod 4))"
  using assms
proof (induction s arbitrary: key i)
  case (Cons c s)
  obtain a b d e where k: "key = [a, b, d, e]" using Cons.prems(1) by (auto simp: numeral_eq_Suc length_Suc_conv)
  show ?case
  proof (cases i)
    case (Suc j)
    have "rotate1 key ! (j mod 4) = key ! (Suc j mod 4)"
      using nth_rotate1 [of "j mod 4" key] by (simp add: k mod_Suc_eq)
    then show ?thesis using Cons.IH [of "rotate1 key" j] Cons.prems Suc by simp
  qed (simp add: k)
qed simp

lemma unmask: "length m = 4 \<Longrightarrow> masked m (client_mask m s) = s"
  by (rule nth_equalityI) (simp_all add: masked_def client_mask_nth xor_char_octet [symmetric])

section \<open>Frames\<close>

text \<open>A frame as a client writes it, cut into the pieces in which the connection reads it.\<close>

definition length_code :: "nat \<Rightarrow> nat" where
  "length_code n = (if n < 126 then n else if n < 65536 then 126 else 127)"

definition frame_head :: "bool \<Rightarrow> nat \<Rightarrow> bool \<Rightarrow> nat \<Rightarrow> string" where
  "frame_head fin op has_mk n =
     [char_of ((if fin then 128 else 0) + op), char_of ((if has_mk then 128 else 0) + length_code n)]"

definition header_word :: "bool \<Rightarrow> nat \<Rightarrow> bool \<Rightarrow> nat \<Rightarrow> nat" where
  "header_word fin op has_mk n = ((if fin then 128 else 0) + op) * 256 + (if has_mk then 128 else 0) + length_code n"

definition frame_length :: "nat \<Rightarrow> string list" where
  "frame_length n = (if n < 126 then [] else if n < 65536 then [network_order 2 n] else [network_order 8 n])"

definition on_the_wire :: "string option \<Rightarrow> string \<Rightarrow> string" where
  "on_the_wire mk payload = (case mk of None \<Rightarrow> payload | Some m \<Rightarrow> client_mask m payload)"

lemma length_on_the_wire [simp]: "length (on_the_wire mk payload) = length payload"
  by (cases mk) (simp_all add: on_the_wire_def)

definition frame_pieces :: "bool \<Rightarrow> nat \<Rightarrow> string option \<Rightarrow> string list \<Rightarrow> string list" where
  "frame_pieces fin op mk ps =
     frame_head fin op (mk \<noteq> None) (length (concat ps)) # frame_length (length (concat ps)) @
     (case mk of None \<Rightarrow> [] | Some m \<Rightarrow> [m]) @ ps"

text \<open>The pieces of a payload: none is empty or larger than the buffer, but an empty payload is one empty piece.\<close>

definition payload_pieces :: "string list \<Rightarrow> bool" where
  "payload_pieces ps \<longleftrightarrow> ps = [[]] \<or> ps \<noteq> [] \<and> (\<forall>p \<in> set ps. p \<noteq> [] \<and> length p \<le> 4096)"

definition ws_ready :: "websocket \<Rightarrow> bool" where
  "ws_ready w \<longleftrightarrow> ws_is_reading w \<and> \<not> ws_deleted w \<and> ws_state w = MiniHeader \<and> ws_fragment w = []"

definition at_fragment :: "bool \<Rightarrow> nat \<Rightarrow> string option \<Rightarrow> string \<Rightarrow> websocket \<Rightarrow> websocket" where
  "at_fragment fin op mk wire w =
     w\<lparr>ws_is_reading := False, ws_state := ReadPayload, ws_remaining := 0, ws_has_mask := mk \<noteq> None,
       ws_mask := (case mk of None \<Rightarrow> ws_mask w | Some m \<Rightarrow> m),
       ws_mini_header := header_word fin op (mk \<noteq> None) (length wire),
       ws_fragment := wire\<rparr>"

lemma ws_run_append:
  "ws_run (es @ fs) w =
     (case ws_run es w of
        None \<Rightarrow> None
      | Some (Inl f) \<Rightarrow> if fs = [] then Some (Inl f) else None
      | Some (Inr w') \<Rightarrow> ws_run fs w')"
  by (induction es arbitrary: w) (auto split: sum.splits option.splits)

definition read_again :: "websocket result \<Rightarrow> websocket result" where
  "read_again r = map_sum id (\<lambda>w. ws_do_read (w\<lparr>ws_state := MiniHeader\<rparr>)) r"

lemma payload_reads:
  "payload_pieces ps \<Longrightarrow> ws_is_reading w \<Longrightarrow> \<not> ws_deleted w \<Longrightarrow> ws_state w = ReadPayload \<Longrightarrow>
   ws_remaining w = length (concat ps) \<Longrightarrow>
   ws_run (map Ws_read ps) w =
     Some (read_again (handle_fragment (w\<lparr>ws_is_reading := False, ws_fragment := ws_fragment w @ concat ps, ws_remaining := 0\<rparr>)))"
proof (induction ps arbitrary: w)
  case Nil
  then show ?case by (simp add: payload_pieces_def)
next
  case (Cons p ps)
  show ?case
  proof (cases "ps = []")
    case True
    then have p: "p = [] \<or> length p \<le> 4096" using Cons.prems(1) by (auto simp: payload_pieces_def)
    have "ws_step (Ws_read p) w = Some (ws_payload_read p w)"
      using Cons.prems p True by (auto simp: ws_step_def ws_can_def ws_wanted_def ws_read_done_def)
    then show ?thesis
      using True Cons.prems by (simp add: ws_payload_read_def read_again_def Let_def split: sum.splits)
  next
    case False
    then have p: "length p \<le> 4096" "p \<noteq> []" and ps: "payload_pieces ps" "concat ps \<noteq> []"
      using Cons.prems(1) by (auto simp: payload_pieces_def neq_Nil_conv)
    let ?w = "w\<lparr>ws_fragment := ws_fragment w @ p, ws_remaining := length (concat ps)\<rparr>"
    have "ws_step (Ws_read p) w = Some (ws_payload_read p w)"
      using Cons.prems p by (auto simp: ws_step_def ws_can_def ws_wanted_def ws_read_done_def Suc_le_eq)
    also have "\<dots> = Some (Inr ?w)"
      using Cons.prems ps(2) by (cases w) (auto simp: ws_payload_read_def ws_do_read_def Let_def)
    finally have "ws_run (map Ws_read (p # ps)) w = ws_run (map Ws_read ps) ?w" by simp
    then show ?thesis using Cons.IH [OF ps(1), of ?w] Cons.prems by simp
  qed
qed

lemma length_code_less: "length_code n < 128"
  by (simp add: length_code_def)

lemma header_word_bits:
  assumes "op < 16"
  shows "byte (frame_head fin op has_mk n ! 0) * 256 + byte (frame_head fin op has_mk n ! 1) = header_word fin op has_mk n"
    and "odd (header_word fin op has_mk n div 128) = has_mk"
    and "header_word fin op has_mk n mod 128 = length_code n"
    and "header_word fin op has_mk n div 256 mod 16 = op"
    and "odd (header_word fin op has_mk n div 32768) = fin"
proof -
  define l m f where "l = length_code n" and "m = (if has_mk then 1 else 0 :: nat)" and "f = (if fin then 1 else 0 :: nat)"
  let ?h = "header_word fin op has_mk n"
  have l: "l < 128" by (simp add: l_def length_code_less)
  have m: "m < 2" "odd m = has_mk" by (simp_all add: m_def)
  have f: "odd f = fin" "f \<le> 1" by (simp_all add: f_def)
  have 128: "?h = l + (2 * (128 * f + op) + m) * 128" by (simp add: header_word_def l_def m_def f_def)
  have 256: "?h = (m * 128 + l) + (128 * f + op) * 256" by (simp add: header_word_def l_def m_def f_def)
  have d256: "?h div 256 = 128 * f + op" unfolding 256 using l m(1) by (subst div_mult_self1) simp_all
  show "byte (frame_head fin op has_mk n ! 0) * 256 + byte (frame_head fin op has_mk n ! 1) = ?h"
    using assms l by (simp add: header_word_def frame_head_def l_def)
  have "?h div 128 = 2 * (128 * f + op) + m" unfolding 128 using l by (subst div_mult_self1) simp_all
  then show "odd (?h div 128) = has_mk" using m(2) by simp
  show "?h mod 128 = length_code n" unfolding 128 using l by (simp only: mod_mult_self1 mod_less l_def)
  have "(128 * f + op) mod 16 = (op + 8 * f * 16) mod 16" by (simp add: algebra_simps)
  then show "?h div 256 mod 16 = op" unfolding d256 using assms by (simp only: mod_mult_self1 mod_less)
  have "?h div 32768 = ?h div 256 div 128" by (simp add: div_mult2_eq [symmetric])
  also have "\<dots> = (op + f * 128) div 128" unfolding d256 by (simp add: algebra_simps)
  also have "\<dots> = f" using assms by simp
  finally show "odd (?h div 32768) = fin" using f by simp
qed

text \<open>Header, length and mask, up to the payload.\<close>

lemma head_reads:
  assumes w: "ws_ready w" and op: "op < 16" and n: "n < 2 ^ 64" and mk: "mk = None \<or> (\<exists>m. mk = Some m \<and> length m = 4)"
  shows "ws_run (map Ws_read (frame_head fin op (mk \<noteq> None) n # frame_length n @ (case mk of None \<Rightarrow> [] | Some m \<Rightarrow> [m]))) w
    = Some (Inr (w\<lparr>ws_state := ReadPayload, ws_remaining := n, ws_has_mask := mk \<noteq> None,
             ws_mask := (case mk of None \<Rightarrow> ws_mask w | Some m \<Rightarrow> m),
             ws_mini_header := header_word fin op (mk \<noteq> None) n\<rparr>))"
proof -
  let ?h = "header_word fin op (mk \<noteq> None) n"
  note bits = header_word_bits [OF op, of fin "mk \<noteq> None" n]
  have num: "n < 126 \<Longrightarrow> length_code n = n" "n \<ge> 126 \<Longrightarrow> n < 65536 \<Longrightarrow> length_code n = 126"
    "n \<ge> 65536 \<Longrightarrow> length_code n = 127" by (simp_all add: length_code_def)
  have be: "n < 65536 \<Longrightarrow> from_network (network_order 2 n) = n" "from_network (network_order 8 n) = n"
    using n by (simp_all add: from_network_order)
  have head: "ws_step (Ws_read (frame_head fin op (mk \<noteq> None) n)) w = Some (Inr (ws_do_read (
      if length_code n = 127 then w\<lparr>ws_is_reading := False, ws_mini_header := ?h, ws_has_mask := mk \<noteq> None, ws_state := Len64\<rparr>
      else if length_code n = 126 then w\<lparr>ws_is_reading := False, ws_mini_header := ?h, ws_has_mask := mk \<noteq> None, ws_state := Len16\<rparr>
      else w\<lparr>ws_is_reading := False, ws_mini_header := ?h, ws_has_mask := mk \<noteq> None, ws_remaining := length_code n, ws_state := ReadMask\<rparr>)))"
    using w bits(1-3)
    by (simp add: ws_step_def ws_can_def ws_wanted_def ws_ready_def ws_read_done_def ws_header_read_def Let_def frame_head_def)
  show ?thesis
  proof (cases mk)
    case None
    then show ?thesis
      using w head num be
      by (cases w) (auto simp: frame_length_def ws_step_def ws_can_def ws_wanted_def ws_ready_def ws_read_done_def ws_do_read_def)
  next
    case (Some m)
    then show ?thesis
      using w head num be mk
      by (cases w) (auto simp: frame_length_def ws_step_def ws_can_def ws_wanted_def ws_ready_def ws_read_done_def ws_do_read_def)
  qed
qed

lemma frame_reads:
  assumes "ws_ready w" and "op < 16" and "length wire < 2 ^ 64" and "mk = None \<or> (\<exists>m. mk = Some m \<and> length m = 4)"
    and "payload_pieces ps" and "concat ps = wire"
  shows "ws_run (map Ws_read (frame_pieces fin op mk ps)) w = Some (read_again (handle_fragment (at_fragment fin op mk wire w)))"
proof -
  let ?w = "w\<lparr>ws_state := ReadPayload, ws_remaining := length wire, ws_has_mask := mk \<noteq> None,
             ws_mask := (case mk of None \<Rightarrow> ws_mask w | Some m \<Rightarrow> m),
             ws_mini_header := header_word fin op (mk \<noteq> None) (length wire)\<rparr>"
  have "map Ws_read (frame_pieces fin op mk ps) =
      map Ws_read (frame_head fin op (mk \<noteq> None) (length wire) # frame_length (length wire) @ (case mk of None \<Rightarrow> [] | Some m \<Rightarrow> [m]))
      @ map Ws_read ps"
    using assms(6) by (simp add: frame_pieces_def)
  then have "ws_run (map Ws_read (frame_pieces fin op mk ps)) w = ws_run (map Ws_read ps) ?w"
    using head_reads [OF assms(1-4), of fin] by (simp only: ws_run_append option.case sum.case)
  also have "\<dots> = Some (read_again (handle_fragment (?w\<lparr>ws_is_reading := False, ws_fragment := ws_fragment ?w @ concat ps, ws_remaining := 0\<rparr>)))"
    using assms(1,6) by (intro payload_reads [OF assms(5)]) (auto simp: ws_ready_def)
  also have "?w\<lparr>ws_is_reading := False, ws_fragment := ws_fragment ?w @ concat ps, ws_remaining := 0\<rparr> = at_fragment fin op mk wire w"
    using assms(1,6) by (simp add: at_fragment_def ws_ready_def)
  finally show ?thesis .
qed

section \<open>Whatever way the reads complete\<close>

text \<open>Pieces of a payload that can be read at all are pieces of the kind above.\<close>

lemma payload_forced:
  assumes "ws_run (map Ws_read ps) w \<noteq> None" and "ws_is_reading w" and "\<not> ws_deleted w" and "ws_state w = ReadPayload"
    and "ws_remaining w = length (concat ps)" and "ps \<noteq> []"
  shows "payload_pieces ps"
  using assms
proof (induction ps arbitrary: w)
  case (Cons p ps)
  have can: "min 1 (ws_remaining w) \<le> length p" "length p \<le> 4096"
    and step: "ws_step (Ws_read p) w = Some (ws_payload_read p w)"
    using Cons.prems by (auto simp: ws_step_def ws_can_def ws_wanted_def ws_read_done_def split: if_splits)
  show ?case
  proof (cases "concat ps = []")
    case True
    have rem: "ws_remaining w = length p" using Cons.prems(5) by (simp only: concat.simps True append_Nil2)
    have "ps = []"
    proof (rule ccontr)
      assume "ps \<noteq> []"
      then obtain qs where qs: "ps = [] # qs" using True by (cases ps) auto
      have "ws_payload_read p w = read_again (handle_fragment (w\<lparr>ws_is_reading := False, ws_fragment := ws_fragment w @ p, ws_remaining := 0\<rparr>))"
        using rem by (simp add: ws_payload_read_def read_again_def)
      moreover have "ws_step (Ws_read []) (ws_do_read (u\<lparr>ws_state := MiniHeader\<rparr>)) = None" for u
        by (simp add: ws_step_def ws_can_def ws_wanted_def ws_do_read_def)
      ultimately have "ws_run (map Ws_read (p # ps)) w = None"
        by (cases "handle_fragment (w\<lparr>ws_is_reading := False, ws_fragment := ws_fragment w @ p, ws_remaining := 0\<rparr>)")
           (simp_all add: step qs read_again_def)
      then show False using Cons.prems(1) by blast
    qed
    then show ?thesis using can Cons.prems(5) by (auto simp: payload_pieces_def)
  next
    case False
    let ?w = "w\<lparr>ws_fragment := ws_fragment w @ p, ws_remaining := length (concat ps)\<rparr>"
    have "ws_payload_read p w = Inr ?w"
      using Cons.prems False by (cases w) (auto simp: ws_payload_read_def ws_do_read_def Let_def)
    moreover have "ps \<noteq> []" using False by auto
    ultimately have "payload_pieces ps" using Cons.IH [of ?w] Cons.prems step by auto
    moreover have "0 < length (concat ps)" using False by (simp only: length_greater_0_conv not_False_eq_True)
    then have "p \<noteq> []" using can(1) Cons.prems(5) by (auto simp: min_def split: if_splits)
    ultimately show ?thesis using can(2) False by (auto simp: payload_pieces_def)
  qed
qed simp

text \<open>The pieces of an unmasked frame that can be read, when the two bytes of the header are one of them.\<close>

lemma frame_forced:
  assumes w: "ws_ready w" and op: "op < 16" and n: "length payload < 2 ^ 64"
    and wire: "concat ps = frame_head True op False (length payload) @ concat (frame_length (length payload)) @ payload"
    and head: "length (hd ps) = 2" and empty: "payload = [] \<Longrightarrow> last ps = []" and run: "ws_run (map Ws_read ps) w \<noteq> None"
  obtains qs where "ps = frame_pieces True op None qs" and "payload_pieces qs" and "concat qs = payload"
proof -
  let ?n = "length payload" and ?h = "frame_head True op False (length payload)"
  obtain p rs where ps: "ps = p # rs" using wire by (cases ps) (auto simp: frame_head_def)
  have "take 2 (concat ps) = ?h" using wire by (simp add: frame_head_def)
  then have p: "p = ?h" using head by (simp add: ps)
  then have rs: "concat rs = concat (frame_length ?n) @ payload" using wire by (simp add: ps)
  obtain qs where qs: "rs = frame_length ?n @ qs" "concat qs = payload"
  proof (cases "?n < 126")
    case True
    then show ?thesis using that [of rs] rs by (simp add: frame_length_def)
  next
    case False
    then obtain l qs where l: "rs = l # qs" using rs by (cases rs) (auto simp: frame_length_def network_order_def split: if_splits)
    have code: "length_code ?n = (if ?n < 65536 then 126 else 127)" using False by (simp add: length_code_def)
    have "length l = (if ?n < 65536 then 2 else 8)"
      using run w code header_word_bits(1,3) [OF op, of True False ?n]
      by (auto simp: ps p l ws_step_def ws_can_def ws_wanted_def ws_ready_def ws_read_done_def ws_header_read_def ws_do_read_def
          Let_def frame_head_def split: if_splits)
    then have "l = concat (frame_length ?n)" "concat qs = payload"
      using rs False by (auto simp: l frame_length_def append_eq_append_conv split: if_splits)
    then show ?thesis using that [of qs] False by (simp add: l frame_length_def split: if_splits)
  qed
  have pieces: "ps = (?h # frame_length ?n) @ qs" using ps p qs(1) by simp
  have "qs \<noteq> []"
  proof
    assume none: "qs = []"
    then have "payload = []" using qs(2) by simp
    with empty pieces none show False by (simp add: frame_length_def frame_head_def)
  qed
  let ?w = "w\<lparr>ws_state := ReadPayload, ws_remaining := ?n, ws_has_mask := False, ws_mask := ws_mask w,
             ws_mini_header := header_word True op False ?n\<rparr>"
  have "ws_run (map Ws_read (?h # frame_length ?n)) w = Some (Inr ?w)"
    using head_reads [OF w op n, of None True] by simp
  then have "ws_run (map Ws_read qs) ?w \<noteq> None"
    using run unfolding pieces map_append ws_run_append by simp
  then have "payload_pieces qs"
    using w qs(2) \<open>qs \<noteq> []\<close> by (intro payload_forced) (auto simp: ws_ready_def)
  moreover have "ps = frame_pieces True op None qs" by (simp add: pieces frame_pieces_def qs(2))
  ultimately show ?thesis using that qs(2) by blast
qed

end
