(* ===== verification/Websocket_Properties.thy ===== *)
theory Websocket_Properties
  imports Crow_Websocket_Proofs
begin

text \<open>
  What a websocket of lib/crowapi/crow_all.h does with the frames of its client: messages in fragments and pieces arrive whole and unmasked,
  and what one side sends the other reads. A close frame that answers one, and a header that arrives byte by byte, break it.
\<close>

section \<open>Messages\<close>

text \<open>
  A frame of a client: the masking key if there is one, the payload the client means, and the pieces in which its bytes, masked as
  the client masks them, arrive.
\<close>

type_synonym frame = "string option \<times> string \<times> string list"

definition good_frame :: "frame \<Rightarrow> bool" where
  "good_frame f \<longleftrightarrow>
     (case f of (mk, payload, ps) \<Rightarrow>
        payload_pieces ps \<and> concat ps = on_the_wire mk payload \<and> length payload < 2 ^ 64 \<and>
        (case mk of None \<Rightarrow> True | Some m \<Rightarrow> length m = 4))"

definition frame_payload :: "frame \<Rightarrow> string" where
  "frame_payload f = fst (snd f)"

lemma frame_payload_simp [simp]: "frame_payload (mk, payload, ps) = payload"
  by (simp add: frame_payload_def)

text \<open>A message in one or more frames: the first has the opcode, the last the FIN bit.\<close>

fun message_frames :: "nat \<Rightarrow> frame list \<Rightarrow> string list" where
  "message_frames op [] = []"
| "message_frames op ((mk, payload, ps) # fs) = frame_pieces (fs = []) op mk ps @ message_frames 0 fs"

lemma fragment_bits:
  assumes "op < 16"
  shows "opcode (at_fragment fin op mk wire w) = op" "is_FIN (at_fragment fin op mk wire w) = fin"
  using header_word_bits [OF assms] by (simp_all add: opcode_def is_FIN_def at_fragment_def)

lemma deliver_fields:
  "ws_message (ws_deliver w) = (if is_FIN w then [] else ws_message w @ ws_fragment w)"
  "ws_log (ws_deliver w) = ws_log w @ (if is_FIN w then [On_message (ws_message w @ ws_fragment w) (ws_binary w)] else [])"
  "ws_binary (ws_deliver w) = ws_binary w" "ws_out (ws_deliver w) = ws_out w" "ws_deleted (ws_deliver w) = ws_deleted w"
  by (simp_all add: ws_deliver_def Let_def ws_call_handler_def is_FIN_def)

lemma data_frame:
  assumes w: "ws_ready w" and op: "op = 0 \<or> op = 1 \<or> op = 2" and f: "good_frame (mk, payload, ps)"
  obtains w' where "ws_run (map Ws_read (frame_pieces fin op mk ps)) w = Some (Inr w')"
    and "ws_ready w'" and "ws_binary w' = (if op = 0 then ws_binary w else op = 2)"
    and "ws_message w' = (if fin then [] else ws_message w @ payload)"
    and "ws_log w' = ws_log w @ (if fin then [On_message (ws_message w @ payload) (ws_binary w')] else [])"
    and "ws_out w' = ws_out w"
proof -
  let ?v = "at_fragment fin op mk (concat ps) w"
  have op16: "op < 16" using op by auto
  have fin_op: "opcode ?v = op" "is_FIN ?v = fin" by (rule fragment_bits [OF op16])+
  have mk: "mk = None \<or> (\<exists>m. mk = Some m \<and> length m = 4)" using f by (auto simp: good_frame_def split: option.splits)
  have run: "ws_run (map Ws_read (frame_pieces fin op mk ps)) w = Some (read_again (handle_fragment ?v))"
    using f by (intro frame_reads [OF w op16 _ mk]) (auto simp: good_frame_def)
  define u where "u = (if mk = None then ?v else ?v\<lparr>ws_fragment := payload\<rparr>)"
  have plain: "mk = None \<Longrightarrow> concat ps = payload" "mk = Some m \<Longrightarrow> masked m (concat ps) = payload" for m
    using f by (auto simp: good_frame_def on_the_wire_def unmask)
  have u: "ws_fragment u = payload" "opcode u = op" "is_FIN u = fin" "\<not> ws_deleted u" "ws_log u = ws_log w"
    "ws_message u = ws_message w" "ws_binary u = ws_binary w" "ws_out u = ws_out w"
    using fin_op w plain(1) by (auto simp: u_def at_fragment_def opcode_def is_FIN_def ws_ready_def)
  have un: "(if ws_has_mask ?v then ?v\<lparr>ws_fragment := masked (ws_mask ?v) (ws_fragment ?v)\<rparr> else ?v) = u"
    using plain(2) by (cases mk) (simp_all add: u_def at_fragment_def)
  have "handle_fragment ?v = Inr ((ws_deliver (if op = 0 then u else u\<lparr>ws_binary := op = 2\<rparr>))\<lparr>ws_fragment := []\<rparr>)"
    unfolding handle_fragment_def Let_def un u(2) using op u(4) by (elim disjE) (simp_all add: deliver_fields)
  then have "ws_run (map Ws_read (frame_pieces fin op mk ps)) w
      = Some (Inr (ws_do_read ((ws_deliver (if op = 0 then u else u\<lparr>ws_binary := op = 2\<rparr>))\<lparr>ws_fragment := [], ws_state := MiniHeader\<rparr>)))"
    using run by (simp add: read_again_def)
  moreover define v where "v = (if op = 0 then u else u\<lparr>ws_binary := op = 2\<rparr>)"
  moreover have "is_FIN v = fin" "\<not> ws_deleted v" "ws_message v = ws_message w" "ws_fragment v = payload"
    "ws_log v = ws_log w" "ws_out v = ws_out w" "ws_binary v = (if op = 0 then ws_binary w else op = 2)"
    using u by (simp_all add: v_def is_FIN_def)
  ultimately show ?thesis
    by (intro that [of "ws_do_read ((ws_deliver v)\<lparr>ws_fragment := [], ws_state := MiniHeader\<rparr>)"])
       (simp_all add: ws_ready_def ws_do_read_def deliver_fields)
qed

lemma message_frames_deliver:
  assumes "ws_ready w" and "op = 0 \<or> op = 1 \<or> op = 2" and "fs \<noteq> []" and "\<And>f. f \<in> set fs \<Longrightarrow> good_frame f"
  shows "\<exists>w'. ws_run (map Ws_read (message_frames op fs)) w = Some (Inr w') \<and> ws_ready w' \<and> ws_message w' = []
    \<and> ws_log w' = ws_log w @ [On_message (ws_message w @ concat (map frame_payload fs)) (if op = 0 then ws_binary w else op = 2)]
    \<and> ws_out w' = ws_out w"
  using assms
proof (induction fs arbitrary: w op)
  case (Cons f fs)
  obtain mk payload ps where f: "f = (mk, payload, ps)" by (cases f)
  obtain w1 where run: "ws_run (map Ws_read (frame_pieces (fs = []) op mk ps)) w = Some (Inr w1)" and r: "ws_ready w1"
    and b: "ws_binary w1 = (if op = 0 then ws_binary w else op = 2)"
    and m: "ws_message w1 = (if fs = [] then [] else ws_message w @ payload)"
    and l: "ws_log w1 = ws_log w @ (if fs = [] then [On_message (ws_message w @ payload) (ws_binary w1)] else [])"
    and out: "ws_out w1 = ws_out w"
    using data_frame [OF Cons.prems(1,2), of mk payload ps "fs = []"] Cons.prems(4) [of f] f by auto
  show ?case
  proof (cases "fs = []")
    case True
    then show ?thesis using run r b m l out by (simp add: f ws_run_append)
  next
    case False
    from Cons.IH [OF r _ False, of 0] Cons.prems(4) [OF list.set_intros(2)]
    obtain w' where "ws_run (map Ws_read (message_frames 0 fs)) w1 = Some (Inr w')" "ws_ready w'" "ws_message w' = []"
      "ws_log w' = ws_log w1 @ [On_message (ws_message w1 @ concat (map frame_payload fs)) (ws_binary w1)]" "ws_out w' = ws_out w1"
      by auto
    then show ?thesis using False run b m l out by (simp add: f ws_run_append)
  qed
qed simp

text \<open>
  C32. A text or binary message in any number of fragments, each unmasked or masked by the client with a key of its own, whose
  payloads arrive in any pieces up to the size of the buffer - the two bytes of each frame's header together, as one completion of its
  read: every byte is read, the message handler is called once, with the payloads that the client masked, joined, and the kind of the
  message, nothing is written, and the connection is ready for the next frame.
\<close>

theorem message_delivered_once:
  assumes "ws_ready w" and "ws_message w = []" and "fs \<noteq> []" and "list_all good_frame fs"
  shows "\<exists>w'. ws_run (map Ws_read (message_frames (if binary then 2 else 1) fs)) w = Some (Inr w') \<and> ws_ready w' \<and> ws_message w' = []
    \<and> ws_log w' = ws_log w @ [On_message (concat (map frame_payload fs)) binary] \<and> ws_out w' = ws_out w"
  using message_frames_deliver [OF assms(1) _ assms(3), of "if binary then 2 else 1"] assms(2,4)
  by (auto simp: list_all_iff)

definition example_socket :: websocket where
  "example_socket = ws_start ''key'' (ws_new False ''0000'')"

lemma example_socket_ready: "ws_ready example_socket" "ws_message example_socket = []" "ws_log example_socket = [On_open]"
  by (simp_all add: example_socket_def ws_start_def ws_new_def ws_do_read_def ws_do_write_def ws_call_handler_def ws_ready_def)

theorem message_delivered_once_witness:
  "\<exists>w'. ws_run (map Ws_read (message_frames 1 [(Some ''abcd'', ''Hello'', [[CHR 0x29, CHR 0x07, CHR 0x0F], [CHR 0x08, CHR 0x0E]]), (None, '' you'', ['' you''])]))
      example_socket = Some (Inr w') \<and> ws_log w' = [On_open, On_message ''Hello you'' False]"
proof -
  have "list_all good_frame [(Some ''abcd'', ''Hello'', [[CHR 0x29, CHR 0x07, CHR 0x0F], [CHR 0x08, CHR 0x0E]]), (None, '' you'', ['' you''])]"
    by (simp add: good_frame_def payload_pieces_def on_the_wire_def)
  from message_delivered_once [OF example_socket_ready(1,2) _ this, of False] show ?thesis
    by (auto simp: example_socket_ready(3))
qed

lemma send_out: "ws_sending w = [] \<Longrightarrow> ws_waiting w = [] \<Longrightarrow> ws_out (ws_send op msg w) = ws_out w @ build_header op (length msg) @ msg"
  by (simp add: ws_send_def ws_do_write_def)

text \<open>One way to cut a payload: pieces of the size of the buffer.\<close>

function pieces_of :: "string \<Rightarrow> string list" where
  "pieces_of s = (if length s \<le> 4096 then [s] else take 4096 s # pieces_of (drop 4096 s))"
  by pat_completeness auto
termination
  by (relation "measure length") auto

declare pieces_of.simps [simp del]

lemma pieces_of_good: "payload_pieces (pieces_of s)" "concat (pieces_of s) = s"
proof -
  have "s \<noteq> [] \<Longrightarrow> pieces_of s \<noteq> [] \<and> (\<forall>p \<in> set (pieces_of s). p \<noteq> [] \<and> length p \<le> 4096)"
    by (induction s rule: pieces_of.induct) (subst (1 2) pieces_of.simps, auto)
  then show "payload_pieces (pieces_of s)"
    by (cases s) (auto simp: payload_pieces_def pieces_of.simps [of "[]"])
  show "concat (pieces_of s) = s"
    by (induction s rule: pieces_of.induct) (subst pieces_of.simps, auto)
qed

lemma pieces_of_last: "pieces_of [] = [[]]" "pieces_of s \<noteq> []"
  by (simp_all add: pieces_of.simps)

lemma frame_pieces_header: "concat (frame_pieces True op None ps) = build_header op (length (concat ps)) @ concat ps"
  by (simp add: frame_pieces_def frame_head_def frame_length_def build_header_def length_code_def)

text \<open>
  Bytes that reach a connection as the completions \<open>ps\<close> of its reads: they are exactly these bytes, each of the reads can complete like
  that, the two bytes of the header come together, and the read of no bytes that a frame without payload leads to has completed.
\<close>

definition arrives_as :: "string \<Rightarrow> string \<Rightarrow> string list \<Rightarrow> websocket \<Rightarrow> bool" where
  "arrives_as bytes payload ps v \<longleftrightarrow>
     concat ps = bytes \<and> length (hd ps) = 2 \<and> (payload = [] \<longrightarrow> last ps = []) \<and> ws_run (map Ws_read ps) v \<noteq> None"

text \<open>
  C33. A connection with nothing left to write writes a text of less than \<open>2 ^ 64\<close> bytes with \<open>send_text\<close>, and a connection that waits
  for a frame reads what was written: in whatever pieces its reads complete, as long as the two header bytes come together, it has consumed
  exactly the bytes written, has called its message handler once, with the same text, and waits for the next frame; and there is
  such a way for the reads to complete.
\<close>

theorem websocket_roundtrip:
  assumes "ws_sending w = []" and "ws_waiting w = []" and "length msg < 2 ^ 64" and "ws_ready v" and "ws_message v = []"
  shows "\<exists>bytes. ws_out (send_text msg w) = ws_out w @ bytes \<and> (\<exists>ps. arrives_as bytes msg ps v) \<and>
    (\<forall>ps. arrives_as bytes msg ps v \<longrightarrow>
       (\<exists>v'. ws_run (map Ws_read ps) v = Some (Inr v') \<and> ws_ready v' \<and> ws_message v' = [] \<and>
          ws_log v' = ws_log v @ [On_message msg False] \<and> ws_out v' = ws_out v))"
proof -
  let ?bytes = "build_header 1 (length msg) @ msg"
  have deliver: "\<exists>v'. ws_run (map Ws_read (frame_pieces True 1 None qs)) v = Some (Inr v') \<and> ws_ready v' \<and> ws_message v' = [] \<and>
      ws_log v' = ws_log v @ [On_message msg False] \<and> ws_out v' = ws_out v" if "payload_pieces qs" "concat qs = msg" for qs
    using message_frames_deliver [OF assms(4), of 1 "[(None, msg, qs)]"] assms(3,5) that
    by (auto simp: good_frame_def on_the_wire_def)
  have "arrives_as ?bytes msg (frame_pieces True 1 None (pieces_of msg)) v"
    unfolding arrives_as_def
  proof (intro conjI)
    show "concat (frame_pieces True 1 None (pieces_of msg)) = ?bytes"
      using frame_pieces_header [of 1 "pieces_of msg"] pieces_of_good(2) [of msg] by simp
    show "length (hd (frame_pieces True 1 None (pieces_of msg))) = 2" by (simp add: frame_pieces_def frame_head_def)
    show "msg = [] \<longrightarrow> last (frame_pieces True 1 None (pieces_of msg)) = []" by (simp add: frame_pieces_def pieces_of_last)
    show "ws_run (map Ws_read (frame_pieces True 1 None (pieces_of msg))) v \<noteq> None"
      using deliver [OF pieces_of_good] by auto
  qed
  moreover have "\<exists>v'. ws_run (map Ws_read ps) v = Some (Inr v') \<and> ws_ready v' \<and> ws_message v' = [] \<and>
      ws_log v' = ws_log v @ [On_message msg False] \<and> ws_out v' = ws_out v" if ps: "arrives_as ?bytes msg ps v" for ps
  proof -
    have "concat ps = frame_head True 1 False (length msg) @ concat (frame_length (length msg)) @ msg"
      using ps frame_pieces_header [of 1 "[msg]"] by (simp add: arrives_as_def frame_pieces_def)
    then obtain qs where "ps = frame_pieces True 1 None qs" "payload_pieces qs" "concat qs = msg"
      using ps frame_forced [OF assms(4) _ assms(3), of 1 ps] by (auto simp: arrives_as_def)
    then show ?thesis using deliver by blast
  qed
  moreover have "ws_out (send_text msg w) = ws_out w @ ?bytes"
    using assms(1,2) send_out [of w 1 msg] by (simp add: send_text_def)
  ultimately show ?thesis by blast
qed

theorem websocket_roundtrip_witness:
  "\<exists>v'. ws_out (send_text ''Hello'' (ws_new False [])) = [CHR 0x81, CHR 0x05] @ ''Hello''
    \<and> ws_run (map Ws_read [[CHR 0x81, CHR 0x05], ''He'', ''llo'']) example_socket = Some (Inr v')
    \<and> ws_log v' = [On_open, On_message ''Hello'' False]"
proof -
  have out: "ws_out (send_text ''Hello'' (ws_new False [])) = [CHR 0x81, CHR 0x05] @ ''Hello''"
    by code_simp
  have "ws_run (map Ws_read [[CHR 0x81, CHR 0x05], ''He'', ''llo'']) example_socket \<noteq> None"
    by (simp add: example_socket_def ws_start_def ws_new_def ws_do_read_def ws_do_write_def ws_call_handler_def ws_step_def ws_can_def
        ws_wanted_def ws_read_done_def ws_header_read_def ws_payload_read_def handle_fragment_def opcode_def Let_def)
  then have "arrives_as ([CHR 0x81, CHR 0x05] @ ''Hello'') ''Hello'' [[CHR 0x81, CHR 0x05], ''He'', ''llo''] example_socket"
    by (simp add: arrives_as_def)
  moreover have new: "ws_out (ws_new False []) = []" "ws_sending (ws_new False []) = []" "ws_waiting (ws_new False []) = []"
    by (simp_all add: ws_new_def)
  have "\<forall>ps. arrives_as ([CHR 0x81, CHR 0x05] @ ''Hello'') ''Hello'' ps example_socket \<longrightarrow>
      (\<exists>v'. ws_run (map Ws_read ps) example_socket = Some (Inr v') \<and> ws_log v' = [On_open, On_message ''Hello'' False])"
    using websocket_roundtrip [OF new(2,3) _ example_socket_ready(1,2), of "''Hello''"]
    unfolding out new(1) example_socket_ready(3) by auto
  ultimately show ?thesis using out by blast
qed

section \<open>Where it goes wrong\<close>

text \<open>
  The close handshake: the close frame of the client that reaches a connection which has sent its own and written it makes
  the connection delete itself and then clear its fragment, freed memory. A client can bring it about with two close frames.
\<close>

theorem close_reply_uses_freed_memory:
  assumes "ws_ready w" and "ws_sent_close w" and "ws_sending w = []" and "good_frame (mk, payload, ps)"
  shows "ws_run (map Ws_read (frame_pieces True 8 mk ps)) w = Some (Inl Use_after_free)"
proof -
  let ?v = "at_fragment True 8 mk (concat ps) w"
  have mk: "mk = None \<or> (\<exists>m. mk = Some m \<and> length m = 4)"
    using assms(4) by (auto simp: good_frame_def split: option.splits)
  have run: "ws_run (map Ws_read (frame_pieces True 8 mk ps)) w = Some (read_again (handle_fragment ?v))"
    using assms(4) by (intro frame_reads [OF assms(1) _ _ mk]) (auto simp: good_frame_def)
  define u where "u = (if ws_has_mask ?v then ?v\<lparr>ws_fragment := masked (ws_mask ?v) (ws_fragment ?v)\<rparr> else ?v)"
  have "opcode u = 8" using fragment_bits(1) [of 8 True mk "concat ps" w] by (simp add: u_def opcode_def)
  moreover have "ws_deleted (ws_close_received u)"
    using assms(2,3) by (simp add: u_def at_fragment_def ws_close_received_def ws_check_destroy_def ws_call_handler_def Let_def)
  ultimately have "handle_fragment ?v = Inl Use_after_free"
    by (simp add: handle_fragment_def Let_def u_def [symmetric])
  then show ?thesis using run by (simp add: read_again_def)
qed

theorem close_reply_uses_freed_memory_witness:
  "\<exists>w. ws_run [Ws_written True, Ws_close ''bye'', Ws_written True] example_socket = Some (Inr w)
    \<and> ws_run (map Ws_read (frame_pieces True 8 None [''bye''])) w = Some (Inl Use_after_free)"
proof -
  obtain w where run: "ws_run [Ws_written True, Ws_close ''bye'', Ws_written True] example_socket = Some (Inr w)"
    and w: "ws_ready w" "ws_sent_close w" "ws_sending w = []"
    by (simp add: example_socket_def ws_start_def ws_new_def ws_do_read_def ws_do_write_def ws_call_handler_def ws_ready_def
        ws_step_def ws_can_def ws_written_def ws_close_def ws_send_def Let_def)
  from close_reply_uses_freed_memory [OF w, of None "''bye''" "[''bye'']"] run show ?thesis
    by (auto simp: good_frame_def payload_pieces_def on_the_wire_def)
qed

text \<open>
  The first byte of a text frame that arrives alone: \<^verbatim>\<open>async_read_some\<close> completes with it, the missing byte counts as zero, and
  the application gets an empty message that no client sent; the rest of the frame is read as another header.
\<close>

theorem lone_header_byte_is_a_message:
  assumes "ws_ready w" and "ws_message w = []"
  shows "\<exists>w'. ws_run [Ws_read [CHR 0x81], Ws_read []] w = Some (Inr w') \<and> ws_ready w' \<and> ws_log w' = ws_log w @ [On_message [] False]"
proof -
  have "ws_step (Ws_read [CHR 0x81]) w = Some (Inr (w\<lparr>ws_mini_header := 33024, ws_has_mask := False, ws_remaining := 0, ws_state := ReadPayload\<rparr>))"
    using assms(1) by (cases w) (simp add: ws_step_def ws_can_def ws_wanted_def ws_ready_def ws_read_done_def ws_header_read_def ws_do_read_def)
  then show ?thesis
    using assms
    by (simp add: ws_step_def ws_can_def ws_wanted_def ws_ready_def ws_read_done_def ws_payload_read_def handle_fragment_def opcode_def
        deliver_fields is_FIN_def ws_do_read_def Let_def)
qed

theorem lone_header_byte_is_a_message_witness:
  "\<exists>w'. ws_run [Ws_read [CHR 0x81], Ws_read []] example_socket = Some (Inr w') \<and> ws_log w' = [On_open, On_message [] False]"
  using lone_header_byte_is_a_message [OF example_socket_ready(1,2)] by (auto simp: example_socket_ready(3))

end
