(* ===== verification/Crow_Multipart.thy ===== *)
theory Crow_Multipart
  imports Crow_Message
begin

text \<open>
  \<^verbatim>\<open>crow::multipart\<close> (lib/crowapi/crow_all.h): messages of several parts, their text and the parser of it. Positions are those of
  \<^verbatim>\<open>std::string::find\<close>; where nothing is found the code goes on with \<^verbatim>\<open>npos\<close>, and the sum of it and a number wraps around.
  A lookup that finds nothing and is dereferenced is a fault. The loop over the parts need not end: a parse that does not return is \<open>None\<close>.
  The parameters of a header are a \<^verbatim>\<open>std::unordered_map\<close>, headers and named parts \<^verbatim>\<open>std::unordered_multimap\<close>s: here
  they are lists, the entries of a parsed one in the order of insertion, those of a written one in the order in which \<open>dump\<close> meets them,
  whichever that is. The round trip is stated of maps and multisets.
\<close>

section \<open>Strings\<close>

fun str_find :: "string \<Rightarrow> string \<Rightarrow> nat option" where
  "str_find pat [] = (if pat = [] then Some 0 else None)"
| "str_find pat (c # cs) = (if take (length pat) (c # cs) = pat then Some 0 else map_option Suc (str_find pat cs))"

text \<open>\<^verbatim>\<open>found + k\<close>, where \<open>npos\<close> is the largest number, and \<^verbatim>\<open>substr(0, found)\<close>.\<close>

definition past :: "nat option \<Rightarrow> nat \<Rightarrow> nat" where
  "past found k = (case found of Some i \<Rightarrow> i + k | None \<Rightarrow> k - 1)"

definition upto_found :: "nat option \<Rightarrow> string \<Rightarrow> string" where
  "upto_found found s = (case found of Some i \<Rightarrow> take i s | None \<Rightarrow> s)"

text \<open>\<^verbatim>\<open>substr(pos)\<close> throws behind the end.\<close>

definition substr_from :: "nat \<Rightarrow> string \<Rightarrow> string result" where
  "substr_from pos s = (if length s < pos then Inl (Throw Out_of_range) else Inr (drop pos s))"

abbreviation crnl :: string where "crnl \<equiv> [cr, lf]"

section \<open>Messages\<close>

record mp_header =
  mp_value :: string
  mp_params :: "(string \<times> string) list"

record part =
  part_headers :: "(string \<times> mp_header) list"
  part_body :: string

record mp_message =
  mp_headers :: ci_map
  mp_boundary :: string
  mp_parts :: "part list"
  mp_part_map :: "(string \<times> part) list"

definition get_header_object :: "(string \<times> mp_header) list \<Rightarrow> string \<Rightarrow> mp_header" where
  "get_header_object hs key =
     (case find (\<lambda>(k, _). ci_key_eq k key) hs of Some (_, h) \<Rightarrow> h | None \<Rightarrow> \<lparr>mp_value = [], mp_params = []\<rparr>)"

text \<open>The name of a part: a parameter that is looked up and dereferenced.\<close>

definition part_name :: "part \<Rightarrow> string result" where
  "part_name p =
     (case map_of (mp_params (get_header_object (part_headers p) ''Content-Disposition'')) ''name'' of
        None \<Rightarrow> Inl Null_dereference
      | Some n \<Rightarrow> Inr n)"

definition get_part_by_name :: "mp_message \<Rightarrow> string \<Rightarrow> part result" where
  "get_part_by_name msg name =
     (case find (\<lambda>(k, _). ci_key_eq k name) (mp_part_map msg) of
        None \<Rightarrow> Inl Null_dereference
      | Some (_, p) \<Rightarrow> Inr p)"

section \<open>Writing\<close>

abbreviation quot :: char where "quot \<equiv> CHR 0x22"

definition pad_quotes :: "string \<Rightarrow> string" where
  "pad_quotes s = quot # s @ [quot]"

definition dump_param :: "string \<times> string \<Rightarrow> string" where
  "dump_param kv = ''; '' @ fst kv @ ''='' @ pad_quotes (snd kv)"

definition dump_header :: "string \<times> mp_header \<Rightarrow> string" where
  "dump_header kh = fst kh @ '': '' @ mp_value (snd kh) @ concat (map dump_param (mp_params (snd kh))) @ crnl"

definition dump_part :: "part \<Rightarrow> string" where
  "dump_part p = concat (map dump_header (part_headers p)) @ crnl @ part_body p @ crnl"

definition delimiter :: "string \<Rightarrow> string" where
  "delimiter boundary = ''--'' @ boundary"

definition mp_dump :: "mp_message \<Rightarrow> string" where
  "mp_dump msg =
     concat (map (\<lambda>p. delimiter (mp_boundary msg) @ crnl @ dump_part p) (mp_parts msg)) @
     delimiter (mp_boundary msg) @ ''--'' @ crnl"

section \<open>Reading\<close>

definition get_boundary :: "string \<Rightarrow> string result" where
  "get_boundary h =
     (let found = str_find ''boundary='' h
      in if found = Some 0 then Inr []
         else case substr_from (past found 9) h of
                Inl e \<Rightarrow> Inl e
              | Inr r \<Rightarrow> Inr (if r \<noteq> [] \<and> hd r = quot then take (length r - 2) (tl r) else r))"

definition trim_quotes :: "string \<Rightarrow> string" where
  "trim_quotes s = (if length s > 1 \<and> hd s = quot \<and> last s = quot then take (length s - 2) (tl s) else s)"

definition params_emplace :: "string \<Rightarrow> string \<Rightarrow> (string \<times> string) list \<Rightarrow> (string \<times> string) list" where
  "params_emplace k v ps = (if map_of ps k = None then ps @ [(k, v)] else ps)"

lemma past_pos: "0 < k \<Longrightarrow> k \<noteq> 1 \<Longrightarrow> 0 < past found k"
  by (auto simp: past_def split: option.splits)

text \<open>The parameters behind the value of a header.\<close>

function parse_params :: "string \<Rightarrow> (string \<times> string) list \<Rightarrow> (string \<times> string) list result" where
  "parse_params line ps =
     (if line = [] then Inr ps
      else let found = str_find ''; '' line;
               param = upto_found found line;
               rest = (case found of Some i \<Rightarrow> drop (i + 2) line | None \<Rightarrow> []);
               split = str_find ''='' param
           in case substr_from (past split 1) param of
                Inl e \<Rightarrow> Inl e
              | Inr v \<Rightarrow> parse_params rest (params_emplace (upto_found split param) (trim_quotes v) ps))"
  by pat_completeness auto
termination
  by (relation "measure (\<lambda>(line, ps). length line)") (auto split: option.splits)

declare parse_params.simps [simp del]

definition parse_head_line :: "string \<Rightarrow> (string \<times> mp_header) result" where
  "parse_head_line line =
     (if line = [] then Inr ([], \<lparr>mp_value = [], mp_params = []\<rparr>)
      else let found = str_find ''; '' line;
               h = upto_found found line;
               rest = (case found of Some i \<Rightarrow> drop (i + 2) line | None \<Rightarrow> []);
               split = str_find '': '' h
           in case substr_from (past split 2) h of
                Inl e \<Rightarrow> Inl e
              | Inr v \<Rightarrow>
                  map_sum id (\<lambda>ps. (upto_found split h, \<lparr>mp_value = v, mp_params = ps\<rparr>)) (parse_params rest []))"

function parse_section_head :: "string \<Rightarrow> (string \<times> mp_header) list \<Rightarrow> (string \<times> mp_header) list result" where
  "parse_section_head lines hs =
     (if lines = [] then Inr hs
      else let found = str_find crnl lines
           in case parse_head_line (upto_found found lines) of
                Inl e \<Rightarrow> Inl e
              | Inr kh \<Rightarrow> parse_section_head (drop (past found 2) lines) (hs @ [kh]))"
  by pat_completeness auto
termination
  by (relation "measure (\<lambda>(lines, hs). length lines)") (auto simp: past_pos)

declare parse_section_head.simps [simp del]

definition parse_section :: "string \<Rightarrow> part result" where
  "parse_section section =
     (let found = str_find (crnl @ crnl) section;
          rest = drop (past found 4) section
      in case parse_section_head (take (past found 2) section) [] of
           Inl e \<Rightarrow> Inl e
         | Inr hs \<Rightarrow>
             Inr \<lparr>part_headers = hs, part_body = (if length rest < 2 then rest else take (length rest - 2) rest)\<rparr>)"

partial_function (option) parse_body ::
  "string \<Rightarrow> string \<Rightarrow> (string \<times> part) list \<Rightarrow> (string \<times> part) list result option" where
  "parse_body delim txt acc =
     (if txt = crnl then Some (Inr acc)
      else let found = str_find delim txt;
               section = upto_found found txt;
               rest = drop (past found (length delim + 2)) txt
           in if section = [] then parse_body delim rest acc
              else case parse_section section of
                     Inl e \<Rightarrow> Some (Inl e)
                   | Inr p \<Rightarrow>
                       (case part_name p of
                          Inl e \<Rightarrow> Some (Inl e)
                        | Inr n \<Rightarrow> parse_body delim rest (acc @ [(n, p)])))"

definition message_of_request :: "request \<Rightarrow> mp_message result option" where
  "message_of_request req =
     (case get_boundary (get_header_value (req_headers req) ''Content-Type'') of
        Inl e \<Rightarrow> Some (Inl e)
      | Inr b \<Rightarrow>
          map_option
            (map_sum id (\<lambda>nps. \<lparr>mp_headers = req_headers req, mp_boundary = b, mp_parts = map snd nps, mp_part_map = nps\<rparr>))
            (parse_body (delimiter b) (req_body req) []))"

text \<open>The constructor from parts, and the type that is announced for a message.\<close>

fun names_of :: "part list \<Rightarrow> (string \<times> part) list result" where
  "names_of [] = Inr []"
| "names_of (p # ps) =
     (case part_name p of Inl e \<Rightarrow> Inl e | Inr n \<Rightarrow> map_sum id (\<lambda>nps. (n, p) # nps) (names_of ps))"

definition mk_message :: "ci_map \<Rightarrow> string \<Rightarrow> part list \<Rightarrow> mp_message result" where
  "mk_message hs b ps =
     map_sum id (\<lambda>nps. \<lparr>mp_headers = hs, mp_boundary = b, mp_parts = ps, mp_part_map = nps\<rparr>) (names_of ps)"

definition mp_content_type :: "string \<Rightarrow> string" where
  "mp_content_type b = ''multipart/form-data; boundary='' @ (if b = [] then ''CROW-BOUNDARY'' else b)"

end
