(* ===== verification/Multipart_Properties.thy ===== *)
theory Multipart_Properties
  imports Crow_Multipart "HOL-Library.Multiset"
begin

text \<open>
  What the multipart parser of lib/crowapi/crow_all.h reads of what \<open>dump\<close> writes: the parts, each with its headers, their
  parameters and its body, whatever the body holds but the delimiter. And when it does not come back.
\<close>

section \<open>Searching\<close>

lemma str_find_bound: "str_find pat s = Some i \<Longrightarrow> i + length pat \<le> length s"
proof (induction pat s arbitrary: i rule: str_find.induct)
  case (2 pat c cs)
  show ?case
  proof (cases "take (length pat) (c # cs) = pat")
    case True
    then have "length pat \<le> length (c # cs)" by (metis length_take min.cobounded1)
    then show ?thesis using True 2(2) by simp
  qed (use 2 in auto)
qed (auto split: if_splits)

lemma str_find_append: "str_find pat s = Some i \<Longrightarrow> str_find pat (s @ r) = Some i"
proof (induction pat s arbitrary: i rule: str_find.induct)
  case (1 pat)
  then show ?case by (cases r) (auto split: if_splits)
next
  case (2 pat c cs)
  have "length pat \<le> length (c # cs)" using str_find_bound [OF 2(2)] by simp
  then have "take (length pat) ((c # cs) @ r) = take (length pat) (c # cs)" by (cases pat) auto
  then show ?case using 2 by (auto split: if_splits)
qed

text \<open>A pattern that begins with a character which the text before it does not have.\<close>

lemma str_find_skip: "p \<notin> set s \<Longrightarrow> str_find (p # ps) (s @ r) = map_option ((+) (length s)) (str_find (p # ps) r)"
proof (induction s)
  case Nil
  then show ?case by (cases "str_find (p # ps) r") auto
next
  case (Cons c s)
  then show ?case by (cases "str_find (p # ps) r") auto
qed

lemma str_find_start: "str_find pat (pat @ r) = Some 0"
  by (cases pat; cases r) auto

lemma str_find_first: "p \<notin> set s \<Longrightarrow> str_find (p # ps) (s @ (p # ps) @ r) = Some (length s)"
  using str_find_skip [of p s ps "(p # ps) @ r"] str_find_start [of "p # ps" r] by simp

lemma str_find_none: "p \<notin> set s \<Longrightarrow> str_find (p # ps) s = None"
  using str_find_skip [of p s ps "[]"] by simp

section \<open>Headers\<close>

definition wf_param :: "string \<times> string \<Rightarrow> bool" where
  "wf_param kv \<longleftrightarrow>
     CHR ''='' \<notin> set (fst kv) \<and> CHR '';'' \<notin> set (fst kv) \<and> cr \<notin> set (fst kv) \<and> CHR '';'' \<notin> set (snd kv) \<and> cr \<notin> set (snd kv)"

definition wf_mp_header :: "string \<times> mp_header \<Rightarrow> bool" where
  "wf_mp_header kh \<longleftrightarrow>
     CHR '':'' \<notin> set (fst kh) \<and> CHR '';'' \<notin> set (fst kh) \<and> cr \<notin> set (fst kh) \<and>
     CHR '';'' \<notin> set (mp_value (snd kh)) \<and> cr \<notin> set (mp_value (snd kh)) \<and>
     list_all wf_param (mp_params (snd kh)) \<and> distinct (map fst (mp_params (snd kh)))"

lemma trim_pad [simp]: "trim_quotes (pad_quotes s) = s"
  by (simp add: trim_quotes_def pad_quotes_def)

definition param_text :: "string \<times> string \<Rightarrow> string" where
  "param_text kv = fst kv @ ''='' @ pad_quotes (snd kv)"

lemma dump_param_text: "dump_param kv = ''; '' @ param_text kv"
  by (simp add: dump_param_def param_text_def)

lemma parse_one_param:
  assumes "wf_param kv" and "map_of ps (fst kv) = None"
  shows "parse_params (param_text kv @ concat (map dump_param kvs)) ps =
    parse_params (case kvs of [] \<Rightarrow> [] | x # xs \<Rightarrow> param_text x @ concat (map dump_param xs)) (ps @ [kv])"
proof -
  have semi: "CHR '';'' \<notin> set (param_text kv)" using assms(1) by (auto simp: wf_param_def param_text_def pad_quotes_def)
  have split: "str_find ''='' (param_text kv) = Some (length (fst kv))"
    unfolding param_text_def using assms(1) by (intro str_find_first) (simp add: wf_param_def)
  have val: "substr_from (past (Some (length (fst kv))) 1) (param_text kv) = Inr (pad_quotes (snd kv))"
    by (simp add: substr_from_def past_def param_text_def)
  have key: "upto_found (Some (length (fst kv))) (param_text kv) = fst kv" by (simp add: upto_found_def param_text_def)
  have ne: "param_text kv \<noteq> []" by (simp add: param_text_def)
  show ?thesis
  proof (cases kvs)
    case Nil
    then show ?thesis
      using str_find_none [OF semi, of "'' ''"] split val key ne assms(2)
      by (subst parse_params.simps) (simp add: upto_found_def [of None] params_emplace_def)
  next
    case (Cons x xs)
    have "str_find ''; '' (param_text kv @ ''; '' @ param_text x @ concat (map dump_param xs)) = Some (length (param_text kv))"
      by (rule str_find_first [OF semi])
    then show ?thesis
      using Cons split val key ne assms(2)
      by (subst parse_params.simps) (simp add: dump_param_text upto_found_def [of "Some (length (param_text kv))"] params_emplace_def)
  qed
qed

lemma parse_all_params:
  "list_all wf_param kvs \<Longrightarrow> distinct (map fst (ps @ kvs)) \<Longrightarrow>
   parse_params (case kvs of [] \<Rightarrow> [] | x # xs \<Rightarrow> param_text x @ concat (map dump_param xs)) ps = Inr (ps @ kvs)"
proof (induction kvs arbitrary: ps)
  case Nil
  then show ?case by (simp add: parse_params.simps)
next
  case (Cons kv kvs)
  have "map_of ps (fst kv) = None" using Cons.prems(2) by (auto simp: map_of_eq_None_iff)
  then show ?case
    using Cons parse_one_param [of kv ps kvs] by simp
qed

definition header_line :: "string \<times> mp_header \<Rightarrow> string" where
  "header_line kh = fst kh @ '': '' @ mp_value (snd kh) @ concat (map dump_param (mp_params (snd kh)))"

lemma dump_header_line: "dump_header kh = header_line kh @ crnl"
  by (simp add: dump_header_def header_line_def)

lemma header_line_cr: "wf_mp_header kh \<Longrightarrow> cr \<notin> set (header_line kh)"
  by (auto simp: wf_mp_header_def header_line_def wf_param_def list_all_iff dump_param_def pad_quotes_def)

lemma parse_header_line:
  assumes "wf_mp_header kh"
  shows "parse_head_line (header_line kh) = Inr kh"
proof -
  define h where "h = fst kh @ '': '' @ mp_value (snd kh)"
  have line: "header_line kh = h @ concat (map dump_param (mp_params (snd kh)))" by (simp add: header_line_def h_def)
  have semi: "CHR '';'' \<notin> set h" using assms by (auto simp: wf_mp_header_def h_def)
  have split: "str_find '': '' h = Some (length (fst kh))"
    unfolding h_def using assms by (intro str_find_first) (simp add: wf_mp_header_def)
  have parts: "substr_from (past (Some (length (fst kh))) 2) h = Inr (mp_value (snd kh))"
    "upto_found (Some (length (fst kh))) h = fst kh" by (simp_all add: substr_from_def past_def upto_found_def h_def)
  have ne: "h \<noteq> []" by (simp add: h_def)
  have ps: "parse_params (case mp_params (snd kh) of [] \<Rightarrow> [] | x # xs \<Rightarrow> param_text x @ concat (map dump_param xs)) [] = Inr (mp_params (snd kh))"
    using assms by (intro parse_all_params [where ps = "[]", simplified]) (auto simp: wf_mp_header_def)
  have "parse_head_line (header_line kh) = Inr (fst kh, \<lparr>mp_value = mp_value (snd kh), mp_params = mp_params (snd kh)\<rparr>)"
  proof (cases "mp_params (snd kh)")
    case Nil
    then show ?thesis
      using str_find_none [OF semi, of "'' ''"] split parts ps ne
      by (simp add: parse_head_line_def line Let_def upto_found_def [of None])
  next
    case (Cons x xs)
    have "str_find ''; '' (h @ ''; '' @ param_text x @ concat (map dump_param xs)) = Some (length h)"
      by (rule str_find_first [OF semi])
    then show ?thesis
      using Cons split parts ps ne
      by (simp add: parse_head_line_def line Let_def dump_param_text upto_found_def [of "Some (length h)"])
  qed
  then show ?thesis by (cases kh) simp
qed

section \<open>Parts\<close>

lemma header_line_not_empty: "header_line kh \<noteq> []"
  by (simp add: header_line_def)

lemma find_blank_line:
  "(\<And>l. l \<in> set ls \<Longrightarrow> l \<noteq> [] \<and> cr \<notin> set l) \<Longrightarrow> ls \<noteq> [] \<Longrightarrow>
   str_find (crnl @ crnl) (concat (map (\<lambda>l. l @ crnl) ls) @ crnl @ r) = Some (length (concat (map (\<lambda>l. l @ crnl) ls)) - 2)"
proof (induction ls)
  case (Cons l ls)
  have l: "cr \<notin> set l" using Cons.prems by auto
  have skip: "str_find (crnl @ crnl) (l @ u) = map_option ((+) (length l)) (str_find (crnl @ crnl) u)" for u
    using str_find_skip [OF l, of "[lf, cr, lf]"] by simp
  show ?case
  proof (cases ls)
    case Nil
    then show ?thesis using skip [of "crnl @ crnl @ r"] str_find_start [of "crnl @ crnl" r] by simp
  next
    case (Cons l2 ls2)
    let ?t = "concat (map (\<lambda>l. l @ crnl) ls) @ crnl @ r"
    obtain c cs where "l2 = c # cs" "c \<noteq> cr" using Cons.prems(1) [of l2] Cons by (cases l2) auto
    then have "str_find (crnl @ crnl) (crnl @ ?t) = map_option ((+) 2) (str_find (crnl @ crnl) ?t)"
      by (simp add: Cons option.map_comp comp_def)
    moreover have "str_find (crnl @ crnl) ?t = Some (length (concat (map (\<lambda>l. l @ crnl) ls)) - 2)"
      using Cons.IH Cons.prems Cons by simp
    moreover have "2 \<le> length (concat (map (\<lambda>l. l @ crnl) ls))" by (simp add: Cons)
    ultimately show ?thesis using skip [of "crnl @ ?t"] by simp
  qed
qed simp

lemma parse_head_lines:
  "list_all wf_mp_header hs \<Longrightarrow> parse_section_head (concat (map dump_header hs)) acc = Inr (acc @ hs)"
proof (induction hs arbitrary: acc)
  case Nil
  then show ?case by (simp add: parse_section_head.simps)
next
  case (Cons h hs)
  have "str_find crnl (header_line h @ crnl @ concat (map dump_header hs)) = Some (length (header_line h))"
    using Cons.prems by (intro str_find_first header_line_cr) simp
  then show ?case
    using Cons by (subst parse_section_head.simps)
      (simp add: dump_header_line [of h] upto_found_def past_def parse_header_line header_line_not_empty)
qed

lemma parse_dumped_part:
  assumes "list_all wf_mp_header (part_headers p)" and "part_headers p \<noteq> []"
  shows "parse_section (dump_part p) = Inr p"
proof -
  define t where "t = concat (map dump_header (part_headers p))"
  have lines: "t = concat (map (\<lambda>l. l @ crnl) (map header_line (part_headers p)))"
    by (simp add: t_def dump_header_line [THEN ext] comp_def)
  have found: "str_find (crnl @ crnl) (t @ crnl @ part_body p @ crnl) = Some (length t - 2)"
    unfolding lines using assms by (intro find_blank_line) (auto simp: list_all_iff header_line_cr header_line_not_empty)
  have len: "2 \<le> length t" using assms(2) by (cases "part_headers p") (simp_all add: t_def dump_header_line)
  have "take (length t - 2 + 2) (t @ crnl @ part_body p @ crnl) = t" "drop (length t - 2 + 4) (t @ crnl @ part_body p @ crnl) = part_body p @ crnl"
    using len by simp_all
  then show ?thesis
    using found parse_head_lines [OF assms(1), of "[]"] len
    by (simp add: parse_section_def dump_part_def t_def [symmetric] past_def Let_def)
qed

section \<open>Bodies\<close>

text \<open>
  A part that can be told from what follows it, with one header that gives its name: keys and values of headers and parameters are
  free of the characters that separate them, and the delimiter does not occur in the text of the part.
\<close>

definition wf_part :: "string \<Rightarrow> part \<Rightarrow> bool" where
  "wf_part delim p \<longleftrightarrow>
     list_all wf_mp_header (part_headers p) \<and> is_ok (part_name p) \<and>
     length (filter (\<lambda>kh. ci_key_eq (fst kh) ''Content-Disposition'') (part_headers p)) = 1 \<and>
     str_find delim (dump_part p @ delim) = Some (length (dump_part p))"

text \<open>The text behind the first delimiter and its line end; \<open>z\<close> is what stands for the last line end.\<close>

fun tail_text :: "string \<Rightarrow> string \<Rightarrow> part list \<Rightarrow> string" where
  "tail_text delim z [] = z"
| "tail_text delim z (p # ps) = dump_part p @ delim @ (if ps = [] then ''--'' else crnl) @ tail_text delim z ps"

definition named :: "part \<Rightarrow> string \<times> part" where
  "named p = (case part_name p of Inr n \<Rightarrow> (n, p) | Inl _ \<Rightarrow> ([], p))"

lemma parse_body_part:
  assumes "wf_part delim p" and "length sep = 2" and "delim \<noteq> []"
  shows "parse_body delim (dump_part p @ delim @ sep @ u) acc = parse_body delim u (acc @ [named p])"
proof -
  have found: "str_find delim (dump_part p @ delim @ sep @ u) = Some (length (dump_part p))"
    using assms(1) str_find_append [of delim "dump_part p @ delim" "length (dump_part p)" "sep @ u"] by (simp add: wf_part_def)
  have ne: "dump_part p \<noteq> []" "dump_part p @ delim @ sep @ u \<noteq> crnl"
    using assms(3) by (auto simp: dump_part_def append_eq_Cons_conv Cons_eq_append_conv)
  obtain n where n: "part_name p = Inr n" using assms(1) by (auto simp: wf_part_def is_ok_iff)
  have sec: "parse_section (dump_part p) = Inr p" using assms(1) by (intro parse_dumped_part) (auto simp: wf_part_def)
  have rest: "drop (past (Some (length (dump_part p))) (length delim + 2)) (dump_part p @ delim @ sep @ u) = u"
    using assms(2) by (simp add: past_def)
  have head: "upto_found (Some (length (dump_part p))) (dump_part p @ delim @ sep @ u) = dump_part p"
    by (simp add: upto_found_def)
  show ?thesis
    by (subst parse_body.simps) (simp only: ne if_False found Let_def head rest sec sum.case n named_def)
qed

lemma parse_body_tail:
  "list_all (wf_part delim) ps \<Longrightarrow> delim \<noteq> [] \<Longrightarrow>
   parse_body delim (tail_text delim z ps) acc = parse_body delim z (acc @ map named ps)"
proof (induction ps arbitrary: acc)
  case (Cons p ps)
  then show ?case
    using parse_body_part [of delim p "if ps = [] then ''--'' else crnl" "tail_text delim z ps" acc] by simp
qed simp

lemma parse_body_first:
  "delim \<noteq> [] \<Longrightarrow> length sep = 2 \<Longrightarrow> parse_body delim (delim @ sep @ u) acc = parse_body delim u acc"
  by (subst parse_body.simps) (auto simp: str_find_start upto_found_def past_def append_eq_Cons_conv)

lemma dump_text:
  "concat (map (\<lambda>p. delim @ crnl @ dump_part p) ps) @ delim @ ''--'' @ z = delim @ (if ps = [] then ''--'' else crnl) @ tail_text delim z ps"
  by (induction ps) (auto)

lemma delimiter_not_empty [simp]: "delimiter b \<noteq> []"
  by (simp add: delimiter_def)

lemma parse_dumped:
  assumes "list_all (wf_part (delimiter (mp_boundary msg))) (mp_parts msg)"
  shows "parse_body (delimiter (mp_boundary msg)) (mp_dump msg) [] = Some (Inr (map named (mp_parts msg)))"
proof -
  let ?d = "delimiter (mp_boundary msg)" and ?ps = "mp_parts msg"
  have "mp_dump msg = ?d @ (if ?ps = [] then ''--'' else crnl) @ tail_text ?d crnl ?ps"
    unfolding mp_dump_def by (rule dump_text)
  then have "parse_body ?d (mp_dump msg) [] = parse_body ?d crnl (map named ?ps)"
    using parse_body_tail [OF assms, of crnl "[]"] by (simp add: parse_body_first)
  then show ?thesis by (simp add: parse_body.simps)
qed

section \<open>Requests\<close>

text \<open>A boundary that the header of a request can announce: not empty, and not quoted.\<close>

definition plain_boundary :: "string \<Rightarrow> bool" where
  "plain_boundary b \<longleftrightarrow> b \<noteq> [] \<and> hd b \<noteq> quot"

lemma get_boundary_content_type:
  assumes "plain_boundary b"
  shows "get_boundary (mp_content_type b) = Inr b"
proof -
  have "str_find ''boundary='' (''multipart/form-data; '' @ ''boundary='' @ b) = Some (length ''multipart/form-data; '')"
    by (rule str_find_first) simp
  then show ?thesis
    using assms by (simp add: get_boundary_def mp_content_type_def plain_boundary_def past_def substr_from_def)
qed

text \<open>The contents of a part without the order of its containers: headers as a multiset, the parameters of each as a map.\<close>

definition header_contents :: "string \<times> mp_header \<Rightarrow> string \<times> string \<times> (string \<rightharpoonup> string)" where
  "header_contents kh = (fst kh, mp_value (snd kh), map_of (mp_params (snd kh)))"

definition part_contents :: "part \<Rightarrow> (string \<times> string \<times> (string \<rightharpoonup> string)) multiset \<times> string" where
  "part_contents p = (mset (map header_contents (part_headers p)), part_body p)"

lemma names_of_named: "list_all (wf_part delim) ps \<Longrightarrow> names_of ps = Inr (map named ps)"
  by (induction ps) (auto simp: wf_part_def is_ok_iff named_def)

text \<open>
  C36. A multipart message made from parts, dumped, and sent as the body of a request whose Content-Type is the one the message announces, is
  read back from that request: the constructor finds the boundary and returns a message with the same parts in the same order - the
  headers of each as a multiset, the parameters of each header as a map, and the body to the last byte - and with the same parts under the
  same names. The boundary is not empty and does not start with a quote, and the parts are such that they can be told apart: exactly one
  Content-Disposition header, with a name; no separating character in keys and values; no delimiter in a part.
\<close>

theorem multipart_roundtrip:
  assumes "mk_message hs b ps = Inr msg" and "plain_boundary b" and "list_all (wf_part (delimiter b)) ps"
    and "get_header_value (req_headers req) ''Content-Type'' = mp_content_type b" and "req_body req = mp_dump msg"
  shows "\<exists>m. message_of_request req = Some (Inr m) \<and> mp_boundary m = b \<and> mp_headers m = req_headers req \<and>
    map part_contents (mp_parts m) = map part_contents ps \<and>
    mset (map (apsnd part_contents) (mp_part_map m)) = mset (map (apsnd part_contents) (mp_part_map msg))"
proof -
  have msg: "mp_parts msg = ps" "mp_boundary msg = b" "mp_part_map msg = map named ps"
    using assms(1,3) names_of_named [OF assms(3)] by (auto simp: mk_message_def)
  have "map snd (map named ps) = ps"
    using assms(3) by (induction ps) (auto simp: named_def split: sum.splits)
  then show ?thesis
    using parse_dumped [of msg] assms(3-5) msg get_boundary_content_type [OF assms(2)] by (simp add: message_of_request_def multiset.map_comp)
qed

definition example_part :: part where
  "example_part = \<lparr>part_headers = [(''Content-Disposition'', \<lparr>mp_value = ''form-data'', mp_params = [(''name'', ''a'')]\<rparr>)], part_body = ''x''\<rparr>"

definition example_message :: mp_message where
  "example_message = \<lparr>mp_headers = [], mp_boundary = ''B'', mp_parts = [example_part], mp_part_map = [(''a'', example_part)]\<rparr>"

definition example_request :: request where
  "example_request = mk_request Post ''/'' ''/'' qs_empty [(''content-type'', ''multipart/form-data; boundary=B'')] (mp_dump example_message) 1 1 True False False"

lemma example_part_wf: "list_all (wf_part (delimiter ''B'')) [example_part]"
  by (simp add: example_part_def wf_part_def wf_mp_header_def wf_param_def part_name_def get_header_object_def ci_key_eq_def
      dump_part_def dump_header_def dump_param_def pad_quotes_def delimiter_def is_ok_def)

lemma example_message_wf: "list_all (wf_part (delimiter (mp_boundary example_message))) (mp_parts example_message)"
  using example_part_wf by (simp add: example_message_def)

theorem multipart_roundtrip_witness:
  "\<exists>m. message_of_request example_request = Some (Inr m) \<and> mp_boundary m = ''B'' \<and>
     map part_contents (mp_parts m) = [part_contents example_part] \<and>
     mset (map (apsnd part_contents) (mp_part_map m)) = {#(''a'', part_contents example_part)#}"
proof -
  have "mk_message [] ''B'' [example_part] = Inr example_message"
    by (simp add: mk_message_def example_message_def example_part_def part_name_def get_header_object_def ci_key_eq_def)
  moreover have "get_header_value (req_headers example_request) ''Content-Type'' = mp_content_type ''B''"
    by code_simp
  moreover have "req_body example_request = mp_dump example_message" by (simp add: example_request_def mk_request_def)
  ultimately show ?thesis
    using multipart_roundtrip [OF _ _ example_part_wf, of "[]" example_message example_request]
    by (auto simp: plain_boundary_def example_message_def)
qed

text \<open>The loop on an empty text goes round and round.\<close>

lemma parse_body_returns:
  assumes "parse_body delim txt acc = Some y"
  shows "delim \<noteq> [] \<longrightarrow> txt \<noteq> []"
proof (rule parse_body.raw_induct [where P = "\<lambda>d s a y. d \<noteq> [] \<longrightarrow> s \<noteq> []", OF _ assms], goal_cases)
  case (1 f d s a y)
  from 1(2) 1(1) [of d "[]" a y] show ?case by (auto simp: upto_found_def)
qed

lemma parse_body_empty_loops: "delim \<noteq> [] \<Longrightarrow> parse_body delim [] acc = None"
  using parse_body_returns [of delim "[]" acc] by (cases "parse_body delim [] acc") auto

text \<open>
  A dumped message that lacks its last line end - which a sender may leave out - is never parsed: the loop over the
  parts reaches the end of the text, finds no delimiter there, and goes on for ever.
\<close>

theorem missing_line_end_loops:
  assumes "list_all (wf_part (delimiter (mp_boundary msg))) (mp_parts msg)" and "mp_dump msg = txt @ crnl"
  shows "parse_body (delimiter (mp_boundary msg)) txt [] = None"
proof -
  let ?d = "delimiter (mp_boundary msg)" and ?ps = "mp_parts msg"
  have "txt = concat (map (\<lambda>p. ?d @ crnl @ dump_part p) ?ps) @ ?d @ ''--'' @ []"
    using assms(2) by (simp add: mp_dump_def)
  also have "\<dots> = ?d @ (if ?ps = [] then ''--'' else crnl) @ tail_text ?d [] ?ps" by (rule dump_text)
  finally have "parse_body ?d txt [] = parse_body ?d [] (map named ?ps)"
    using parse_body_tail [OF assms(1), of "[]" "[]"] by (simp add: parse_body_first)
  then show ?thesis by (simp add: parse_body_empty_loops)
qed

theorem missing_line_end_loops_witness:
  "parse_body ''--B'' (take (length (mp_dump example_message) - 2) (mp_dump example_message)) [] = None"
proof -
  have "mp_dump example_message = take (length (mp_dump example_message) - 2) (mp_dump example_message) @ crnl"
    by (simp add: mp_dump_def)
  from missing_line_end_loops [OF example_message_wf this] show ?thesis
    by (simp add: example_message_def delimiter_def)
qed

end
