(* ===== verification/Crow_Middleware.thy ===== *)
theory Crow_Middleware
  imports Crow_Multipart "HOL-Library.Sublist"
begin

text \<open>
  Middlewares (lib/crowapi/crow_all.h): the helpers that call them around a handler, and the three the header brings:
  \<^verbatim>\<open>UTF8\<close>, \<^verbatim>\<open>CookieParser\<close> and \<^verbatim>\<open>CORSHandler\<close>. What a middleware may change is the request,
  the response and the contexts of all middlewares, together the state of a chain. The tuple of middlewares is a list. The elements of a
  \<^verbatim>\<open>std::unordered_map\<close> are in the order of their insertion.
\<close>

section \<open>The chain\<close>

record 'c chain_state =
  ch_request :: request
  ch_response :: response
  ch_context :: 'c

record 'c middleware =
  call_global :: bool
  before_handle :: "'c chain_state \<Rightarrow> 'c chain_state"
  after_handle :: "'c chain_state \<Rightarrow> 'c chain_state"

definition is_completed :: "'c chain_state \<Rightarrow> bool" where
  "is_completed s \<longleftrightarrow> completed (ch_response s)"

text \<open>The second result tells whether a middleware ended the response.\<close>

fun middleware_call_helper :: "'c middleware list \<Rightarrow> 'c chain_state \<Rightarrow> 'c chain_state \<times> bool" where
  "middleware_call_helper [] s = (s, False)"
| "middleware_call_helper (m # ms) s =
     (if \<not> call_global m then middleware_call_helper ms s
      else let s1 = before_handle m s
           in if is_completed s1 then (after_handle m s1, True)
              else case middleware_call_helper ms s1 of
                     (s2, halted) \<Rightarrow> if halted then (after_handle m s2, True) else (s2, False))"

text \<open>The template parameter \<open>N\<close> of the code is one less than the second argument.\<close>

fun after_handlers_call_helper :: "'c middleware list \<Rightarrow> nat \<Rightarrow> 'c chain_state \<Rightarrow> 'c chain_state" where
  "after_handlers_call_helper ms 0 s = s"
| "after_handlers_call_helper ms (Suc n) s =
     after_handlers_call_helper ms n (if call_global (ms ! n) then after_handle (ms ! n) s else s)"

text \<open>
  What \<^verbatim>\<open>Connection::handle\<close> does with the chain, up to the state with which \<^verbatim>\<open>complete_request\<close> goes on to write the
  response. The second result of the handler tells whether it called the completion handler; if it did not yet, there is nothing to write.
\<close>

definition answered_by ::
  "'c middleware list \<Rightarrow> ('c chain_state \<Rightarrow> 'c chain_state \<times> bool) \<Rightarrow> 'c \<Rightarrow> request \<Rightarrow> response \<Rightarrow> 'c chain_state option" where
  "answered_by ms handler ctx req res =
     (let s = \<lparr>ch_request = req, ch_response = res\<lparr>has_complete_request_handler := True\<rparr>, ch_context = ctx\<rparr>;
          s1 = fst (middleware_call_helper ms s)
      in if \<not> is_completed s1
         then case handler s1 of
                (s2, called) \<Rightarrow> if called then Some (after_handlers_call_helper ms (length ms) s2) else None
         else Some s1)"

section \<open>Cookies\<close>

record cookie_context =
  jar :: "(string \<times> string) list"
  cookies_to_add :: "(string \<times> string) list"

definition get_cookie :: "cookie_context \<Rightarrow> string \<Rightarrow> string" where
  "get_cookie ctx key = (case map_of (jar ctx) key of Some v \<Rightarrow> v | None \<Rightarrow> [])"

definition set_cookie :: "string \<Rightarrow> string \<Rightarrow> cookie_context \<Rightarrow> cookie_context" where
  "set_cookie key v ctx = ctx\<lparr>cookies_to_add := params_emplace key v (cookies_to_add ctx)\<rparr>"

text \<open>\<^verbatim>\<open>boost::trim\<close> in the classic locale.\<close>

definition is_blank :: "char \<Rightarrow> bool" where
  "is_blank c \<longleftrightarrow> c = CHR '' '' \<or> 9 \<le> (of_char c :: nat) \<and> (of_char c :: nat) \<le> 13"

definition trim_blanks :: "string \<Rightarrow> string" where
  "trim_blanks s = rev (dropWhile is_blank (rev (dropWhile is_blank s)))"

definition unquoted :: "string \<Rightarrow> string" where
  "unquoted v = (if v \<noteq> [] \<and> hd v = quot \<and> last v = quot then take (length v - 2) (tl v) else v)"

definition skip_spaces :: "string \<Rightarrow> string" where
  "skip_spaces s = dropWhile (\<lambda>c. c = CHR '' '') s"

lemma skip_spaces_length: "length (skip_spaces s) \<le> length s"
  by (simp add: skip_spaces_def length_dropWhile_le)

text \<open>The loop over the text; the argument is what lies behind the position.\<close>

function cookie_loop :: "string \<Rightarrow> (string \<times> string) list \<Rightarrow> (string \<times> string) list" where
  "cookie_loop s js =
     (if s = [] then js
      else case str_find ''='' s of
             None \<Rightarrow> js
           | Some i \<Rightarrow>
               let name = trim_blanks (take i s);
                   r = skip_spaces (drop (i + 1) s)
               in if r = [] then js
                  else let found = str_find '';'' r;
                           js' = params_emplace name (unquoted (trim_blanks (upto_found found r))) js
                       in case found of
                            None \<Rightarrow> js'
                          | Some j \<Rightarrow> cookie_loop (skip_spaces (drop (j + 1) r)) js')"
  by pat_completeness auto
termination
proof (relation "measure (\<lambda>(s, js). length s)", goal_cases)
  case (2 s js i name r found js' j)
  have "length (skip_spaces (drop (j + 1) r)) \<le> length r - 1"
    using skip_spaces_length [of "drop (j + 1) r"] by simp
  moreover have "length r \<le> length s" "r \<noteq> []"
    using 2 skip_spaces_length [of "drop (i + 1) s"] by auto
  ultimately show ?case using 2(1) by (cases r) auto
qed simp

declare cookie_loop.simps [simp del]

definition cookie_before :: "cookie_context chain_state \<Rightarrow> cookie_context chain_state" where
  "cookie_before s =
     (let n = ci_count ''Cookie'' (req_headers (ch_request s))
      in if n = 0 then s
         else if n > 1 then s\<lparr>ch_response := fst (response_end ((ch_response s)\<lparr>code := 400\<rparr>))\<rparr>
         else s\<lparr>ch_context := (ch_context s)\<lparr>jar :=
                cookie_loop (request_get_header_value (ch_request s) ''Cookie'') (jar (ch_context s))\<rparr>\<rparr>)"

definition cookie_text :: "string \<times> string \<Rightarrow> string" where
  "cookie_text kv = fst kv @ ''='' @ (if snd kv = [] then [quot, quot] else snd kv)"

definition cookie_after :: "cookie_context chain_state \<Rightarrow> cookie_context chain_state" where
  "cookie_after s =
     s\<lparr>ch_response := fold (\<lambda>kv. add_header ''Set-Cookie'' (cookie_text kv)) (cookies_to_add (ch_context s)) (ch_response s)\<rparr>"

definition CookieParser :: "cookie_context middleware" where
  "CookieParser = \<lparr>call_global = True, before_handle = cookie_before, after_handle = cookie_after\<rparr>"

section \<open>UTF-8\<close>

definition utf8_after :: "'c chain_state \<Rightarrow> 'c chain_state" where
  "utf8_after s =
     (if get_header_value (headers (ch_response s)) ''Content-Type'' = []
      then s\<lparr>ch_response := set_header ''Content-Type'' ''text/plain; charset=utf-8'' (ch_response s)\<rparr> else s)"

definition UTF8 :: "'c middleware" where
  "UTF8 = \<lparr>call_global = True, before_handle = id, after_handle = utf8_after\<rparr>"

section \<open>Cross-origin requests\<close>

record CORSRules =
  cors_ignore :: bool
  cors_origin :: string
  cors_methods :: string
  cors_headers :: string
  cors_max_age :: string
  cors_credentials :: bool

definition CORSRules_default :: CORSRules where
  "CORSRules_default =
     \<lparr>cors_ignore = False, cors_origin = ''*'', cors_methods = ''*'', cors_headers = ''*'', cors_max_age = [], cors_credentials = False\<rparr>"

definition add_list_item :: "string \<Rightarrow> string \<Rightarrow> string" where
  "add_list_item items v =
     (let items1 = (if items = ''*'' then [] else items);
          items2 = (if 0 < length items1 then items1 @ '', '' else items1)
      in items2 @ v)"

definition set_origin :: "string \<Rightarrow> CORSRules \<Rightarrow> CORSRules" where
  "set_origin origin r = r\<lparr>cors_origin := origin\<rparr>"

definition allow_methods :: "HTTPMethod list \<Rightarrow> CORSRules \<Rightarrow> CORSRules" where
  "allow_methods ms r = fold (\<lambda>m r. r\<lparr>cors_methods := add_list_item (cors_methods r) (method_name m)\<rparr>) ms r"

definition allow_headers :: "string list \<Rightarrow> CORSRules \<Rightarrow> CORSRules" where
  "allow_headers hs r = fold (\<lambda>h r. r\<lparr>cors_headers := add_list_item (cors_headers r) h\<rparr>) hs r"

definition set_max_age :: "int \<Rightarrow> CORSRules \<Rightarrow> CORSRules" where
  "set_max_age n r = r\<lparr>cors_max_age := to_string n\<rparr>"

definition allow_credentials :: "CORSRules \<Rightarrow> CORSRules" where
  "allow_credentials r = r\<lparr>cors_credentials := True\<rparr>"

definition ignore_cors :: "CORSRules \<Rightarrow> CORSRules" where
  "ignore_cors r = r\<lparr>cors_ignore := True\<rparr>"

definition set_header_no_override :: "string \<Rightarrow> string \<Rightarrow> response \<Rightarrow> response" where
  "set_header_no_override key v res =
     (if length v = 0 then res
      else if get_header_value (headers res) key \<noteq> [] then res
      else add_header key v res)"

definition apply_cors :: "CORSRules \<Rightarrow> response \<Rightarrow> response" where
  "apply_cors r res =
     (if cors_ignore r then res
      else let res1 = set_header_no_override ''Access-Control-Allow-Origin'' (cors_origin r) res;
               res2 = set_header_no_override ''Access-Control-Allow-Methods'' (cors_methods r) res1;
               res3 = set_header_no_override ''Access-Control-Allow-Headers'' (cors_headers r) res2;
               res4 = set_header_no_override ''Access-Control-Max-Age'' (cors_max_age r) res3
           in if cors_credentials r then set_header_no_override ''Access-Control-Allow-Credentials'' ''true'' res4 else res4)"

record CORSHandler =
  cors_rules :: "(string \<times> CORSRules) list"
  cors_default :: CORSRules

text \<open>A new rule for a prefix, which the calls chained to it change.\<close>

definition cors_prefix :: "string \<Rightarrow> (CORSRules \<Rightarrow> CORSRules) \<Rightarrow> CORSHandler \<Rightarrow> CORSHandler" where
  "cors_prefix p f h = h\<lparr>cors_rules := cors_rules h @ [(p, f CORSRules_default)]\<rparr>"

definition cors_global :: "(CORSRules \<Rightarrow> CORSRules) \<Rightarrow> CORSHandler \<Rightarrow> CORSHandler" where
  "cors_global f h = h\<lparr>cors_default := f (cors_default h)\<rparr>"

fun find_cors_rule :: "(string \<times> CORSRules) list \<Rightarrow> CORSRules \<Rightarrow> string \<Rightarrow> CORSRules" where
  "find_cors_rule [] d path = d"
| "find_cors_rule ((p, r) # rs) d path = (if take (length p) path = p then r else find_cors_rule rs d path)"

definition cors_after :: "CORSHandler \<Rightarrow> 'c chain_state \<Rightarrow> 'c chain_state" where
  "cors_after h s =
     s\<lparr>ch_response := apply_cors (find_cors_rule (cors_rules h) (cors_default h) (req_url (ch_request s))) (ch_response s)\<rparr>"

definition CORS :: "CORSHandler \<Rightarrow> 'c middleware" where
  "CORS h = \<lparr>call_global = True, before_handle = id, after_handle = cors_after h\<rparr>"

end
