(* ===== verification/Middleware_Properties.thy ===== *)
theory Middleware_Properties
  imports Crow_Middleware Multipart_Properties
begin

text \<open>
  Correctness of the middlewares: a handler is wrapped by the chain like the core of an onion, cookies that were set are read back, and
  the headers for cross-origin requests are those of the first rule that fits and override nothing.
\<close>

section \<open>Chains\<close>

definition globals :: "'c middleware list \<Rightarrow> 'c middleware list" where
  "globals ms = filter call_global ms"

lemma globals_simps [simp]:
  "globals [] = []" "globals (m # ms) = (if call_global m then m # globals ms else globals ms)"
  "globals (ms @ ms') = globals ms @ globals ms'"
  by (simp_all add: globals_def)

lemma after_handlers_take:
  "n \<le> length ms \<Longrightarrow> after_handlers_call_helper ms n s = fold after_handle (rev (globals (take n ms))) s"
  by (induction n arbitrary: s) (auto simp: take_Suc_conv_app_nth)

text \<open>The middlewares that were entered, and the state they leave behind.\<close>

definition entered :: "'c middleware list \<Rightarrow> 'c middleware list \<Rightarrow> 'c chain_state \<Rightarrow> bool" where
  "entered ms es s \<longleftrightarrow>
     prefix es (globals ms) \<and>
     list_all (\<lambda>n. \<not> is_completed (fold before_handle (take n es) s)) [0..<length es] \<and>
     (is_completed (fold before_handle es s) \<or> es = globals ms)"

lemma entered_first: "call_global m \<Longrightarrow> \<not> is_completed s \<Longrightarrow> is_completed (before_handle m s) \<Longrightarrow> entered (m # ms) [m] s"
  by (simp add: entered_def)

lemma entered_next:
  assumes "call_global m" "\<not> is_completed s" "entered ms es (before_handle m s)"
  shows "entered (m # ms) (m # es) s"
proof -
  have "\<not> is_completed (fold before_handle (take n (m # es)) s)" if "n < length (m # es)" for n
    using assms that by (cases n) (auto simp: entered_def list_all_iff)
  then show ?thesis using assms by (auto simp: entered_def list_all_iff)
qed

text \<open>What a chain relies on: \<^verbatim>\<open>after_handle\<close> does not take the end of a response back.\<close>

locale middleware_chain =
  fixes ms :: "'c middleware list"
  assumes after_keeps_completed: "m \<in> set ms \<Longrightarrow> is_completed s \<Longrightarrow> is_completed (after_handle m s)"
begin

lemma afters_keep_completed: "set es \<subseteq> set ms \<Longrightarrow> is_completed s \<Longrightarrow> is_completed (fold after_handle es s)"
  by (induction es arbitrary: s) (auto intro: after_keeps_completed)

end

lemma helper_enters:
  assumes "\<not> is_completed s"
  obtains es where "entered ms es s"
    "middleware_call_helper ms s =
       (if is_completed (fold before_handle es s)
        then (fold after_handle (rev es) (fold before_handle es s), True) else (fold before_handle es s, False))"
proof -
  have "\<exists>es. entered ms es s \<and>
    middleware_call_helper ms s =
       (if is_completed (fold before_handle es s)
        then (fold after_handle (rev es) (fold before_handle es s), True) else (fold before_handle es s, False))"
    using assms
  proof (induction ms arbitrary: s)
    case Nil
    then show ?case by (intro exI [of _ "[]"]) (simp add: entered_def)
  next
    case (Cons m ms)
    show ?case
    proof (cases "call_global m")
      case False
      then show ?thesis using Cons.IH [OF Cons.prems] by (auto simp: entered_def)
    next
      case True
      let ?s = "before_handle m s"
      show ?thesis
      proof (cases "is_completed ?s")
        case True
        with \<open>call_global m\<close> show ?thesis
          by (intro exI [of _ "[m]"]) (simp add: entered_first Cons.prems Let_def)
      next
        case False
        from Cons.IH [OF this] obtain es where es: "entered ms es ?s"
          "middleware_call_helper ms ?s =
             (if is_completed (fold before_handle es ?s)
              then (fold after_handle (rev es) (fold before_handle es ?s), True) else (fold before_handle es ?s, False))" by blast
        with False \<open>call_global m\<close> show ?thesis
          by (intro exI [of _ "m # es"]) (simp add: entered_next Cons.prems Let_def)
      qed
    qed
  qed
  then show ?thesis using that by blast
qed

context middleware_chain
begin

lemma chain_wraps:
  assumes "\<not> completed res"
  shows "\<exists>es s0. s0 = \<lparr>ch_request = req, ch_response = res\<lparr>has_complete_request_handler := True\<rparr>, ch_context = ctx\<rparr> \<and>
    entered ms es s0 \<and>
    answered_by ms handler ctx req res =
      (if is_completed (fold before_handle es s0) then Some (fold after_handle (rev es) (fold before_handle es s0))
       else case handler (fold before_handle es s0) of
              (s, called) \<Rightarrow> if called then Some (fold after_handle (rev es) s) else None)"
proof -
  let ?s0 = "\<lparr>ch_request = req, ch_response = res\<lparr>has_complete_request_handler := True\<rparr>, ch_context = ctx\<rparr>"
  have "\<not> is_completed ?s0" using assms by (simp add: is_completed_def)
  from helper_enters [OF this] obtain es where es: "entered ms es ?s0"
    "middleware_call_helper ms ?s0 =
       (if is_completed (fold before_handle es ?s0)
        then (fold after_handle (rev es) (fold before_handle es ?s0), True) else (fold before_handle es ?s0, False))" .
  have "set es \<subseteq> set ms"
    using es(1) set_mono_prefix [of es "globals ms"] by (auto simp: entered_def globals_def)
  then have keep: "is_completed (fold after_handle (rev es) s)" if "is_completed s" for s
    using afters_keep_completed [OF _ that, of "rev es"] by simp
  have "is_completed (fold before_handle es ?s0) \<or> es = globals ms" using es(1) by (simp add: entered_def)
  then show ?thesis using es keep
    by (intro exI [of _ es] exI [of _ ?s0]) (auto simp: answered_by_def Let_def after_handlers_take split: prod.split)
qed

end

section \<open>The middlewares of the header\<close>

lemma add_header_completed [simp]: "completed (add_header k v r) = completed r"
  by (simp add: add_header_def)

lemma no_override_completed [simp]: "completed (set_header_no_override k v r) = completed r"
  by (simp add: set_header_no_override_def)

lemma cookies_completed [simp]: "completed (fold (\<lambda>kv. add_header k (f kv)) kvs r) = completed r"
  by (induction kvs arbitrary: r) simp_all

lemma cookie_after_completed: "is_completed (cookie_after s) = is_completed s"
  by (simp add: is_completed_def cookie_after_def)

lemma utf8_after_completed: "is_completed (utf8_after s) = is_completed s"
  by (simp add: is_completed_def utf8_after_def set_header_def)

lemma cors_after_completed: "is_completed (cors_after h s) = is_completed s"
  by (simp add: is_completed_def cors_after_def apply_cors_def Let_def)

interpretation header_chain: middleware_chain "[UTF8, CookieParser, CORS h]" for h
  by unfold_locales
    (auto simp: UTF8_def CookieParser_def CORS_def utf8_after_completed cookie_after_completed cors_after_completed)


definition two_cookies :: request where
  "two_cookies = mk_request Get ''/'' ''/'' qs_empty [(''Cookie'', ''a=1''), (''cookie'', ''b=2'')] [] 1 1 True False False"

text \<open>
  C37. A handler under a chain of middlewares, none of which takes the end of a response back, for any request, response and
  handler: the middlewares are entered in their order up to the first that ends the response; the ones that were entered are left in the
  reverse order, each once; the handler runs between exactly when none ended the response.
\<close>

theorem middlewares_wrap_handler:
  assumes "middleware_chain ms" and "\<not> completed res"
  shows "\<exists>es s0. s0 = \<lparr>ch_request = req, ch_response = res\<lparr>has_complete_request_handler := True\<rparr>, ch_context = ctx\<rparr> \<and>
    entered ms es s0 \<and>
    answered_by ms handler ctx req res =
      (if is_completed (fold before_handle es s0) then Some (fold after_handle (rev es) (fold before_handle es s0))
       else case handler (fold before_handle es s0) of
              (s, called) \<Rightarrow> if called then Some (fold after_handle (rev es) s) else None)"
  using assms by (rule middleware_chain.chain_wraps)

text \<open>Two headers with cookies: the second middleware ends the response, and the first is left as well.\<close>

theorem middlewares_wrap_handler_witness:
  "let ms = [UTF8, CookieParser, CORS \<lparr>cors_rules = [], cors_default = CORSRules_default\<rparr>];
       handler = (\<lambda>s. (s, True));
       ctx = \<lparr>jar = [], cookies_to_add = [(''k'', [])]\<rparr>
   in (\<exists>es s0. s0 = \<lparr>ch_request = two_cookies, ch_response = response_default\<lparr>has_complete_request_handler := True\<rparr>, ch_context = ctx\<rparr> \<and>
        entered ms es s0 \<and>
        answered_by ms handler ctx two_cookies response_default =
          (if is_completed (fold before_handle es s0) then Some (fold after_handle (rev es) (fold before_handle es s0))
           else case handler (fold before_handle es s0) of
                  (s, called) \<Rightarrow> if called then Some (fold after_handle (rev es) s) else None)) \<and>
      map_option (\<lambda>s. (code (ch_response s), headers (ch_response s))) (answered_by ms handler ctx two_cookies response_default) =
        Some (400, [(''Set-Cookie'', ''k='' @ [quot, quot]), (''Content-Type'', ''text/plain; charset=utf-8'')])"
proof -
  let ?h = "\<lparr>cors_rules = [], cors_default = CORSRules_default\<rparr>"
  let ?ctx = "\<lparr>jar = [], cookies_to_add = [(''k'', [])]\<rparr>"
  have "\<not> completed response_default" by (simp add: response_default_def)
  moreover have "map_option (\<lambda>s. (code (ch_response s), headers (ch_response s)))
      (answered_by [UTF8, CookieParser, CORS ?h] (\<lambda>s. (s, True)) ?ctx two_cookies response_default) =
    Some (400, [(''Set-Cookie'', ''k='' @ [quot, quot]), (''Content-Type'', ''text/plain; charset=utf-8'')])" by code_simp
  ultimately show ?thesis
    using middlewares_wrap_handler [OF header_chain.middleware_chain_axioms [of ?h], where res = response_default
        and req = two_cookies and ctx = ?ctx and handler = "\<lambda>s. (s, True)"]
    unfolding Let_def by blast
qed

section \<open>Cookies\<close>

lemma trim_blanks_id: "trim_blanks s = s \<Longrightarrow> s \<noteq> [] \<Longrightarrow> \<not> is_blank (hd s)"
proof
  assume trim: "trim_blanks s = s" and s: "s \<noteq> []" "is_blank (hd s)"
  have "length (trim_blanks s) \<le> length (dropWhile is_blank s)"
    using length_dropWhile_le [of is_blank "rev (dropWhile is_blank s)"] by (simp add: trim_blanks_def)
  also have "length (dropWhile is_blank s) < length s"
    using s length_dropWhile_le [of is_blank "tl s"] by (cases s) auto
  finally show False using trim by simp
qed

lemma skip_spaces_id: "s = [] \<or> \<not> is_blank (hd s) \<Longrightarrow> skip_spaces s = s"
  by (cases s) (auto simp: skip_spaces_def is_blank_def)

text \<open>A cookie that can be told from its surroundings.\<close>

definition wf_cookie :: "string \<times> string \<Rightarrow> bool" where
  "wf_cookie kv \<longleftrightarrow>
     CHR ''='' \<notin> set (fst kv) \<and> trim_blanks (fst kv) = fst kv \<and>
     CHR '';'' \<notin> set (snd kv) \<and> trim_blanks (snd kv) = snd kv \<and> unquoted (snd kv) = snd kv"

definition cookie_value :: "string \<Rightarrow> string" where
  "cookie_value v = (if v = [] then [quot, quot] else v)"

lemma cookie_text_value: "cookie_text kv = fst kv @ CHR ''='' # cookie_value (snd kv)"
  by (simp add: cookie_text_def cookie_value_def)

lemma cookie_value_facts:
  assumes "wf_cookie kv"
  shows "cookie_value (snd kv) \<noteq> []" "skip_spaces (cookie_value (snd kv) @ r) = cookie_value (snd kv) @ r"
    "CHR '';'' \<notin> set (cookie_value (snd kv))" "unquoted (trim_blanks (cookie_value (snd kv))) = snd kv"
proof -
  show nonempty: "cookie_value (snd kv) \<noteq> []" by (simp add: cookie_value_def)
  have "\<not> is_blank (hd (cookie_value (snd kv)))"
    using assms trim_blanks_id [of "snd kv"] by (auto simp: cookie_value_def wf_cookie_def is_blank_def)
  then show "skip_spaces (cookie_value (snd kv) @ r) = cookie_value (snd kv) @ r"
    using nonempty by (intro skip_spaces_id) simp
  show "CHR '';'' \<notin> set (cookie_value (snd kv))" using assms by (simp add: cookie_value_def wf_cookie_def)
  have "unquoted (trim_blanks [quot, quot]) = []" by code_simp
  then show "unquoted (trim_blanks (cookie_value (snd kv))) = snd kv"
    using assms by (auto simp: cookie_value_def wf_cookie_def)
qed

text \<open>The header of a client that has the cookies.\<close>

fun cookie_line :: "(string \<times> string) list \<Rightarrow> string" where
  "cookie_line [] = []"
| "cookie_line [kv] = cookie_text kv"
| "cookie_line (kv # kvs) = cookie_text kv @ ''; '' @ cookie_line kvs"

lemma cookie_line_start: "list_all wf_cookie kvs \<Longrightarrow> skip_spaces (cookie_line kvs) = cookie_line kvs"
proof (rule skip_spaces_id, cases kvs)
  case (Cons kv rest)
  assume "list_all wf_cookie kvs"
  then have "trim_blanks (fst kv) = fst kv" by (simp add: Cons wf_cookie_def)
  then have "\<not> is_blank (hd (fst kv @ CHR ''='' # r))" for r
    using trim_blanks_id [of "fst kv"] by (cases "fst kv") (auto simp: is_blank_def)
  then show "cookie_line kvs = [] \<or> \<not> is_blank (hd (cookie_line kvs))"
    by (cases rest) (simp_all add: Cons cookie_text_value)
qed simp

lemma find_equals: "wf_cookie kv \<Longrightarrow> str_find ''='' (cookie_text kv @ r) = Some (length (fst kv))"
  using str_find_first [of "CHR ''=''" "fst kv" "[]" "cookie_value (snd kv) @ r"] by (simp add: cookie_text_value wf_cookie_def)

lemma cookie_loop_found:
  assumes "s \<noteq> []" "str_find ''='' s = Some i" "skip_spaces (drop (i + 1) s) = w" "w \<noteq> []"
  shows "cookie_loop s js =
    (case str_find '';'' w of
       None \<Rightarrow> params_emplace (trim_blanks (take i s)) (unquoted (trim_blanks w)) js
     | Some j \<Rightarrow> cookie_loop (skip_spaces (drop (j + 1) w)) (params_emplace (trim_blanks (take i s)) (unquoted (trim_blanks (take j w))) js))"
  using assms by (simp add: cookie_loop.simps [of s] upto_found_def split: option.split)

lemma cookie_step:
  assumes "wf_cookie kv"
  shows "cookie_loop (cookie_text kv @ r) js =
    (case str_find '';'' (cookie_value (snd kv) @ r) of
       None \<Rightarrow> params_emplace (fst kv) (unquoted (trim_blanks (cookie_value (snd kv) @ r))) js
     | Some j \<Rightarrow> cookie_loop (skip_spaces (drop (j + 1) (cookie_value (snd kv) @ r)))
         (params_emplace (fst kv) (unquoted (trim_blanks (take j (cookie_value (snd kv) @ r)))) js))"
proof -
  have fields: "trim_blanks (take (length (fst kv)) (cookie_text kv @ r)) = fst kv"
    "drop (length (fst kv) + 1) (cookie_text kv @ r) = cookie_value (snd kv) @ r" "cookie_text kv @ r \<noteq> []"
    using assms by (simp_all add: cookie_text_value wf_cookie_def)
  show ?thesis
    using cookie_loop_found [OF fields(3) find_equals [OF assms], of "cookie_value (snd kv) @ r"]
    unfolding fields using cookie_value_facts [OF assms] by blast
qed

lemma cookie_loop_line:
  "list_all wf_cookie kvs \<Longrightarrow> cookie_loop (cookie_line kvs) js = fold (\<lambda>kv. params_emplace (fst kv) (snd kv)) kvs js"
proof (induction kvs arbitrary: js rule: cookie_line.induct)
  case 1
  show ?case by (simp add: cookie_loop.simps)
next
  case (2 kv)
  then have wf: "wf_cookie kv" by simp
  have "str_find '';'' (cookie_value (snd kv)) = None"
    using cookie_value_facts(3) [OF wf] by (rule str_find_none)
  then show ?case using cookie_step [OF wf, of "[]" js] cookie_value_facts(4) [OF wf] by simp
next
  case (3 kv kv' kvs)
  then have wf: "wf_cookie kv" by simp
  have "str_find '';'' (cookie_value (snd kv) @ ''; '' @ cookie_line (kv' # kvs)) = Some (length (cookie_value (snd kv)))"
    using str_find_first [OF cookie_value_facts(3) [OF wf], of "[]"] by simp
  moreover have "skip_spaces ('' '' @ cookie_line (kv' # kvs)) = cookie_line (kv' # kvs)"
    using cookie_line_start [of "kv' # kvs"] 3(2) by (simp add: skip_spaces_def)
  ultimately show ?case
    using cookie_step [OF wf, of "''; '' @ cookie_line (kv' # kvs)" js] cookie_value_facts(4) [OF wf] 3 by simp
qed

lemma emplace_lookup:
  "map_of (params_emplace a b js) k = (case map_of js k of Some v \<Rightarrow> Some v | None \<Rightarrow> if k = a then Some b else None)"
  by (auto simp: params_emplace_def map_add_def split: option.splits)

lemma emplaced_lookup:
  "map_of (fold (\<lambda>kv. params_emplace (fst kv) (snd kv)) kvs js) k = (case map_of js k of Some v \<Rightarrow> Some v | None \<Rightarrow> map_of kvs k)"
  by (induction kvs arbitrary: js) (auto simp: emplace_lookup split: option.splits)

lemma set_cookie_headers:
  "headers (fold (\<lambda>kv. add_header k (f kv)) kvs r) = headers r @ map (\<lambda>kv. (k, f kv)) kvs"
  by (induction kvs arbitrary: r) (simp_all add: add_header_def ci_emplace_def)

text \<open>
  C38. Cookies come back: the texts that \<^verbatim>\<open>after_handle\<close> puts into the response for the cookies of a handler, sent back by the client
  in one header, are what \<^verbatim>\<open>get_cookie\<close> finds at the next request, empty ones included. Names have no equality sign, values no semicolon
  and no quotes around them, and neither has blanks around it.
\<close>

theorem cookies_roundtrip:
  assumes "list_all wf_cookie (cookies_to_add (ch_context s))"
    and "jar (ch_context t) = []"
    and "ci_count ''Cookie'' (req_headers (ch_request t)) = 1"
    and "request_get_header_value (ch_request t) ''Cookie'' = cookie_line (cookies_to_add (ch_context s))"
  shows "headers (ch_response (cookie_after s)) =
      headers (ch_response s) @ map (\<lambda>kv. (''Set-Cookie'', cookie_text kv)) (cookies_to_add (ch_context s)) \<and>
    ch_response (cookie_before t) = ch_response t \<and>
    get_cookie (ch_context (cookie_before t)) k =
      (case map_of (cookies_to_add (ch_context s)) k of Some v \<Rightarrow> v | None \<Rightarrow> [])"
  using assms
  by (simp add: cookie_after_def cookie_before_def set_cookie_headers get_cookie_def cookie_loop_line emplaced_lookup)

theorem cookies_roundtrip_witness:
  "let s = \<lparr>ch_request = two_cookies, ch_response = response_default,
            ch_context = set_cookie ''lang'' [] (set_cookie ''id'' ''a b'' \<lparr>jar = [], cookies_to_add = []\<rparr>)\<rparr>;
       t = \<lparr>ch_request = two_cookies\<lparr>req_headers := [(''cookie'', ''id=a b; lang='' @ [quot, quot])]\<rparr>, ch_response = response_default,
            ch_context = \<lparr>jar = [], cookies_to_add = []\<rparr>\<rparr>
   in headers (ch_response (cookie_after s)) = [(''Set-Cookie'', ''id=a b''), (''Set-Cookie'', ''lang='' @ [quot, quot])] \<and>
      get_cookie (ch_context (cookie_before t)) ''id'' = ''a b''"
proof -
  let ?s = "\<lparr>ch_request = two_cookies, ch_response = response_default,
            ch_context = set_cookie ''lang'' [] (set_cookie ''id'' ''a b'' \<lparr>jar = [], cookies_to_add = []\<rparr>)\<rparr>"
  let ?t = "\<lparr>ch_request = two_cookies\<lparr>req_headers := [(''cookie'', ''id=a b; lang='' @ [quot, quot])]\<rparr>, ch_response = response_default,
            ch_context = \<lparr>jar = [], cookies_to_add = []\<rparr>\<rparr>"
  have cs: "cookies_to_add (ch_context ?s) = [(''id'', ''a b''), (''lang'', [])]"
    by (simp add: set_cookie_def params_emplace_def)
  have "list_all wf_cookie (cookies_to_add (ch_context ?s))" by code_simp
  moreover have "jar (ch_context ?t) = []" by simp
  moreover have "ci_count ''Cookie'' (req_headers (ch_request ?t)) = 1" by code_simp
  moreover have "request_get_header_value (ch_request ?t) ''Cookie'' = cookie_line (cookies_to_add (ch_context ?s))" by code_simp
  ultimately show ?thesis
    using cookies_roundtrip [of ?s ?t "''id''"] unfolding cs Let_def by (simp add: cookie_text_def response_default_def)
qed

section \<open>Cross-origin requests\<close>

definition no_empty_header :: "response \<Rightarrow> bool" where
  "no_empty_header r \<longleftrightarrow> list_all (\<lambda>h. snd h \<noteq> []) (headers r)"

lemma get_empty: "no_empty_header r \<Longrightarrow> response_get_header_value r k = [] \<longleftrightarrow> ci_find k (headers r) = None"
proof -
  have "snd h \<noteq> []" if "no_empty_header r" "find P (headers r) = Some h" for P h
    using that nth_mem by (fastforce simp: no_empty_header_def list_all_iff find_Some_iff)
  then show "no_empty_header r \<Longrightarrow> response_get_header_value r k = [] \<longleftrightarrow> ci_find k (headers r) = None"
    by (auto simp: response_get_header_value_def get_header_value_find ci_find_def split: option.splits)
qed

lemma no_override_get:
  assumes "no_empty_header r"
  shows "response_get_header_value (set_header_no_override k v r) l =
      (if ci_key_eq k l \<and> response_get_header_value r l = [] then v else response_get_header_value r l)"
    and "no_empty_header (set_header_no_override k v r)"
proof -
  have eq: "ci_key_eq k l \<Longrightarrow> response_get_header_value r k = response_get_header_value r l"
    using ci_find_cong [of k l "headers r"] by (simp add: response_get_header_value_def get_header_value_find)
  show "response_get_header_value (set_header_no_override k v r) l =
      (if ci_key_eq k l \<and> response_get_header_value r l = [] then v else response_get_header_value r l)"
    using get_empty [OF assms, of l] eq
    by (auto simp: set_header_no_override_def response_get_header_value_def get_header_value_find add_header_def ci_find_emplace
        split: option.splits)
  show "no_empty_header (set_header_no_override k v r)"
    using assms by (auto simp: set_header_no_override_def no_empty_header_def add_header_def ci_emplace_def)
qed

text \<open>The headers a rule asks for.\<close>

definition cors_fields :: "CORSRules \<Rightarrow> (string \<times> string) list" where
  "cors_fields r =
     [(''Access-Control-Allow-Origin'', cors_origin r), (''Access-Control-Allow-Methods'', cors_methods r),
      (''Access-Control-Allow-Headers'', cors_headers r), (''Access-Control-Max-Age'', cors_max_age r),
      (''Access-Control-Allow-Credentials'', if cors_credentials r then ''true'' else [])]"

lemma apply_cors_fold:
  "\<not> cors_ignore r \<Longrightarrow> apply_cors r res = fold (\<lambda>kv. set_header_no_override (fst kv) (snd kv)) (cors_fields r) res"
  by (simp add: apply_cors_def cors_fields_def Let_def set_header_no_override_def [of _ "[]"])

lemma no_override_fold:
  "no_empty_header res \<Longrightarrow>
   response_get_header_value (fold (\<lambda>kv. set_header_no_override (fst kv) (snd kv)) kvs res) l =
     (if response_get_header_value res l = []
      then case find (\<lambda>kv. ci_key_eq (fst kv) l \<and> snd kv \<noteq> []) kvs of Some kv \<Rightarrow> snd kv | None \<Rightarrow> []
      else response_get_header_value res l)"
  by (induction kvs arbitrary: res) (auto simp: no_override_get)

lemma find_cors_rule_first:
  "find_cors_rule rs d path = (case find (\<lambda>pr. prefix (fst pr) path) rs of Some pr \<Rightarrow> snd pr | None \<Rightarrow> d)"
  by (induction rs d path rule: find_cors_rule.induct) (auto simp: prefix_def, metis append_take_drop_id)

text \<open>
  The headers for cross-origin requests: the rule is the one of the first prefix that the URL has, or the global one. Every header the
  handler has set stays as it is, every other one that the rule asks for has the value of the rule, and
  no header but those is new; a rule that is to be ignored changes nothing.
\<close>

theorem cors_applies_first_rule:
  assumes "no_empty_header (ch_response s)"
    and "r = (case find (\<lambda>pr. prefix (fst pr) (req_url (ch_request s))) (cors_rules h) of Some pr \<Rightarrow> snd pr | None \<Rightarrow> cors_default h)"
  shows "response_get_header_value (ch_response (cors_after h s)) l =
    (if response_get_header_value (ch_response s) l = [] \<and> \<not> cors_ignore r
     then case find (\<lambda>kv. ci_key_eq (fst kv) l \<and> snd kv \<noteq> []) (cors_fields r) of Some kv \<Rightarrow> snd kv | None \<Rightarrow> []
     else response_get_header_value (ch_response s) l)"
proof -
  have "ch_response (cors_after h s) = apply_cors r (ch_response s)"
    by (simp add: cors_after_def find_cors_rule_first assms(2))
  then show ?thesis
    using assms(1) by (cases "cors_ignore r") (simp_all add: apply_cors_fold no_override_fold, simp add: apply_cors_def)
qed

theorem cors_applies_first_rule_witness:
  "let h = cors_prefix ''/api'' (set_origin ''example.com'') \<lparr>cors_rules = [], cors_default = CORSRules_default\<rparr>;
       s = \<lparr>ch_request = two_cookies\<lparr>req_url := ''/api/x''\<rparr>, ch_response = response_default, ch_context = ()\<rparr>
   in response_get_header_value (ch_response (cors_after h s)) ''access-control-allow-origin'' = ''example.com''"
proof -
  let ?h = "cors_prefix ''/api'' (set_origin ''example.com'') \<lparr>cors_rules = [], cors_default = CORSRules_default\<rparr>"
  let ?s = "\<lparr>ch_request = two_cookies\<lparr>req_url := ''/api/x''\<rparr>, ch_response = response_default, ch_context = ()\<rparr>"
  have "no_empty_header (ch_response ?s)" by code_simp
  moreover have "set_origin ''example.com'' CORSRules_default =
    (case find (\<lambda>pr. prefix (fst pr) (req_url (ch_request ?s))) (cors_rules ?h) of Some pr \<Rightarrow> snd pr | None \<Rightarrow> cors_default ?h)"
    by (simp add: cors_prefix_def)
  moreover have "find (\<lambda>kv. ci_key_eq (fst kv) ''access-control-allow-origin'' \<and> snd kv \<noteq> [])
      (cors_fields (set_origin ''example.com'' CORSRules_default)) = Some (''Access-Control-Allow-Origin'', ''example.com'')" by code_simp
  moreover have "\<not> cors_ignore (set_origin ''example.com'' CORSRules_default)" "response_get_header_value (ch_response ?s) ''access-control-allow-origin'' = []"
    by code_simp+
  ultimately show ?thesis
    using cors_applies_first_rule [of ?s "set_origin ''example.com'' CORSRules_default" ?h "''access-control-allow-origin''"]
    unfolding Let_def by simp
qed

end
