(* ===== verification/Crow_Mustache.thy ===== *)
theory Crow_Mustache
  imports Json_Write Crow_Multipart Crow_Utility
begin

text \<open>
  \<^verbatim>\<open>crow::mustache\<close> (lib/crowapi/crow_all.h): templates, their parser and their rendering. A template keeps its text, the fragments
  between its tags as positions in the text, and an action for each tag. The contexts are values of \<^verbatim>\<open>json::wvalue\<close>, which rendering
  reads only, so the stack of pointers is a stack of values, the innermost last. The loader of partials is a parameter. Rendering need not
  end: \<open>None\<close> is a rendering that the given number of steps does not finish. Texts are shorter than 2 to the 31, so that
  positions are the same as \<^verbatim>\<open>int\<close> and as \<^verbatim>\<open>size_t\<close>.
\<close>

section \<open>Templates\<close>

datatype template_error = Invalid_template string | Template_fault fault

datatype ActionType = Ignore | Tag | UnescapeTag | OpenBlock | CloseBlock | ElseBlock | Partial

record Action =
  act_t :: ActionType
  act_start :: nat
  act_end :: nat
  act_pos :: nat

record template_t =
  t_body :: string
  t_fragments :: "(nat \<times> nat) list"
  t_actions :: "Action list"

text \<open>\<^verbatim>\<open>substr(a, b - a)\<close>, where a negative length is a huge one.\<close>

definition substr_between :: "string \<Rightarrow> nat \<Rightarrow> nat \<Rightarrow> string" where
  "substr_between s a b = (if b < a then drop a s else take (b - a) (drop a s))"

definition mk_Action :: "ActionType \<Rightarrow> nat \<Rightarrow> nat \<Rightarrow> Action" where
  "mk_Action t a b = \<lparr>act_t = t, act_start = a, act_end = b, act_pos = 0\<rparr>"

section \<open>The parser\<close>

record tparse =
  tp_open :: string
  tp_close :: string
  tp_blocks :: "nat list"
  tp_current :: nat
  tp_fragments :: "(nat \<times> nat) list"
  tp_actions :: "Action list"

text \<open>A read at the end of a string gives its terminator.\<close>

definition char_at :: "string \<Rightarrow> nat \<Rightarrow> char" where
  "char_at s i = (if i < length s then s ! i else nul)"

definition skip_forward :: "string \<Rightarrow> nat \<Rightarrow> nat" where
  "skip_forward s i = i + length (takeWhile (\<lambda>c. c = CHR '' '') (drop i s))"

definition skip_back :: "string \<Rightarrow> nat \<Rightarrow> nat" where
  "skip_back s e = e - length (takeWhile (\<lambda>c. c = CHR '' '') (rev (take e s)))"

definition add_action :: "Action \<Rightarrow> tparse \<Rightarrow> tparse" where
  "add_action a p = p\<lparr>tp_actions := tp_actions p @ [a]\<rparr>"

definition trimmed_action :: "ActionType \<Rightarrow> string \<Rightarrow> nat \<Rightarrow> nat \<Rightarrow> Action" where
  "trimmed_action t s idx e = mk_Action t (skip_forward s idx) (skip_back s e)"

definition open_block :: "ActionType \<Rightarrow> string \<Rightarrow> nat \<Rightarrow> nat \<Rightarrow> tparse \<Rightarrow> tparse" where
  "open_block t s idx e p =
     add_action (trimmed_action t s idx e) (p\<lparr>tp_blocks := length (tp_actions p) # tp_blocks p\<rparr>)"

definition close_block :: "string \<Rightarrow> nat \<Rightarrow> nat \<Rightarrow> tparse \<Rightarrow> template_error + tparse" where
  "close_block s idx0 e0 p =
     (let idx = skip_forward s idx0; e = skip_back s e0
      in case tp_blocks p of
           [] \<Rightarrow> Inl (Template_fault Out_of_bounds_read)
         | b # bs \<Rightarrow>
             let matched = tp_actions p ! b;
                 name = substr_between s (act_start matched) (act_end matched)
             in if substr_between s idx e \<noteq> name
                then Inl (Invalid_template (''not matched {{# {{/ pair: '' @ name @ '', '' @ substr_between s idx e))
                else Inr (p\<lparr>tp_blocks := bs,
                            tp_actions := (tp_actions p)[b := matched\<lparr>act_pos := length (tp_actions p)\<rparr>]
                              @ [(mk_Action CloseBlock idx e)\<lparr>act_pos := b\<rparr>]\<rparr>))"

text \<open>\<^verbatim>\<open>{{=<% %>=}}\<close>: new delimiters.\<close>

definition change_delimiters :: "string \<Rightarrow> nat \<Rightarrow> nat \<Rightarrow> tparse \<Rightarrow> template_error + tparse" where
  "change_delimiters s idx0 e0 p =
     (let p1 = add_action (mk_Action Ignore idx0 e0) p
      in if char_at s (e0 - 1) \<noteq> CHR ''=''
         then Inl (Invalid_template (''{{=: not matching = tag: '' @ substr_between s idx0 (e0 - 1)))
         else let idx = skip_forward s idx0;
                  e = skip_back s (e0 - 1);
                  inner = (if e \<le> idx then [] else substr_between s idx e);
                  opening = takeWhile (\<lambda>c. c \<noteq> CHR '' '') inner;
                  closing = dropWhile (\<lambda>c. c = CHR '' '') (drop (length opening) inner)
              in if length opening = length inner
                 then Inl (Invalid_template ''{{=: cannot find space between new open/close tags'')
                 else if opening = [] then Inl (Invalid_template ''{{=: empty open tag'')
                 else if closing = [] then Inl (Invalid_template ''{{=: empty close tag'')
                 else if CHR '' '' \<in> set closing
                 then Inl (Invalid_template (''{{=: invalid open/close tag: '' @ opening @ '' '' @ closing))
                 else Inr (p1\<lparr>tp_open := opening, tp_close := closing\<rparr>))"

definition parse_tag :: "string \<Rightarrow> nat \<Rightarrow> nat \<Rightarrow> tparse \<Rightarrow> template_error + tparse" where
  "parse_tag s idx e p =
     (let c = char_at s idx
      in if c = CHR ''#'' then Inr (open_block OpenBlock s (idx + 1) e p)
         else if c = CHR ''/'' then close_block s (idx + 1) e p
         else if c = CHR ''^'' then Inr (open_block ElseBlock s (idx + 1) e p)
         else if c = CHR ''!'' then Inr (add_action (mk_Action Ignore (idx + 1) e) p)
         else if c = CHR ''>'' then Inr (add_action (trimmed_action Partial s (idx + 1) e) p)
         else if c = CHR ''{'' then
           if tp_open p \<noteq> ''{{'' \<or> tp_close p \<noteq> ''}}''
           then Inl (Invalid_template ''cannot use triple mustache when delimiter changed'')
           else if char_at s (e + 2) \<noteq> CHR ''}'' then Inl (Invalid_template ''{{{: }}} not matched'')
           else Inr ((add_action (trimmed_action UnescapeTag s (idx + 1) e) p)\<lparr>tp_current := tp_current p + 1\<rparr>)
         else if c = CHR ''&'' then Inr (add_action (trimmed_action UnescapeTag s (idx + 1) e) p)
         else if c = CHR ''='' then change_delimiters s (idx + 1) e p
         else Inr (add_action (trimmed_action Tag s idx e) p))"

text \<open>No tag moves the position back, so the parser ends.\<close>

definition moves_on :: "tparse \<Rightarrow> template_error + tparse \<Rightarrow> bool" where
  "moves_on p r \<longleftrightarrow> (\<forall>p'. r = Inr p' \<longrightarrow> tp_current p \<le> tp_current p')"

lemma moves_on_simps [simp]:
  "moves_on p (Inl err)" "moves_on p (Inr p') \<longleftrightarrow> tp_current p \<le> tp_current p'"
  "tp_current (add_action a p) = tp_current p" "tp_current (open_block t s idx e p) = tp_current p"
  by (simp_all add: moves_on_def add_action_def open_block_def)

lemma moves_on_if: "moves_on p r \<Longrightarrow> moves_on p r' \<Longrightarrow> moves_on p (if b then r else r')"
  by simp

lemma close_block_moves_on: "moves_on p (close_block s idx e p)"
  by (cases "tp_blocks p") (simp_all add: close_block_def Let_def)

lemma change_delimiters_moves_on: "moves_on p (change_delimiters s idx e p)"
  unfolding change_delimiters_def Let_def by (intro moves_on_if) simp_all

lemma parse_tag_moves_on: "moves_on p (parse_tag s idx e p)"
  unfolding parse_tag_def Let_def
  by (intro moves_on_if close_block_moves_on change_delimiters_moves_on) simp_all

lemma parse_tag_current: "parse_tag s idx e p = Inr p' \<Longrightarrow> tp_current p \<le> tp_current p'"
  using parse_tag_moves_on [of p s idx e] by (simp add: moves_on_def)

lemma str_find_Suc: "str_find pat s = Some (Suc n) \<Longrightarrow> s \<noteq> []"
  by (cases s) (auto split: if_splits)

function parse_loop :: "string \<Rightarrow> tparse \<Rightarrow> template_error + tparse" where
  "parse_loop s p =
     (case str_find (tp_open p) (drop (tp_current p) s) of
        None \<Rightarrow>
          Inr (add_action (mk_Action Ignore 0 0) (p\<lparr>tp_fragments := tp_fragments p @ [(tp_current p, length s)]\<rparr>))
      | Some i \<Rightarrow>
          let p1 = p\<lparr>tp_fragments := tp_fragments p @ [(tp_current p, tp_current p + i)]\<rparr>;
              idx = tp_current p + i + length (tp_open p)
          in case str_find (tp_close p) (drop idx s) of
               None \<Rightarrow> Inl (Invalid_template ''not matched opening tag'')
             | Some 0 \<Rightarrow> Inl (Invalid_template ''empty tag is not allowed'')
             | Some (Suc n) \<Rightarrow>
                 (case parse_tag s idx (idx + Suc n) (p1\<lparr>tp_current := idx + Suc n + length (tp_close p)\<rparr>) of
                    Inl err \<Rightarrow> Inl err
                  | Inr p2 \<Rightarrow> parse_loop s p2))"
  by pat_completeness auto

termination
proof (relation "measure (\<lambda>(s, p). length s - tp_current p)", goal_cases)
  case (2 s p i p1 idx j n p2)
  have "tp_current p < length s" using str_find_Suc [of "tp_close p" "drop idx s" n] 2 by auto
  moreover have "tp_current p < tp_current p2" using parse_tag_current [OF 2(6)] 2 by simp
  ultimately show ?case by auto
qed simp

declare parse_loop.simps [simp del]

text \<open>Blocks, comments and partials that stand alone in their line take the line with them.\<close>

definition trailing_spaces :: "string \<Rightarrow> nat" where
  "trailing_spaces s = length (takeWhile (\<lambda>c. c = CHR '' '') (rev s))"

definition leading_spaces :: "string \<Rightarrow> nat" where
  "leading_spaces s = length (takeWhile (\<lambda>c. c = CHR '' '') s)"

definition remove_standalone :: "string \<Rightarrow> nat \<Rightarrow> (nat \<times> nat) list \<times> Action list \<Rightarrow> (nat \<times> nat) list \<times> Action list" where
  "remove_standalone s i fa =
     (let fs = fst fa; as = snd fa; b = fs ! i; a = fs ! (i + 1)
      in if act_t (as ! i) \<in> {Tag, UnescapeTag} then fa
         else let before = take (snd b - fst b) (drop (fst b) s);
                  j = snd b - trailing_spaces before;
                  all_before = (trailing_spaces before = length before);
                  after = take (snd a - fst a) (drop (fst a) s);
                  k = fst a + leading_spaces after;
                  all_after = (leading_spaces after = length after)
              in if all_before \<and> 0 < i then fa
                 else if \<not> all_before \<and> s ! (j - 1) \<noteq> newline then fa
                 else if all_after \<and> i + 2 \<noteq> length as then fa
                 else if \<not> all_after \<and> \<not> (s ! k = newline \<or> s ! k = cr \<and> k + 1 < length s \<and> s ! (k + 1) = newline) then fa
                 else let as' = (if act_t (as ! i) = Partial then as[i := (as ! i)\<lparr>act_pos := snd b - j\<rparr>] else as);
                          fs' = fs[i := (fst b, j)]
                      in if all_after then (fs', as')
                         else (fs'[i + 1 := (if s ! k = newline then k + 1 else k + 2, snd a)], as'))"

fun remove_standalones :: "string \<Rightarrow> nat \<Rightarrow> (nat \<times> nat) list \<times> Action list \<Rightarrow> (nat \<times> nat) list \<times> Action list" where
  "remove_standalones s 0 fa = fa"
| "remove_standalones s (Suc i) fa = remove_standalones s i (remove_standalone s i fa)"

definition compile_template :: "string \<Rightarrow> template_error + template_t" where
  "compile_template s =
     (case parse_loop s \<lparr>tp_open = ''{{'', tp_close = ''}}'', tp_blocks = [], tp_current = 0, tp_fragments = [], tp_actions = []\<rparr> of
        Inl err \<Rightarrow> Inl err
      | Inr p \<Rightarrow>
          (case remove_standalones s (length (tp_actions p) - 1) (tp_fragments p, tp_actions p) of
             (fs, as) \<Rightarrow> Inr \<lparr>t_body = s, t_fragments = fs, t_actions = as\<rparr>))"

definition load_template :: "(string \<Rightarrow> string) \<Rightarrow> string \<Rightarrow> template_error + template_t" where
  "load_template loader filename = compile_template (loader (sanitize_filename (CHR ''_'') filename))"

section \<open>Contexts\<close>

definition tag_name :: "template_t \<Rightarrow> Action \<Rightarrow> string" where
  "tag_name tm a = substr_between (t_body tm) (act_start a) (act_end a)"

definition top_context :: "wvalue list \<Rightarrow> template_error + wvalue" where
  "top_context stack = (if stack = [] then Inl (Template_fault Out_of_bounds_read) else Inr (last stack))"

definition member :: "wvalue \<Rightarrow> string \<Rightarrow> wvalue option" where
  "member v name = (if w_type v = Object \<and> 0 < count_key v name then map_of (the (w_o v)) name else None)"

fun split_dots :: "string \<Rightarrow> string list" where
  "split_dots [] = [[]]"
| "split_dots (c # cs) =
     (if c = CHR ''.'' then [] # split_dots cs
      else case split_dots cs of [] \<Rightarrow> [[c]] | n # ns \<Rightarrow> (c # n) # ns)"

fun follow :: "wvalue \<Rightarrow> string list \<Rightarrow> wvalue option" where
  "follow v [] = Some v"
| "follow v (n # ns) = (case member v n of None \<Rightarrow> None | Some w \<Rightarrow> follow w ns)"

text \<open>The search from the innermost context outwards, which may have to stop at the first.\<close>

fun search :: "(wvalue \<Rightarrow> wvalue option) \<Rightarrow> bool \<Rightarrow> wvalue list \<Rightarrow> wvalue option" where
  "search f only_first [] = None"
| "search f only_first (v # vs) =
     (case f v of Some w \<Rightarrow> Some w | None \<Rightarrow> if only_first then None else search f only_first vs)"

definition find_context :: "string \<Rightarrow> wvalue list \<Rightarrow> bool \<Rightarrow> template_error + wvalue option" where
  "find_context name stack only_first =
     (if name = ''.'' then map_sum id Some (top_context stack)
      else if CHR ''.'' \<notin> set name then Inr (search (\<lambda>v. member v name) False (rev stack))
      else Inr (search (\<lambda>v. follow v (split_dots name)) only_first (rev stack)))"

text \<open>The actions before the current one, the last first.\<close>

fun inside_object_block :: "int \<Rightarrow> Action list \<Rightarrow> wvalue list \<Rightarrow> template_error + bool" where
  "inside_object_block opened [] stack = Inr False"
| "inside_object_block opened (a # as) stack =
     (if act_t a = OpenBlock then
        if opened = 0 then
          (case top_context stack of
             Inl err \<Rightarrow> Inl err
           | Inr v \<Rightarrow> if w_type v = Object then Inr True else inside_object_block (opened - 1) as stack)
        else inside_object_block (opened - 1) as stack
      else inside_object_block (if act_t a = CloseBlock then opened + 1 else opened) as stack)"

definition isTagInsideObjectBlock :: "template_t \<Rightarrow> nat \<Rightarrow> wvalue list \<Rightarrow> template_error + bool" where
  "isTagInsideObjectBlock tm current stack = inside_object_block 0 (rev (take current (t_actions tm))) stack"

section \<open>Rendering\<close>

definition escape_html_char :: "char \<Rightarrow> string" where
  "escape_html_char c =
     (if c = CHR ''&'' then ''&amp;''
      else if c = CHR ''<'' then ''&lt;''
      else if c = CHR ''>'' then ''&gt;''
      else if c = CHR 0x22 then ''&quot;''
      else if c = CHR 0x27 then ''&#39;''
      else if c = CHR ''/'' then ''&#x2F;''
      else if c = CHR 0x60 then ''&#x60;''
      else if c = CHR ''='' then ''&#x3D;''
      else [c])"

definition escape_html :: "string \<Rightarrow> string" where
  "escape_html s = concat (map escape_html_char s)"

definition indented :: "nat \<Rightarrow> nat \<Rightarrow> string \<Rightarrow> nat \<Rightarrow> string" where
  "indented indent len s i =
     s ! i # (if s ! i = newline \<and> i + 1 \<noteq> len then replicate indent (CHR '' '') else [])"

definition render_fragment :: "template_t \<Rightarrow> nat \<times> nat \<Rightarrow> nat \<Rightarrow> string" where
  "render_fragment tm f indent =
     (if indent \<noteq> 0
      then concat (map (indented indent (length (t_body tm)) (t_body tm)) [fst f..<snd f])
      else substr_between (t_body tm) (fst f) (snd f))"

definition type_index :: "type \<Rightarrow> nat" where
  "type_index t =
     (case t of Null \<Rightarrow> 0 | JFalse \<Rightarrow> 1 | JTrue \<Rightarrow> 2 | Number \<Rightarrow> 3 | JString \<Rightarrow> 4 | JList \<Rightarrow> 5 | Object \<Rightarrow> 6 | Function \<Rightarrow> 7)"

definition template_runtime_error :: "string \<Rightarrow> type \<Rightarrow> template_error" where
  "template_runtime_error msg t = Template_fault (Throw (Runtime_error (msg @ to_string (int (type_index t)))))"

text \<open>The context of a tag; a name that is not found stands for an empty string.\<close>

definition tag_context :: "template_t \<Rightarrow> nat \<Rightarrow> wvalue list \<Rightarrow> template_error + wvalue" where
  "tag_context tm current stack =
     (case isTagInsideObjectBlock tm current stack of
        Inl err \<Rightarrow> Inl err
      | Inr only_first \<Rightarrow>
          map_sum id (\<lambda>r. case r of Some v \<Rightarrow> v | None \<Rightarrow> wvalue_string [])
            (find_context (tag_name tm (t_actions tm ! current)) stack only_first))"

datatype block_way = Enter wvalue | Skip | Repeat "wvalue list"

text \<open>What becomes of a block: entered with a context on the stack, skipped, or rendered for each element of a list.\<close>

definition open_way :: "string \<Rightarrow> wvalue list \<Rightarrow> template_error + block_way" where
  "open_way name stack =
     (case find_context name stack False of
        Inl err \<Rightarrow> Inl err
      | Inr None \<Rightarrow> Inr Skip
      | Inr (Some v) \<Rightarrow>
          (case w_type v of
             JList \<Rightarrow> Inr (Repeat (case w_l v of None \<Rightarrow> [] | Some vs \<Rightarrow> vs))
           | Null \<Rightarrow> Inr Skip
           | JFalse \<Rightarrow> Inr Skip
           | Function \<Rightarrow> Inl (template_runtime_error ''{{#: not implemented context type: '' Function)
           | _ \<Rightarrow> Inr (Enter v)))"

definition else_way :: "string \<Rightarrow> wvalue list \<Rightarrow> template_error + block_way" where
  "else_way name stack =
     (case find_context name stack False of
        Inl err \<Rightarrow> Inl err
      | Inr None \<Rightarrow> Inr (Enter wvalue_default)
      | Inr (Some v) \<Rightarrow>
          (case w_type v of
             JList \<Rightarrow> Inr (if w_l v \<noteq> None \<and> the (w_l v) \<noteq> [] then Skip else Enter wvalue_default)
           | Null \<Rightarrow> Inr (Enter wvalue_default)
           | JFalse \<Rightarrow> Inr (Enter wvalue_default)
           | _ \<Rightarrow> Inr Skip))"

text \<open>
  The three loops of rendering: \<open>Loop\<close> is the one of \<^verbatim>\<open>render_internal\<close> behind its first indentation, \<open>Items\<close> the one over the
  elements of a list, \<open>Expand\<close> the one over what a function returned. Each is one round over a rendering of what is left.
\<close>

datatype render_job =
    Loop template_t nat nat "wvalue list" string nat
  | Items template_t nat nat "wvalue list" "wvalue list" string nat
  | Expand string "wvalue list"

type_synonym rendering = "(template_error + wvalue list \<times> string) option"

definition and_then :: "(template_error + 'a) option \<Rightarrow> ('a \<Rightarrow> (template_error + 'b) option) \<Rightarrow> (template_error + 'b) option" where
  "and_then r f = (case r of None \<Rightarrow> None | Some (Inl err) \<Rightarrow> Some (Inl err) | Some (Inr x) \<Rightarrow> f x)"

definition last_action :: "template_t \<Rightarrow> nat" where
  "last_action tm = length (t_fragments tm) - 1"

definition render_value :: "(render_job \<Rightarrow> rendering) \<Rightarrow> bool \<Rightarrow> wvalue \<Rightarrow> wvalue list \<Rightarrow> (template_error + string) option" where
  "render_value go esc v stack =
     (case w_type v of
        Number \<Rightarrow> (case dump v of Inl f \<Rightarrow> Some (Inl (Template_fault f)) | Inr txt \<Rightarrow> Some (Inr txt))
      | JString \<Rightarrow> Some (Inr (if esc then escape_html (w_s v) else w_s v))
      | Function \<Rightarrow>
          (case execute v [] of
             Inl f \<Rightarrow> Some (Inl (Template_fault f))
           | Inr txt \<Rightarrow> and_then (go (Expand txt stack)) (\<lambda>(_, r). Some (Inr (if esc then escape_html r else r))))
      | t \<Rightarrow> Some (Inl (template_runtime_error ''not implemented tag type'' t)))"

definition render_partial ::
  "(render_job \<Rightarrow> rendering) \<Rightarrow> (string \<Rightarrow> string) \<Rightarrow> string \<Rightarrow> nat \<Rightarrow> wvalue list \<Rightarrow> string \<Rightarrow> nat \<Rightarrow> rendering" where
  "render_partial go loader name pos stack out indent =
     (case load_template loader name of
        Inl err \<Rightarrow> Some (Inl err)
      | Inr tm1 \<Rightarrow>
          let i = (if pos = 0 then 0 else indent + pos)
          in go (Loop tm1 0 (last_action tm1) stack (out @ replicate i (CHR '' '')) i))"

definition render_block ::
  "(render_job \<Rightarrow> rendering) \<Rightarrow> template_t \<Rightarrow> nat \<Rightarrow> nat \<Rightarrow> template_error + block_way \<Rightarrow> wvalue list \<Rightarrow> string \<Rightarrow> nat \<Rightarrow> rendering" where
  "render_block go tm current e way stack out indent =
     (let pos = act_pos (t_actions tm ! current)
      in case way of
           Inl err \<Rightarrow> Some (Inl err)
         | Inr (Enter v) \<Rightarrow> go (Loop tm (current + 1) e (stack @ [v]) out indent)
         | Inr Skip \<Rightarrow> go (Loop tm (pos + 1) e stack out indent)
         | Inr (Repeat vs) \<Rightarrow>
             and_then (go (Items tm (current + 1) pos vs stack out indent))
               (\<lambda>(stack1, out1). go (Loop tm (pos + 1) e stack1 out1 indent)))"

definition render_action ::
  "(render_job \<Rightarrow> rendering) \<Rightarrow> (string \<Rightarrow> string) \<Rightarrow> template_t \<Rightarrow> nat \<Rightarrow> nat \<Rightarrow> wvalue list \<Rightarrow> string \<Rightarrow> nat \<Rightarrow> rendering" where
  "render_action go loader tm current e stack out indent =
     (let a = t_actions tm ! current
      in case act_t a of
           Ignore \<Rightarrow> go (Loop tm (current + 1) e stack out indent)
         | Partial \<Rightarrow>
             and_then (render_partial go loader (tag_name tm a) (act_pos a) stack out indent)
               (\<lambda>(stack1, out1). go (Loop tm (current + 1) e stack1 out1 indent))
         | CloseBlock \<Rightarrow>
             if stack = [] then Some (Inl (Template_fault Out_of_bounds_read))
             else go (Loop tm (current + 1) e (butlast stack) out indent)
         | ElseBlock \<Rightarrow> render_block go tm current e (else_way (tag_name tm a) stack) stack out indent
         | OpenBlock \<Rightarrow> render_block go tm current e (open_way (tag_name tm a) stack) stack out indent
         | _ \<Rightarrow>
             (case tag_context tm current stack of
                Inl err \<Rightarrow> Some (Inl err)
              | Inr v \<Rightarrow>
                  and_then (render_value go (act_t a = Tag) v stack)
                    (\<lambda>txt. go (Loop tm (current + 1) e stack (out @ txt) indent))))"

definition render_result :: "(render_job \<Rightarrow> rendering) \<Rightarrow> string \<Rightarrow> wvalue list \<Rightarrow> rendering" where
  "render_result go txt stack =
     (if str_find ''{{'' txt = None then Some (Inr (stack, txt))
      else case compile_template txt of
             Inl err \<Rightarrow> Some (Inl err)
           | Inr tm1 \<Rightarrow>
               if stack = [] then Some (Inl (Template_fault Out_of_bounds_read))
               else and_then (go (Loop tm1 0 (last_action tm1) [hd stack] [] 0)) (\<lambda>(_, r). go (Expand r stack)))"

fun render_round :: "(render_job \<Rightarrow> rendering) \<Rightarrow> (string \<Rightarrow> string) \<Rightarrow> render_job \<Rightarrow> rendering" where
  "render_round go loader (Loop tm current e stack out indent) =
     (if e \<le> current then Some (Inr (stack, out @ render_fragment tm (t_fragments tm ! e) indent))
      else render_action go loader tm current e stack (out @ render_fragment tm (t_fragments tm ! current) indent) indent)"
| "render_round go loader (Items tm b e [] stack out indent) = Some (Inr (stack, out))"
| "render_round go loader (Items tm b e (v # vs) stack out indent) =
     and_then (go (Loop tm b e (stack @ [v]) (out @ replicate indent (CHR '' '')) indent))
       (\<lambda>(stack1, out1).
          if stack1 = [] then Some (Inl (Template_fault Out_of_bounds_read))
          else go (Items tm b e vs (butlast stack1) out1 indent))"
| "render_round go loader (Expand txt stack) = render_result go txt stack"

primrec render_internal :: "nat \<Rightarrow> (string \<Rightarrow> string) \<Rightarrow> render_job \<Rightarrow> rendering" where
  "render_internal 0 = (\<lambda>loader job. None)"
| "render_internal (Suc n) = (\<lambda>loader job. render_round (render_internal n loader) loader job)"

definition render_string :: "nat \<Rightarrow> (string \<Rightarrow> string) \<Rightarrow> template_t \<Rightarrow> wvalue \<Rightarrow> (template_error + string) option" where
  "render_string n loader tm ctx =
     and_then (render_internal n loader (Loop tm 0 (last_action tm) [ctx] [] 0)) (\<lambda>(stack, out). Some (Inr out))"

end
