(* ===== verification/Mustache_Parse.thy ===== *)
theory Mustache_Parse
  imports Crow_Mustache Multipart_Properties
begin

text \<open>
  Structured mustache templates - variables and nested blocks between texts - and what the parser makes of their text: the positions of
  the fragments, and for every block the number of the action that closes it.
\<close>

section \<open>Structured templates\<close>

text \<open>A variable is escaped or not; a block is for a value or for the lack of one. Every item comes with the text before it.\<close>

datatype item = Var bool string | Sect bool string "(string \<times> item) list" string

type_synonym items = "(string \<times> item) list"

definition var_text :: "bool \<Rightarrow> string \<Rightarrow> string" where
  "var_text esc n = (if esc then ''{{'' @ n @ ''}}'' else ''{{{'' @ n @ ''}}}'')"

definition open_text :: "bool \<Rightarrow> string \<Rightarrow> string" where
  "open_text neg n = ''{{'' @ ((if neg then CHR ''^'' else CHR ''#'') # n) @ ''}}''"

definition close_text :: "string \<Rightarrow> string" where
  "close_text n = ''{{'' @ (CHR ''/'' # n) @ ''}}''"

lemma text_lengths [simp]:
  "length (var_text esc n) = length n + (if esc then 4 else 6)"
  "length (open_text neg n) = length n + 5" "length (close_text n) = length n + 5"
  by (simp_all add: var_text_def open_text_def close_text_def)

fun items_text :: "items \<Rightarrow> string" where
  "items_text [] = []"
| "items_text ((t, Var esc n) # is) = t @ var_text esc n @ items_text is"
| "items_text ((t, Sect neg n is' t') # is) =
     t @ open_text neg n @ items_text is' @ t' @ close_text n @ items_text is"

text \<open>
  Texts have no brace and no line end, so that no block stands alone in a line; names are not empty, have no brace or blank, are not
  taken for the mark of another tag, and have no dot unless they are the dot.
\<close>

definition plain :: "string \<Rightarrow> bool" where
  "plain t \<longleftrightarrow> CHR ''{'' \<notin> set t \<and> newline \<notin> set t \<and> cr \<notin> set t"

definition wf_name :: "string \<Rightarrow> bool" where
  "wf_name n \<longleftrightarrow>
     n \<noteq> [] \<and> CHR ''}'' \<notin> set n \<and> CHR '' '' \<notin> set n \<and> hd n \<notin> set ''#/^!>{&='' \<and> (n = ''.'' \<or> CHR ''.'' \<notin> set n)"

lemma wf_nameD:
  assumes "wf_name n"
  shows "n \<noteq> []" "CHR ''}'' \<notin> set n" "CHR '' '' \<notin> set n" "hd n \<notin> set ''#/^!>{&=''" "n = ''.'' \<or> CHR ''.'' \<notin> set n"
  using assms unfolding wf_name_def by blast+

fun wf_items :: "items \<Rightarrow> bool" where
  "wf_items [] \<longleftrightarrow> True"
| "wf_items ((t, Var esc n) # is) \<longleftrightarrow> plain t \<and> wf_name n \<and> wf_items is"
| "wf_items ((t, Sect neg n is' t') # is) \<longleftrightarrow> plain t \<and> wf_name n \<and> wf_items is' \<and> plain t' \<and> wf_items is"

section \<open>Parsing\<close>

text \<open>The fragments and actions of items whose text begins at \<open>c\<close> and whose first action has the number \<open>k\<close>.\<close>

fun frags :: "nat \<Rightarrow> items \<Rightarrow> (nat \<times> nat) list" where
  "frags c [] = []"
| "frags c ((t, Var esc n) # is) = (c, c + length t) # frags (c + length t + length (var_text esc n)) is"
| "frags c ((t, Sect neg n is' t') # is) =
     (c, c + length t) # frags (c + length t + length n + 5) is' @
     (let d = c + length t + length n + 5 + length (items_text is')
      in (d, d + length t') # frags (d + length t' + length n + 5) is)"

definition action :: "ActionType \<Rightarrow> nat \<Rightarrow> string \<Rightarrow> nat \<Rightarrow> Action" where
  "action t b n pos = \<lparr>act_t = t, act_start = b, act_end = b + length n, act_pos = pos\<rparr>"

fun acts :: "nat \<Rightarrow> nat \<Rightarrow> items \<Rightarrow> Action list" where
  "acts c k [] = []"
| "acts c k ((t, Var esc n) # is) =
     action (if esc then Tag else UnescapeTag) (c + length t + (if esc then 2 else 3)) n 0 #
     acts (c + length t + length (var_text esc n)) (k + 1) is"
| "acts c k ((t, Sect neg n is' t') # is) =
     (let b = c + length t + 3;
          inner = acts (b + length n + 2) (k + 1) is';
          m = k + 1 + length inner;
          d = b + length n + 2 + length (items_text is') + length t'
      in action (if neg then ElseBlock else OpenBlock) b n m # inner @
         action CloseBlock (d + 3) n k # acts (d + length n + 5) (m + 1) is)"

fun action_count :: "items \<Rightarrow> nat" where
  "action_count [] = 0"
| "action_count ((t, Var esc n) # is) = 1 + action_count is"
| "action_count ((t, Sect neg n is' t') # is) = 2 + action_count is' + action_count is"

lemma frags_length [simp]: "length (frags c is) = action_count is"
  by (induction c "is" rule: frags.induct) (simp_all add: Let_def)

lemma acts_length [simp]: "length (acts c k is) = action_count is"
  by (induction c k "is" rule: acts.induct) (simp_all add: Let_def)

lemma char_at_append [simp]: "char_at (a @ c # b) (length a) = c"
  by (simp add: char_at_def)

lemma skip_forward_here: "c \<noteq> CHR '' '' \<Longrightarrow> skip_forward (a @ c # b) (length a) = length a"
  by (simp add: skip_forward_def)

lemma skip_back_here: "c \<noteq> CHR '' '' \<Longrightarrow> skip_back (a @ c # b) (Suc (length a)) = Suc (length a)"
  by (simp add: skip_back_def)

lemma skips_around_name:
  assumes "wf_name n" and "s = a @ n @ b" and "i = length a" and "e = length a + length n"
  shows "skip_forward s i = i" "skip_back s e = e"
proof -
  note n = wf_nameD(1,3) [OF assms(1)]
  obtain x xs where x: "n = x # xs" and hd: "x \<noteq> CHR '' ''" using n by (cases n) auto
  show "skip_forward s i = i" using skip_forward_here [OF hd, of a "xs @ b"] by (simp add: assms x)
  obtain ys y where y: "n = ys @ [y]" and last: "y \<noteq> CHR '' ''"
    using n by (cases n rule: rev_cases) auto
  show "skip_back s e = e" using skip_back_here [OF last, of "a @ ys" b] by (simp add: assms y)
qed

text \<open>The parser with the usual delimiters, its blocks, position, fragments and actions.\<close>

abbreviation at :: "nat list \<Rightarrow> nat \<Rightarrow> (nat \<times> nat) list \<Rightarrow> Action list \<Rightarrow> tparse" where
  "at B c F A \<equiv> \<lparr>tp_open = ''{{'', tp_close = ''}}'', tp_blocks = B, tp_current = c, tp_fragments = F, tp_actions = A\<rparr>"

text \<open>One round of the parser: a text, and a tag behind it.\<close>

lemma parse_one_tag:
  assumes "s = pre @ t @ ''{{'' @ tg @ ''}}'' @ post" and "plain t" and "CHR ''}'' \<notin> set tg" and "tg \<noteq> []"
  shows "parse_loop s (at B (length pre) F A) =
    (case parse_tag s (length (pre @ t) + 2) (length (pre @ t) + 2 + length tg)
            (at B (length (pre @ t) + 2 + length tg + 2) (F @ [(length pre, length (pre @ t))]) A) of
       Inl err \<Rightarrow> Inl err | Inr p2 \<Rightarrow> parse_loop s p2)"
proof -
  have t: "CHR ''{'' \<notin> set t" using assms(2) by (simp add: plain_def)
  have "str_find ''{{'' (drop (length pre) s) = Some (length t)"
    using str_find_first [OF t, of "''{''" "tg @ ''}}'' @ post"] by (simp add: assms(1))
  moreover have "str_find ''}}'' (drop (length pre + length t + 2) s) = Some (length tg)"
    using str_find_first [OF assms(3), of "''}''" post] by (simp add: assms(1))
  moreover obtain m where "length tg = Suc m" using assms(4) by (cases tg) auto
  ultimately show ?thesis
    by (subst parse_loop.simps) (simp add: Let_def eval_nat_numeral)
qed

lemma substr_between_here: "substr_between (a @ n @ b) (length a) (length a + length n) = n"
  by (simp add: substr_between_def)


lemma trimmed_name:
  assumes "wf_name n" and "s = a @ n @ b" and "i = length a" and "e = length a + length n"
  shows "trimmed_action t s i e = action t i n 0"
  using skips_around_name [OF assms] assms(3,4) by (simp add: trimmed_action_def mk_Action_def action_def)

lemma parse_plain_tag:
  assumes "wf_name n" and "s = a @ n @ b" and "i = length a" and "e = length a + length n"
  shows "parse_tag s i e p = Inr (add_action (action Tag i n 0) p)"
proof -
  obtain x xs where x: "n = x # xs" using wf_nameD(1) [OF assms(1)] by (cases n) auto
  then have c: "char_at s i = x" by (simp add: assms(2,3))
  have x': "x \<notin> set ''#/^!>{&=''" using wf_nameD(4) [OF assms(1)] unfolding x list.sel .
  show ?thesis
    using x' trimmed_name [OF assms, of Tag] unfolding parse_tag_def Let_def c by simp
qed

lemma parse_var:
  assumes "s = pre @ t @ var_text esc n @ post" and "plain t" and "wf_name n"
  shows "parse_loop s (at B (length pre) F A) = parse_loop s
    (at B (length (pre @ t) + length (var_text esc n)) (F @ [(length pre, length (pre @ t))])
       (A @ [action (if esc then Tag else UnescapeTag) (length (pre @ t) + (if esc then 2 else 3)) n 0]))"
proof (cases esc)
  case True
  then have s: "s = pre @ t @ ''{{'' @ n @ ''}}'' @ post" by (simp add: assms(1) var_text_def)
  have "parse_tag s (length (pre @ t) + 2) (length (pre @ t) + 2 + length n) q =
      Inr (add_action (action Tag (length (pre @ t) + 2) n 0) q)" for q
    by (rule parse_plain_tag [OF assms(3), of s "pre @ t @ ''{{''" "''}}'' @ post"]) (simp_all add: s)
  then show ?thesis
    unfolding parse_one_tag [OF s assms(2) wf_nameD(2,1) [OF assms(3)]] using True
    by (simp add: add_action_def eval_nat_numeral ac_simps)
next
  case False
  let ?tg = "CHR ''{'' # n"
  have s: "s = pre @ t @ ''{{'' @ ?tg @ ''}}'' @ CHR ''}'' # post" using False by (simp add: assms(1) var_text_def)
  have tg: "CHR ''}'' \<notin> set ?tg" "?tg \<noteq> []" using wf_nameD(2) [OF assms(3)] by simp_all
  have c: "char_at s (length (pre @ t) + 2) = CHR ''{''" "char_at s (length (pre @ t) + 2 + length ?tg + 2) = CHR ''}''"
    using char_at_append [of "pre @ t @ ''{{''" _ "n @ ''}}'' @ CHR ''}'' # post"]
      char_at_append [of "pre @ t @ ''{{'' @ ?tg @ ''}}''" _ post] by (simp_all add: s eval_nat_numeral add.assoc)
  have trim: "trimmed_action UnescapeTag s (length (pre @ t) + 2 + 1) (length (pre @ t) + 2 + length ?tg) =
      action UnescapeTag (length (pre @ t) + 3) n 0"
    using trimmed_name [OF assms(3), of s "pre @ t @ ''{{{''" "''}}'' @ CHR ''}'' # post"] by (simp add: s eval_nat_numeral)
  have "parse_tag s (length (pre @ t) + 2) (length (pre @ t) + 2 + length ?tg) (at B c' F' A') =
      Inr (at B (c' + 1) F' (A' @ [action UnescapeTag (length (pre @ t) + 3) n 0]))" for c' F' A'
    unfolding parse_tag_def Let_def c trim add_action_def by simp
  then show ?thesis
    unfolding parse_one_tag [OF s assms(2) tg] using False by (simp add: eval_nat_numeral ac_simps)
qed

lemma parse_open:
  assumes "s = pre @ t @ open_text neg n @ post" and "plain t" and "wf_name n"
  shows "parse_loop s (at B (length pre) F A) = parse_loop s
    (at (length A # B) (length (pre @ t) + length n + 5) (F @ [(length pre, length (pre @ t))])
       (A @ [action (if neg then ElseBlock else OpenBlock) (length (pre @ t) + 3) n 0]))"
proof -
  let ?m = "if neg then CHR ''^'' else CHR ''#''" let ?tg = "?m # n"
  have s: "s = pre @ t @ ''{{'' @ ?tg @ ''}}'' @ post" by (simp add: assms(1) open_text_def)
  have tg: "CHR ''}'' \<notin> set ?tg" "?tg \<noteq> []" using wf_nameD(2) [OF assms(3)] by simp_all
  have c: "char_at s (length (pre @ t) + 2) = ?m"
    using char_at_append [of "pre @ t @ ''{{''" ?m "n @ ''}}'' @ post"] by (simp add: s eval_nat_numeral)
  have trim: "trimmed_action x s (length (pre @ t) + 2 + 1) (length (pre @ t) + 2 + length ?tg) =
      action x (length (pre @ t) + 3) n 0" for x
    using trimmed_name [OF assms(3), of s "pre @ t @ ''{{'' @ [?m]" "''}}'' @ post"] by (simp add: s eval_nat_numeral)
  have "parse_tag s (length (pre @ t) + 2) (length (pre @ t) + 2 + length ?tg) (at B c' F' A') =
      Inr (at (length A' # B) c' F' (A' @ [action (if neg then ElseBlock else OpenBlock) (length (pre @ t) + 3) n 0]))" for c' F' A'
    unfolding parse_tag_def Let_def c open_block_def trim add_action_def by simp
  then show ?thesis
    unfolding parse_one_tag [OF s assms(2) tg] by (simp add: eval_nat_numeral ac_simps)
qed

lemma parse_close:
  assumes "s = pre @ t @ close_text n @ post" and "plain t" and "wf_name n"
    and "substr_between s (act_start (A ! b)) (act_end (A ! b)) = n"
  shows "parse_loop s (at (b # B) (length pre) F A) = parse_loop s
    (at B (length (pre @ t) + length n + 5) (F @ [(length pre, length (pre @ t))])
       (A[b := (A ! b)\<lparr>act_pos := length A\<rparr>] @ [action CloseBlock (length (pre @ t) + 3) n b]))"
proof -
  let ?tg = "CHR ''/'' # n"
  have s: "s = pre @ t @ ''{{'' @ ?tg @ ''}}'' @ post" by (simp add: assms(1) close_text_def)
  have tg: "CHR ''}'' \<notin> set ?tg" "?tg \<noteq> []" using wf_nameD(2) [OF assms(3)] by simp_all
  have c: "char_at s (length (pre @ t) + 2) = CHR ''/''"
    using char_at_append [of "pre @ t @ ''{{''" _ "n @ ''}}'' @ post"] by (simp add: s eval_nat_numeral)
  let ?a = "pre @ t @ ''{{/''"
  have name: "skip_forward s (length (pre @ t) + 2 + 1) = length ?a"
    "skip_back s (length (pre @ t) + 2 + length ?tg) = length ?a + length n"
    "substr_between s (length ?a) (length ?a + length n) = n"
    using skips_around_name [OF assms(3), of s ?a "''}}'' @ post"] substr_between_here [of ?a n "''}}'' @ post"]
    by (simp_all add: s eval_nat_numeral)
  have "parse_tag s (length (pre @ t) + 2) (length (pre @ t) + 2 + length ?tg) (at (b # B) c' F' A) =
      Inr (at B c' F' (A[b := (A ! b)\<lparr>act_pos := length A\<rparr>] @ [action CloseBlock (length (pre @ t) + 3) n b]))" for c' F'
    unfolding parse_tag_def Let_def c close_block_def name
    using assms(4) name(3) by (simp add: mk_Action_def action_def eval_nat_numeral)
  then show ?thesis
    unfolding parse_one_tag [OF s assms(2) tg] by (simp add: eval_nat_numeral ac_simps)
qed


lemma parse_items:
  "wf_items is \<Longrightarrow> s = pre @ items_text is @ post \<Longrightarrow>
   parse_loop s (at B (length pre) F A) =
   parse_loop s (at B (length (pre @ items_text is)) (F @ frags (length pre) is) (A @ acts (length pre) (length A) is))"
proof (induction "is" arbitrary: pre post B F A rule: items_text.induct)
  case 1
  then show ?case by simp
next
  case (2 t esc n "is")
  let ?pre = "pre @ t @ var_text esc n"
  have s: "s = pre @ t @ var_text esc n @ items_text is @ post" using 2(3) by simp
  have wf: "plain t" "wf_name n" "wf_items is" using 2(2) by simp_all
  have "s = ?pre @ items_text is @ post" using s by simp
  from parse_var [OF s wf(1,2), of B F A] 2(1) [OF wf(3) this] show ?case by (simp add: add.assoc)
next
  case (3 t neg n is' t' "is")
  let ?pre1 = "pre @ t @ open_text neg n" and ?m = "if neg then CHR ''^'' else CHR ''#''"
  let ?pre2 = "?pre1 @ items_text is'" and ?pre3 = "?pre1 @ items_text is' @ t' @ close_text n"
  let ?T = "if neg then ElseBlock else OpenBlock" and ?b = "length (pre @ t) + 3"
  let ?inner = "acts (length ?pre1) (length A + 1) is'"
  have wf: "plain t" "wf_name n" "wf_items is'" "plain t'" "wf_items is" using 3(3) by simp_all
  have s: "s = pre @ t @ open_text neg n @ items_text is' @ t' @ close_text n @ items_text is @ post"
    "s = ?pre1 @ items_text is' @ t' @ close_text n @ items_text is @ post"
    "s = ?pre2 @ t' @ close_text n @ items_text is @ post" "s = ?pre3 @ items_text is @ post" using 3(4) by simp_all
  have name: "substr_between s ?b (?b + length n) = n"
    using substr_between_here [of "pre @ t @ ''{{'' @ [?m]" n "''}}'' @ items_text is' @ t' @ close_text n @ items_text is @ post"]
    by (simp add: s(1) open_text_def eval_nat_numeral)
  have "parse_loop s (at B (length pre) F A) =
      parse_loop s (at (length A # B) (length ?pre1) (F @ [(length pre, length (pre @ t))]) (A @ [action ?T ?b n 0]))"
    using parse_open [OF s(1) wf(1,2), of B F A] by (simp add: add.assoc)
  also have "\<dots> = parse_loop s (at (length A # B) (length ?pre2)
      (F @ (length pre, length (pre @ t)) # frags (length ?pre1) is') (A @ action ?T ?b n 0 # ?inner))"
    using 3(1) [OF wf(3) s(2)] by simp
  also have "\<dots> = parse_loop s (at B (length ?pre3)
      (F @ (length pre, length (pre @ t)) # frags (length ?pre1) is' @ [(length ?pre2, length (?pre2 @ t'))])
      (A @ action ?T ?b n (length A + 1 + length ?inner) # ?inner @ [action CloseBlock (length (?pre2 @ t') + 3) n (length A)]))"
    using parse_close [OF s(3) wf(4,2), of "A @ action ?T ?b n 0 # ?inner" "length A"] name
    by (simp add: action_def list_update_append add.assoc)
  also have "\<dots> = parse_loop s (at B (length (?pre3 @ items_text is))
      ((F @ (length pre, length (pre @ t)) # frags (length ?pre1) is' @ [(length ?pre2, length (?pre2 @ t'))]) @ frags (length ?pre3) is)
      ((A @ action ?T ?b n (length A + 1 + length ?inner) # ?inner @ [action CloseBlock (length (?pre2 @ t') + 3) n (length A)]) @
        acts (length ?pre3) (length A + 1 + length ?inner + 1) is))"
    using 3(2) [OF wf(5) s(4)] by simp
  finally show ?case by (simp add: Let_def eval_nat_numeral ac_simps)
qed

lemma parse_end: "plain t \<Longrightarrow> parse_loop (pre @ t) (at B (length pre) F A) =
    Inr (at B (length pre) (F @ [(length pre, length (pre @ t))]) (A @ [mk_Action Ignore 0 0]))"
  using str_find_none [of "CHR ''{''" t "''{''"] by (subst parse_loop.simps) (simp add: plain_def add_action_def)


subsection \<open>No block stands alone\<close>

definition fragment_text :: "string \<Rightarrow> nat \<times> nat \<Rightarrow> string" where
  "fragment_text s f = take (snd f - fst f) (drop (fst f) s)"

definition plain_fragment :: "string \<Rightarrow> nat \<times> nat \<Rightarrow> bool" where
  "plain_fragment s f \<longleftrightarrow> fst f \<le> snd f \<and> snd f \<le> length s \<and> plain (fragment_text s f)"

lemma plain_fragment_here: "plain t \<Longrightarrow> plain_fragment (a @ t @ b) (length a, length a + length t)"
  by (simp add: plain_fragment_def fragment_text_def)

lemma frags_plain:
  "wf_items is \<Longrightarrow> s = pre @ items_text is @ post \<Longrightarrow> list_all (plain_fragment s) (frags (length pre) is)"
proof (induction "is" arbitrary: pre post rule: items_text.induct)
  case 1
  then show ?case by simp
next
  case (2 t esc n "is")
  have s: "s = (pre @ t @ var_text esc n) @ items_text is @ post" using 2(3) by simp
  show ?case
    using 2(1) [OF _ s] 2(2) plain_fragment_here [of t pre "var_text esc n @ items_text is @ post"] 2(3)
    by (simp add: add.assoc)
next
  case (3 t neg n is' t' "is")
  let ?pre1 = "pre @ t @ open_text neg n"
  have wf: "plain t" "wf_items is'" "plain t'" "wf_items is" using 3(3) by simp_all
  have s: "s = ?pre1 @ items_text is' @ t' @ close_text n @ items_text is @ post"
    "s = (?pre1 @ items_text is' @ t' @ close_text n) @ items_text is @ post" using 3(4) by simp_all
  show ?case
    using 3(1) [OF wf(2) s(1)] 3(2) [OF wf(4) s(2)]
      plain_fragment_here [OF wf(1), of pre "open_text neg n @ items_text is' @ t' @ close_text n @ items_text is @ post"]
      plain_fragment_here [OF wf(3), of "?pre1 @ items_text is'" "close_text n @ items_text is @ post"] 3(4)
    by (simp add: Let_def ac_simps)
qed

lemma fragment_nth:
  assumes "plain_fragment s f" and "i < length (fragment_text s f)"
  shows "s ! (fst f + i) \<notin> {newline, cr}"
proof -
  have "fragment_text s f ! i = s ! (fst f + i)" using assms by (simp add: fragment_text_def plain_fragment_def)
  moreover have "fragment_text s f ! i \<in> set (fragment_text s f)" using assms(2) by simp
  ultimately show ?thesis using assms(1) by (auto simp: plain_fragment_def plain_def)
qed

lemma last_mark:
  assumes "plain_fragment s f" and "trailing_spaces (fragment_text s f) \<noteq> length (fragment_text s f)"
  shows "s ! (snd f - trailing_spaces (fragment_text s f) - 1) \<noteq> newline"
proof -
  let ?x = "fragment_text s f" and ?n = "trailing_spaces (fragment_text s f)"
  have "?n \<le> length ?x" using length_takeWhile_le [of _ "rev ?x"] by (simp add: trailing_spaces_def)
  with assms(2) have n: "?n < length ?x" by simp
  have len: "length ?x = snd f - fst f" using assms(1) by (auto simp: plain_fragment_def fragment_text_def min_def)
  have "s ! (fst f + (length ?x - ?n - 1)) \<notin> {newline, cr}"
    by (rule fragment_nth [OF assms(1)]) (use n in simp)
  moreover have "fst f + (length ?x - ?n - 1) = snd f - ?n - 1" using n len by simp
  ultimately show ?thesis by simp
qed

lemma first_mark:
  assumes "plain_fragment s f" and "leading_spaces (fragment_text s f) \<noteq> length (fragment_text s f)"
  shows "s ! (fst f + leading_spaces (fragment_text s f)) \<notin> {newline, cr}"
proof -
  let ?x = "fragment_text s f" and ?n = "leading_spaces (fragment_text s f)"
  have "?n \<le> length ?x" using length_takeWhile_le [of _ ?x] by (simp add: leading_spaces_def)
  with assms(2) have n: "?n < length ?x" by simp
  then show ?thesis by (rule fragment_nth [OF assms(1)])
qed

lemma remove_standalone_same:
  assumes "i + 1 < length F" and "list_all (plain_fragment s) F"
    and "i = 0 \<Longrightarrow> act_t (A ! 0) \<in> {Tag, UnescapeTag} \<or> length A \<noteq> 2"
  shows "remove_standalone s i (F, A) = (F, A)"
proof -
  have b: "plain_fragment s (F ! i)" and a: "plain_fragment s (F ! (i + 1))"
    using assms(1,2) by (simp_all add: list_all_length)
  show ?thesis
    using last_mark [OF b] first_mark [OF a] assms(3)
    unfolding remove_standalone_def Let_def fst_conv snd_conv fragment_text_def [symmetric]
    by (cases "i = 0") auto
qed

lemma remove_standalones_same:
  assumes "list_all (plain_fragment s) F" and "act_t (A ! 0) \<in> {Tag, UnescapeTag} \<or> length A \<noteq> 2"
  shows "n < length F \<Longrightarrow> remove_standalones s n (F, A) = (F, A)"
proof (induction n)
  case (Suc n)
  then show ?case using remove_standalone_same [of n F s A] assms by simp
qed simp

text \<open>What a structured template compiles to.\<close>

definition compiled :: "items \<Rightarrow> string \<Rightarrow> template_t" where
  "compiled is t =
     \<lparr>t_body = items_text is @ t,
      t_fragments = frags 0 is @ [(length (items_text is), length (items_text is) + length t)],
      t_actions = acts 0 0 is @ [mk_Action Ignore 0 0]\<rparr>"

lemma compile_items:
  assumes "wf_items is" and "plain t"
  shows "compile_template (items_text is @ t) = Inr (compiled is t)"
proof -
  let ?s = "items_text is @ t"
  let ?F = "t_fragments (compiled is t)" and ?A = "t_actions (compiled is t)"
  have "parse_loop ?s (at [] 0 [] []) = parse_loop ?s (at [] (length (items_text is)) (frags 0 is) (acts 0 0 is))"
    using parse_items [OF assms(1), of ?s "[]" t "[]" "[]" "[]"] by simp
  also have "\<dots> = Inr (at [] (length (items_text is)) ?F ?A)"
    using parse_end [OF assms(2), of "items_text is"] by (simp add: compiled_def)
  finally have parsed: "parse_loop ?s (at [] 0 [] []) = Inr (at [] (length (items_text is)) ?F ?A)" .
  have "list_all (plain_fragment ?s) ?F"
    using frags_plain [OF assms(1), of ?s "[]" t] plain_fragment_here [OF assms(2), of "items_text is" "[]"]
    by (simp add: compiled_def)
  moreover have "act_t (?A ! 0) \<in> {Tag, UnescapeTag} \<or> length ?A \<noteq> 2"
    by (cases "is" rule: items_text.cases) (simp_all add: compiled_def action_def Let_def)
  moreover have "length ?A - 1 < length ?F" by (simp add: compiled_def)
  ultimately have "remove_standalones ?s (length ?A - 1) (?F, ?A) = (?F, ?A)" by (rule remove_standalones_same)
  then show ?thesis by (simp add: compile_template_def parsed) (simp add: compiled_def)
qed

end
