(* ===== verification/Mustache_Properties.thy ===== *)
theory Mustache_Properties
  imports Mustache_Parse
begin

text \<open>
  Correctness of mustache templates: the meaning of a template is given on its structure, without positions and jumps, and parsing its text and
  rendering it gives that meaning. A block that is not closed can make the renderer run for ever.
\<close>

section \<open>The meaning of a template\<close>

text \<open>The innermost context that has the name; the dot is the innermost context itself.\<close>

definition resolve :: "string \<Rightarrow> wvalue list \<Rightarrow> wvalue option" where
  "resolve n stack =
     (if n = ''.'' then Some (last stack)
      else case dropWhile (\<lambda>v. member v n = None) (rev stack) of [] \<Rightarrow> None | v # _ \<Rightarrow> member v n)"

definition value_text :: "bool \<Rightarrow> wvalue option \<Rightarrow> string option" where
  "value_text esc r =
     (case r of
        None \<Rightarrow> Some []
      | Some v \<Rightarrow>
          (case w_type v of
             Number \<Rightarrow> (case dump v of Inl _ \<Rightarrow> None | Inr x \<Rightarrow> Some x)
           | JString \<Rightarrow> Some (if esc then escape_html (w_s v) else w_s v)
           | _ \<Rightarrow> None))"

text \<open>The contexts for which the inside of a block is written.\<close>

definition block_contexts :: "bool \<Rightarrow> wvalue option \<Rightarrow> wvalue list option" where
  "block_contexts neg r =
     (let missing = (if neg then [wvalue_default] else [])
      in case r of
           None \<Rightarrow> Some missing
         | Some v \<Rightarrow>
             (case w_type v of
                JList \<Rightarrow>
                  let vs = (case w_l v of None \<Rightarrow> [] | Some vs \<Rightarrow> vs)
                  in Some (if neg then if vs = [] then missing else [] else vs)
              | Null \<Rightarrow> Some missing
              | JFalse \<Rightarrow> Some missing
              | Function \<Rightarrow> if neg then Some [] else None
              | _ \<Rightarrow> Some (if neg then [] else [v])))"

fun meaning :: "items \<Rightarrow> wvalue list \<Rightarrow> string option" where
  "meaning [] stack = Some []"
| "meaning ((t, Var esc n) # is) stack =
     (case value_text esc (resolve n stack) of
        None \<Rightarrow> None
      | Some x \<Rightarrow> map_option (\<lambda>r. t @ x @ r) (meaning is stack))"
| "meaning ((t, Sect neg n is' t') # is) stack =
     (case block_contexts neg (resolve n stack) of
        None \<Rightarrow> None
      | Some cs \<Rightarrow>
          (case those (map (\<lambda>c. meaning is' (stack @ [c])) cs) of
             None \<Rightarrow> None
           | Some ms \<Rightarrow> map_option (\<lambda>r. t @ concat (map (\<lambda>m. m @ t') ms) @ r) (meaning is stack)))"

lemma search_first: "search f False vs = (case dropWhile (\<lambda>v. f v = None) vs of [] \<Rightarrow> None | v # _ \<Rightarrow> f v)"
  by (induction vs) (auto split: option.split)

lemma find_context_resolve: "wf_name n \<Longrightarrow> stack \<noteq> [] \<Longrightarrow> find_context n stack b = Inr (resolve n stack)"
  using wf_nameD(5) [of n] by (auto simp: find_context_def resolve_def top_context_def search_first)

lemma inside_object_block_defined: "stack \<noteq> [] \<Longrightarrow> \<exists>b. inside_object_block i as stack = Inr b"
  by (induction i as stack rule: inside_object_block.induct) (auto simp: top_context_def)

lemma tag_context_resolve:
  assumes "wf_name n" and "stack \<noteq> []" and "tag_name tm (t_actions tm ! k) = n"
  shows "tag_context tm k stack = Inr (case resolve n stack of Some v \<Rightarrow> v | None \<Rightarrow> wvalue_string [])"
proof -
  obtain b where "isTagInsideObjectBlock tm k stack = Inr b"
    using inside_object_block_defined [OF assms(2)] by (auto simp: isTagInsideObjectBlock_def)
  then show ?thesis using find_context_resolve [OF assms(1,2), of b] by (simp add: tag_context_def assms(3))
qed

lemma render_value_text:
  "value_text esc r = Some x \<Longrightarrow> render_value go esc (case r of Some v \<Rightarrow> v | None \<Rightarrow> wvalue_string []) stack = Some (Inr x)"
  by (auto simp: value_text_def render_value_def wvalue_string_def escape_html_def split: option.splits type.splits sum.splits)

lemma open_way_contexts:
  assumes "wf_name n" and "stack \<noteq> []" and "block_contexts False (resolve n stack) = Some cs"
  shows "open_way n stack \<in> {Inr Skip | x. cs = []} \<union> {Inr (Enter v) | v. cs = [v]} \<union> {Inr (Repeat cs)}"
  using assms(3)
  by (auto simp: open_way_def find_context_resolve [OF assms(1,2)] block_contexts_def Let_def split: option.splits type.splits)

lemma else_way_contexts:
  assumes "wf_name n" and "stack \<noteq> []" and "block_contexts True (resolve n stack) = Some cs"
  shows "else_way n stack \<in> {Inr Skip | x. cs = []} \<union> {Inr (Enter v) | v. cs = [v]}"
  using assms(3)
  by (auto simp: else_way_def find_context_resolve [OF assms(1,2)] block_contexts_def Let_def split: option.splits type.splits if_splits)

section \<open>Rendering\<close>

text \<open>A template that has the fragments and actions of items from the number \<open>k\<close> on.\<close>

definition holds_items :: "template_t \<Rightarrow> nat \<Rightarrow> items \<Rightarrow> bool" where
  "holds_items tm k is \<longleftrightarrow>
     (\<exists>pre post F1 F2 A1 A2.
        t_body tm = pre @ items_text is @ post \<and>
        t_fragments tm = F1 @ frags (length pre) is @ F2 \<and> t_actions tm = A1 @ acts (length pre) k is @ A2 \<and>
        length F1 = k \<and> length A1 = k)"

lemma holds_var:
  assumes "holds_items tm k ((t, Var esc n) # is)"
  shows "render_fragment tm (t_fragments tm ! k) 0 = t"
    "act_t (t_actions tm ! k) = (if esc then Tag else UnescapeTag)" "tag_name tm (t_actions tm ! k) = n"
    "holds_items tm (k + 1) is"
proof -
  obtain pre post F1 F2 A1 A2 where tm: "t_body tm = pre @ t @ var_text esc n @ items_text is @ post"
    "t_fragments tm = F1 @ (length pre, length pre + length t) # frags (length pre + length t + length (var_text esc n)) is @ F2"
    "t_actions tm = A1 @ action (if esc then Tag else UnescapeTag) (length pre + length t + (if esc then 2 else 3)) n 0 #
       acts (length pre + length t + length (var_text esc n)) (k + 1) is @ A2" "length F1 = k" "length A1 = k"
    using assms unfolding holds_items_def items_text.simps frags.simps acts.simps append_assoc append_Cons by blast
  show "render_fragment tm (t_fragments tm ! k) 0 = t"
    using substr_between_here [of pre t] by (simp add: render_fragment_def tm nth_append)
  show "act_t (t_actions tm ! k) = (if esc then Tag else UnescapeTag)" by (simp add: tm nth_append action_def)
  show "tag_name tm (t_actions tm ! k) = n"
    using substr_between_here [of "pre @ t @ (if esc then ''{{'' else ''{{{'')" n]
    by (cases esc) (simp_all add: tag_name_def tm nth_append action_def var_text_def eval_nat_numeral ac_simps)
  let ?pre = "pre @ t @ var_text esc n" and ?F1 = "F1 @ [(length pre, length pre + length t)]"
  let ?A1 = "A1 @ [action (if esc then Tag else UnescapeTag) (length pre + length t + (if esc then 2 else 3)) n 0]"
  have "t_body tm = ?pre @ items_text is @ post" "t_fragments tm = ?F1 @ frags (length ?pre) is @ F2"
    "t_actions tm = ?A1 @ acts (length ?pre) (k + 1) is @ A2" "length ?F1 = k + 1" "length ?A1 = k + 1"
    using tm by (simp_all add: add.assoc)
  then show "holds_items tm (k + 1) is" unfolding holds_items_def by blast
qed


lemma holds_block:
  assumes "holds_items tm k ((t, Sect neg n is' t') # is)" and "m = k + 1 + action_count is'"
  shows "render_fragment tm (t_fragments tm ! k) 0 = t" "render_fragment tm (t_fragments tm ! m) 0 = t'"
    "act_t (t_actions tm ! k) = (if neg then ElseBlock else OpenBlock)" "act_t (t_actions tm ! m) = CloseBlock"
    "act_pos (t_actions tm ! k) = m" "tag_name tm (t_actions tm ! k) = n"
    "holds_items tm (k + 1) is'" "holds_items tm (m + 1) is"
proof -
  let ?T = "if neg then ElseBlock else OpenBlock"
  from assms(1) obtain pre post F1 F2 A1 A2 where
    body: "t_body tm = pre @ t @ open_text neg n @ items_text is' @ t' @ close_text n @ items_text is @ post" and
    frags: "t_fragments tm = F1 @ (length pre, length pre + length t) # frags (length pre + length t + length n + 5) is' @
      (let d = length pre + length t + length n + 5 + length (items_text is')
       in (d, d + length t') # frags (d + length t' + length n + 5) is) @ F2" and
    acts: "t_actions tm = A1 @ acts (length pre) k ((t, Sect neg n is' t') # is) @ A2" and len: "length F1 = k" "length A1 = k"
    unfolding holds_items_def items_text.simps frags.simps append_assoc append_Cons by blast
  let ?pre1 = "pre @ t @ open_text neg n" let ?pre2 = "?pre1 @ items_text is'" let ?pre3 = "?pre2 @ t' @ close_text n"
  have F: "t_fragments tm = F1 @ (length pre, length pre + length t) # frags (length ?pre1) is' @
      (length ?pre2, length ?pre2 + length t') # frags (length ?pre3) is @ F2"
    unfolding frags Let_def by (simp add: add.assoc)
  have A: "t_actions tm = A1 @ action ?T (length pre + length t + 3) n m # acts (length ?pre1) (k + 1) is' @
      action CloseBlock (length ?pre2 + length t' + 3) n k # acts (length ?pre3) (m + 1) is @ A2"
    unfolding acts acts.simps Let_def by (simp add: ac_simps assms(2))
  have fm: "t_fragments tm ! m = (length ?pre2, length ?pre2 + length t')"
    and am: "t_actions tm ! m = action CloseBlock (length ?pre2 + length t' + 3) n k"
    by (simp_all add: F A nth_append assms(2) len)
  show "render_fragment tm (t_fragments tm ! k) 0 = t"
    using substr_between_here [of pre t] by (simp add: render_fragment_def F body nth_append len)
  show "render_fragment tm (t_fragments tm ! m) 0 = t'"
    using substr_between_here [of ?pre2 t' "close_text n @ items_text is @ post"] unfolding render_fragment_def fm body by simp
  show "act_t (t_actions tm ! k) = ?T" "act_pos (t_actions tm ! k) = m" by (simp_all add: A nth_append len action_def)
  show "act_t (t_actions tm ! m) = CloseBlock" unfolding am by (simp add: action_def)
  show "tag_name tm (t_actions tm ! k) = n"
    using substr_between_here [of "pre @ t @ ''{{'' @ [if neg then CHR ''^'' else CHR ''#'']" n]
    by (simp add: tag_name_def A nth_append len action_def body open_text_def eval_nat_numeral)
  let ?F1 = "F1 @ [(length pre, length pre + length t)]" and ?A1 = "A1 @ [action ?T (length pre + length t + 3) n m]"
  have "t_body tm = ?pre1 @ items_text is' @ (t' @ close_text n @ items_text is @ post)"
    "t_fragments tm = ?F1 @ frags (length ?pre1) is' @ ((length ?pre2, length ?pre2 + length t') # frags (length ?pre3) is @ F2)"
    "t_actions tm = ?A1 @ acts (length ?pre1) (k + 1) is' @
      (action CloseBlock (length ?pre2 + length t' + 3) n k # acts (length ?pre3) (m + 1) is @ A2)"
    "length ?F1 = k + 1" "length ?A1 = k + 1" using body F A len by simp_all
  then show "holds_items tm (k + 1) is'" unfolding holds_items_def by blast
  let ?F2 = "?F1 @ frags (length ?pre1) is' @ [(length ?pre2, length ?pre2 + length t')]"
  let ?A2 = "?A1 @ acts (length ?pre1) (k + 1) is' @ [action CloseBlock (length ?pre2 + length t' + 3) n k]"
  have "t_body tm = ?pre3 @ items_text is @ post" "t_fragments tm = ?F2 @ frags (length ?pre3) is @ F2"
    "t_actions tm = ?A2 @ acts (length ?pre3) (m + 1) is @ A2" "length ?F2 = m + 1" "length ?A2 = m + 1"
    using body F A len assms(2) by simp_all
  then show "holds_items tm (m + 1) is" unfolding holds_items_def by blast
qed

text \<open>A rendering that ends with a result, given enough steps.\<close>

definition renders :: "(string \<Rightarrow> string) \<Rightarrow> render_job \<Rightarrow> wvalue list \<times> string \<Rightarrow> bool" where
  "renders loader job r \<longleftrightarrow> (\<exists>n. \<forall>m\<ge>n. render_internal m loader job = Some (Inr r))"

lemma renders_round:
  assumes "\<And>m. n \<le> m \<Longrightarrow> render_round (render_internal m loader) loader job = Some (Inr r)"
  shows "renders loader job r"
proof -
  have "render_internal m loader job = Some (Inr r)" if "Suc n \<le> m" for m
    using that assms by (cases m) simp_all
  then show ?thesis unfolding renders_def by blast
qed

lemma renders_end: "renders loader (Loop tm e e stack out 0) (stack, out @ render_fragment tm (t_fragments tm ! e) 0)"
  by (rule renders_round [of 0]) simp

lemma renders_var:
  assumes "k < e" and "act_t (t_actions tm ! k) = (if esc then Tag else UnescapeTag)" and "tag_context tm k stack = Inr v"
    and "\<And>go. render_value go esc v stack = Some (Inr x)"
    and "renders loader (Loop tm (k + 1) e stack (out @ render_fragment tm (t_fragments tm ! k) 0 @ x) 0) r"
  shows "renders loader (Loop tm k e stack out 0) r"
proof -
  obtain n where "\<And>m. n \<le> m \<Longrightarrow>
      render_internal m loader (Loop tm (k + 1) e stack (out @ render_fragment tm (t_fragments tm ! k) 0 @ x) 0) = Some (Inr r)"
    using assms(5) unfolding renders_def by blast
  then show ?thesis
    using assms(1-4) by (intro renders_round [of n]) (cases esc; simp add: render_action_def Let_def and_then_def)
qed

lemma renders_close:
  assumes "k < e" and "act_t (t_actions tm ! k) = CloseBlock"
    and "renders loader (Loop tm (k + 1) e stack (out @ render_fragment tm (t_fragments tm ! k) 0) 0) r"
  shows "renders loader (Loop tm k e (stack @ [v]) out 0) r"
proof -
  obtain n where "\<And>m. n \<le> m \<Longrightarrow>
      render_internal m loader (Loop tm (k + 1) e stack (out @ render_fragment tm (t_fragments tm ! k) 0) 0) = Some (Inr r)"
    using assms(3) unfolding renders_def by blast
  then show ?thesis
    using assms(1,2) by (intro renders_round [of n]) (simp add: render_action_def Let_def)
qed


text \<open>An action that opens a block.\<close>

definition way_of :: "bool \<Rightarrow> string \<Rightarrow> wvalue list \<Rightarrow> template_error + block_way" where
  "way_of neg n stack = (if neg then else_way n stack else open_way n stack)"

lemma block_round:
  assumes "k < e" and "act_t (t_actions tm ! k) = (if neg then ElseBlock else OpenBlock)" and "tag_name tm (t_actions tm ! k) = n"
  shows "render_round go loader (Loop tm k e stack out 0) =
    render_block go tm k e (way_of neg n stack) stack (out @ render_fragment tm (t_fragments tm ! k) 0) 0"
  using assms by (cases neg) (simp_all add: render_action_def way_of_def Let_def)

lemma renders_enter:
  assumes "k < e" and "act_t (t_actions tm ! k) = (if neg then ElseBlock else OpenBlock)" and "tag_name tm (t_actions tm ! k) = n"
    and "way_of neg n stack = Inr (Enter v)"
    and "renders loader (Loop tm (k + 1) e (stack @ [v]) (out @ render_fragment tm (t_fragments tm ! k) 0) 0) r"
  shows "renders loader (Loop tm k e stack out 0) r"
proof -
  obtain n where "\<And>m. n \<le> m \<Longrightarrow>
      render_internal m loader (Loop tm (k + 1) e (stack @ [v]) (out @ render_fragment tm (t_fragments tm ! k) 0) 0) = Some (Inr r)"
    using assms(5) unfolding renders_def by blast
  then show ?thesis
    by (intro renders_round [of n]) (simp add: block_round [OF assms(1-3)] assms(4) render_block_def del: render_round.simps)
qed

lemma renders_skip:
  assumes "k < e" and "act_t (t_actions tm ! k) = (if neg then ElseBlock else OpenBlock)" and "tag_name tm (t_actions tm ! k) = n"
    and "way_of neg n stack = Inr Skip"
    and "renders loader (Loop tm (act_pos (t_actions tm ! k) + 1) e stack (out @ render_fragment tm (t_fragments tm ! k) 0) 0) r"
  shows "renders loader (Loop tm k e stack out 0) r"
proof -
  obtain n where "\<And>m. n \<le> m \<Longrightarrow> render_internal m loader
      (Loop tm (act_pos (t_actions tm ! k) + 1) e stack (out @ render_fragment tm (t_fragments tm ! k) 0) 0) = Some (Inr r)"
    using assms(5) unfolding renders_def by blast
  then show ?thesis
    by (intro renders_round [of n]) (simp add: block_round [OF assms(1-3)] assms(4) render_block_def Let_def del: render_round.simps)
qed

lemma renders_repeat:
  assumes "k < e" and "act_t (t_actions tm ! k) = (if neg then ElseBlock else OpenBlock)" and "tag_name tm (t_actions tm ! k) = n"
    and "way_of neg n stack = Inr (Repeat vs)"
    and "renders loader (Items tm (k + 1) (act_pos (t_actions tm ! k)) vs stack (out @ render_fragment tm (t_fragments tm ! k) 0) 0)
      (stack, out')"
    and "renders loader (Loop tm (act_pos (t_actions tm ! k) + 1) e stack out' 0) r"
  shows "renders loader (Loop tm k e stack out 0) r"
proof -
  obtain n1 where n1: "\<And>m. n1 \<le> m \<Longrightarrow> render_internal m loader
      (Items tm (k + 1) (act_pos (t_actions tm ! k)) vs stack (out @ render_fragment tm (t_fragments tm ! k) 0) 0) = Some (Inr (stack, out'))"
    using assms(5) unfolding renders_def by blast
  obtain n2 where n2: "\<And>m. n2 \<le> m \<Longrightarrow>
      render_internal m loader (Loop tm (act_pos (t_actions tm ! k) + 1) e stack out' 0) = Some (Inr r)"
    using assms(6) unfolding renders_def by blast
  show ?thesis
    using n1 n2
    by (intro renders_round [of "max n1 n2"])
      (simp add: block_round [OF assms(1-3)] assms(4) render_block_def Let_def and_then_def del: render_round.simps)
qed

lemma renders_items_Nil: "renders loader (Items tm b e [] stack out 0) (stack, out)"
  by (rule renders_round [of 0]) simp

lemma renders_items_Cons:
  assumes "renders loader (Loop tm b e (stack @ [v]) out 0) (stack @ [v], out')"
    and "renders loader (Items tm b e vs stack out' 0) r"
  shows "renders loader (Items tm b e (v # vs) stack out 0) r"
proof -
  obtain n1 where n1: "\<And>m. n1 \<le> m \<Longrightarrow> render_internal m loader (Loop tm b e (stack @ [v]) out 0) = Some (Inr (stack @ [v], out'))"
    using assms(1) unfolding renders_def by blast
  obtain n2 where n2: "\<And>m. n2 \<le> m \<Longrightarrow> render_internal m loader (Items tm b e vs stack out' 0) = Some (Inr r)"
    using assms(2) unfolding renders_def by blast
  show ?thesis using n1 n2 by (intro renders_round [of "max n1 n2"]) (simp add: and_then_def)
qed

lemma way_of_contexts:
  assumes "wf_name n" and "stack \<noteq> []" and "block_contexts neg (resolve n stack) = Some cs"
  obtains "way_of neg n stack = Inr Skip" "cs = []" | v where "way_of neg n stack = Inr (Enter v)" "cs = [v]"
    | "way_of neg n stack = Inr (Repeat cs)"
  using assms open_way_contexts [of n stack cs] else_way_contexts [of n stack cs] by (cases neg) (auto simp: way_of_def)

text \<open>The loop over the elements of a list, whose inside is rendered up to its last fragment.\<close>

lemma renders_elements:
  assumes inside: "\<And>v x out. v \<in> set vs \<Longrightarrow> meaning is' (stack @ [v]) = Some x \<Longrightarrow>
      renders loader (Loop tm b e (stack @ [v]) out 0) (stack @ [v], out @ x @ t')"
    and "those (map (\<lambda>v. meaning is' (stack @ [v])) vs) = Some ms"
  shows "renders loader (Items tm b e vs stack out 0) (stack, out @ concat (map (\<lambda>m. m @ t') ms))"
  using assms
proof (induction vs arbitrary: ms out)
  case Nil
  then show ?case using renders_items_Nil by simp
next
  case (Cons v vs)
  then obtain x ms' where x: "meaning is' (stack @ [v]) = Some x" "those (map (\<lambda>v. meaning is' (stack @ [v])) vs) = Some ms'"
    "ms = x # ms'" by (auto split: option.splits)
  have "renders loader (Items tm b e vs stack (out @ x @ t') 0) (stack, (out @ x @ t') @ concat (map (\<lambda>m. m @ t') ms'))"
    using Cons.prems(1) x(2) by (intro Cons.IH) auto
  then show ?case using renders_items_Cons [OF Cons.prems(1) [OF _ x(1)]] by (simp add: x(3))
qed

lemma items_render:
  "wf_items is \<Longrightarrow> holds_items tm k is \<Longrightarrow> k + action_count is \<le> e \<Longrightarrow> stack \<noteq> [] \<Longrightarrow> meaning is stack = Some x \<Longrightarrow>
   renders loader (Loop tm (k + action_count is) e stack (out @ x) 0) r \<Longrightarrow> renders loader (Loop tm k e stack out 0) r"
proof (induction "is" arbitrary: k e stack x out r rule: items_text.induct)
  case 1
  then show ?case by simp
next
  case (2 t esc n "is")
  have wf: "wf_name n" "wf_items is" using 2(2) by simp_all
  note tm = holds_var [OF 2(3)]
  obtain y z where y: "value_text esc (resolve n stack) = Some y" "meaning is stack = Some z" "x = t @ y @ z"
    using 2(6) by (auto split: option.splits)
  have "renders loader (Loop tm (k + 1) e stack (out @ t @ y) 0) r"
    using 2(4,7) y(3) by (intro 2(1) [OF wf(2) tm(4) _ 2(5) y(2)]) simp_all
  then show ?case
    using 2(4) tag_context_resolve [OF wf(1) 2(5) tm(3)] render_value_text [OF y(1)]
    by (intro renders_var [OF _ tm(2)]) (simp_all add: tm(1))
next
  case (3 t neg n is' t' "is")
  have wf: "wf_name n" "wf_items is'" "wf_items is" using 3(3) by simp_all
  define m where "m = k + 1 + action_count is'"
  note tm = holds_block [OF 3(4) m_def]
  have km: "k < m" "k < e" "m < e" "k + 1 + action_count is' \<le> e" "m + 1 + action_count is \<le> e" using 3(5) by (simp_all add: m_def)
  obtain cs ms z where cs: "block_contexts neg (resolve n stack) = Some cs" "those (map (\<lambda>c. meaning is' (stack @ [c])) cs) = Some ms"
    "meaning is stack = Some z" "x = t @ concat (map (\<lambda>m. m @ t') ms) @ z"
    using 3(7) by (auto split: option.splits)
  have rest: "renders loader (Loop tm (m + 1) e stack (out @ t @ concat (map (\<lambda>m. m @ t') ms)) 0) r"
    using 3(8) km cs(4) by (intro 3(2) [OF wf(3) tm(8) _ 3(6) cs(3)]) (simp_all add: m_def ac_simps)
  have inside: "renders loader (Loop tm (k + 1) e' (stack @ [c]) out' 0) r'"
    if "renders loader (Loop tm m e' (stack @ [c]) (out' @ y) 0) r'" "meaning is' (stack @ [c]) = Some y" "m \<le> e'" for c y e' out' r'
    using that by (intro 3(1) [OF wf(2) tm(7) _ _ that(2)]) (simp_all add: m_def)
  from wf(1) 3(6) cs(1) show ?case
  proof (cases rule: way_of_contexts)
    case 1
    then show ?thesis using rest cs(2) by (intro renders_skip [OF km(2) tm(3,6)]) (simp_all add: tm(1,5))
  next
    case (2 v)
    then obtain y where y: "meaning is' (stack @ [v]) = Some y" "ms = [y]" using cs(2) by (auto split: option.splits)
    have "renders loader (Loop tm m e (stack @ [v]) ((out @ t) @ y) 0) r"
      using rest by (intro renders_close [OF km(3) tm(4)]) (simp add: tm(2) y(2))
    from inside [OF this y(1)] km show ?thesis by (intro renders_enter [OF km(2) tm(3,6) 2(1)]) (simp add: tm(1))
  next
    case 3
    have "renders loader (Items tm (k + 1) m cs stack (out @ t) 0) (stack, (out @ t) @ concat (map (\<lambda>m. m @ t') ms))"
    proof (rule renders_elements [OF _ cs(2)])
      fix v y out' assume "meaning is' (stack @ [v]) = Some y"
      from inside [OF renders_end this order_refl] tm(2)
      show "renders loader (Loop tm (k + 1) m (stack @ [v]) out' 0) (stack @ [v], out' @ y @ t')" by simp
    qed
    then show ?thesis using rest by (intro renders_repeat [OF km(2) tm(3,6) 3]) (simp_all add: tm(1,5))
  qed
qed

section \<open>Properties\<close>

text \<open>
  C31. A template with variables, escaped or not, and with blocks nested to any depth, whose texts have no braces and no line ends and whose
  names have no dots inside, for any context on which it has a meaning: its text compiles, and with enough
  steps it renders to its meaning - every variable replaced by the value of the innermost context that has it, every block written for each
  element of its list, once for another value, and not at all for none; for an inverted block the other way round.
\<close>

theorem template_renders_meaning:
  assumes "wf_items is" and "plain t" and "meaning is [ctx] = Some x"
  shows "\<exists>tm n. compile_template (items_text is @ t) = Inr tm \<and> (\<forall>m\<ge>n. render_string m loader tm ctx = Some (Inr (x @ t)))"
proof -
  let ?tm = "compiled is t"
  have holds: "holds_items ?tm 0 is"
    unfolding holds_items_def compiled_def by (intro exI [of _ "[]"] exI [of _ t] exI) simp
  have last: "last_action ?tm = action_count is" by (simp add: last_action_def compiled_def)
  have "render_fragment ?tm (t_fragments ?tm ! action_count is) 0 = t"
    by (simp add: render_fragment_def compiled_def nth_append substr_between_def)
  then have "renders loader (Loop ?tm (action_count is) (action_count is) [ctx] x 0) ([ctx], x @ t)"
    using renders_end [of loader ?tm "action_count is" "[ctx]" x] by simp
  then have "renders loader (Loop ?tm 0 (action_count is) [ctx] [] 0) ([ctx], x @ t)"
    using items_render [OF assms(1) holds _ _ assms(3), of "action_count is" loader "[]"] by simp
  then obtain n where "render_internal m loader (Loop ?tm 0 (action_count is) [ctx] [] 0) = Some (Inr ([ctx], x @ t))" if "n \<le> m" for m
    unfolding renders_def by blast
  then have "render_string m loader ?tm ctx = Some (Inr (x @ t))" if "n \<le> m" for m
    using that by (simp add: render_string_def last and_then_def)
  with compile_items [OF assms(1,2)] show ?thesis by blast
qed

definition example_items :: items where
  "example_items =
     [(''Hi '', Var True ''name''), ('': '', Sect False ''list'' [(''<'', Var True ''.'')] ''>''), ([], Sect True ''none'' [] ''!'')]"

definition example_context :: wvalue where
  "example_context = wvalue_object
     [(''name'', wvalue_string ''A&B''),
      (''list'', Wvalue JList Num_null 0 [] (Some [wvalue_string ''x'', wvalue_signed 7]) None None)]"

theorem template_renders_meaning_witness:
  "\<exists>tm n. compile_template ''Hi {{name}}: {{#list}}<{{.}}>{{/list}}{{^none}}!{{/none}}.'' = Inr tm \<and>
     render_string n id tm example_context = Some (Inr ''Hi A&amp;B: <x><7>!.'')"
proof -
  have "wf_items example_items" by code_simp
  moreover have "plain ''.''" by code_simp
  moreover have "meaning example_items [example_context] = Some ''Hi A&amp;B: <x><7>!''" by code_simp
  moreover have "items_text example_items @ ''.'' = ''Hi {{name}}: {{#list}}<{{.}}>{{/list}}{{^none}}!{{/none}}.''" by code_simp
  ultimately show ?thesis using template_renders_meaning [of example_items "''.''" example_context _ id] by force
qed

text \<open>The template of a variable and a block that is not closed.\<close>

definition unclosed_text :: "string \<Rightarrow> bool \<Rightarrow> string \<Rightarrow> string \<Rightarrow> string \<Rightarrow> string \<Rightarrow> string" where
  "unclosed_text t esc v t1 n t2 = t @ var_text esc v @ t1 @ open_text False n @ t2"

definition unclosed :: "string \<Rightarrow> bool \<Rightarrow> string \<Rightarrow> string \<Rightarrow> string \<Rightarrow> string \<Rightarrow> template_t" where
  "unclosed t esc v t1 n t2 =
     (let c = length (t @ var_text esc v); d = c + length t1; e = d + length (open_text False n)
      in \<lparr>t_body = unclosed_text t esc v t1 n t2, t_fragments = [(0, length t), (c, d), (e, e + length t2)],
          t_actions = [action (if esc then Tag else UnescapeTag) (length t + (if esc then 2 else 3)) v 0,
            action OpenBlock (d + 3) n 0, mk_Action Ignore 0 0]\<rparr>)"

lemma compile_unclosed:
  assumes "plain t" "wf_name v" "plain t1" "wf_name n" "plain t2"
  shows "compile_template (unclosed_text t esc v t1 n t2) = Inr (unclosed t esc v t1 n t2)"
proof -
  let ?s = "unclosed_text t esc v t1 n t2" and ?F = "t_fragments (unclosed t esc v t1 n t2)" and ?A = "t_actions (unclosed t esc v t1 n t2)"
  let ?pre = "t @ var_text esc v" let ?pre1 = "?pre @ t1 @ open_text False n"
  note defs = unclosed_text_def unclosed_def Let_def
  have "parse_loop ?s (at [] 0 [] []) = parse_loop ?s (at [] (length ?pre) (take 1 ?F) (take 1 ?A))"
    using parse_var [OF _ assms(1,2), of ?s "[]" esc "t1 @ open_text False n @ t2" "[]" "[]" "[]"] by (simp add: defs)
  also have "\<dots> = parse_loop ?s (at [1] (length ?pre1) (take 2 ?F) (take 2 ?A))"
    using parse_open [OF _ assms(3,4), of ?s ?pre False t2 "[]" "take 1 ?F" "take 1 ?A"] by (simp add: defs add.assoc eval_nat_numeral)
  also have "\<dots> = Inr (at [1] (length ?pre1) ?F ?A)"
    using parse_end [OF assms(5), of ?pre1 "[1]" "take 2 ?F" "take 2 ?A"] by (simp add: defs eval_nat_numeral ac_simps)
  finally have parsed: "parse_loop ?s (at [] 0 [] []) = Inr (at [1] (length ?pre1) ?F ?A)" .
  have "list_all (plain_fragment ?s) ?F"
    using plain_fragment_here [OF assms(1), of "[]" "var_text esc v @ t1 @ open_text False n @ t2"]
      plain_fragment_here [OF assms(3), of ?pre "open_text False n @ t2"] plain_fragment_here [OF assms(5), of ?pre1 "[]"]
    by (simp add: defs ac_simps)
  then have "remove_standalones ?s 2 (?F, ?A) = (?F, ?A)"
    by (rule remove_standalones_same) (simp_all add: defs action_def)
  then show ?thesis by (simp add: compile_template_def parsed) (simp add: defs eval_nat_numeral)
qed

lemma unclosed_names:
  "tag_name (unclosed t esc v t1 n t2) (t_actions (unclosed t esc v t1 n t2) ! 0) = v"
  "tag_name (unclosed t esc v t1 n t2) (t_actions (unclosed t esc v t1 n t2) ! 1) = n"
  using substr_between_here [of "t @ (if esc then ''{{'' else ''{{{'')" v] substr_between_here [of "t @ var_text esc v @ t1 @ ''{{#''" n]
  by (cases esc; simp add: tag_name_def unclosed_def unclosed_text_def action_def var_text_def open_text_def eval_nat_numeral ac_simps)+

text \<open>
  A block that is not closed: its action keeps the position 0, so that skipping it goes back to the first action. When another tag comes before it
  and the name of the block has no value, the renderer never returns.
\<close>

theorem unclosed_block_loops:
  assumes "plain t" "wf_name v" "plain t1" "wf_name n" "plain t2" and "n \<noteq> ''.''" "member ctx n = None"
    and "value_text esc (resolve v [ctx]) = Some x"
  shows "\<exists>tm. compile_template (unclosed_text t esc v t1 n t2) = Inr tm \<and> (\<forall>m. render_string m loader tm ctx = None)"
proof -
  let ?tm = "unclosed t esc v t1 n t2"
  have acts: "act_t (t_actions ?tm ! 0) = (if esc then Tag else UnescapeTag)" "act_t (t_actions ?tm ! 1) = OpenBlock"
    "act_pos (t_actions ?tm ! 1) = 0" "last_action ?tm = 2"
    by (simp_all add: unclosed_def Let_def action_def last_action_def)
  have skip: "open_way n [ctx] = Inr Skip"
    using find_context_resolve [OF assms(4), of "[ctx]"] assms(6,7) by (simp add: open_way_def resolve_def)
  have again: "render_internal m loader (Loop ?tm 1 2 [ctx] out 0) = None" for m out
  proof (induction m arbitrary: out)
    case (Suc m)
    then show ?case using unclosed_names(2) [of t esc v t1 n t2] skip acts by (simp add: render_action_def render_block_def Let_def)
  qed simp
  have "render_internal m loader (Loop ?tm 0 2 [ctx] out 0) = None" for m out
    using again tag_context_resolve [OF assms(2) _ unclosed_names(1), of "[ctx]" t esc t1 n t2] render_value_text [OF assms(8)] acts
    by (cases m; cases esc) (simp_all add: render_action_def Let_def and_then_def)
  then have "render_string m loader ?tm ctx = None" for m
    by (simp add: render_string_def and_then_def acts(4))
  with compile_unclosed [OF assms(1-5)] show ?thesis by blast
qed

theorem unclosed_block_loops_witness:
  "\<exists>tm. compile_template ''{{name}}{{#none}}'' = Inr tm \<and> render_string 100 id tm example_context = None"
proof -
  have "plain []" "wf_name ''name''" "wf_name ''none''" "member example_context ''none'' = None"
    "value_text True (resolve ''name'' [example_context]) = Some ''A&amp;B''"
    "unclosed_text [] True ''name'' [] ''none'' [] = ''{{name}}{{#none}}''" by code_simp+
  then show ?thesis using unclosed_block_loops [of "[]" "''name''" "[]" "''none''" "[]" example_context True _ id] by auto
qed

end
