(* ===== verification/Spec2Isabelle.thy ===== *)
theory Spec2Isabelle
  imports Concurrency_Properties Query_String_Properties Crow_Utility_Properties
    Crow_Routing_Properties Wallet_App_Properties Http_Properties Server_Properties Crow_Timer
    Json_Properties Websocket_Properties Multipart_Properties Middleware_Properties Mustache_Properties
begin

text \<open>
  Verification of the digital wallet: a service that keeps account balances in a RocksDB database and moves money between
  accounts on HTTP requests. The program is src/src; the HTTP server under it is the single header
  src/lib/crowapi/crow_all.h, which is compiled into the program and is modelled from its text as well. RocksDB (of which the repository has the headers
  only), Boost's archives and the operating system are parameters.

  \<^bold>\<open>How the program works.\<close> A byte that a client sends passes, from the outside to the inside, through

    \<^item> the server loop, which accepts connections and gives them to workers (\<^verbatim>\<open>Server\<close>);
    \<^item> a connection, which reads from its socket, feeds the parser, and writes responses (\<^verbatim>\<open>Connection\<close>),
      with a timer that closes idle ones (\<^verbatim>\<open>task_timer\<close>);
    \<^item> the parser, a state machine over characters that calls back with the headers and the message
      (\<^verbatim>\<open>http_parser_execute\<close>, \<^verbatim>\<open>HTTPParser\<close>), and the query string of the URL;
    \<^item> the router, a search tree over URLs for each method, which calls one of four handlers or the handler of static files;
    \<^item> a handler of main.cpp, which checks its parameters and puts a command into the message queue;
    \<^item> the state machine of the service, LISTEN, VALIDATE, APPLY, which takes a command from the queue, reads two balances,
      writes two balances, and appends two events to a log.

  \<^bold>\<open>The theories, in the order of the calls from the inside to the outside.\<close>

    \<^item> \<open>Prelude\<close>: faults (exceptions, overflow, failed assertions, bad reads, endless loops, waiting, freed memory),
      results, statements, and lemmas on lists and maps. \<open>Cxx_Std\<close>: the part of the C++ library in use - \<^verbatim>\<open>stoi\<close>,
      \<^verbatim>\<open>to_string\<close>, \<^verbatim>\<open>setw\<close> - with round trips.
    \<^item> \<open>Rocks_Status\<close> (rocksdb/status.h), \<open>Message_Queue\<close> (MessageQueue.h), \<open>Wallet_Data\<close> (Command.hpp, Event.hpp, Config.h; the archive
      is a locale), \<open>Store\<close> (the database as a locale, with instances that fail and that do not).
    \<^item> \<open>Service\<close> (Service.h, Service.cpp, ConcreteServiceState.cpp): the record of the service, the world around it, and one
      definition per method. \<open>Service_Spec\<close>: the ledger and the abstract transfer. \<open>Service_Proofs\<close>, \<open>Service_Exact\<close>,
      \<open>Service_Properties\<close>: a pass over a failing database is one of the outcomes of the abstract transfer, over one that does not fail it
      is the transfer; no money is made, balances stay well-formed, and the log replays.
    \<^item> \<open>Handlers\<close> (main.cpp) with \<open>Handlers_Proofs\<close>, \<open>Handlers_Exact\<close>, \<open>Handlers_Properties\<close>: the four endpoints,
      their answers on every branch, and what sequences of requests keep. \<open>Concurrency\<close>, \<open>Concurrency_Properties\<close>: a step relation
      for threads of transfers that send and process commands under the lock of the service, with safety, completeness and
      serialisability of every interleaving of them.
    \<^item> \<open>Query_String\<close> and its proofs: the parser of query strings on its buffer, with memory safety, lookup and round trip.
    \<^item> \<open>Crow_Common\<close> (methods, status codes, header maps), \<open>Crow_Message\<close> (requests and responses), \<open>Crow_Utility\<close> (base64, file names).
    \<^item> \<open>Crow_Routing\<close> (parameter tags, the search tree), \<open>Crow_Router\<close> (rules and dispatch), \<open>Wallet_App\<close> (the routes of
      main.cpp and the application as a whole), with their proofs: the tree finds exactly its routes, the dispatch of the wallet for every method and URL,
      static files stay in their directory.
    \<^item> \<open>Http_Parser\<close>, \<open>Http_Execute\<close>: the parser; a case of the switch is a definition, a jump is a call. \<open>Http_Safety\<close>: an
      invariant by which no assertion fails and no callback reads outside its buffer. \<open>Http_Request\<close>, \<open>Http_Headers\<close>: a request
      without a body, in one buffer, is read as the request that the client wrote. \<open>Http_Handlers\<close>: a locale, by which what the callbacks keep, any bytes keep.
    \<^item> \<open>Crow_Connection\<close>, \<open>Crow_Server\<close>: connections and the server, with pending operations and their completions as events, in any
      order. \<open>Crow_Server_Proofs\<close>: the life of a connection, the queues of the workers, and a locale for what an
      application keeps of its state. \<open>Crow_Session\<close>: a session on a connection is the application alone.
      \<open>Wallet_Server\<close>, \<open>Server_Properties\<close>: the wallet on the network. \<open>Crow_Timer\<close>: the timer.
    \<^item> The rest of the server, which an application on it may use:
      \<open>Crow_Middleware\<close>, \<open>Middleware_Properties\<close>: the helpers that call middlewares around a handler, cookies, the headers of cross-origin requests; a
      handler is wrapped by its chain, cookies come back, the first rule that fits applies.
      \<open>Crow_Multipart\<close>, \<open>Multipart_Properties\<close>: messages of several parts, with a round trip through a request, and when the parser does not end.
      \<open>Crow_Sha1\<close>: the hash of the handshake, equal to that of FIPS 180-4, which is stated on its own. \<open>Crow_Websocket\<close>, \<open>Crow_Websocket_Proofs\<close>, \<open>Websocket_Properties\<close>:
      websocket connections as automata over completions, in which an event that cannot happen has no successor; messages that a client
      masks arrive once, whole and unmasked however their payloads are cut, and what one end sends the other reads.
    \<^item> JSON: \<open>Json_Text\<close> (strings, escapes, unescaping in place), \<open>Json_Load\<close> (the parser), \<open>Json_Value\<close> (access to values; \<^verbatim>\<open>std::sort\<close> is a
      locale), \<open>Json_Array\<close> (the array that grows), \<open>Json_Write\<close> (values that are built and printed). \<open>Json_Number\<close>,
      \<open>Json_Roundtrip\<close>, \<open>Json_Properties\<close>: what is printed is read back with its meaning, unescaping stays in its string, lookups find
      their member, the array is written in bounds, and the limits of nesting and of printed numbers.
    \<^item> Templates: \<open>Crow_Mustache\<close> (parser and renderer), \<open>Mustache_Parse\<close> (what the text of a structured template compiles to),
      \<open>Mustache_Properties\<close>: rendering refines a meaning that knows no positions; a block that is not closed loops for ever.

  \<^bold>\<open>Interfaces.\<close> The locales \<open>rocksdb\<close>, \<open>archive\<close>, \<open>wallet_env\<close> and \<open>reliable_env\<close> say what the service relies on; they are interpreted on two databases,
  one of which may fail at any call. \<open>wallet_routed\<close> is the router of the wallet; \<open>handler_invariant\<close>, \<open>connection_invariant\<close> and
  \<open>app_invariant\<close> carry an invariant from the application through parser and connection to the server, and are interpreted on the model's handlers.
  \<open>sorts_members\<close> is what a lookup in a JSON object relies on, \<open>middleware_chain\<close> what the calls of a chain of middlewares rely on.

  \<^bold>\<open>Bounds.\<close> Integers have their widths: \<^verbatim>\<open>int\<close> is an integer with range checks, because overflow is undefined; counters of the
  parser, identifiers and queue lengths are words and wrap. Fuel is in the loops that fill a block of the hash: 64 rounds are
  enough, since a block has 64 bytes. The renderer of templates, which may not end, takes a number of steps; it is proved that enough steps give the
  result. Loops over buffers end by the position in the
  buffer, proved for the parser from the fact that every case moves on; the loops of \<^verbatim>\<open>Trie::add\<close> and of the
  multipart parser, which may not end, are partial functions whose value is \<open>None\<close> when they do not, and it is proved when that is. Requests of the round trip have at most 80 KiB, the limit of the parser, and in a
  session at most 4096 bytes, the buffer of a connection.

  \<^bold>\<open>Not modelled.\<close> The implementation of RocksDB is not in the repository. Sockets take all that is written, and asynchronous writes take their
  bytes when they start. In the server one event runs at a time; the interleaving of transfers on several workers is the
  subject of \<open>Concurrency\<close>, at the granularity of the critical sections. Next to a transfer, \<^verbatim>\<open>create_account\<close> and \<^verbatim>\<open>get_balance\<close>
  assign the status of the service without its lock: nothing is claimed of such a race. Writes to the event log and to the seed file
  succeed. Unordered containers are lists in the order of insertion, one of the orders they may have; round trips through them are
  stated of multisets, maps and names that occur once. What a program does after it has used freed memory is not modelled: the use is a fault that ends the run. Handlers of a websocket that send do so in a later event. Blueprints and
  middlewares of single rules, compression, SSL and logging are parts of crow_all.h that the wallet does not use. A double is the decimal
  that \<^verbatim>\<open>printf\<close> shows.
\<close>

end
